(* ===== verification/Prelude.thy ===== *)
theory Prelude
  imports Complex_Main "HOL-Library.Multiset" "HOL-Library.Word"
begin

text \<open>
  The shared vocabulary of the development: the units of time and the money type, the
  error type of the code's calls, tables as lists of rows with the SQL statements the code
  sends to them, transactions, and the lemmas on these that every component uses.

  Go's \<open>time.Time\<close> and \<open>time.Duration\<close> are integers counting nanoseconds (a time since the
  Unix epoch); Go's \<open>int64\<close> and \<open>int\<close> are \<open>int\<close> except where a wrap-around matters, where
  they are \<open>64 word\<close>; \<open>float64\<close> amounts of money, percentages and stock levels are
  rationals, so binary rounding is not modelled; strings are lists of bytes.
\<close>

section \<open>Basic types\<close>

type_synonym time = int
type_synonym duration = int
type_synonym id64 = int
type_synonym money = rat

abbreviation millisecond :: duration where "millisecond \<equiv> 1000000"
abbreviation second :: duration where "second \<equiv> 1000000000"
abbreviation minute :: duration where "minute \<equiv> 60000000000"
abbreviation hour :: duration where "hour \<equiv> 3600000000000"
abbreviation day :: duration where "day \<equiv> 86400000000000"

text \<open>Go's zero \<open>time.Time\<close>, the first of January of the year 1.\<close>

definition zero_time :: time where
  "zero_time = -62135596800 * second"

named_theorems sql_simps "rewriting of the SQL statements and of transactions"
named_theorems frame_simps "what an operation leaves unchanged"
named_theorems invar_intros "operations that keep an invariant"

section \<open>Errors\<close>

text \<open>
  The errors the code distinguishes: a failed statement or connection, the sentinel errors
  of the db package, and the messages the use cases build.
\<close>

datatype error =
    DbError
  | InsufficientStock id64
  | OrderForbidden
  | InvalidTarget string
  | Rejected string
  | RejectedItem string id64
  | Upstream string
  | Panic string

type_synonym 'a result = "error + 'a"

fun is_ok :: "'a result \<Rightarrow> bool" where
  "is_ok (Inl e) = False"
| "is_ok (Inr a) = True"

lemma is_ok_iff: "is_ok r \<longleftrightarrow> (\<exists>a. r = Inr a)"
  by (cases r) auto

section \<open>Tables and statements\<close>

text \<open>
  A table is the list of its rows. \<open>sql_update\<close> is UPDATE ... WHERE, \<open>sql_returning\<close> the
  rows its RETURNING clause gives back, \<open>sql_delete\<close> DELETE ... WHERE; \<open>scan_one\<close> is
  pgxscan.Get on the rows a statement returns, where no row is pgx.ErrNoRows and two rows
  are an error.
\<close>

definition sql_update :: "('r \<Rightarrow> bool) \<Rightarrow> ('r \<Rightarrow> 'r) \<Rightarrow> 'r list \<Rightarrow> 'r list" where
  "sql_update P f rows = map (\<lambda>r. if P r then f r else r) rows"

definition sql_returning :: "('r \<Rightarrow> bool) \<Rightarrow> ('r \<Rightarrow> 'r) \<Rightarrow> 'r list \<Rightarrow> 'r list" where
  "sql_returning P f rows = map f (filter P rows)"

definition sql_delete :: "('r \<Rightarrow> bool) \<Rightarrow> 'r list \<Rightarrow> 'r list" where
  "sql_delete P rows = filter (\<lambda>r. \<not> P r) rows"

datatype 'r scan = NoRows | OneRow 'r | ManyRows

fun scan_one :: "'r list \<Rightarrow> 'r scan" where
  "scan_one [] = NoRows"
| "scan_one [r] = OneRow r"
| "scan_one (r # r' # rs) = ManyRows"

lemma sql_update_Nil [simp]: "sql_update P f [] = []"
  by (simp add: sql_update_def)

lemma sql_update_Cons [simp]:
  "sql_update P f (r # rs) = (if P r then f r else r) # sql_update P f rs"
  by (simp add: sql_update_def)

lemma sql_returning_Nil [simp]: "sql_returning P f [] = []"
  by (simp add: sql_returning_def)

lemma sql_returning_Cons [simp]:
  "sql_returning P f (r # rs) = (if P r then f r # sql_returning P f rs else sql_returning P f rs)"
  by (simp add: sql_returning_def)

lemma sql_delete_Nil [simp]: "sql_delete P [] = []"
  by (simp add: sql_delete_def)

lemma sql_delete_Cons [simp]:
  "sql_delete P (r # rs) = (if P r then sql_delete P rs else r # sql_delete P rs)"
  by (simp add: sql_delete_def)

lemma set_sql_delete [simp]: "set (sql_delete P rows) = {r \<in> set rows. \<not> P r}"
  by (auto simp: sql_delete_def)

lemma length_sql_update [simp]: "length (sql_update P f rows) = length rows"
  by (simp add: sql_update_def)

lemma sql_update_none: "(\<And>r. r \<in> set rows \<Longrightarrow> \<not> P r) \<Longrightarrow> sql_update P f rows = rows"
  by (induction rows) auto

lemma sql_returning_empty: "sql_returning P f rows = [] \<longleftrightarrow> (\<forall>r \<in> set rows. \<not> P r)"
  by (induction rows) auto

lemma set_sql_update:
  "set (sql_update P f rows) = f ` {r \<in> set rows. P r} \<union> {r \<in> set rows. \<not> P r}"
  by (auto simp: sql_update_def)

lemma scan_one_eqs:
  "scan_one xs = NoRows \<longleftrightarrow> xs = []"
  "scan_one xs = OneRow x \<longleftrightarrow> xs = [x]"
  by (cases xs rule: scan_one.cases; auto)+

section \<open>Tables with a primary key\<close>

text \<open>
  What the components use of a table with a primary key: a statement that leaves the key
  alone keeps the keys distinct, at most one row has a given key, and an update of that row
  is seen by the next lookup of it and by no other.
\<close>

definition find_row :: "('r \<Rightarrow> id64) \<Rightarrow> 'r list \<Rightarrow> id64 \<Rightarrow> 'r option" where
  "find_row key rows k = find (\<lambda>r. key r = k) rows"

lemma find_row_append:
  "find_row key (xs @ ys) k =
    (case find_row key xs k of Some r \<Rightarrow> Some r | None \<Rightarrow> find_row key ys k)"
  by (induction xs) (auto simp: find_row_def)

lemma find_row_single [simp]: "find_row key [r] k = (if key r = k then Some r else None)"
  by (simp add: find_row_def)

lemma find_row_map_other:
  "(\<And>r. r \<in> set rows \<Longrightarrow> key r \<noteq> k) \<Longrightarrow> find_row key rows k = None"
  by (auto simp: find_row_def find_None_iff)

locale keyed_table =
  fixes key :: "'r \<Rightarrow> id64"
begin

lemma returning_le_one:
  assumes "distinct (map key rows)"
  shows "length (filter (\<lambda>r. key r = k \<and> Q r) rows) \<le> 1"
  using assms
proof (induction rows)
  case (Cons r rows)
  show ?case
  proof (cases "key r = k \<and> Q r")
    case True
    with Cons.prems have "filter (\<lambda>r. key r = k \<and> Q r) rows = []"
      by (auto simp: filter_empty_conv image_iff)
    with True show ?thesis by simp
  next
    case False
    with Cons show ?thesis by (simp only: filter.simps) simp
  qed
qed simp

lemma scan_key_not_many:
  assumes "distinct (map key rows)"
  shows "scan_one (sql_returning (\<lambda>r. key r = k \<and> Q r) f rows) \<noteq> ManyRows"
proof
  assume "scan_one (sql_returning (\<lambda>r. key r = k \<and> Q r) f rows) = ManyRows"
  then have "2 \<le> length (sql_returning (\<lambda>r. key r = k \<and> Q r) f rows)"
    by (cases "sql_returning (\<lambda>r. key r = k \<and> Q r) f rows" rule: scan_one.cases) auto
  with returning_le_one [OF assms, of k Q] show False
    by (simp add: sql_returning_def)
qed

lemma find_row_Some: "find_row key rows k = Some r \<Longrightarrow> r \<in> set rows \<and> key r = k"
  by (auto simp: find_row_def find_Some_iff in_set_conv_nth)

lemma find_row_None: "find_row key rows k = None \<longleftrightarrow> k \<notin> key ` set rows"
  by (auto simp: find_row_def find_None_iff)

lemma find_row_unique:
  "distinct (map key rows) \<Longrightarrow> r \<in> set rows \<Longrightarrow> find_row key rows (key r) = Some r"
  by (induction rows) (auto simp: find_row_def image_iff)

lemma filter_key:
  "distinct (map key rows) \<Longrightarrow> filter (\<lambda>r. key r = k) rows =
    (case find_row key rows k of None \<Rightarrow> [] | Some r \<Rightarrow> [r])"
proof (induction rows)
  case (Cons a rows)
  have "key a \<notin> key ` set rows \<Longrightarrow> filter (\<lambda>r. key r = key a) rows = []"
    by (simp add: filter_empty_conv) (metis imageI)
  with Cons show ?case by (cases "key a = k") (auto simp: find_row_def)
qed (simp add: find_row_def)

lemma row_eq_by_key:
  "distinct (map key rows) \<Longrightarrow> r \<in> set rows \<Longrightarrow> r' \<in> set rows \<Longrightarrow> key r = key r' \<Longrightarrow> r = r'"
  by (metis find_row_unique option.inject)

end

text \<open>The SET clause of an UPDATE that does not assign the key.\<close>

locale row_update = keyed_table key for key :: "'r \<Rightarrow> id64" +
  fixes assign :: "'r \<Rightarrow> 'r"
  assumes keeps_key: "key (assign r) = key r"
begin

lemma update_keys: "map key (sql_update P assign rows) = map key rows"
  by (induction rows) (auto simp: keeps_key)

lemma lookup_update:
  "find_row key (sql_update P assign rows) k =
    map_option (\<lambda>r. if P r then assign r else r) (find_row key rows k)"
  by (induction rows) (auto simp: find_row_def keeps_key)

lemma update_key_set: "key ` set (sql_update P assign rows) = key ` set rows"
  by (metis list.set_map update_keys)

text \<open>An UPDATE of one row by its key returns that row, if it meets the rest of the WHERE.\<close>

lemma scan_update:
  assumes "distinct (map key rows)"
  shows "scan_one (sql_returning (\<lambda>r. key r = k \<and> Q r) assign rows) =
    (case find_row key rows k of
       Some r \<Rightarrow> if Q r then OneRow (assign r) else NoRows
     | None \<Rightarrow> NoRows)"
  using assms
proof (induction rows)
  case (Cons r rows)
  have none: "k \<notin> key ` set rows \<Longrightarrow> sql_returning (\<lambda>r. key r = k \<and> Q r) assign rows = []"
    by (auto simp: sql_returning_empty)
  show ?case
    using Cons none by (auto simp: find_row_def)
qed (simp add: find_row_def)

end

section \<open>Transactions\<close>

text \<open>
  \<open>run_tx begins commits body db\<close>: a transaction whose BEGIN and COMMIT succeed or not as
  the two flags say. The body works on its own copy of the tables; the deferred Rollback
  gives the tables back as they were whenever the body or the commit fails.
\<close>

definition run_tx :: "bool \<Rightarrow> bool \<Rightarrow> ('db \<Rightarrow> ('a \<times> 'db) result) \<Rightarrow> 'db \<Rightarrow> 'a result \<times> 'db" where
  "run_tx begins commits body db =
     (if \<not> begins then (Inl DbError, db)
      else case body db of
        Inl e \<Rightarrow> (Inl e, db)
      | Inr (a, db') \<Rightarrow> if commits then (Inr a, db') else (Inl DbError, db))"

lemma run_tx_error: "run_tx b c body db = (Inl e, db') \<Longrightarrow> db' = db"
  by (auto simp: run_tx_def split: if_splits sum.splits prod.splits)

lemma run_tx_ok:
  "run_tx b c body db = (Inr a, db') \<longleftrightarrow> b \<and> c \<and> body db = Inr (a, db')"
  by (auto simp: run_tx_def split: if_splits sum.splits prod.splits)

section \<open>Lists and options\<close>

lemma sum_list_map_filter_split:
  fixes f :: "'a \<Rightarrow> int"
  shows "sum_list (map f xs) =
    sum_list (map f (filter P xs)) + sum_list (map f (filter (\<lambda>x. \<not> P x) xs))"
  by (induction xs) auto

lemma find_cong_pred: "(\<And>x. x \<in> set xs \<Longrightarrow> P x = Q x) \<Longrightarrow> find P xs = find Q xs"
  by (induction xs) auto

lemma filter_distinct_key:
  assumes "distinct (map f xs)"
  shows "filter (\<lambda>x. f x = a) xs = [] \<or> (\<exists>x \<in> set xs. f x = a \<and> filter (\<lambda>x. f x = a) xs = [x])"
  using assms by (induction xs) (auto simp: filter_empty_conv image_iff)

lemma sum_list_pos:
  fixes f :: "'a \<Rightarrow> int"
  shows "xs \<noteq> [] \<Longrightarrow> \<forall>x \<in> set xs. 0 < f x \<Longrightarrow> 0 < sum_list (map f xs)"
  by (induction xs rule: list_nonempty_induct) (auto intro: add_pos_pos)

end
