(* ===== verification/Resilience.thy ===== *)
theory Resilience
  imports Prelude
begin

text \<open>
  internal/resilience: the three-state circuit breaker in front of the MoySklad API and the
  two delay schedules (HTTP retries, webhook retries). The breaker's mutex makes each method
  one step, so a run of the breaker is a sequence of steps; the clock readings
  (\<open>time.Now\<close>) are arguments. A jitter drawn by the code is a parameter.
\<close>

section \<open>The circuit breaker\<close>

datatype cb_state = CbClosed | CbOpen | CbHalfOpen

record circuit_breaker =
  failures :: int
  successes :: int
  cbstate :: cb_state
  opened_at :: time
  fail_threshold :: int
  success_half_open :: int
  open_timeout :: duration

definition NewCircuitBreaker :: "int \<Rightarrow> duration \<Rightarrow> circuit_breaker" where
  "NewCircuitBreaker failThreshold openTimeout =
     \<lparr>failures = 0, successes = 0, cbstate = CbClosed, opened_at = 0,
      fail_threshold = (if failThreshold < 1 then 5 else failThreshold),
      success_half_open = 1,
      open_timeout = (if openTimeout < second then 45 * second else openTimeout)\<rparr>"

definition cb_allow :: "time \<Rightarrow> circuit_breaker \<Rightarrow> bool \<times> circuit_breaker" where
  "cb_allow now b =
     (case cbstate b of
        CbClosed \<Rightarrow> (True, b)
      | CbOpen \<Rightarrow>
          (if now - opened_at b \<ge> open_timeout b
           then (True, b\<lparr>cbstate := CbHalfOpen, successes := 0\<rparr>)
           else (False, b))
      | CbHalfOpen \<Rightarrow> (True, b))"

definition cb_on_success :: "circuit_breaker \<Rightarrow> circuit_breaker" where
  "cb_on_success b =
     (case cbstate b of
        CbHalfOpen \<Rightarrow>
          (let b' = b\<lparr>successes := successes b + 1\<rparr>
           in if successes b' \<ge> success_half_open b'
              then b'\<lparr>cbstate := CbClosed, failures := 0\<rparr> else b')
      | CbClosed \<Rightarrow> b\<lparr>failures := 0\<rparr>
      | CbOpen \<Rightarrow> b)"

definition cb_on_failure :: "time \<Rightarrow> circuit_breaker \<Rightarrow> circuit_breaker" where
  "cb_on_failure now b =
     (case cbstate b of
        CbHalfOpen \<Rightarrow> b\<lparr>cbstate := CbOpen, opened_at := now, failures := fail_threshold b\<rparr>
      | CbClosed \<Rightarrow>
          (let b' = b\<lparr>failures := failures b + 1\<rparr>
           in if failures b' \<ge> fail_threshold b'
              then b'\<lparr>cbstate := CbOpen, opened_at := now\<rparr> else b')
      | CbOpen \<Rightarrow> b)"

text \<open>
  \<open>Call\<close>: \<open>fn\<close> is the guarded call's error, if it returns one; the flag of the result says
  whether it was called. \<open>None\<close> for the error is Go's nil, \<open>Some None\<close> is ErrCircuitOpen.
\<close>

definition cb_call ::
  "time \<Rightarrow> time \<Rightarrow> 'e option \<Rightarrow> circuit_breaker \<Rightarrow> 'e option option \<times> bool \<times> circuit_breaker" where
  "cb_call now later fn b =
     (let (ok, b1) = cb_allow now b
      in if \<not> ok then (Some None, False, b1)
         else case fn of
           Some e \<Rightarrow> (Some (Some e), True, cb_on_failure later b1)
         | None \<Rightarrow> (None, True, cb_on_success b1))"

datatype cb_event = AllowAt time | Succeeded | FailedAt time

fun cb_step :: "circuit_breaker \<Rightarrow> cb_event \<Rightarrow> circuit_breaker" where
  "cb_step b (AllowAt t) = snd (cb_allow t b)"
| "cb_step b Succeeded = cb_on_success b"
| "cb_step b (FailedAt t) = cb_on_failure t b"

fun cb_run :: "circuit_breaker \<Rightarrow> cb_event list \<Rightarrow> circuit_breaker" where
  "cb_run b [] = b"
| "cb_run b (e # es) = cb_run (cb_step b e) es"

inductive cb_reachable :: "int \<Rightarrow> duration \<Rightarrow> circuit_breaker \<Rightarrow> bool" for n d where
  cb_init: "cb_reachable n d (NewCircuitBreaker n d)"
| cb_next: "cb_reachable n d b \<Longrightarrow> cb_reachable n d (cb_step b e)"

lemmas cb_defs = cb_allow_def cb_on_success_def cb_on_failure_def Let_def

section \<open>Invariant of the breaker\<close>

definition cb_inv :: "circuit_breaker \<Rightarrow> bool" where
  "cb_inv b \<longleftrightarrow>
     1 \<le> fail_threshold b \<and> success_half_open b = 1 \<and> second \<le> open_timeout b \<and>
     0 \<le> failures b \<and>
     (cbstate b = CbClosed \<longrightarrow> failures b < fail_threshold b) \<and>
     (cbstate b \<noteq> CbClosed \<longrightarrow> failures b \<ge> fail_threshold b) \<and>
     (cbstate b = CbHalfOpen \<longrightarrow> successes b = 0)"

lemma cb_inv_new [invar_intros]: "cb_inv (NewCircuitBreaker n d)"
  by (auto simp: cb_inv_def NewCircuitBreaker_def)

lemma cb_inv_step [invar_intros]: "cb_inv b \<Longrightarrow> cb_inv (cb_step b e)"
  by (cases e; cases "cbstate b") (auto simp: cb_inv_def cb_defs)

lemma cb_step_config [frame_simps]:
  "fail_threshold (cb_step b e) = fail_threshold b"
  "open_timeout (cb_step b e) = open_timeout b"
  "success_half_open (cb_step b e) = success_half_open b"
  by (cases e; cases "cbstate b"; auto simp: cb_defs)+

lemma cb_reachable_inv: "cb_reachable n d b \<Longrightarrow> cb_inv b"
  by (induction rule: cb_reachable.induct) (auto intro: invar_intros)

lemma cb_run_reachable: "cb_reachable n d b \<Longrightarrow> cb_reachable n d (cb_run b es)"
  by (induction es arbitrary: b) (auto intro: cb_next)

section \<open>Opening, refusing, recovering\<close>

text \<open>The breaker refuses while it is open and its timeout has not passed.\<close>

fun cb_quiet :: "time \<Rightarrow> cb_event \<Rightarrow> bool" where
  "cb_quiet deadline (AllowAt t) \<longleftrightarrow> t < deadline"
| "cb_quiet deadline _ \<longleftrightarrow> True"

lemma cb_open_stays:
  assumes "cbstate b = CbOpen" "\<forall>e \<in> set es. cb_quiet (opened_at b + open_timeout b) e"
  shows "cb_run b es = b"
  using assms(2)
proof (induction es)
  case (Cons e es)
  then have "cb_step b e = b"
    using assms(1) by (cases e) (auto simp: cb_defs)
  with Cons show ?case by simp
qed simp

lemma cb_fails_closed:
  assumes "cbstate b = CbClosed" "failures b + int (length ts) < fail_threshold b"
  shows "cb_run b (map FailedAt ts) = b\<lparr>failures := failures b + int (length ts)\<rparr>"
  using assms
proof (induction ts arbitrary: b)
  case (Cons t ts)
  then have "cb_step b (FailedAt t) = b\<lparr>failures := failures b + 1\<rparr>"
    by (simp add: cb_defs)
  with Cons show ?case by (simp add: algebra_simps)
qed simp

text \<open>
  From a new breaker, failures in a row leave it closed until their number reaches the
  threshold, and the failure that reaches it opens the breaker at that failure's time.
\<close>

theorem breaker_opens_at_threshold:
  assumes "int (length ts) + 1 = fail_threshold (NewCircuitBreaker n d)"
  shows "cbstate (cb_run (NewCircuitBreaker n d) (map FailedAt ts)) = CbClosed \<and>
    cbstate (cb_run (NewCircuitBreaker n d) (map FailedAt (ts @ [t]))) = CbOpen \<and>
    opened_at (cb_run (NewCircuitBreaker n d) (map FailedAt (ts @ [t]))) = t"
proof -
  let ?b = "NewCircuitBreaker n d"
  have run: "cb_run ?b (map FailedAt ts) = ?b\<lparr>failures := int (length ts)\<rparr>"
    using cb_fails_closed [of ?b ts] assms by (simp add: NewCircuitBreaker_def)
  have app: "\<And>b xs ys. cb_run b (xs @ ys) = cb_run (cb_run b xs) ys"
  proof -
    fix b xs ys show "cb_run b (xs @ ys) = cb_run (cb_run b xs) ys"
      by (induction xs arbitrary: b) auto
  qed
  have "cbstate ?b = CbClosed" by (simp add: NewCircuitBreaker_def)
  then show ?thesis using assms by (simp add: app run cb_defs)
qed

theorem breaker_opens_at_threshold_witness:
  "cbstate (cb_run (NewCircuitBreaker 3 minute) (map FailedAt ([10, 20] @ [30]))) = CbOpen"
  using breaker_opens_at_threshold [of "[10, 20]" 3 minute 30]
  by (simp add: NewCircuitBreaker_def)

text \<open>
  An open breaker refuses every call made before its timeout has passed, without
  invoking the guarded function, and no event before then changes its state; the first
  call at or after the timeout is let through, and closes the breaker if it succeeds and
  opens it again, with a new timeout, if it fails.
\<close>

theorem breaker_open_window:
  assumes "cb_reachable n d b" "cbstate b = CbOpen"
    and "\<forall>e \<in> set es. cb_quiet (opened_at b + open_timeout b) e"
    and "now < opened_at b + open_timeout b" "opened_at b + open_timeout b \<le> later"
  shows "cb_call now t fn (cb_run b es) = (Some None, False, b) \<and>
    cb_call later t None (cb_run b es) =
      (None, True, b\<lparr>cbstate := CbClosed, successes := 1, failures := 0\<rparr>) \<and>
    cb_call later t (Some e) (cb_run b es) =
      (Some (Some e), True, b\<lparr>successes := 0, opened_at := t, failures := fail_threshold b\<rparr>)"
proof -
  have run: "cb_run b es = b" by (rule cb_open_stays) (use assms in auto)
  have inv: "success_half_open b = 1"
    using cb_reachable_inv [OF assms(1)] by (simp add: cb_inv_def)
  show ?thesis
    using assms(2,4,5) inv by (simp add: run cb_call_def cb_defs)
qed

definition cb_opened_example :: circuit_breaker where
  "cb_opened_example = cb_step (NewCircuitBreaker 1 minute) (FailedAt 100)"

theorem breaker_open_window_witness:
  "fst (cb_call 200 300 (Some ()) (cb_run cb_opened_example [Succeeded, AllowAt 150])) = Some None"
proof -
  have "cb_reachable 1 minute cb_opened_example"
    unfolding cb_opened_example_def by (intro cb_next cb_init)
  moreover have "cbstate cb_opened_example = CbOpen"
    "opened_at cb_opened_example + open_timeout cb_opened_example = minute + 100"
    by (simp_all add: cb_opened_example_def cb_defs NewCircuitBreaker_def)
  ultimately have "cb_call 200 300 (Some ()) (cb_run cb_opened_example [Succeeded, AllowAt 150])
      = (Some None, False, cb_opened_example)"
    by (intro breaker_open_window [where later = "2 * minute", THEN conjunct1]) simp_all
  then show ?thesis by simp
qed

section \<open>Delays between attempts\<close>

text \<open>
  \<open>MoyskladHTTPRetrySleepDuration\<close>: \<open>rnd n\<close> is \<open>rand.Int63n(n)\<close>, a number in \<open>[0, n)\<close>. The
  shift by \<open>uint(shift)\<close> of a negative attempt is a shift by more than 63 and gives 0.
\<close>

definition http_retry_exp :: "int \<Rightarrow> duration" where
  "http_retry_exp attempt =
     (let shift = (if attempt > 8 then 8 else attempt);
          e = second * (if shift < 0 then 0 else 2 ^ nat shift)
      in if e > 30 * minute then 30 * minute else e)"

definition MoyskladHTTPRetrySleepDuration :: "(int \<Rightarrow> int) \<Rightarrow> int \<Rightarrow> duration" where
  "MoyskladHTTPRetrySleepDuration rnd attempt =
     http_retry_exp attempt + rnd (http_retry_exp attempt div 8 + 1)"

definition int63n :: "(int \<Rightarrow> int) \<Rightarrow> bool" where
  "int63n rnd \<longleftrightarrow> (\<forall>n > 0. 0 \<le> rnd n \<and> rnd n < n)"

definition webhook_steps :: "duration list" where
  "webhook_steps =
     [5 * second, 10 * second, 20 * second, 40 * second, 80 * second,
      5 * minute, 15 * minute, hour, hour, hour]"

definition webhook_base :: "int \<Rightarrow> duration" where
  "webhook_base attempt =
     (let idx = attempt - 1;
          idx = (if idx < 0 then 0 else idx);
          idx = (if idx \<ge> int (length webhook_steps) then int (length webhook_steps) - 1 else idx)
      in webhook_steps ! nat idx)"

definition WebhookRetryDelay :: "int \<Rightarrow> int \<Rightarrow> duration" where
  "WebhookRetryDelay unix_nano attempt =
     webhook_base attempt
     + (unix_nano mod (webhook_base attempt div 5 + 1) + 50 * millisecond)"

lemma upto9_cases:
  fixes k :: int
  assumes "0 \<le> k" "k \<le> 9"
  shows "k = 0 \<or> k = 1 \<or> k = 2 \<or> k = 3 \<or> k = 4 \<or> k = 5 \<or> k = 6 \<or> k = 7 \<or> k = 8 \<or> k = 9"
  using assms by arith

lemma http_retry_exp_value:
  "0 \<le> k \<Longrightarrow> http_retry_exp k = second * 2 ^ nat (min k 8)"
proof -
  assume k: "0 \<le> k"
  have "min k 8 = 0 \<or> min k 8 = 1 \<or> min k 8 = 2 \<or> min k 8 = 3 \<or> min k 8 = 4 \<or> min k 8 = 5 \<or>
     min k 8 = 6 \<or> min k 8 = 7 \<or> min k 8 = (8::int)"
    using k by arith
  moreover have "(if k > 8 then 8 else k) = min k 8" by simp
  ultimately show ?thesis
    using k unfolding http_retry_exp_def Let_def by (elim disjE) simp_all
qed

lemma http_retry_doubles:
  "0 \<le> k \<Longrightarrow> k < 8 \<Longrightarrow> http_retry_exp (k + 1) = 2 * http_retry_exp k"
  by (simp add: http_retry_exp_value nat_add_distrib)

lemma http_retry_exp_ge: "0 \<le> k \<Longrightarrow> second \<le> http_retry_exp k"
proof -
  assume "0 \<le> k"
  moreover have "(1::int) \<le> 2 ^ nat (min k 8)" by simp
  ultimately show ?thesis by (simp add: http_retry_exp_value del: one_le_power)
qed

lemma http_retry_exp_le: "http_retry_exp k \<le> 256 * second"
proof (cases "0 \<le> k")
  case True
  have "nat (min k 8) \<le> 8" by simp
  then have "(2::int) ^ nat (min k 8) \<le> 2 ^ 8" by (rule power_increasing) simp
  with True show ?thesis by (simp add: http_retry_exp_value)
qed (simp add: http_retry_exp_def)

text \<open>
  Whatever the jitter, the delay before the next HTTP attempt grows with every attempt
  up to the ninth, and it is always between 1 and 288 seconds: the 30-minute cap of the
  code is never reached.
\<close>

theorem http_retry_delay_grows:
  assumes "int63n rnd" "0 \<le> k"
  shows "(k < 8 \<longrightarrow> MoyskladHTTPRetrySleepDuration rnd k < MoyskladHTTPRetrySleepDuration rnd (k + 1)) \<and>
    second \<le> MoyskladHTTPRetrySleepDuration rnd k \<and>
    MoyskladHTTPRetrySleepDuration rnd k \<le> 288 * second"
proof -
  have jit: "0 \<le> e \<Longrightarrow> 0 \<le> rnd (e div 8 + 1) \<and> rnd (e div 8 + 1) \<le> e div 8" for e :: int
  proof -
    assume "0 \<le> e"
    then have "0 \<le> e div 8" by simp
    then have "0 < e div 8 + 1" by linarith
    with assms(1) have "0 \<le> rnd (e div 8 + 1) \<and> rnd (e div 8 + 1) < e div 8 + 1"
      unfolding int63n_def by blast
    then show ?thesis by linarith
  qed
  have lo: "second \<le> http_retry_exp k" using http_retry_exp_ge assms(2) .
  have hi: "http_retry_exp k \<le> 256 * second" by (rule http_retry_exp_le)
  have "k < 8 \<longrightarrow> MoyskladHTTPRetrySleepDuration rnd k < MoyskladHTTPRetrySleepDuration rnd (k + 1)"
  proof
    assume "k < 8"
    then have "http_retry_exp (k + 1) = 2 * http_retry_exp k"
      using http_retry_doubles assms(2) by blast
    then show "MoyskladHTTPRetrySleepDuration rnd k < MoyskladHTTPRetrySleepDuration rnd (k + 1)"
      using jit [of "http_retry_exp k"] jit [of "http_retry_exp (k + 1)"] lo
      unfolding MoyskladHTTPRetrySleepDuration_def by linarith
  qed
  moreover have "second \<le> MoyskladHTTPRetrySleepDuration rnd k"
    "MoyskladHTTPRetrySleepDuration rnd k \<le> 288 * second"
    using jit [of "http_retry_exp k"] lo hi
    unfolding MoyskladHTTPRetrySleepDuration_def by linarith+
  ultimately show ?thesis by blast
qed

theorem http_retry_delay_grows_witness:
  "MoyskladHTTPRetrySleepDuration (\<lambda>n. n - 1) 3 < MoyskladHTTPRetrySleepDuration (\<lambda>n. n - 1) 4"
  using http_retry_delay_grows [of "\<lambda>n. n - 1" 3] by (simp add: int63n_def)

lemma webhook_steps_length: "length webhook_steps = 10"
  by (simp add: webhook_steps_def)

lemma webhook_base_cases: "webhook_base k \<in> set webhook_steps"
  unfolding webhook_base_def Let_def webhook_steps_length
  by (rule nth_mem) (auto simp: webhook_steps_length)

lemma webhook_base_mono: "k \<le> l \<Longrightarrow> webhook_base k \<le> webhook_base l"
proof -
  have sorted: "sorted webhook_steps" by (simp add: webhook_steps_def)
  assume "k \<le> l"
  then show ?thesis
    unfolding webhook_base_def Let_def webhook_steps_length
    by (intro sorted_nth_mono [OF sorted]) (auto simp: webhook_steps_length)
qed

lemma webhook_delay_range:
  "webhook_base k + 50 * millisecond \<le> WebhookRetryDelay u k"
  "WebhookRetryDelay u k \<le> webhook_base k + webhook_base k div 5 + 50 * millisecond"
  "5 * second \<le> webhook_base k" "webhook_base k \<le> hour"
proof -
  show b: "5 * second \<le> webhook_base k" "webhook_base k \<le> hour"
    using webhook_base_cases [of k] by (auto simp: webhook_steps_def)
  then have pos: "0 < webhook_base k div 5 + 1" by linarith
  have "0 \<le> u mod (webhook_base k div 5 + 1)"
    "u mod (webhook_base k div 5 + 1) < webhook_base k div 5 + 1"
    using pos_mod_sign [OF pos] pos_mod_bound [OF pos] by blast+
  then show "webhook_base k + 50 * millisecond \<le> WebhookRetryDelay u k"
    "WebhookRetryDelay u k \<le> webhook_base k + webhook_base k div 5 + 50 * millisecond"
    unfolding WebhookRetryDelay_def by linarith+
qed

text \<open>
  The delay before a webhook is tried again is at least the schedule's step for that
  attempt and at most 20 percent and 50 ms more, the steps never decrease, and every delay
  is between 5.05 seconds and 72 minutes and 50 ms.
\<close>

theorem webhook_retry_delay_bounds:
  "webhook_base k + 50 * millisecond \<le> WebhookRetryDelay u k \<and>
   WebhookRetryDelay u k \<le> webhook_base k + webhook_base k div 5 + 50 * millisecond \<and>
   webhook_base k \<le> webhook_base (k + 1) \<and>
   5 * second + 50 * millisecond \<le> WebhookRetryDelay u k \<and>
   WebhookRetryDelay u k \<le> 72 * minute + 50 * millisecond"
  using webhook_delay_range(1) [of k u] webhook_delay_range(2) [of u k] webhook_delay_range(3,4) [of k] webhook_base_mono [of k "k + 1"] by linarith

end
