(* ===== verification/Schema.thy ===== *)
theory Schema
  imports Prelude
begin

text \<open>
  The rows of internal/db and the tables of the migrations: \<open>Product\<close> (products.go),
  \<open>Category\<close> (categories.go), \<open>Promotion\<close> (promotions.go) and its links
  (promotion_links.go), \<open>Order\<close> and \<open>OrderItem\<close> (orders.go), \<open>CartItem\<close> (cart.go) and
  \<open>OrderEvent\<close> (order_events.go), with their primary keys. A serial column is the
  counter that gives the next key; Postgres does not give keys back on a rollback, the
  model does, and no property depends on it. DECIMAL(10,2) columns are not rounded.

  \<open>conn\<close> is what may go wrong between the code and the database: BEGIN, COMMIT and the
  statement with a given number in the call each succeed or fail (a lost connection, a
  timeout, a violated foreign key of a table that is not modelled).
\<close>

record product =
  p_id :: id64
  p_name :: string
  p_description :: "string option"
  p_price :: money
  p_image_url :: "string option"
  p_moysklad_id :: "string option"
  p_category_id :: "id64 option"
  p_stock :: int
  p_active :: bool
  p_status :: string
  p_last_sync_updated :: "time option"
  p_created_at :: time
  p_updated_at :: time
  p_effective_price :: "money option"
  p_discount_percent :: "money option"
  p_promotion_type :: string
  p_promotion_title :: string
  p_promotion_kind :: string

record order_item =
  oi_id :: id64
  oi_order_id :: id64
  oi_product_id :: id64
  oi_quantity :: int
  oi_price :: money
  oi_product_name :: string

record order =
  o_id :: id64
  o_user_id :: "id64 option"
  o_status :: string
  o_total_price :: money
  o_customer_name :: string
  o_phone :: string
  o_address :: "string option"
  o_comment :: "string option"
  o_moysklad_id :: "string option"
  o_created_at :: time
  o_updated_at :: time
  o_reserved_until :: "time option"
  o_pickup_at :: "time option"
  o_items :: "order_item list"

record cart_item =
  ci_id :: id64
  ci_user_id :: id64
  ci_product_id :: id64
  ci_quantity :: int
  ci_created_at :: time
  ci_updated_at :: time
  ci_product :: "product option"

text \<open>What the JSON payload of an event holds.\<close>

datatype event_payload =
    ItemsAndTotal nat money
  | TargetStatus string
  | MoyskladOrderId string
  | Reason string

record order_event =
  ev_id :: id64
  ev_order_id :: id64
  ev_type :: string
  ev_actor :: "id64 option"
  ev_payload :: "event_payload option"
  ev_created_at :: time

record category =
  c_id :: id64
  c_name :: string
  c_description :: "string option"
  c_parent_id :: "id64 option"
  c_created_at :: "time option"

record promotion =
  pr_id :: id64
  pr_title :: string
  pr_description :: "string option"
  pr_discount :: money
  pr_image_url :: "string option"
  pr_active :: bool
  pr_start_date :: "time option"
  pr_end_date :: "time option"
  pr_moysklad_id :: "string option"
  pr_kind :: string
  pr_valid_from :: "time option"
  pr_valid_until :: "time option"
  pr_locked :: bool
  pr_created_at :: time
  pr_updated_at :: time

text \<open>A row of promotion_products or promotion_categories: the promotion and what it covers.\<close>

type_synonym link = "id64 \<times> id64"

record shop_db =
  products :: "product list"
  categories :: "category list"
  promotions :: "promotion list"
  promotion_products :: "link list"
  promotion_categories :: "link list"
  orders :: "order list"
  order_items :: "order_item list"
  cart_items :: "cart_item list"
  order_events :: "order_event list"
  next_product :: id64
  next_category :: id64
  next_promotion :: id64
  next_order :: id64
  next_order_item :: id64
  next_cart_item :: id64
  next_event :: id64

record conn =
  c_begin :: bool
  c_commit :: bool
  c_stmt :: "nat \<Rightarrow> bool"

definition healthy :: conn where
  "healthy = \<lparr>c_begin = True, c_commit = True, c_stmt = (\<lambda>_. True)\<rparr>"

interpretation product_rows: keyed_table p_id .
interpretation category_rows: keyed_table c_id .
interpretation promotion_rows: keyed_table pr_id .
interpretation order_rows: keyed_table o_id .
interpretation cart_rows: keyed_table ci_id .

abbreviation find_product :: "shop_db \<Rightarrow> id64 \<Rightarrow> product option" where
  "find_product db \<equiv> find_row p_id (products db)"

abbreviation find_order :: "shop_db \<Rightarrow> id64 \<Rightarrow> order option" where
  "find_order db \<equiv> find_row o_id (orders db)"

definition stock_in :: "product list \<Rightarrow> id64 \<Rightarrow> int" where
  "stock_in ps pid = (case find_row p_id ps pid of Some p \<Rightarrow> p_stock p | None \<Rightarrow> 0)"

abbreviation stock_of :: "shop_db \<Rightarrow> id64 \<Rightarrow> int" where
  "stock_of db \<equiv> stock_in (products db)"

definition status_of :: "shop_db \<Rightarrow> id64 \<Rightarrow> string option" where
  "status_of db k = map_option o_status (find_order db k)"

text \<open>An empty shop, from which the examples of the development are built.\<close>

definition empty_shop :: shop_db where
  "empty_shop = \<lparr>products = [], categories = [], promotions = [], promotion_products = [],
     promotion_categories = [], orders = [], order_items = [], cart_items = [],
     order_events = [], next_product = 1, next_category = 1, next_promotion = 1, next_order = 1, next_order_item = 1, next_cart_item = 1,
     next_event = 1\<rparr>"

definition mk_product :: "id64 \<Rightarrow> money \<Rightarrow> int \<Rightarrow> product" where
  "mk_product i price stock = \<lparr>p_id = i, p_name = ''p'', p_description = None, p_price = price,
     p_image_url = None, p_moysklad_id = None, p_category_id = None, p_stock = stock,
     p_active = True, p_status = ''active'', p_last_sync_updated = None, p_created_at = 0,
     p_updated_at = 0, p_effective_price = None, p_discount_percent = None,
     p_promotion_type = [], p_promotion_title = [], p_promotion_kind = []\<rparr>"

definition mk_item :: "id64 \<Rightarrow> int \<Rightarrow> money \<Rightarrow> order_item" where
  "mk_item pid q price = \<lparr>oi_id = 0, oi_order_id = 0, oi_product_id = pid, oi_quantity = q,
     oi_price = price, oi_product_name = []\<rparr>"

definition mk_order :: "id64 \<Rightarrow> order" where
  "mk_order uid = \<lparr>o_id = 0, o_user_id = Some uid, o_status = ''pending'', o_total_price = 0,
     o_customer_name = ''n'', o_phone = ''1'', o_address = None, o_comment = None,
     o_moysklad_id = None, o_created_at = 0, o_updated_at = 0, o_reserved_until = None,
     o_pickup_at = None, o_items = []\<rparr>"

end
