(* ===== verification/Reservation.thy ===== *)
theory Reservation
  imports Schema
begin

text \<open>
  internal/services/promotionwindow.go and \<open>reservedUntilFor\<close> of internal/usecase/order.go:
  the reservation window of the shop. A location is its offset from UTC; a calendar day is
  the number of days since 1970-01-01 in that location, so a (year, month, day) triple and
  a day number determine each other and \<open>time.Date(y, m, d, h, ...)\<close> is \<open>date_in\<close>. Moscow is
  the fixed zone MSK (UTC+3) that the code itself falls back to and that Europe/Moscow has
  been since 2014.
\<close>

section \<open>Civil time\<close>

definition civil_day :: "duration \<Rightarrow> time \<Rightarrow> int" where
  "civil_day loc t = (t + loc) div day"

definition weekday :: "int \<Rightarrow> int" where
  "weekday dn = (dn + 4) mod 7"

definition date_in :: "duration \<Rightarrow> int \<Rightarrow> duration \<Rightarrow> time" where
  "date_in loc dn clock = dn * day + clock - loc"

definition moscowLocation :: duration where
  "moscowLocation = 3 * hour"

lemma civil_day_bounds:
  "date_in loc (civil_day loc t) 0 \<le> t" "t < date_in loc (civil_day loc t + 1) 0"
proof -
  have "(t + loc) div day * day + (t + loc) mod day = t + loc" by (rule div_mult_mod_eq)
  moreover have "0 \<le> (t + loc) mod day" "(t + loc) mod day < day" by simp_all
  ultimately show "date_in loc (civil_day loc t) 0 \<le> t"
    "t < date_in loc (civil_day loc t + 1) 0"
    unfolding civil_day_def date_in_def by (auto simp: distrib_right)
qed

lemma civil_day_unique:
  assumes "date_in loc dn 0 \<le> t" "t < date_in loc (dn + 1) 0"
  shows "civil_day loc t = dn"
proof -
  have "dn * day \<le> t + loc" "t + loc < (dn + 1) * day"
    using assms unfolding date_in_def by linarith+
  then have "(t + loc) div day = dn"
    by (intro int_div_pos_eq [where r = "t + loc - dn * day"]) (auto simp: algebra_simps)
  then show ?thesis by (simp add: civil_day_def)
qed

lemma civil_day_date_in [simp]:
  "0 \<le> c \<Longrightarrow> c < day \<Longrightarrow> civil_day loc (date_in loc dn c) = dn"
  by (rule civil_day_unique) (auto simp: date_in_def algebra_simps)

lemma civil_day_mono: "t \<le> u \<Longrightarrow> civil_day loc t \<le> civil_day loc u"
  by (simp add: civil_day_def zdiv_mono1)

section \<open>The reservation window\<close>

definition reservationCutoffHour :: "int \<Rightarrow> int" where
  "reservationCutoffHour dn =
     (let w = weekday dn in if w = 6 \<or> w = 0 then 16 else 18)"

definition isBeforeReservationCutoff :: "time \<Rightarrow> bool" where
  "isBeforeReservationCutoff msk =
     (let dn = civil_day moscowLocation msk
      in msk < date_in moscowLocation dn (reservationCutoffHour dn * hour))"

definition IsOpenForReservationDay :: "duration \<Rightarrow> time \<Rightarrow> bool" where
  "IsOpenForReservationDay loc d = (reservationCutoffHour (civil_day loc d) \<ge> 0)"

text \<open>The two hints \<open>ReservationTarget\<close> gives beside the target are Russian sentences.\<close>

datatype reservation_note = OnlyForToday | OnlyForTomorrow

definition ReservationTarget :: "time \<Rightarrow> string \<times> reservation_note" where
  "ReservationTarget now =
     (if isBeforeReservationCutoff now then (''today'', OnlyForToday)
      else (''tomorrow'', OnlyForTomorrow))"

definition ReservationDate :: "time \<Rightarrow> time" where
  "ReservationDate now =
     (let dn = civil_day moscowLocation now
      in if isBeforeReservationCutoff now then date_in moscowLocation dn 0
         else date_in moscowLocation (dn + 1) 0)"

definition ReservationDeadline :: "time \<Rightarrow> time" where
  "ReservationDeadline now =
     (let dn = civil_day moscowLocation (ReservationDate now)
      in date_in moscowLocation dn (reservationCutoffHour dn * hour))"

definition EndOfMoscowDay :: "time \<Rightarrow> time" where
  "EndOfMoscowDay d =
     date_in moscowLocation (civil_day moscowLocation d)
       (23 * hour + 59 * minute + 59 * second + 999999999)"

definition sameMoscowDay :: "time \<Rightarrow> time \<Rightarrow> bool" where
  "sameMoscowDay a b = (civil_day moscowLocation a = civil_day moscowLocation b)"

definition IsReservationWindowOpen :: "time \<Rightarrow> bool" where
  "IsReservationWindowOpen now = isBeforeReservationCutoff now"

text \<open>\<open>reservedUntilFor\<close>: 03:00 of the third day from now, in the server's location.\<close>

definition reservedUntilFor :: "duration \<Rightarrow> time \<Rightarrow> time" where
  "reservedUntilFor loc now = date_in loc (civil_day loc now + 3) (3 * hour)"

section \<open>Promotions in the window\<close>

definition PromotionKindDay :: string where "PromotionKindDay = ''day''"
definition PromotionKindManual :: string where "PromotionKindManual = ''manual''"
definition PromotionKindPermanent :: string where "PromotionKindPermanent = ''permanent''"

definition promotion_ref :: "promotion \<Rightarrow> time" where
  "promotion_ref p = (case pr_valid_from p of Some t \<Rightarrow> t | None \<Rightarrow> pr_created_at p)"

definition PromotionReservationDay :: "promotion option \<Rightarrow> time" where
  "PromotionReservationDay promo =
     (case promo of None \<Rightarrow> zero_time | Some p \<Rightarrow> ReservationDate (promotion_ref p))"

definition PromotionAppliesForReservation :: "promotion option \<Rightarrow> time \<Rightarrow> bool" where
  "PromotionAppliesForReservation promo now =
     (case promo of
        None \<Rightarrow> False
      | Some p \<Rightarrow>
          if \<not> pr_active p then False
          else if pr_kind p \<noteq> PromotionKindDay then True
          else sameMoscowDay (PromotionReservationDay promo) (ReservationDate now))"

definition FilterPromotionsForReservation ::
  "promotion option list \<Rightarrow> time \<Rightarrow> promotion option list" where
  "FilterPromotionsForReservation promos now =
     (if promos = [] then promos
      else filter (\<lambda>p. PromotionAppliesForReservation p now) promos)"

section \<open>Facts about the window\<close>

lemma cutoff_cases: "reservationCutoffHour dn = 16 \<or> reservationCutoffHour dn = 18"
  by (simp add: reservationCutoffHour_def Let_def)

text \<open>The day the window is for, as a day number.\<close>

definition window_day :: "time \<Rightarrow> int" where
  "window_day now = civil_day moscowLocation (ReservationDate now)"

definition closing :: "int \<Rightarrow> time" where
  "closing dn = date_in moscowLocation dn (reservationCutoffHour dn * hour)"

lemma closing_mono: "dn < dn' \<Longrightarrow> closing dn < closing dn'"
proof -
  assume "dn < dn'"
  then have "dn * day + day \<le> dn' * day" by linarith
  then show ?thesis
    using cutoff_cases [of dn] cutoff_cases [of dn'] unfolding closing_def date_in_def by auto
qed

lemma window_day_eq:
  "window_day now =
    (if now < closing (civil_day moscowLocation now) then civil_day moscowLocation now
     else civil_day moscowLocation now + 1)"
  by (simp add: window_day_def ReservationDate_def isBeforeReservationCutoff_def closing_def Let_def)

lemma ReservationDeadline_closing: "ReservationDeadline now = closing (window_day now)"
  by (simp add: ReservationDeadline_def closing_def window_day_def Let_def)

lemma closing_same_day:
  "civil_day moscowLocation now < dn \<Longrightarrow> now < closing dn"
  "dn < civil_day moscowLocation now \<Longrightarrow> closing dn < now"
proof -
  assume "civil_day moscowLocation now < dn"
  then have "(civil_day moscowLocation now + 1) * day \<le> dn * day" by simp
  then show "now < closing dn"
    using civil_day_bounds(2) [of now moscowLocation] cutoff_cases [of dn]
    unfolding closing_def date_in_def by auto
next
  assume "dn < civil_day moscowLocation now"
  then have "(dn + 1) * day \<le> civil_day moscowLocation now * day" by simp
  then show "closing dn < now"
    using civil_day_bounds(1) [of moscowLocation now] cutoff_cases [of dn]
    unfolding closing_def date_in_def by auto
qed

text \<open>The window is for the first day whose closing time is still to come.\<close>

lemma window_day_iff: "window_day now \<le> dn \<longleftrightarrow> now < closing dn"
proof (cases "now < closing (civil_day moscowLocation now)")
  case True
  then show ?thesis
    using closing_same_day(1) [of now dn] closing_same_day(2) [of dn now]
    by (cases dn "civil_day moscowLocation now" rule: linorder_cases) (auto simp: window_day_eq)
next
  case False
  then have "window_day now = civil_day moscowLocation now + 1" by (simp add: window_day_eq)
  moreover have "civil_day moscowLocation now < dn \<Longrightarrow> now < closing dn"
    by (rule closing_same_day)
  moreover have "dn \<le> civil_day moscowLocation now \<Longrightarrow> \<not> now < closing dn"
    using False closing_mono [of dn "civil_day moscowLocation now"]
    by (cases "dn = civil_day moscowLocation now") auto
  ultimately show ?thesis by linarith
qed

lemma window_day_mono: "t \<le> u \<Longrightarrow> window_day t \<le> window_day u"
  using window_day_iff [of t "window_day u"] window_day_iff [of u "window_day u"] by simp

text \<open>
  The pickup deadline of the current reservation window is always ahead, by at most 26
  hours; it is the closing hour of the window's day, which is today exactly when the target
  shown to the customer is "today".
\<close>

theorem reservation_deadline_ahead:
  "now < ReservationDeadline now \<and> ReservationDeadline now \<le> now + 26 * hour \<and>
   ReservationDeadline now = closing (window_day now) \<and>
   (fst (ReservationTarget now) = ''today'' \<longleftrightarrow> sameMoscowDay (ReservationDeadline now) now)"
proof -
  let ?d = "civil_day moscowLocation now"
  have ahead: "now < ReservationDeadline now"
    using window_day_iff [of now "window_day now"] by (simp add: ReservationDeadline_closing)
  have clock: "0 \<le> reservationCutoffHour dn * hour \<and> reservationCutoffHour dn * hour < day" for dn
    using cutoff_cases [of dn] by auto
  have day: "civil_day moscowLocation (closing dn) = dn" for dn
    unfolding closing_def using clock [of dn] by (intro civil_day_date_in) auto
  have target: "fst (ReservationTarget now) = ''today'' \<longleftrightarrow> window_day now = ?d"
    by (auto simp: ReservationTarget_def window_day_eq isBeforeReservationCutoff_def closing_def Let_def)
  have late: "closing (window_day now) \<le> now + 26 * hour"
  proof (cases "now < closing ?d")
    case True
    then show ?thesis
      using civil_day_bounds(1) [of moscowLocation now] cutoff_cases [of ?d]
      unfolding window_day_eq closing_def date_in_def by auto
  next
    case False
    then show ?thesis
      using cutoff_cases [of ?d] cutoff_cases [of "?d + 1"]
      unfolding window_day_eq closing_def date_in_def by (auto simp: algebra_simps)
  qed
  show ?thesis
    using ahead late target by (simp add: ReservationDeadline_closing sameMoscowDay_def day)
qed

text \<open>
  A day promotion applies from the moment it was introduced exactly until the pickup
  deadline of the window it was introduced in: not before that, not after, while a manual or
  permanent one applies whenever it is active.
\<close>

theorem day_promotion_lifetime:
  assumes "promotion_ref p \<le> now" "pr_active p"
  shows "(pr_kind p = PromotionKindDay \<longrightarrow>
      PromotionAppliesForReservation (Some p) now = (now < ReservationDeadline (promotion_ref p))) \<and>
    (pr_kind p \<noteq> PromotionKindDay \<longrightarrow> PromotionAppliesForReservation (Some p) now)"
proof -
  have "(window_day (promotion_ref p) = window_day now) = (now < closing (window_day (promotion_ref p)))"
    using window_day_iff [of now "window_day (promotion_ref p)"] window_day_mono [OF assms(1)]
    by linarith
  then show ?thesis
    using assms(2)
    by (simp add: PromotionAppliesForReservation_def sameMoscowDay_def PromotionReservationDay_def
        ReservationDeadline_closing window_day_def)
qed

definition day_promo_example :: promotion where
  "day_promo_example = \<lparr>pr_id = 1, pr_title = ''d'', pr_description = None, pr_discount = 20,
     pr_image_url = None, pr_active = True, pr_start_date = None, pr_end_date = None,
     pr_moysklad_id = None, pr_kind = ''day'', pr_valid_from = None, pr_valid_until = None,
     pr_locked = False, pr_created_at = 9 * hour, pr_updated_at = 9 * hour\<rparr>"

theorem day_promotion_lifetime_witness:
  "PromotionAppliesForReservation (Some day_promo_example) (10 * hour) =
    (10 * hour < ReservationDeadline (9 * hour))"
  using day_promotion_lifetime [of day_promo_example "10 * hour"]
  by (simp add: day_promo_example_def PromotionKindDay_def promotion_ref_def)

text \<open>
  An order is reserved for more than 51 and at most 75 hours, whatever the hour it is
  made at and the location of the server; in particular never for exactly the 48 hours of
  the README.
\<close>

theorem reservation_length:
  "now + 51 * hour < reservedUntilFor loc now \<and> reservedUntilFor loc now \<le> now + 75 * hour \<and>
   reservedUntilFor loc now \<noteq> now + 48 * hour"
  using civil_day_bounds [of loc now] civil_day_bounds(2) [of now loc]
  unfolding reservedUntilFor_def date_in_def by (auto simp: algebra_simps)

text \<open>
  \<open>IsOpenForReservationDay\<close>, documented to be false on 1 and 2 January, is true on
  every day, those two included (1 January 2026 is day 20454).
\<close>

theorem every_day_is_open:
  "IsOpenForReservationDay loc d \<and>
   IsOpenForReservationDay moscowLocation (date_in moscowLocation 20454 0)"
  using cutoff_cases [of "civil_day loc d"] cutoff_cases [of 20454]
  by (auto simp: IsOpenForReservationDay_def)

end
