(* ===== verification/OrderStore.thy ===== *)
theory OrderStore
  imports Schema
begin

text \<open>
  internal/db/orders.go and internal/db/order_events.go: the order store. Every operation
  is a function from the tables to a result and the tables after it; the two transactions,
  \<open>CreateOrderAtomic\<close> and \<open>CancelPendingOrderAtomic\<close>, run their statements one after the
  other under \<open>run_tx\<close>. \<open>now\<close> is what NOW() gives inside the call; \<open>locked\<close> says that
  another transaction holds the row that SELECT ... FOR UPDATE SKIP LOCKED asks for; \<open>pick\<close>
  is the order item Postgres joins with a product when UPDATE ... FROM has several to choose
  from (it uses one of them, which one is not specified).
\<close>

section \<open>The audit log\<close>

definition OrderEventCreated :: string where "OrderEventCreated = ''created''"
definition OrderEventShipped :: string where "OrderEventShipped = ''shipped''"
definition OrderEventCancelled :: string where "OrderEventCancelled = ''cancelled''"
definition OrderEventExpired :: string where "OrderEventExpired = ''expired''"
definition OrderEventMoyskladSynced :: string where
  "OrderEventMoyskladSynced = ''moysklad_synced''"

definition event_Insert ::
  "conn \<Rightarrow> time \<Rightarrow> id64 \<Rightarrow> string \<Rightarrow> id64 option \<Rightarrow> event_payload option \<Rightarrow> shop_db
    \<Rightarrow> unit result \<times> shop_db" where
  "event_Insert c now orderID ty actor payload db =
     (if c_stmt c 0 \<and> orderID \<in> o_id ` set (orders db) then
        (Inr (),
         db\<lparr>order_events := order_events db @
               [\<lparr>ev_id = next_event db, ev_order_id = orderID, ev_type = ty, ev_actor = actor,
                 ev_payload = payload, ev_created_at = now\<rparr>],
            next_event := next_event db + 1\<rparr>)
      else (Inl DbError, db))"

definition event_ListByOrderID :: "conn \<Rightarrow> id64 \<Rightarrow> shop_db \<Rightarrow> order_event list result" where
  "event_ListByOrderID c orderID db =
     (if c_stmt c 0 then
        Inr (rev (sort_key ev_created_at
               (filter (\<lambda>e. ev_order_id e = orderID) (order_events db))))
      else Inl DbError)"

section \<open>Reading orders\<close>

definition getOrderItems :: "conn \<Rightarrow> nat \<Rightarrow> id64 \<Rightarrow> shop_db \<Rightarrow> order_item list result" where
  "getOrderItems c k orderID db =
     (if c_stmt c k then Inr (filter (\<lambda>it. oi_order_id it = orderID) (order_items db))
      else Inl DbError)"

definition GetByID :: "conn \<Rightarrow> id64 \<Rightarrow> shop_db \<Rightarrow> order option result" where
  "GetByID c k db =
     (if \<not> c_stmt c 0 then Inl DbError
      else case scan_one (filter (\<lambda>o'. o_id o' = k) (orders db)) of
        NoRows \<Rightarrow> Inr None
      | ManyRows \<Rightarrow> Inl DbError
      | OneRow o' \<Rightarrow>
          (case getOrderItems c 1 k db of
             Inl e \<Rightarrow> Inl e
           | Inr its \<Rightarrow> Inr (Some (o'\<lparr>o_items := its\<rparr>))))"

definition GetByUserID :: "conn \<Rightarrow> id64 \<Rightarrow> shop_db \<Rightarrow> order list result" where
  "GetByUserID c uid db =
     (if c_stmt c 0 then
        Inr (rev (sort_key o_created_at (filter (\<lambda>o'. o_user_id o' = Some uid) (orders db))))
      else Inl DbError)"

definition GetAll :: "conn \<Rightarrow> nat \<Rightarrow> nat \<Rightarrow> shop_db \<Rightarrow> order list result" where
  "GetAll c limit offset db =
     (if c_stmt c 0 then Inr (take limit (drop offset (rev (sort_key o_created_at (orders db)))))
      else Inl DbError)"

definition expired_pending :: "time \<Rightarrow> order \<Rightarrow> bool" where
  "expired_pending now o' =
     (o_status o' = ''pending'' \<and>
      (case o_reserved_until o' of Some t \<Rightarrow> t < now | None \<Rightarrow> False))"

definition ListExpiredPendingIDs :: "conn \<Rightarrow> time \<Rightarrow> int \<Rightarrow> shop_db \<Rightarrow> id64 list result" where
  "ListExpiredPendingIDs c now limit db =
     (let limit = (if limit \<le> 0 then 100 else limit)
      in if c_stmt c 0 then
           Inr (map o_id (take (nat limit)
             (sort_key (\<lambda>o'. the (o_reserved_until o')) (filter (expired_pending now) (orders db)))))
         else Inl DbError)"

section \<open>Inserting orders\<close>

text \<open>The CHECK of migration 007.\<close>

definition order_status_ok :: "string \<Rightarrow> bool" where
  "order_status_ok s = (s \<in> {''pending'', ''completed'', ''expired'', ''cancelled''})"

text \<open>INSERT INTO orders ... RETURNING *, scanned back into the order.\<close>

definition insert_order ::
  "conn \<Rightarrow> nat \<Rightarrow> time \<Rightarrow> order \<Rightarrow> shop_db \<Rightarrow> (order \<times> shop_db) result" where
  "insert_order c k now ord db =
     (if c_stmt c k \<and> order_status_ok (o_status ord) then
        let row = ord\<lparr>o_id := next_order db, o_created_at := now, o_updated_at := now\<rparr>
        in Inr (row, db\<lparr>orders := orders db @ [row\<lparr>o_items := []\<rparr>], next_order := next_order db + 1\<rparr>)
      else Inl DbError)"

definition Insert :: "conn \<Rightarrow> time \<Rightarrow> order \<Rightarrow> shop_db \<Rightarrow> order result \<times> shop_db" where
  "Insert c now ord db =
     (case insert_order c 0 now ord db of
        Inl e \<Rightarrow> (Inl e, db)
      | Inr (row, db') \<Rightarrow> (Inr row, db'))"

text \<open>
  The loop that sets the order id of each item and inserts it, from statement \<open>k\<close> on. The
  product of an item is a foreign key.
\<close>

fun insert_items ::
  "conn \<Rightarrow> nat \<Rightarrow> id64 \<Rightarrow> order_item list \<Rightarrow> shop_db
    \<Rightarrow> (order_item list \<times> shop_db) result" where
  "insert_items c k oid [] db = Inr ([], db)"
| "insert_items c k oid (it # its) db =
     (let it' = it\<lparr>oi_order_id := oid\<rparr> in
      if c_stmt c k \<and> oi_product_id it \<in> p_id ` set (products db) then
        (case insert_items c (Suc k) oid its
            (db\<lparr>order_items := order_items db @
                  [it'\<lparr>oi_id := next_order_item db, oi_product_name := []\<rparr>],
               next_order_item := next_order_item db + 1\<rparr>) of
           Inl e \<Rightarrow> Inl e
         | Inr (its', db') \<Rightarrow> Inr (it' # its', db'))
      else Inl DbError)"

definition InsertWithItems ::
  "conn \<Rightarrow> time \<Rightarrow> order \<Rightarrow> order_item list \<Rightarrow> shop_db \<Rightarrow> order result \<times> shop_db" where
  "InsertWithItems c now ord items db =
     run_tx (c_begin c) (c_commit c)
       (\<lambda>db. case insert_order c 0 now ord db of
          Inl e \<Rightarrow> Inl e
        | Inr (row, db1) \<Rightarrow>
            (case insert_items c 1 (o_id row) items db1 of
               Inl e \<Rightarrow> Inl e
             | Inr (items', db2) \<Rightarrow> Inr (row\<lparr>o_items := items'\<rparr>, db2))) db"

section \<open>Creating an order\<close>

text \<open>
  UPDATE products SET stock = stock - q ... WHERE id = pid AND stock >= q AND active, and
  its loop over the items with the products updated so far.
\<close>

definition decrement_where :: "order_item \<Rightarrow> product \<Rightarrow> bool" where
  "decrement_where it p =
     (p_id p = oi_product_id it \<and> (p_stock p \<ge> oi_quantity it \<and> p_active p))"

definition decrement_set :: "time \<Rightarrow> order_item \<Rightarrow> product \<Rightarrow> product" where
  "decrement_set now it p =
     p\<lparr>p_stock := p_stock p - oi_quantity it,
       p_status := (if p_stock p - oi_quantity it > 0 then ''active'' else ''out_of_stock''),
       p_updated_at := now\<rparr>"

fun decrement_all ::
  "conn \<Rightarrow> nat \<Rightarrow> time \<Rightarrow> order_item list \<Rightarrow> product list \<Rightarrow> (product list \<times> product list) result"
  where
  "decrement_all c k now [] ps = Inr ([], ps)"
| "decrement_all c k now (it # its) ps =
     (if \<not> c_stmt c k then Inl DbError
      else case scan_one (sql_returning (decrement_where it) (decrement_set now it) ps) of
        NoRows \<Rightarrow> Inl (InsufficientStock (oi_product_id it))
      | ManyRows \<Rightarrow> Inl DbError
      | OneRow p \<Rightarrow>
          (case decrement_all c (Suc k) now its
              (sql_update (decrement_where it) (decrement_set now it) ps) of
             Inl e \<Rightarrow> Inl e
           | Inr (updated, ps') \<Rightarrow> Inr (p # updated, ps')))"

definition clear_ordered :: "id64 \<Rightarrow> order_item list \<Rightarrow> cart_item list \<Rightarrow> cart_item list" where
  "clear_ordered uid items =
     sql_delete (\<lambda>ci. ci_user_id ci = uid \<and> ci_product_id ci \<in> set (map oi_product_id items))"

definition create_body ::
  "conn \<Rightarrow> time \<Rightarrow> order \<Rightarrow> order_item list \<Rightarrow> id64 \<Rightarrow> shop_db
    \<Rightarrow> ((order \<times> product list) \<times> shop_db) result" where
  "create_body c now ord items uid db =
     (case decrement_all c 0 now items (products db) of
        Inl e \<Rightarrow> Inl e
      | Inr (updated, ps) \<Rightarrow>
          (case insert_order c (length items) now ord (db\<lparr>products := ps\<rparr>) of
             Inl e \<Rightarrow> Inl e
           | Inr (row, db1) \<Rightarrow>
               (case insert_items c (length items + 1) (o_id row) items db1 of
                  Inl e \<Rightarrow> Inl e
                | Inr (items', db2) \<Rightarrow>
                    if uid \<noteq> 0 \<and> items \<noteq> [] then
                      if c_stmt c (2 * length items + 1) then
                        Inr ((row\<lparr>o_items := items'\<rparr>, updated),
                             db2\<lparr>cart_items := clear_ordered uid items (cart_items db2)\<rparr>)
                      else Inl DbError
                    else Inr ((row\<lparr>o_items := items'\<rparr>, updated), db2))))"

definition CreateOrderAtomic ::
  "conn \<Rightarrow> time \<Rightarrow> order \<Rightarrow> order_item list \<Rightarrow> id64 \<Rightarrow> shop_db
    \<Rightarrow> (order \<times> product list) result \<times> shop_db" where
  "CreateOrderAtomic c now ord items uid db =
     run_tx (c_begin c) (c_commit c) (create_body c now ord items uid) db"

section \<open>Cancelling, completing and updating an order\<close>

definition allowedCancelStatuses :: "string set" where
  "allowedCancelStatuses = {''expired'', ''cancelled''}"

definition restore_items :: "id64 \<Rightarrow> order_item list \<Rightarrow> product \<Rightarrow> order_item list" where
  "restore_items orderID its p =
     filter (\<lambda>oi. oi_order_id oi = orderID \<and> p_id p = oi_product_id oi) its"

definition restore_set ::
  "time \<Rightarrow> (order_item list \<Rightarrow> order_item) \<Rightarrow> id64 \<Rightarrow> order_item list \<Rightarrow> product \<Rightarrow> product" where
  "restore_set now pick orderID its p =
     (let oi = pick (restore_items orderID its p)
      in p\<lparr>p_stock := p_stock p + oi_quantity oi,
           p_status := (if p_stock p + oi_quantity oi > 0 then ''active'' else ''out_of_stock''),
           p_updated_at := now\<rparr>)"

definition set_status :: "string \<Rightarrow> time \<Rightarrow> order \<Rightarrow> order" where
  "set_status s now o' = o'\<lparr>o_status := s, o_updated_at := now\<rparr>"

text \<open>
  The statements of the transaction: \<open>None\<close> when the code leaves with alreadyHandled before
  any change, else the Moysklad id of the order and the products restored.
\<close>

definition cancel_body ::
  "conn \<Rightarrow> bool \<Rightarrow> (order_item list \<Rightarrow> order_item) \<Rightarrow> time \<Rightarrow> id64 \<Rightarrow> string \<Rightarrow> id64 option
    \<Rightarrow> shop_db \<Rightarrow> ((string option \<times> product list) option \<times> shop_db) result" where
  "cancel_body c locked pick now orderID target owner db =
     (if \<not> c_stmt c 0 then Inl DbError
      else case find_order db orderID of
        None \<Rightarrow> Inr (None, db)
      | Some o' \<Rightarrow>
          if locked then Inr (None, db)
          else if o_status o' \<noteq> ''pending'' then Inr (None, db)
          else if owner \<noteq> None \<and> o_user_id o' \<noteq> owner then Inl OrderForbidden
          else if \<not> c_stmt c 1 then Inl DbError
          else if \<not> c_stmt c 2 then Inl DbError
          else
            let hit = (\<lambda>p. restore_items orderID (order_items db) p \<noteq> []);
                upd = restore_set now pick orderID (order_items db)
            in Inr (Some (o_moysklad_id o', sql_returning hit upd (products db)),
                 db\<lparr>products := sql_update hit upd (products db),
                    orders := sql_update (\<lambda>o'. o_id o' = orderID) (set_status target now)
                      (orders db)\<rparr>))"

text \<open>The result is \<open>(moyskladID, alreadyHandled, restored)\<close>.\<close>

definition CancelPendingOrderAtomic ::
  "conn \<Rightarrow> bool \<Rightarrow> (order_item list \<Rightarrow> order_item) \<Rightarrow> time \<Rightarrow> id64 \<Rightarrow> string \<Rightarrow> id64 option
    \<Rightarrow> shop_db \<Rightarrow> (string option \<times> bool \<times> product list) result \<times> shop_db" where
  "CancelPendingOrderAtomic c locked pick now orderID target owner db =
     (if target \<notin> allowedCancelStatuses then (Inl (InvalidTarget target), db)
      else if \<not> c_begin c then (Inl DbError, db)
      else case cancel_body c locked pick now orderID target owner db of
        Inl e \<Rightarrow> (Inl e, db)
      | Inr (None, _) \<Rightarrow> (Inr (None, True, []), db)
      | Inr (Some (msID, restored), db') \<Rightarrow>
          if c_commit c then (Inr (msID, False, restored), db') else (Inl DbError, db))"

definition CompleteOrder :: "conn \<Rightarrow> time \<Rightarrow> id64 \<Rightarrow> shop_db \<Rightarrow> bool result \<times> shop_db" where
  "CompleteOrder c now orderID db =
     (if \<not> c_stmt c 0 then (Inl DbError, db)
      else
        let hit = (\<lambda>o'. o_id o' = orderID \<and> o_status o' = ''pending'')
        in (Inr (filter hit (orders db) = []),
            db\<lparr>orders := sql_update hit (set_status ''completed'' now) (orders db)\<rparr>))"

text \<open>The columns with an update tag; \<open>Update\<close> writes them all, status included.\<close>

definition update_columns :: "order \<Rightarrow> order \<Rightarrow> order" where
  "update_columns ord row =
     row\<lparr>o_user_id := o_user_id ord, o_status := o_status ord, o_total_price := o_total_price ord,
         o_customer_name := o_customer_name ord, o_phone := o_phone ord, o_address := o_address ord,
         o_comment := o_comment ord, o_moysklad_id := o_moysklad_id ord,
         o_updated_at := o_updated_at ord, o_reserved_until := o_reserved_until ord,
         o_pickup_at := o_pickup_at ord\<rparr>"

definition Update :: "conn \<Rightarrow> order \<Rightarrow> id64 \<Rightarrow> shop_db \<Rightarrow> order result \<times> shop_db" where
  "Update c ord k db =
     (if \<not> c_stmt c 0 then (Inl DbError, db)
      else case scan_one (sql_returning (\<lambda>o'. o_id o' = k) (update_columns ord) (orders db)) of
        OneRow row \<Rightarrow>
          if order_status_ok (o_status ord) then
            (Inr (row\<lparr>o_items := o_items ord\<rparr>),
             db\<lparr>orders := sql_update (\<lambda>o'. o_id o' = k) (update_columns ord) (orders db)\<rparr>)
          else (Inl DbError, db)
      | _ \<Rightarrow> (Inl DbError, db))"

section \<open>Statements keep the keys\<close>

interpretation decrement: row_update p_id "decrement_set now it" for now it
  by unfold_locales (simp add: decrement_set_def)

interpretation restore: row_update p_id "restore_set now pick k its" for now pick k its
  by unfold_locales (simp add: restore_set_def Let_def)

interpretation status: row_update o_id "set_status s now" for s now
  by unfold_locales (simp add: set_status_def)

interpretation columns: row_update o_id "update_columns ord" for ord
  by unfold_locales (simp add: update_columns_def)

end
