(* ===== verification/OrderFacts.thy ===== *)
theory OrderFacts
  imports OrderStore
begin

text \<open>
  What the loops and statements of the order store compute: the decrements take the sum of
  the quantities of a product from its stock, or fail when the stock is short; the item
  loop appends the items; a successful transaction in closed form.
\<close>

section \<open>Quantities\<close>

definition qty :: "order_item list \<Rightarrow> id64 \<Rightarrow> int" where
  "qty its pid = sum_list (map oi_quantity (filter (\<lambda>it. oi_product_id it = pid) its))"

lemma qty_Nil [simp]: "qty [] pid = 0"
  by (simp add: qty_def)

lemma qty_Cons [simp]:
  "qty (it # its) pid = (if oi_product_id it = pid then oi_quantity it else 0) + qty its pid"
  by (simp add: qty_def)

lemma qty_append [simp]: "qty (xs @ ys) pid = qty xs pid + qty ys pid"
  by (simp add: qty_def)

lemma qty_nonneg: "(\<And>it. it \<in> set its \<Longrightarrow> 0 \<le> oi_quantity it) \<Longrightarrow> 0 \<le> qty its pid"
  by (induction its) (auto simp: add_nonneg_nonneg)

lemma qty_absent: "pid \<notin> oi_product_id ` set its \<Longrightarrow> qty its pid = 0"
  by (induction its) auto

text \<open>A product can be taken: it exists, is active, and has at least \<open>q\<close> in stock.\<close>

definition available :: "product list \<Rightarrow> id64 \<Rightarrow> int \<Rightarrow> bool" where
  "available ps pid q =
     (case find_row p_id ps pid of Some p \<Rightarrow> p_active p \<and> q \<le> p_stock p | None \<Rightarrow> False)"

section \<open>The decrement loop\<close>

lemma decrement_lookup:
  "find_row p_id (sql_update (decrement_where it) (decrement_set now it) ps) pid =
    map_option (\<lambda>p. if decrement_where it p then decrement_set now it p else p)
      (find_row p_id ps pid)"
  by (rule decrement.lookup_update)

lemma decrement_step:
  assumes "distinct (map p_id ps)"
  shows "decrement_all c k now (it # its) ps =
    (if \<not> c_stmt c k then Inl DbError
     else if available ps (oi_product_id it) (oi_quantity it) then
       (case decrement_all c (Suc k) now its
            (sql_update (decrement_where it) (decrement_set now it) ps) of
          Inl e \<Rightarrow> Inl e
        | Inr (updated, ps') \<Rightarrow>
            Inr (decrement_set now it (the (find_row p_id ps (oi_product_id it))) # updated, ps'))
     else Inl (InsufficientStock (oi_product_id it)))"
proof -
  have *: "decrement_where it =
      (\<lambda>p. p_id p = oi_product_id it \<and> (p_stock p \<ge> oi_quantity it \<and> p_active p))"
    by (rule ext) (simp add: decrement_where_def)
  have scan: "scan_one (sql_returning (decrement_where it) (decrement_set now it) ps) =
      (case find_row p_id ps (oi_product_id it) of
         Some p \<Rightarrow> if p_stock p \<ge> oi_quantity it \<and> p_active p then OneRow (decrement_set now it p) else NoRows
       | None \<Rightarrow> NoRows)"
    unfolding * by (rule decrement.scan_update [OF assms])
  show ?thesis
    by (cases "find_row p_id ps (oi_product_id it)")
      (auto simp: scan available_def split: sum.splits prod.splits)
qed

lemma decrement_keys:
  "map p_id (sql_update (decrement_where it) (decrement_set now it) ps) = map p_id ps"
  by (rule decrement.update_keys)

lemma stock_decrement:
  assumes "available ps (oi_product_id it) (oi_quantity it)"
  shows "stock_in (sql_update (decrement_where it) (decrement_set now it) ps) pid =
    stock_in ps pid - (if oi_product_id it = pid then oi_quantity it else 0)"
proof (cases "find_row p_id ps pid")
  case (Some p)
  then have "p_id p = pid" by (simp add: product_rows.find_row_Some)
  with Some assms show ?thesis
    by (auto simp: stock_in_def decrement_lookup decrement_where_def decrement_set_def
        available_def split: option.splits)
qed (use assms in \<open>auto simp: stock_in_def decrement_lookup available_def split: option.splits\<close>)

lemma available_decrement:
  assumes "available ps (oi_product_id it) (oi_quantity it)"
  shows "available (sql_update (decrement_where it) (decrement_set now it) ps) pid q \<longleftrightarrow>
    available ps pid (q + (if oi_product_id it = pid then oi_quantity it else 0))"
proof (cases "find_row p_id ps pid")
  case (Some p)
  then have "p_id p = pid" by (simp add: product_rows.find_row_Some)
  with Some assms show ?thesis
    by (auto simp: decrement_lookup decrement_where_def decrement_set_def available_def
        split: option.splits)
qed (auto simp: decrement_lookup available_def)

lemma decrement_all_ok:
  assumes "distinct (map p_id ps)" "decrement_all c k now its ps = Inr (updated, ps')"
  shows "map p_id ps' = map p_id ps \<and> length updated = length its \<and>
    (\<forall>pid. stock_in ps' pid = stock_in ps pid - qty its pid) \<and>
    (\<forall>it \<in> set its. oi_product_id it \<in> p_id ` set ps)"
  using assms
proof (induction its arbitrary: k ps updated)
  case (Cons it its)
  let ?ps = "sql_update (decrement_where it) (decrement_set now it) ps"
  from Cons.prems obtain up where
      av: "available ps (oi_product_id it) (oi_quantity it)"
    and rest: "decrement_all c (Suc k) now its ?ps = Inr (up, ps')"
    and len: "length updated = Suc (length up)"
    unfolding decrement_step [OF Cons.prems(1)]
    by (auto split: if_splits sum.splits prod.splits)
  have "distinct (map p_id ?ps)" using Cons.prems(1) by (simp add: decrement_keys)
  from Cons.IH [OF this rest] have IH: "map p_id ps' = map p_id ?ps" "length up = length its"
    "\<forall>pid. stock_in ps' pid = stock_in ?ps pid - qty its pid"
    "\<forall>it \<in> set its. oi_product_id it \<in> p_id ` set ?ps"
    by blast+
  have keys: "p_id ` set ?ps = p_id ` set ps" by (rule decrement.update_key_set)
  have "oi_product_id it \<in> p_id ` set ps"
    using av product_rows.find_row_None [of ps "oi_product_id it"]
    by (auto simp: available_def split: option.splits)
  with IH len show ?case
    by (auto simp: decrement_keys keys stock_decrement [OF av] simp del: set_map)
qed simp

lemma decrement_all_stock_nonneg:
  assumes "decrement_all c k now its ps = Inr (updated, ps')" "\<forall>p \<in> set ps. 0 \<le> p_stock p"
  shows "\<forall>p \<in> set ps'. 0 \<le> p_stock p"
  using assms
proof (induction its arbitrary: k ps updated)
  case (Cons it its)
  let ?ps = "sql_update (decrement_where it) (decrement_set now it) ps"
  obtain up where "decrement_all c (Suc k) now its ?ps = Inr (up, ps')"
    using Cons.prems(1) by (auto split: if_splits sum.splits prod.splits scan.splits)
  moreover have "\<forall>p \<in> set ?ps. 0 \<le> p_stock p"
    using Cons.prems(2) by (auto simp: set_sql_update decrement_where_def decrement_set_def)
  ultimately show ?case by (rule Cons.IH)
qed simp

text \<open>The loop goes through exactly when every product covers the sum of its items.\<close>

lemma available_mono: "available ps pid q \<Longrightarrow> q' \<le> q \<Longrightarrow> available ps pid q'"
  by (auto simp: available_def split: option.splits)

lemma decrement_all_iff:
  assumes "distinct (map p_id ps)" "\<forall>j. c_stmt c j" "\<forall>it \<in> set its. 0 < oi_quantity it"
  shows "is_ok (decrement_all c k now its ps) \<longleftrightarrow>
    (\<forall>it \<in> set its. available ps (oi_product_id it) (qty its (oi_product_id it)))"
  using assms
proof (induction its arbitrary: k ps)
  case (Cons it its)
  let ?pid = "oi_product_id it" and ?q = "oi_quantity it"
  let ?ps = "sql_update (decrement_where it) (decrement_set now it) ps"
  have nonneg: "0 \<le> qty its pid" for pid
    using Cons.prems(3) by (intro qty_nonneg) (simp add: less_imp_le)
  have step: "is_ok (decrement_all c k now (it # its) ps) \<longleftrightarrow>
      available ps ?pid ?q \<and> is_ok (decrement_all c (Suc k) now its ?ps)"
    unfolding decrement_step [OF Cons.prems(1)] using Cons.prems(2)
    by (auto split: sum.splits prod.splits)
  have "is_ok (decrement_all c (Suc k) now its ?ps) \<longleftrightarrow>
      (\<forall>j \<in> set its. available ?ps (oi_product_id j) (qty its (oi_product_id j)))"
    using Cons.prems by (intro Cons.IH) (simp_all add: decrement_keys)
  then have rest: "available ps ?pid ?q \<Longrightarrow> is_ok (decrement_all c (Suc k) now its ?ps) \<longleftrightarrow>
      (\<forall>j \<in> set its. available ps (oi_product_id j) (qty (it # its) (oi_product_id j)))"
    by (simp add: available_decrement add.commute)
  have "available ps ?pid (?q + qty its ?pid) \<Longrightarrow> available ps ?pid ?q"
    using available_mono nonneg [of ?pid] by fastforce
  moreover have "available ps ?pid ?q \<Longrightarrow>
      \<forall>j \<in> set its. available ps (oi_product_id j) (qty (it # its) (oi_product_id j)) \<Longrightarrow>
      available ps ?pid (?q + qty its ?pid)"
    by (cases "?pid \<in> oi_product_id ` set its") (auto simp: qty_absent)
  moreover have "(\<forall>j \<in> set (it # its).
        available ps (oi_product_id j) (qty (it # its) (oi_product_id j))) \<longleftrightarrow>
      available ps ?pid (?q + qty its ?pid) \<and>
      (\<forall>j \<in> set its. available ps (oi_product_id j) (qty (it # its) (oi_product_id j)))"
    by simp
  ultimately show ?case unfolding step using rest by blast
qed simp

lemma decrement_all_error:
  assumes "distinct (map p_id ps)" "\<forall>j. c_stmt c j" "decrement_all c k now its ps = Inl e"
  shows "\<exists>it \<in> set its. e = InsufficientStock (oi_product_id it)"
  using assms
proof (induction its arbitrary: k ps)
  case (Cons it its)
  let ?ps = "sql_update (decrement_where it) (decrement_set now it) ps"
  have "decrement_all c (Suc k) now its ?ps = Inl e \<or> e = InsufficientStock (oi_product_id it)"
    using Cons.prems(2,3) unfolding decrement_step [OF Cons.prems(1)]
    by (auto split: if_splits sum.splits prod.splits)
  moreover have "distinct (map p_id ?ps)" using Cons.prems(1) by (simp add: decrement_keys)
  ultimately show ?case using Cons.IH Cons.prems(2) by auto
qed simp

section \<open>The item loop\<close>

fun item_rows :: "id64 \<Rightarrow> id64 \<Rightarrow> order_item list \<Rightarrow> order_item list" where
  "item_rows oid n [] = []"
| "item_rows oid n (it # its) =
     it\<lparr>oi_order_id := oid, oi_id := n, oi_product_name := []\<rparr> # item_rows oid (n + 1) its"

lemma insert_items_ok:
  "insert_items c k oid its db = Inr (its', db') \<Longrightarrow>
    its' = map (\<lambda>it. it\<lparr>oi_order_id := oid\<rparr>) its \<and>
    db' = db\<lparr>order_items := order_items db @ item_rows oid (next_order_item db) its,
             next_order_item := next_order_item db + int (length its)\<rparr>"
proof (induction its arbitrary: k db its')
  case (Cons it its)
  from Cons.prems obtain its2 where rest: "insert_items c (Suc k) oid its
      (db\<lparr>order_items := order_items db @
            [it\<lparr>oi_order_id := oid, oi_id := next_order_item db, oi_product_name := []\<rparr>],
         next_order_item := next_order_item db + 1\<rparr>) = Inr (its2, db')"
    and its': "its' = it\<lparr>oi_order_id := oid\<rparr> # its2"
    by (auto simp: Let_def split: if_splits sum.splits prod.splits)
  from Cons.IH [OF rest] its' show ?case by (simp add: algebra_simps)
qed simp

lemma insert_items_total:
  assumes "\<forall>j. c_stmt c j" "\<forall>it \<in> set its. oi_product_id it \<in> p_id ` set (products db)"
  shows "is_ok (insert_items c k oid its db)"
  using assms(2)
proof (induction its arbitrary: k db)
  case (Cons it its)
  let ?db = "db\<lparr>order_items := order_items db @
            [it\<lparr>oi_order_id := oid, oi_id := next_order_item db, oi_product_name := []\<rparr>],
         next_order_item := next_order_item db + 1\<rparr>"
  have "is_ok (insert_items c (Suc k) oid its ?db)"
    using Cons.prems by (intro Cons.IH) simp
  with Cons.prems assms(1) show ?case by (auto simp: Let_def is_ok_iff split: sum.splits)
qed simp

lemma item_rows_order: "it \<in> set (item_rows oid n its) \<Longrightarrow> oi_order_id it = oid"
  by (induction its arbitrary: n) auto

lemma item_rows_products: "map oi_product_id (item_rows oid n its) = map oi_product_id its"
  by (induction its arbitrary: n) auto

lemma item_rows_quantities: "map oi_quantity (item_rows oid n its) = map oi_quantity its"
  by (induction its arbitrary: n) auto

lemma qty_item_rows [simp]: "qty (item_rows oid n its) pid = qty its pid"
  by (induction its arbitrary: n) auto

section \<open>Transactions in closed form\<close>

lemma create_body_ok:
  assumes "create_body c now ord items uid db = Inr ((row, updated), db')"
  shows "\<exists>ps. decrement_all c 0 now items (products db) = Inr (updated, ps) \<and>
    order_status_ok (o_status ord) \<and>
    row = ord\<lparr>o_id := next_order db, o_created_at := now, o_updated_at := now,
      o_items := map (\<lambda>it. it\<lparr>oi_order_id := next_order db\<rparr>) items\<rparr> \<and>
    db' = db\<lparr>products := ps,
      orders := orders db @ [ord\<lparr>o_id := next_order db, o_created_at := now, o_updated_at := now,
        o_items := []\<rparr>],
      order_items := order_items db @ item_rows (next_order db) (next_order_item db) items,
      cart_items := (if uid \<noteq> 0 \<and> items \<noteq> [] then clear_ordered uid items (cart_items db)
        else cart_items db),
      next_order := next_order db + 1,
      next_order_item := next_order_item db + int (length items)\<rparr>"
  using assms
  by (auto simp: create_body_def insert_order_def Let_def dest!: insert_items_ok
      split: sum.splits prod.splits if_splits)

lemma CreateOrderAtomic_ok:
  "CreateOrderAtomic c now ord items uid db = (Inr (row, updated), db') \<Longrightarrow>
    create_body c now ord items uid db = Inr ((row, updated), db')"
  by (simp add: CreateOrderAtomic_def run_tx_ok)

lemma CreateOrderAtomic_error:
  "CreateOrderAtomic c now ord items uid db = (Inl e, db') \<Longrightarrow> db' = db"
  by (simp add: CreateOrderAtomic_def run_tx_error)

text \<open>A cancel either leaves the tables alone or is \<open>cancelled_db\<close> on a pending order.\<close>

definition cancelled_db ::
  "(order_item list \<Rightarrow> order_item) \<Rightarrow> time \<Rightarrow> id64 \<Rightarrow> string \<Rightarrow> shop_db \<Rightarrow> shop_db" where
  "cancelled_db pick now k target db =
     db\<lparr>products := sql_update (\<lambda>p. restore_items k (order_items db) p \<noteq> [])
          (restore_set now pick k (order_items db)) (products db),
        orders := sql_update (\<lambda>o'. o_id o' = k) (set_status target now) (orders db)\<rparr>"

lemma CancelPending_cases:
  assumes "CancelPendingOrderAtomic c locked pick now k target owner db = (r, db')"
  shows "(db' = db \<and> (\<forall>ms restored. r \<noteq> Inr (ms, False, restored))) \<or>
    (\<exists>o' restored. r = Inr (o_moysklad_id o', False, restored) \<and> find_order db k = Some o' \<and>
      o_status o' = ''pending'' \<and> target \<in> allowedCancelStatuses \<and> \<not> locked \<and>
      (owner = None \<or> o_user_id o' = owner) \<and>
      restored = sql_returning (\<lambda>p. restore_items k (order_items db) p \<noteq> [])
          (restore_set now pick k (order_items db)) (products db) \<and>
      db' = cancelled_db pick now k target db)"
  using assms
  by (auto simp: CancelPendingOrderAtomic_def cancel_body_def cancelled_db_def Let_def
      split: if_splits option.splits sum.splits prod.splits)

end
