(* ===== verification/OrderLifecycle.thy ===== *)
theory OrderLifecycle
  imports OrderFacts
begin

text \<open>
  The contract of the order store: the invariant of its tables, an abstract inventory (free
  units, the units of each order, the state of each order) that every operation refines,
  and its consequences: stock never goes negative, units are conserved, an order leaves
  'pending' once and for good.
\<close>

section \<open>The invariant\<close>

definition order_lines :: "shop_db \<Rightarrow> id64 \<Rightarrow> order_item list" where
  "order_lines db k = filter (\<lambda>it. oi_order_id it = k) (order_items db)"

definition schema_inv :: "shop_db \<Rightarrow> bool" where
  "schema_inv db =
     (distinct (map p_id (products db)) \<and> distinct (map o_id (orders db)) \<and>
      (\<forall>o' \<in> set (orders db). o_id o' < next_order db \<and> order_status_ok (o_status o')) \<and>
      (\<forall>it \<in> set (order_items db). oi_order_id it \<in> o_id ` set (orders db) \<and>
         oi_product_id it \<in> p_id ` set (products db)))"

definition lines_inv :: "shop_db \<Rightarrow> bool" where
  "lines_inv db =
     ((\<forall>it \<in> set (order_items db). 0 < oi_quantity it) \<and>
      (\<forall>k. distinct (map oi_product_id (order_lines db k))))"

definition stock_inv :: "shop_db \<Rightarrow> bool" where
  "stock_inv db = (\<forall>p \<in> set (products db). 0 \<le> p_stock p)"

definition shop_inv :: "shop_db \<Rightarrow> bool" where
  "shop_inv db = (schema_inv db \<and> lines_inv db \<and> stock_inv db)"

lemma schema_invD:
  assumes "schema_inv db"
  shows "distinct (map p_id (products db))" "distinct (map o_id (orders db))"
    "o' \<in> set (orders db) \<Longrightarrow> o_id o' < next_order db"
    "o' \<in> set (orders db) \<Longrightarrow> order_status_ok (o_status o')"
    "it \<in> set (order_items db) \<Longrightarrow> oi_order_id it \<in> o_id ` set (orders db)"
    "it \<in> set (order_items db) \<Longrightarrow> oi_product_id it \<in> p_id ` set (products db)"
  using assms unfolding schema_inv_def by auto

lemma status_None: "status_of db k = None \<longleftrightarrow> k \<notin> o_id ` set (orders db)"
  by (simp add: status_of_def order_rows.find_row_None)

lemma fresh_order:
  assumes "schema_inv db"
  shows "status_of db (next_order db) = None" "order_lines db (next_order db) = []"
proof -
  have "\<forall>o' \<in> set (orders db). o_id o' \<noteq> next_order db"
    using schema_invD(3) [OF assms] by (metis less_irrefl)
  then have "next_order db \<notin> o_id ` set (orders db)" by force
  then show "status_of db (next_order db) = None" by (simp add: status_None)
  show "order_lines db (next_order db) = []"
    unfolding order_lines_def filter_empty_conv
    using \<open>next_order db \<notin> o_id ` set (orders db)\<close> schema_invD(5) [OF assms] by metis
qed

lemma stock_nonneg: "stock_inv db \<Longrightarrow> 0 \<le> stock_of db pid"
  by (auto simp: stock_in_def stock_inv_def dest: product_rows.find_row_Some split: option.splits)

section \<open>Creating\<close>

lemma order_lines_create:
  assumes "schema_inv db"
  shows "order_lines (db'\<lparr>order_items := order_items db @ item_rows (next_order db) n items\<rparr>) k =
    (if k = next_order db then item_rows (next_order db) n items else order_lines db k)"
proof -
  have "filter (\<lambda>it. oi_order_id it = k) (item_rows (next_order db) n items) =
      (if k = next_order db then item_rows (next_order db) n items else [])"
    by (auto simp: filter_empty_conv filter_id_conv dest: item_rows_order)
  then show ?thesis using fresh_order(2) [OF assms] by (auto simp: order_lines_def)
qed

text \<open>What a successful create does to everything the invariant and the inventory look at.\<close>

lemma create_effect:
  assumes "schema_inv db" "CreateOrderAtomic c now ord items uid db = (Inr (row, updated), db')"
  shows "map p_id (products db') = map p_id (products db)"
    "stock_of db' pid = stock_of db pid - qty items pid"
    "status_of db' k = (if k = next_order db then Some (o_status ord) else status_of db k)"
    "order_lines db' k = (if k = next_order db
       then item_rows (next_order db) (next_order_item db) items else order_lines db k)"
    "order_items db' = order_items db @ item_rows (next_order db) (next_order_item db) items"
    "o_id row = next_order db" "next_order db' = next_order db + 1"
    "stock_inv db \<Longrightarrow> stock_inv db'" "schema_inv db'"
proof -
  obtain ps where ps: "decrement_all c 0 now items (products db) = Inr (updated, ps)"
    and ok: "order_status_ok (o_status ord)"
    and row: "o_id row = next_order db" and db': "db' = db\<lparr>products := ps,
      orders := orders db @ [ord\<lparr>o_id := next_order db, o_created_at := now, o_updated_at := now,
        o_items := []\<rparr>],
      order_items := order_items db @ item_rows (next_order db) (next_order_item db) items,
      cart_items := (if uid \<noteq> 0 \<and> items \<noteq> [] then clear_ordered uid items (cart_items db)
        else cart_items db),
      next_order := next_order db + 1,
      next_order_item := next_order_item db + int (length items)\<rparr>"
    using create_body_ok [OF CreateOrderAtomic_ok [OF assms(2)]] by auto
  note dec = decrement_all_ok [OF schema_invD(1) [OF assms(1)] ps]
  show keys: "map p_id (products db') = map p_id (products db)" using dec db' by simp
  show "stock_of db' pid = stock_of db pid - qty items pid" using dec db' by simp
  have "find_row o_id (orders db) (next_order db) = None"
    using fresh_order(1) [OF assms(1)] by (simp add: status_of_def)
  then show "status_of db' k = (if k = next_order db then Some (o_status ord) else status_of db k)"
    by (auto simp: status_of_def db' find_row_append split: option.splits)
  show "order_lines db' k = (if k = next_order db
       then item_rows (next_order db) (next_order_item db) items else order_lines db k)"
    using order_lines_create [OF assms(1), where db' = db' and n = "next_order_item db"
        and items = items and k = k]
    by (simp add: db' order_lines_def)
  show "order_items db' = order_items db @ item_rows (next_order db) (next_order_item db) items"
    "o_id row = next_order db" "next_order db' = next_order db + 1"
    using row by (simp_all add: db')
  show "stock_inv db \<Longrightarrow> stock_inv db'"
    using decrement_all_stock_nonneg [OF ps] by (simp add: stock_inv_def db')
  have items: "oi_product_id it \<in> p_id ` set (products db)"
    if "it \<in> set (item_rows (next_order db) (next_order_item db) items)" for it
  proof -
    have "oi_product_id it \<in> set (map oi_product_id items)"
      using that by (metis image_eqI item_rows_products list.set_map)
    then show ?thesis using dec by auto
  qed
  have keyset: "p_id ` set (products db') = p_id ` set (products db)"
    using keys by (metis list.set_map)
  have fresh: "next_order db \<notin> o_id ` set (orders db)"
    using fresh_order(1) [OF assms(1)] by (simp add: status_None)
  show "schema_inv db'"
    unfolding schema_inv_def keys keyset
    using assms(1) ok fresh items
    by (fastforce simp: db' schema_inv_def dest: item_rows_order)
qed

lemma create_inv:
  assumes "shop_inv db" "CreateOrderAtomic c now ord items uid db = (r, db')"
    "\<forall>it \<in> set items. 0 < oi_quantity it" "distinct (map oi_product_id items)"
  shows "shop_inv db'"
proof (cases r)
  case (Inl e)
  then show ?thesis using assms CreateOrderAtomic_error by metis
next
  case (Inr x)
  then obtain row updated where ok: "CreateOrderAtomic c now ord items uid db = (Inr (row, updated), db')"
    using assms(2) by (cases x) auto
  note s = assms(1) [unfolded shop_inv_def]
  note eff = create_effect [OF conjunct1 [OF s] ok]
  have "0 < oi_quantity it" if "it \<in> set (item_rows (next_order db) (next_order_item db) items)" for it
  proof -
    have "oi_quantity it \<in> set (map oi_quantity items)"
      using that by (metis image_eqI item_rows_quantities list.set_map)
    then show ?thesis using assms(3) by auto
  qed
  then have "lines_inv db'"
    using s assms(4) by (auto simp: lines_inv_def eff(4,5) item_rows_products)
  with eff(8,9) s show ?thesis by (simp add: shop_inv_def)
qed

section \<open>Cancelling\<close>

definition picks_row :: "(order_item list \<Rightarrow> order_item) \<Rightarrow> bool" where
  "picks_row pick = (\<forall>xs. xs \<noteq> [] \<longrightarrow> pick xs \<in> set xs)"

lemma restore_items_lines:
  "restore_items k (order_items db) p = filter (\<lambda>it. oi_product_id it = p_id p) (order_lines db k)"
  by (auto simp: restore_items_def order_lines_def intro: filter_cong)

lemma stock_cancelled:
  assumes "schema_inv db"
  shows "stock_of (cancelled_db pick now k target db) pid = stock_of db pid +
    (let its = filter (\<lambda>it. oi_product_id it = pid) (order_lines db k)
     in if its = [] then 0 else oi_quantity (pick its))"
proof (cases "find_product db pid")
  case None
  then have "pid \<notin> p_id ` set (products db)" by (simp add: product_rows.find_row_None)
  then have "filter (\<lambda>it. oi_product_id it = pid) (order_lines db k) = []"
    using schema_invD(6) [OF assms] by (auto simp: order_lines_def filter_empty_conv)
  with None show ?thesis
    by (simp add: stock_in_def cancelled_db_def restore.lookup_update Let_def)
next
  case (Some p)
  then have "p_id p = pid" by (simp add: product_rows.find_row_Some)
  with Some show ?thesis
    by (auto simp: stock_in_def cancelled_db_def restore.lookup_update restore_set_def
        restore_items_lines Let_def)
qed

lemma stock_cancelled_lines:
  assumes "schema_inv db" "lines_inv db" "picks_row pick"
  shows "stock_of (cancelled_db pick now k target db) pid =
    stock_of db pid + qty (order_lines db k) pid"
proof -
  have "distinct (map oi_product_id (order_lines db k))"
    using assms(2) by (simp add: lines_inv_def)
  from filter_distinct_key [OF this, of pid] show ?thesis
  proof
    assume "filter (\<lambda>it. oi_product_id it = pid) (order_lines db k) = []"
    then show ?thesis by (simp add: stock_cancelled [OF assms(1)] qty_def)
  next
    assume "\<exists>it \<in> set (order_lines db k). oi_product_id it = pid \<and>
      filter (\<lambda>it. oi_product_id it = pid) (order_lines db k) = [it]"
    then obtain it where "filter (\<lambda>it. oi_product_id it = pid) (order_lines db k) = [it]" by blast
    moreover from assms(3) have "pick [it] \<in> set [it]" unfolding picks_row_def by blast
    then have "pick [it] = it" by simp
    ultimately show ?thesis by (simp add: stock_cancelled [OF assms(1)] qty_def)
  qed
qed

lemma cancelled_effect:
  "status_of (cancelled_db pick now k target db) j =
     (if j = k then map_option (\<lambda>_. target) (status_of db k) else status_of db j)"
  "order_lines (cancelled_db pick now k target db) j = order_lines db j"
  "map p_id (products (cancelled_db pick now k target db)) = map p_id (products db)"
proof -
  show "status_of (cancelled_db pick now k target db) j =
     (if j = k then map_option (\<lambda>_. target) (status_of db k) else status_of db j)"
  proof (cases "find_order db j")
    case (Some o')
    then have "o_id o' = j" by (simp add: order_rows.find_row_Some)
    with Some show ?thesis
      by (auto simp: cancelled_db_def status_of_def status.lookup_update set_status_def)
  qed (auto simp: cancelled_db_def status_of_def status.lookup_update)
qed (simp_all add: cancelled_db_def order_lines_def restore.update_keys)

lemma cancelled_inv:
  assumes "shop_inv db" "picks_row pick" "target \<in> allowedCancelStatuses"
  shows "shop_inv (cancelled_db pick now k target db)"
proof -
  let ?db = "cancelled_db pick now k target db"
  have keys: "map p_id (products ?db) = map p_id (products db)"
    "p_id ` set (products ?db) = p_id ` set (products db)"
    "map o_id (orders ?db) = map o_id (orders db)" "o_id ` set (orders ?db) = o_id ` set (orders db)"
    by (simp_all add: cancelled_db_def restore.update_keys restore.update_key_set
        status.update_keys status.update_key_set)
  have same: "order_items ?db = order_items db" "next_order ?db = next_order db"
    by (simp_all add: cancelled_db_def)
  have "schema_inv ?db"
    using assms(1,3) unfolding schema_inv_def keys same shop_inv_def
    by (auto simp: cancelled_db_def set_sql_update set_status_def allowedCancelStatuses_def
        order_status_ok_def)
  moreover have "lines_inv ?db"
    using assms(1) by (simp add: shop_inv_def lines_inv_def same cancelled_effect)
  moreover have "stock_inv ?db"
  proof -
    have "0 \<le> p_stock p + oi_quantity (pick (restore_items k (order_items db) p))"
      if "p \<in> set (products db)" "restore_items k (order_items db) p \<noteq> []" for p
    proof -
      have "pick (restore_items k (order_items db) p) \<in> set (restore_items k (order_items db) p)"
        using that(2) assms(2) unfolding picks_row_def by blast
      then have "pick (restore_items k (order_items db) p) \<in> set (order_items db)"
        unfolding restore_items_def by (rule subsetD [OF filter_is_subset])
      then have "0 < oi_quantity (pick (restore_items k (order_items db) p))"
        using assms(1) by (simp add: shop_inv_def lines_inv_def)
      then show ?thesis using that(1) assms(1) by (fastforce simp: shop_inv_def stock_inv_def)
    qed
    then show ?thesis
      using assms(1)
      by (auto simp: stock_inv_def shop_inv_def cancelled_db_def set_sql_update restore_set_def Let_def)
  qed
  ultimately show ?thesis by (simp add: shop_inv_def)
qed

section \<open>Completing\<close>

lemma complete_effect:
  assumes "schema_inv db" "CompleteOrder c now k db = (r, db')"
  shows "status_of db' j = (if j = k \<and> status_of db k = Some ''pending'' \<and> c_stmt c 0
      then Some ''completed'' else status_of db j)"
    "products db' = products db" "order_items db' = order_items db"
    "schema_inv db'"
proof -
  have db': "db' = (if c_stmt c 0 then db\<lparr>orders :=
      sql_update (\<lambda>o'. o_id o' = k \<and> o_status o' = ''pending'') (set_status ''completed'' now) (orders db)\<rparr>
      else db)"
    using assms(2) by (auto simp: CompleteOrder_def Let_def split: if_splits)
  show "status_of db' j = (if j = k \<and> status_of db k = Some ''pending'' \<and> c_stmt c 0
      then Some ''completed'' else status_of db j)"
  proof (cases "find_order db j")
    case (Some o')
    then have "o_id o' = j" by (simp add: order_rows.find_row_Some)
    with Some show ?thesis
      by (auto simp: db' status_of_def status.lookup_update set_status_def)
  qed (auto simp: db' status_of_def status.lookup_update)
  show "products db' = products db" "order_items db' = order_items db" by (simp_all add: db')
  have keys: "map o_id (orders db') = map o_id (orders db)" "o_id ` set (orders db') = o_id ` set (orders db)"
    by (simp_all add: db' status.update_keys status.update_key_set)
  show "schema_inv db'"
    using assms(1) unfolding schema_inv_def keys
    by (auto simp: db' set_sql_update set_status_def order_status_ok_def)
qed

lemma complete_inv:
  assumes "shop_inv db" "CompleteOrder c now k db = (r, db')"
  shows "shop_inv db'"
proof -
  note s = assms(1) [unfolded shop_inv_def]
  note eff = complete_effect [OF conjunct1 [OF s] assms(2)]
  show ?thesis
    using s eff(4) by (simp add: shop_inv_def lines_inv_def stock_inv_def order_lines_def eff(2,3))
qed

section \<open>The order store as a state machine\<close>

text \<open>
  One call on the store: orders of pending status with positive quantities and one line per
  product are created; any order is cancelled or expired, by anyone, or completed. Faults of
  the connection, locks of other workers and the order of the calls are arbitrary.
\<close>

inductive order_step :: "shop_db \<Rightarrow> shop_db \<Rightarrow> bool" where
  create: "o_status ord = ''pending'' \<Longrightarrow> \<forall>it \<in> set items. 0 < oi_quantity it \<Longrightarrow>
    distinct (map oi_product_id items) \<Longrightarrow>
    CreateOrderAtomic c now ord items uid db = (r, db') \<Longrightarrow> order_step db db'"
| cancel: "picks_row pick \<Longrightarrow>
    CancelPendingOrderAtomic c locked pick now k target owner db = (r', db') \<Longrightarrow> order_step db db'"
| complete: "CompleteOrder c now k db = (r'', db') \<Longrightarrow> order_step db db'"

lemma order_step_inv: "order_step db db' \<Longrightarrow> shop_inv db \<Longrightarrow> shop_inv db'"
proof (induction rule: order_step.induct)
  case (create ord items c now uid db r db')
  then show ?case by (rule_tac create_inv) auto
next
  case (cancel pick c locked now k target owner db r' db')
  then show ?case using CancelPending_cases [OF cancel(2)] cancelled_inv by blast
next
  case (complete c now k db r'' db')
  then show ?case by (rule_tac complete_inv) auto
qed

definition order_reachable :: "shop_db \<Rightarrow> shop_db \<Rightarrow> bool" where
  "order_reachable = order_step\<^sup>*\<^sup>*"

lemma order_reachable_inv: "order_reachable db db' \<Longrightarrow> shop_inv db \<Longrightarrow> shop_inv db'"
  unfolding order_reachable_def by (induction rule: rtranclp_induct) (auto intro: order_step_inv)

section \<open>The abstract inventory\<close>

text \<open>
  What the shop promises, without tables: how many units of each product are free, how many
  each order took, and the state of each order. An order is placed from free units, and a
  pending one is withdrawn, which gives all its units back, or sold.
\<close>

record inventory =
  inv_free :: "id64 \<Rightarrow> int"
  inv_taken :: "id64 \<Rightarrow> id64 \<Rightarrow> int"
  inv_state :: "id64 \<Rightarrow> string option"

inductive inventory_step :: "inventory \<Rightarrow> inventory \<Rightarrow> bool" where
  idle: "inventory_step s s"
| place: "inv_state s k = None \<Longrightarrow> (\<And>pid. 0 \<le> q pid \<and> q pid \<le> inv_free s pid) \<Longrightarrow>
    inventory_step s (s\<lparr>inv_free := (\<lambda>pid. inv_free s pid - q pid),
      inv_taken := (inv_taken s)(k := q), inv_state := (inv_state s)(k \<mapsto> ''pending'')\<rparr>)"
| withdraw: "inv_state s k = Some ''pending'' \<Longrightarrow> t \<in> {''expired'', ''cancelled''} \<Longrightarrow>
    inventory_step s (s\<lparr>inv_free := (\<lambda>pid. inv_free s pid + inv_taken s k pid),
      inv_state := (inv_state s)(k \<mapsto> t)\<rparr>)"
| sell: "inv_state s k = Some ''pending'' \<Longrightarrow>
    inventory_step s (s\<lparr>inv_state := (inv_state s)(k \<mapsto> ''completed'')\<rparr>)"

definition abs_inventory :: "shop_db \<Rightarrow> inventory" where
  "abs_inventory db = \<lparr>inv_free = stock_of db, inv_taken = (\<lambda>k pid. qty (order_lines db k) pid),
     inv_state = status_of db\<rparr>"

lemma create_refines:
  assumes "shop_inv db" "CreateOrderAtomic c now ord items uid db = (r, db')"
    "o_status ord = ''pending''" "\<forall>it \<in> set items. 0 < oi_quantity it"
    "distinct (map oi_product_id items)"
  shows "inventory_step (abs_inventory db) (abs_inventory db')"
proof (cases r)
  case (Inl e)
  then show ?thesis using assms(2) CreateOrderAtomic_error inventory_step.idle by metis
next
  case (Inr x)
  then obtain row updated where ok: "CreateOrderAtomic c now ord items uid db = (Inr (row, updated), db')"
    using assms(2) by (cases x) auto
  have schema: "schema_inv db" and stock: "stock_inv db" using assms(1) by (simp_all add: shop_inv_def)
  note eff = create_effect [OF schema ok]
  have "0 \<le> qty items pid \<and> qty items pid \<le> inv_free (abs_inventory db) pid" for pid
    using assms(4) qty_nonneg [of items pid] stock_nonneg [OF eff(8) [OF stock], of pid]
    by (auto simp: eff(2) abs_inventory_def less_imp_le)
  moreover have "inv_state (abs_inventory db) (next_order db) = None"
    by (simp add: abs_inventory_def fresh_order [OF schema])
  moreover have "abs_inventory db' = (abs_inventory db)
      \<lparr>inv_free := (\<lambda>pid. inv_free (abs_inventory db) pid - qty items pid),
       inv_taken := (inv_taken (abs_inventory db))(next_order db := qty items),
       inv_state := (inv_state (abs_inventory db))(next_order db \<mapsto> ''pending'')\<rparr>"
    using assms(3) by (auto simp: abs_inventory_def eff(2,3,4) fun_eq_iff)
  ultimately show ?thesis
    using inventory_step.place [of "abs_inventory db" "next_order db" "qty items"] by simp
qed

lemma cancelled_refines:
  assumes "shop_inv db" "picks_row pick" "target \<in> allowedCancelStatuses"
    "status_of db k = Some ''pending''"
  shows "inventory_step (abs_inventory db) (abs_inventory (cancelled_db pick now k target db))"
proof -
  have "schema_inv db" "lines_inv db" using assms(1) by (simp_all add: shop_inv_def)
  note stock = stock_cancelled_lines [OF this assms(2)]
  have "abs_inventory (cancelled_db pick now k target db) = (abs_inventory db)
      \<lparr>inv_free := (\<lambda>pid. inv_free (abs_inventory db) pid + inv_taken (abs_inventory db) k pid),
       inv_state := (inv_state (abs_inventory db))(k \<mapsto> target)\<rparr>"
    using assms(4) by (auto simp: abs_inventory_def stock cancelled_effect fun_eq_iff)
  moreover have "inv_state (abs_inventory db) k = Some ''pending''"
    using assms(4) by (simp add: abs_inventory_def)
  ultimately show ?thesis
    using inventory_step.withdraw [of "abs_inventory db" k target] assms(3)
    by (simp add: allowedCancelStatuses_def)
qed

lemma complete_refines:
  assumes "schema_inv db" "CompleteOrder c now k db = (r, db')"
  shows "inventory_step (abs_inventory db) (abs_inventory db')"
proof -
  note eff = complete_effect [OF assms]
  show ?thesis
  proof (cases "status_of db k = Some ''pending'' \<and> c_stmt c 0")
    case True
    then have "abs_inventory db' = (abs_inventory db)
        \<lparr>inv_state := (inv_state (abs_inventory db))(k \<mapsto> ''completed'')\<rparr>"
      by (auto simp: abs_inventory_def eff(1,2) order_lines_def eff(3) fun_eq_iff)
    moreover have "inv_state (abs_inventory db) k = Some ''pending''"
      using True by (simp add: abs_inventory_def)
    ultimately show ?thesis using inventory_step.sell by metis
  next
    case False
    then have "abs_inventory db' = abs_inventory db"
      by (auto simp: abs_inventory_def eff(1,2) order_lines_def eff(3) fun_eq_iff)
    then show ?thesis using inventory_step.idle by metis
  qed
qed

lemma order_step_refines:
  "order_step db db' \<Longrightarrow> shop_inv db \<Longrightarrow> inventory_step (abs_inventory db) (abs_inventory db')"
proof (induction rule: order_step.induct)
  case (create ord items c now uid db r db')
  then show ?case using create_refines by blast
next
  case (cancel pick c locked now k target owner db r' db')
  from CancelPending_cases [OF cancel(2)] show ?case
    using cancelled_refines [OF cancel(3,1)] inventory_step.idle
    by (auto simp: status_of_def)
next
  case (complete c now k db r'' db')
  then show ?case using complete_refines by (auto simp: shop_inv_def)
qed

end
