(* ===== verification/OrderGuarantees.thy ===== *)
theory OrderGuarantees
  imports OrderLifecycle
begin

text \<open>
  The properties of the order store, over the lemmas of OrderLifecycle.
\<close>

section \<open>Units of a product\<close>

definition holds_units :: "shop_db \<Rightarrow> order_item \<Rightarrow> bool" where
  "holds_units db it = (status_of db (oi_order_id it) \<in> {Some ''pending'', Some ''completed''})"

definition units_out :: "shop_db \<Rightarrow> id64 \<Rightarrow> int" where
  "units_out db pid = qty (filter (holds_units db) (order_items db)) pid"

lemma qty_filter_cong:
  "(\<And>it. it \<in> set its \<Longrightarrow> P it = Q it) \<Longrightarrow> qty (filter P its) pid = qty (filter Q its) pid"
  by (simp cong: filter_cong)

lemma qty_filter_split:
  "qty (filter P its) pid =
    qty (filter (\<lambda>it. P it \<and> Q it) its) pid + qty (filter (\<lambda>it. P it \<and> \<not> Q it) its) pid"
  by (induction its) auto

lemma units_create:
  assumes "schema_inv db" "CreateOrderAtomic c now ord items uid db = (Inr (row, updated), db')"
    "o_status ord = ''pending''"
  shows "stock_of db' pid + units_out db' pid = stock_of db pid + units_out db pid"
proof -
  note eff = create_effect [OF assms(1,2)]
  have old: "oi_order_id it \<noteq> next_order db" if "it \<in> set (order_items db)" for it
    using fresh_order(2) [OF assms(1)] that by (auto simp: order_lines_def filter_empty_conv)
  have "qty (filter (holds_units db') (order_items db)) pid = units_out db pid"
    unfolding units_out_def using old
    by (intro qty_filter_cong) (simp add: holds_units_def eff(3))
  moreover have "filter (holds_units db') (item_rows (next_order db) (next_order_item db) items) =
      item_rows (next_order db) (next_order_item db) items"
    by (auto simp: filter_id_conv holds_units_def eff(3) assms(3) dest: item_rows_order)
  ultimately show ?thesis by (simp add: units_out_def eff(2,5))
qed

lemma units_cancelled:
  assumes "schema_inv db" "lines_inv db" "picks_row pick" "status_of db k = Some ''pending''"
    "target \<in> allowedCancelStatuses"
  shows "stock_of (cancelled_db pick now k target db) pid + units_out (cancelled_db pick now k target db) pid =
    stock_of db pid + units_out db pid"
proof -
  let ?db = "cancelled_db pick now k target db"
  have items: "order_items ?db = order_items db" by (simp add: cancelled_db_def)
  have "qty (filter (\<lambda>it. holds_units db it \<and> oi_order_id it = k) (order_items db)) pid =
      qty (order_lines db k) pid"
    unfolding order_lines_def using assms(4) by (intro qty_filter_cong) (auto simp: holds_units_def)
  moreover have "units_out ?db pid =
      qty (filter (\<lambda>it. holds_units db it \<and> oi_order_id it \<noteq> k) (order_items db)) pid"
    unfolding units_out_def items using assms(4,5)
    by (intro qty_filter_cong)
      (auto simp: holds_units_def cancelled_effect allowedCancelStatuses_def)
  ultimately show ?thesis
    using stock_cancelled_lines [OF assms(1-3), of now k target pid]
      qty_filter_split [of "holds_units db" "order_items db" pid "\<lambda>it. oi_order_id it = k"]
    by (simp add: units_out_def)
qed

lemma units_complete:
  assumes "schema_inv db" "CompleteOrder c now k db = (r, db')"
  shows "stock_of db' pid + units_out db' pid = stock_of db pid + units_out db pid"
proof -
  note eff = complete_effect [OF assms]
  have "units_out db' pid = units_out db pid"
    unfolding units_out_def eff(3) by (intro qty_filter_cong) (auto simp: holds_units_def eff(1))
  then show ?thesis by (simp add: eff(2))
qed

lemma order_step_units:
  "order_step db db' \<Longrightarrow> shop_inv db \<Longrightarrow>
    stock_of db' pid + units_out db' pid = stock_of db pid + units_out db pid"
proof (induction rule: order_step.induct)
  case (create ord items c now uid db r db')
  show ?case
  proof (cases r)
    case (Inl e)
    with create show ?thesis by (auto dest: CreateOrderAtomic_error)
  next
    case (Inr x)
    with create show ?thesis
      by (cases x) (auto simp: shop_inv_def intro!: units_create)
  qed
next
  case (cancel pick c locked now k target owner db r' db')
  then have inv: "schema_inv db" "lines_inv db" by (simp_all add: shop_inv_def)
  from CancelPending_cases [OF cancel(2)] show ?case
    using units_cancelled [OF inv cancel(1)] by (auto simp: status_of_def)
next
  case (complete c now k db r'' db')
  then show ?case by (auto simp: shop_inv_def intro!: units_complete)
qed

section \<open>An example shop\<close>

text \<open>Two products; customer 7 orders two units of the first, and the order is cancelled.\<close>

definition example_db :: shop_db where
  "example_db = empty_shop\<lparr>products := [mk_product 1 10 5, mk_product 2 4 3]\<rparr>"

definition example_items :: "order_item list" where
  "example_items = [mk_item 1 2 10]"

definition example_db1 :: shop_db where
  "example_db1 = snd (CreateOrderAtomic healthy 0 (mk_order 7) example_items 7 example_db)"

definition example_db2 :: shop_db where
  "example_db2 = snd (CancelPendingOrderAtomic healthy False hd 0 1 ''cancelled'' (Some 7) example_db1)"

lemmas example_defs = example_db_def example_items_def empty_shop_def mk_product_def mk_item_def
  mk_order_def healthy_def

lemmas order_eval = CreateOrderAtomic_def run_tx_def create_body_def insert_order_def
  order_status_ok_def decrement_where_def decrement_set_def clear_ordered_def find_row_def
  CancelPendingOrderAtomic_def cancel_body_def allowedCancelStatuses_def restore_items_def
  restore_set_def set_status_def Let_def

lemma example_inv: "shop_inv example_db"
  by (simp add: shop_inv_def schema_inv_def lines_inv_def stock_inv_def order_lines_def example_defs)

lemma example_items_ok:
  "\<forall>it \<in> set example_items. 0 < oi_quantity it" "distinct (map oi_product_id example_items)"
  "o_status (mk_order 7) = ''pending''" "picks_row hd"
  by (simp_all add: example_defs picks_row_def)

lemma example_created:
  "\<exists>row updated. CreateOrderAtomic healthy 0 (mk_order 7) example_items 7 example_db =
    (Inr (row, updated), example_db1) \<and> o_id row = 1"
  by (simp add: example_db1_def order_eval example_defs)

lemma example_db1_status: "status_of example_db1 1 = Some ''pending''"
  by (simp add: example_db1_def status_of_def order_eval example_defs)

lemma example_cancelled:
  "\<exists>ms restored. CancelPendingOrderAtomic healthy False hd 0 1 ''cancelled'' (Some 7) example_db1 =
    (Inr (ms, False, restored), example_db2)"
  by (simp add: example_db2_def example_db1_def order_eval example_defs)

lemma example_reachable: "order_reachable example_db example_db2"
proof -
  have "order_step example_db example_db1"
    using example_created order_step.create [OF example_items_ok(3,1,2)] by blast
  moreover have "order_step example_db1 example_db2"
    using example_cancelled order_step.cancel [OF example_items_ok(4)] by blast
  ultimately show ?thesis unfolding order_reachable_def by simp
qed

section \<open>Guarantees over all histories\<close>





text \<open>
  C4. The life of an order: it keeps its status through any history, except that a pending
  one may become completed, expired or cancelled; these three are final, and no order
  disappears.
\<close>

theorem order_status_final:
  assumes "shop_inv db" "order_reachable db db'" "status_of db k = Some s"
  shows "\<exists>s'. status_of db' k = Some s' \<and>
    (s' = s \<or> s = ''pending'' \<and> s' \<in> {''completed'', ''expired'', ''cancelled''})"
  using assms(2)[unfolded order_reachable_def]
proof (induction rule: rtranclp_induct)
  case (step y z)
  then have y: "shop_inv y"
    using order_reachable_inv [of db y] assms(1) by (simp add: order_reachable_def)
  from step obtain t where t: "status_of y k = Some t"
      "t = s \<or> s = ''pending'' \<and> t \<in> {''completed'', ''expired'', ''cancelled''}" by blast
  have "inventory_step (abs_inventory y) (abs_inventory z)" by (rule order_step_refines [OF step(2) y])
  then have "\<exists>s'. status_of z k = Some s' \<and>
      (s' = t \<or> t = ''pending'' \<and> s' \<in> {''completed'', ''expired'', ''cancelled''})"
    using t(1)
    by (cases rule: inventory_step.cases) (auto simp: abs_inventory_def split: if_splits)
  with t show ?case by auto
qed (use assms(3) in simp)

theorem order_status_final_witness:
  "\<exists>s'. status_of example_db2 1 = Some s' \<and> s' \<in> {''pending'', ''completed'', ''expired'', ''cancelled''}"
proof -
  have inv: "shop_inv example_db1"
    using example_created create_inv [OF example_inv _ example_items_ok(1,2)] by blast
  have "order_reachable example_db1 example_db2"
    using example_cancelled order_step.cancel [OF example_items_ok(4)]
    unfolding order_reachable_def by blast
  from order_status_final [OF inv this example_db1_status] show ?thesis by auto
qed

section \<open>The operations\<close>

text \<open>
  C5. \<open>CreateOrderAtomic\<close> on a working connection takes an order exactly when every product
  it names is active and has the sum of its quantities in stock; otherwise it answers
  insufficient stock for one of its products and leaves every table as it was.
\<close>

theorem create_order_decides:
  assumes "shop_inv db" "o_status ord = ''pending''" "\<forall>it \<in> set items. 0 < oi_quantity it"
  shows "(if \<forall>it \<in> set items. available (products db) (oi_product_id it) (qty items (oi_product_id it))
    then is_ok (fst (CreateOrderAtomic healthy now ord items uid db))
    else \<exists>it \<in> set items. CreateOrderAtomic healthy now ord items uid db =
      (Inl (InsufficientStock (oi_product_id it)), db))"
proof -
  have keys: "distinct (map p_id (products db))"
    using assms(1) by (simp add: shop_inv_def schema_inv_def)
  have stmts: "\<forall>j. c_stmt healthy j" by (simp add: healthy_def)
  note iff = decrement_all_iff [OF keys stmts assms(3), of 0 now]
  show ?thesis
  proof (cases "decrement_all healthy 0 now items (products db)")
    case (Inl e)
    then have "CreateOrderAtomic healthy now ord items uid db = (Inl e, db)"
      by (simp add: CreateOrderAtomic_def create_body_def run_tx_def healthy_def)
    moreover have "\<not> (\<forall>it \<in> set items.
        available (products db) (oi_product_id it) (qty items (oi_product_id it)))"
      using iff Inl by simp
    ultimately show ?thesis using decrement_all_error [OF keys stmts Inl] by auto
  next
    case (Inr x)
    obtain updated ps where x: "x = (updated, ps)" by (cases x)
    let ?ord = "ord\<lparr>o_id := next_order db, o_created_at := now, o_updated_at := now\<rparr>"
    let ?db = "db\<lparr>products := ps, orders := orders db @ [?ord\<lparr>o_items := []\<rparr>],
      next_order := next_order db + 1\<rparr>"
    have dec: "map p_id ps = map p_id (products db)"
      "\<forall>it \<in> set items. oi_product_id it \<in> p_id ` set (products db)"
      using decrement_all_ok [OF keys Inr [unfolded x]] by auto
    then have "p_id ` set ps = p_id ` set (products db)" by (metis list.set_map)
    with dec(2) have "is_ok (insert_items healthy (Suc (length items)) (next_order db) items ?db)"
      using stmts by (intro insert_items_total) auto
    then obtain items' db2 where "insert_items healthy (Suc (length items)) (next_order db) items ?db =
        Inr (items', db2)" by (auto simp: is_ok_iff)
    then have "is_ok (fst (CreateOrderAtomic healthy now ord items uid db))"
      using Inr x assms(2) stmts
      by (simp add: CreateOrderAtomic_def create_body_def run_tx_def insert_order_def
          order_status_ok_def Let_def) (simp add: healthy_def)
    moreover have "\<forall>it \<in> set items.
        available (products db) (oi_product_id it) (qty items (oi_product_id it))"
      using iff Inr by simp
    ultimately show ?thesis by auto
  qed
qed

theorem create_order_decides_witness:
  "is_ok (fst (CreateOrderAtomic healthy 0 (mk_order 7) example_items 7 example_db))"
  using create_order_decides [OF example_inv example_items_ok(3,1), of 0 7]
  by (simp add: available_def find_row_def example_db_def example_items_def mk_item_def
      mk_product_def split: if_splits)

text \<open>
  C6. What a taken order changes: the stock of each product goes down by what the order took,
  the order appears under a fresh id with the caller's data, its lines carry that id, and of
  the cart only the customer's lines with the ordered products go.
\<close>

theorem create_order_effect:
  assumes "shop_inv db" "CreateOrderAtomic c now ord items uid db = (Inr (row, updated), db')"
  shows "(\<forall>pid. stock_of db' pid = stock_of db pid - qty items pid) \<and>
    o_id row = next_order db \<and> status_of db (o_id row) = None \<and>
    find_order db' (o_id row) = Some (ord\<lparr>o_id := o_id row, o_created_at := now,
      o_updated_at := now, o_items := []\<rparr>) \<and>
    map oi_product_id (order_lines db' (o_id row)) = map oi_product_id items \<and>
    map oi_quantity (order_lines db' (o_id row)) = map oi_quantity items \<and>
    set (cart_items db') = {ci \<in> set (cart_items db).
      \<not> (uid \<noteq> 0 \<and> ci_user_id ci = uid \<and> ci_product_id ci \<in> oi_product_id ` set items)} \<and>
    (\<forall>k. k \<noteq> o_id row \<longrightarrow> status_of db' k = status_of db k \<and> order_lines db' k = order_lines db k)"
proof -
  have schema: "schema_inv db" using assms(1) by (simp add: shop_inv_def)
  note eff = create_effect [OF schema assms(2)]
  have "find_row o_id (orders db) (next_order db) = None"
    using fresh_order(1) [OF schema] by (simp add: status_of_def)
  then have row: "find_order db' (next_order db) = Some (ord\<lparr>o_id := next_order db, o_created_at := now,
      o_updated_at := now, o_items := []\<rparr>)"
    using create_body_ok [OF CreateOrderAtomic_ok [OF assms(2)]]
    by (auto simp: find_row_append)
  have cart: "set (cart_items db') = {ci \<in> set (cart_items db).
      \<not> (uid \<noteq> 0 \<and> ci_user_id ci = uid \<and> ci_product_id ci \<in> oi_product_id ` set items)}"
    using create_body_ok [OF CreateOrderAtomic_ok [OF assms(2)]]
    by (auto simp: clear_ordered_def split: if_splits)
  show ?thesis
    using row cart
    by (simp add: eff fresh_order(1) [OF schema] item_rows_products item_rows_quantities)
qed

theorem create_order_effect_witness:
  "stock_of example_db1 1 = stock_of example_db 1 - 2"
proof -
  obtain row updated where
    "CreateOrderAtomic healthy 0 (mk_order 7) example_items 7 example_db = (Inr (row, updated), example_db1)"
    using example_created by blast
  from create_order_effect [OF example_inv this] show ?thesis
    by (simp add: example_items_def mk_item_def)
qed

text \<open>
  C7. Cancelling undoes creating: an order of distinct products that is cancelled (or expires)
  right after it was created gives back exactly the stock it took, and a second attempt is
  reported as already handled without touching anything.
\<close>

theorem cancel_undoes_create:
  assumes "shop_inv db" "o_status ord = ''pending''" "\<forall>it \<in> set items. 0 < oi_quantity it"
    "distinct (map oi_product_id items)" "picks_row pick"
    "CreateOrderAtomic c now ord items uid db = (Inr (row, updated), db1)"
    "CancelPendingOrderAtomic c' False pick now' (o_id row) target owner db1 =
      (Inr (ms, False, restored), db2)"
  shows "stock_of db2 pid = stock_of db pid \<and> status_of db2 (o_id row) = Some target \<and>
    CancelPendingOrderAtomic healthy locked pick now' (o_id row) target owner' db2 =
      (Inr (None, True, []), db2)"
proof -
  have schema: "schema_inv db" using assms(1) by (simp add: shop_inv_def)
  note eff = create_effect [OF schema assms(6)]
  have inv1: "shop_inv db1" by (rule create_inv [OF assms(1,6,3,4)])
  then have s1: "schema_inv db1" "lines_inv db1" by (simp_all add: shop_inv_def)
  from CancelPending_cases [OF assms(7)] have db2: "db2 = cancelled_db pick now' (o_id row) target db1"
    and target: "target \<in> allowedCancelStatuses" by auto
  have st: "status_of db2 (o_id row) = Some target"
    using assms(2) by (simp add: db2 cancelled_effect eff(3,6))
  then obtain o' where o': "find_order db2 (o_id row) = Some o'" "o_status o' = target"
    by (auto simp: status_of_def)
  have "stock_of db2 pid = stock_of db pid"
    unfolding db2 stock_cancelled_lines [OF s1 assms(5)] by (simp add: eff)
  moreover have "CancelPendingOrderAtomic healthy locked pick now' (o_id row) target owner' db2 =
      (Inr (None, True, []), db2)"
    using o' target
    by (auto simp: CancelPendingOrderAtomic_def cancel_body_def healthy_def allowedCancelStatuses_def)
  ultimately show ?thesis using st by blast
qed

theorem cancel_undoes_create_witness:
  "stock_of example_db2 1 = stock_of example_db 1 \<and> status_of example_db2 1 = Some ''cancelled''"
proof -
  obtain row updated where created:
    "CreateOrderAtomic healthy 0 (mk_order 7) example_items 7 example_db = (Inr (row, updated), example_db1)"
    and row: "o_id row = 1"
    using example_created by blast
  obtain ms restored where
    "CancelPendingOrderAtomic healthy False hd 0 1 ''cancelled'' (Some 7) example_db1 =
      (Inr (ms, False, restored), example_db2)"
    using example_cancelled by blast
  then show ?thesis
    using cancel_undoes_create [OF example_inv example_items_ok(3,1,2,4) created, of healthy 0]
    unfolding row by blast
qed

text \<open>
  An order with two lines of the same product does not get its stock back: the UPDATE of a
  cancellation joins the product with one of the lines only, so less is restored than was
  taken.
\<close>

theorem duplicate_lines_lose_stock:
  assumes "schema_inv db" "picks_row pick" "\<forall>it \<in> set (order_lines db k). 0 < oi_quantity it"
    "1 < length (filter (\<lambda>it. oi_product_id it = pid) (order_lines db k))"
    "CancelPendingOrderAtomic c locked pick now k target owner db = (Inr (ms, False, restored), db')"
  shows "stock_of db' pid < stock_of db pid + qty (order_lines db k) pid"
proof -
  let ?its = "filter (\<lambda>it. oi_product_id it = pid) (order_lines db k)"
  from CancelPending_cases [OF assms(5)] have "db' = cancelled_db pick now k target db" by auto
  moreover have ne: "?its \<noteq> []" using assms(4) by force
  ultimately have stock: "stock_of db' pid = stock_of db pid + oi_quantity (pick ?its)"
    using stock_cancelled [OF assms(1), of pick now k target pid] by simp
  have "pick ?its \<in> set ?its" using assms(2) ne unfolding picks_row_def by blast
  then obtain as x bs where x: "pick ?its = x" and split: "?its = as @ x # bs" by (meson split_list)
  have rest: "as @ bs \<noteq> []" using assms(4) by (auto simp: split)
  have "\<forall>it \<in> set ?its. 0 < oi_quantity it" using assms(3) by simp
  then have "\<forall>it \<in> set (as @ bs). 0 < oi_quantity it" by (auto simp: split)
  then have "0 < sum_list (map oi_quantity (as @ bs))"
    using rest by (rule_tac sum_list_pos)
  moreover have "qty (order_lines db k) pid = oi_quantity x + sum_list (map oi_quantity (as @ bs))"
    by (simp add: qty_def split)
  ultimately show ?thesis using stock by (simp add: x)
qed

text \<open>One product, ordered in two lines of one order.\<close>

definition twice_db :: shop_db where
  "twice_db = empty_shop\<lparr>products := [mk_product 1 10 2],
     orders := [(mk_order 7)\<lparr>o_id := 1\<rparr>], next_order := 2,
     order_items := [(mk_item 1 1 10)\<lparr>oi_order_id := 1\<rparr>, (mk_item 1 2 10)\<lparr>oi_order_id := 1\<rparr>]\<rparr>"

theorem duplicate_lines_lose_stock_witness:
  "stock_of (snd (CancelPendingOrderAtomic healthy False hd 0 1 ''cancelled'' None twice_db)) 1 < 2 + 3"
proof -
  obtain ms restored where "CancelPendingOrderAtomic healthy False hd 0 1 ''cancelled'' None twice_db =
      (Inr (ms, False, restored), snd (CancelPendingOrderAtomic healthy False hd 0 1 ''cancelled'' None twice_db))"
    by (simp add: twice_db_def order_eval example_defs)
  moreover have "schema_inv twice_db"
    by (simp add: schema_inv_def twice_db_def example_defs order_status_ok_def)
  ultimately show ?thesis
    using duplicate_lines_lose_stock [of twice_db hd 1 1 healthy False 0 "''cancelled''" None]
    by (simp add: example_items_ok order_lines_def twice_db_def example_defs stock_in_def find_row_def)
qed



end
