(* ===== verification/Categories.thy ===== *)
theory Categories
  imports Schema
begin

text \<open>
  internal/db/categories.go, and the recursive query \<open>category_tree\<close> of internal/db/products.go
  that walks the categories the other way, from a root down to its subcategories. The
  database evaluates WITH RECURSIVE ... UNION ALL level by level until a level is empty, so on
  a cycle it never ends; \<open>category_tree\<close> gives \<open>None\<close> then (the statement runs into the
  timeout of the call). As a level is empty after at most as many steps as there are
  categories, or never, that number plus one is enough fuel.
\<close>

section \<open>The operations\<close>

definition UpsertByName :: "conn \<Rightarrow> (string \<Rightarrow> shop_db \<Rightarrow> shop_db) \<Rightarrow> string \<Rightarrow> shop_db
    \<Rightarrow> id64 result \<times> shop_db" where
  "UpsertByName c rival name db =
     (if \<not> c_stmt c 0 then (Inl DbError, db)
      else case filter (\<lambda>r. c_name r = name) (categories db) of
        r # _ \<Rightarrow> (Inr (c_id r), db)
      | [] \<Rightarrow>
          let db1 = rival name db in
          if c_stmt c 1 \<and> name \<notin> c_name ` set (categories db1) then
            (Inr (next_category db1),
             db1\<lparr>categories := categories db1 @ [\<lparr>c_id = next_category db1, c_name = name,
                   c_description = None, c_parent_id = None, c_created_at = None\<rparr>],
                 next_category := next_category db1 + 1\<rparr>)
          else if c_stmt c 2 then
            (case filter (\<lambda>r. c_name r = name) (categories db1) of
               r # _ \<Rightarrow> (Inr (c_id r), db1)
             | [] \<Rightarrow> (Inl DbError, db1))
          else (Inl DbError, db1))"

definition SetParent :: "conn \<Rightarrow> id64 \<Rightarrow> id64 option \<Rightarrow> shop_db \<Rightarrow> unit result \<times> shop_db" where
  "SetParent c k parent db =
     (if c_stmt c 0 \<and> (\<forall>q. parent = Some q \<longrightarrow> q \<in> c_id ` set (categories db)) then
        (Inr (), db\<lparr>categories := sql_update (\<lambda>r. c_id r = k) (c_parent_id_update (\<lambda>_. parent))
                       (categories db)\<rparr>)
      else (Inl DbError, db))"

definition ListAll :: "conn \<Rightarrow> shop_db \<Rightarrow> (category list \<Rightarrow> category list) \<Rightarrow> category list result" where
  "ListAll c db order_by_name =
     (if c_stmt c 0 then Inr (order_by_name (categories db)) else Inl DbError)"

text \<open>\<open>AncestorMap\<close>: the map from a category to itself and its ancestors, at most 32 of them.\<close>

definition parent_of :: "category list \<Rightarrow> id64 \<Rightarrow> id64 option" where
  "parent_of cats k = Option.bind (find_row c_id cats k) c_parent_id"

fun climb :: "category list \<Rightarrow> nat \<Rightarrow> id64 option \<Rightarrow> id64 list" where
  "climb cats 0 cur = []"
| "climb cats (Suc depth) None = []"
| "climb cats (Suc depth) (Some k) = k # climb cats depth (parent_of cats k)"

definition maxDepth :: nat where "maxDepth = 32"

definition AncestorMap :: "conn \<Rightarrow> shop_db \<Rightarrow> (id64 \<rightharpoonup> id64 list) result" where
  "AncestorMap c db =
     (if \<not> c_stmt c 0 then Inl DbError
      else Inr (\<lambda>k. if k \<in> c_id ` set (categories db)
                  then Some (k # climb (categories db) maxDepth (parent_of (categories db) k))
                  else None))"

interpretation set_parent: row_update c_id "c_parent_id_update (\<lambda>_. parent)" for parent
  by unfold_locales simp

section \<open>Subcategories\<close>

definition children :: "category list \<Rightarrow> id64 \<Rightarrow> id64 list" where
  "children cats k = map c_id (filter (\<lambda>r. c_parent_id r = Some k) cats)"

fun tree_levels :: "category list \<Rightarrow> nat \<Rightarrow> id64 list \<Rightarrow> id64 list option" where
  "tree_levels cats fuel [] = Some []"
| "tree_levels cats 0 (k # ks) = None"
| "tree_levels cats (Suc fuel) (k # ks) =
     map_option ((@) (k # ks)) (tree_levels cats fuel (concat (map (children cats) (k # ks))))"

definition category_tree :: "category list \<Rightarrow> id64 list \<Rightarrow> id64 list option" where
  "category_tree cats roots =
     tree_levels cats (length cats + 1) (filter (\<lambda>k. k \<in> c_id ` set cats) roots)"

section \<open>Down is the inverse of up\<close>

text \<open>\<open>k\<close> lies \<open>n\<close> levels under \<open>anc\<close>.\<close>

fun under :: "category list \<Rightarrow> nat \<Rightarrow> id64 \<Rightarrow> id64 \<Rightarrow> bool" where
  "under cats 0 anc k = (k = anc)"
| "under cats (Suc n) anc k = (\<exists>q. parent_of cats k = Some q \<and> under cats n anc q)"

lemma set_children:
  assumes "distinct (map c_id cats)"
  shows "set (children cats q) = {k. parent_of cats k = Some q}"
proof -
  have "parent_of cats k = Some q \<longleftrightarrow> (\<exists>r \<in> set cats. c_id r = k \<and> c_parent_id r = Some q)" for k
    using category_rows.find_row_unique [OF assms]
    by (auto simp: parent_of_def bind_eq_Some_conv dest: category_rows.find_row_Some)
  then show ?thesis by (auto simp: children_def)
qed

lemma under_add: "under cats (n + m) anc k \<longleftrightarrow> (\<exists>q. under cats m q k \<and> under cats n anc q)"
  by (induction m arbitrary: k) auto

lemma under_Suc_front:
  assumes "distinct (map c_id cats)"
  shows "under cats (Suc n) anc k \<longleftrightarrow> (\<exists>q \<in> set (children cats anc). under cats n q k)"
  using under_add [of cats 1 n anc k] by (auto simp: set_children [OF assms])

lemma set_tree_levels:
  assumes "distinct (map c_id cats)" "tree_levels cats fuel ks = Some tree"
  shows "set tree = {k. \<exists>n. \<exists>anc \<in> set ks. under cats n anc k}"
  using assms(2)
proof (induction fuel arbitrary: ks tree)
  case 0
  then show ?case by (cases ks) auto
next
  case (Suc fuel)
  show ?case
  proof (cases ks)
    case (Cons a as)
    let ?next = "concat (map (children cats) ks)"
    from Suc.prems Cons obtain rest where rest: "tree_levels cats fuel ?next = Some rest"
      and tree: "tree = ks @ rest" by auto
    have step: "(\<exists>anc \<in> set ks. under cats (Suc n) anc k) \<longleftrightarrow>
        (\<exists>anc \<in> set ?next. under cats n anc k)" for n k
      unfolding under_Suc_front [OF assms(1)] by auto
    have "k \<in> set tree \<longleftrightarrow> (\<exists>n. \<exists>anc \<in> set ks. under cats n anc k)" for k
    proof -
      have "k \<in> set tree \<longleftrightarrow> k \<in> set ks \<or> (\<exists>n. \<exists>anc \<in> set ks. under cats (Suc n) anc k)"
        unfolding tree set_append Un_iff Suc.IH [OF rest] mem_Collect_eq step ..
      also have "\<dots> \<longleftrightarrow> (\<exists>n. \<exists>anc \<in> set ks. under cats n anc k)"
        by (metis not0_implies_Suc under.simps(1))
      finally show ?thesis .
    qed
    then show ?thesis by blast
  qed (use Suc.prems in auto)
qed

lemma climb_under:
  "anc \<in> set (climb cats depth (parent_of cats k)) \<longleftrightarrow>
    (\<exists>n. n < depth \<and> under cats (Suc n) anc k)"
proof (induction depth arbitrary: k)
  case (Suc depth)
  have split: "(\<exists>n. n < Suc d \<and> P n) \<longleftrightarrow> P 0 \<or> (\<exists>n. n < d \<and> P (Suc n))" for d and P :: "nat \<Rightarrow> bool"
    by (metis Suc_less_eq not0_implies_Suc zero_less_Suc)
  show ?case
    by (cases "parent_of cats k") (auto simp: Suc.IH split simp del: under.simps(2) intro: exI simp: under.simps)
qed simp

section \<open>When the walk down ends\<close>

definition acyclic_categories :: "category list \<Rightarrow> bool" where
  "acyclic_categories cats = (\<forall>k n. \<not> under cats (Suc n) k k)"

lemma tree_levels_ends:
  assumes "distinct (map c_id cats)"
  shows "tree_levels cats fuel ks \<noteq> None \<longleftrightarrow>
    (\<forall>anc \<in> set ks. \<forall>n k. under cats n anc k \<longrightarrow> n < fuel)"
proof (induction fuel arbitrary: ks)
  case 0
  have "\<exists>n k. under cats n anc k" for anc using under.simps(1) by blast
  then show ?case by (cases ks) auto
next
  case (Suc fuel)
  let ?next = "concat (map (children cats) ks)"
  have "(\<forall>anc \<in> set ks. \<forall>n k. under cats n anc k \<longrightarrow> n < Suc fuel) \<longleftrightarrow>
      (\<forall>anc \<in> set ks. \<forall>n k. under cats (Suc n) anc k \<longrightarrow> n < fuel)"
    by (metis Suc_less_eq not0_implies_Suc zero_less_Suc)
  also have "\<dots> \<longleftrightarrow> (\<forall>anc \<in> set ?next. \<forall>n k. under cats n anc k \<longrightarrow> n < fuel)"
    unfolding under_Suc_front [OF assms] by auto
  finally show ?case using Suc.IH [of ?next] by (cases ks) auto
qed

lemma under_category:
  assumes "under cats n anc k" "anc \<in> c_id ` set cats"
  shows "k \<in> c_id ` set cats"
  using assms
  by (cases n) (auto simp: parent_of_def bind_eq_Some_conv dest: category_rows.find_row_Some)

lemma under_bounded:
  assumes "acyclic_categories cats" "under cats n anc k" "anc \<in> c_id ` set cats"
  shows "n < length cats"
proof -
  have "\<exists>x. under cats i anc x \<and> under cats (n - i) x k" if "i \<le> n" for i
    using under_add [of cats i "n - i" anc k] assms(2) that by auto
  then obtain x where x: "\<And>i. i \<le> n \<Longrightarrow> under cats i anc (x i)"
      "\<And>i. i \<le> n \<Longrightarrow> under cats (n - i) (x i) k" by metis
  have functional: "under cats m a y \<Longrightarrow> under cats m b y \<Longrightarrow> a = b" for m a b y
    by (induction m arbitrary: y) auto
  have "x i \<noteq> x j" if "i < j" "j \<le> n" for i j
  proof
    assume same: "x i = x j"
    have "under cats ((n - j) + (j - i)) (x i) k" using x(2) [of i] that by simp
    then obtain q where q: "under cats (j - i) q k" "under cats (n - j) (x i) q"
      unfolding under_add by blast
    have "under cats ((j - i) + (n - j)) (x i) k" using x(2) [of i] that by simp
    then obtain q' where q': "under cats (n - j) q' k" "under cats (j - i) (x i) q'"
      unfolding under_add by blast
    have "q' = x j" using functional [OF q'(1) x(2)] that by simp
    with q'(2) same have "under cats (j - i) (x j) (x j)" by simp
    moreover from that(1) have "j - i = Suc (j - i - 1)" by simp
    ultimately have "under cats (Suc (j - i - 1)) (x j) (x j)" by (simp only:)
    then show False using assms(1) unfolding acyclic_categories_def by blast
  qed
  then have "inj_on x {..n}" by (metis atMost_iff inj_onI linorder_neqE_nat)
  moreover have "x ` {..n} \<subseteq> c_id ` set cats"
  proof
    fix y assume "y \<in> x ` {..n}"
    then obtain i where "i \<le> n" "y = x i" by auto
    then show "y \<in> c_id ` set cats" using under_category [OF x(1) assms(3)] by simp
  qed
  ultimately have "card {..n} \<le> card (c_id ` set cats)" by (intro card_inj_on_le) auto
  also have "\<dots> \<le> length cats" by (metis card_length length_map list.set_map)
  finally show ?thesis by simp
qed

lemma under_iterate:
  assumes "under cats (Suc n) k k"
  shows "under cats (m * Suc n) k k"
proof (induction m)
  case (Suc m)
  have "under cats (Suc n + m * Suc n) k k" unfolding under_add using Suc assms by blast
  then show ?case by (simp only: mult_Suc)
qed simp

text \<open>
  The two walks agree: while no category is its own ancestor and none lies deeper than 32
  levels, the recursive query under a category ends, and it lists exactly the categories that
  have it among their ancestors in \<open>AncestorMap\<close>; so a promotion on a category covers exactly the
  categories the catalogue shows under it.
\<close>

theorem category_walks_agree:
  assumes "distinct (map c_id (categories db))" "acyclic_categories (categories db)"
    "\<forall>n k. under (categories db) n anc k \<longrightarrow> n \<le> 32"
    "anc \<in> c_id ` set (categories db)" "c_stmt c 0"
  shows "\<exists>tree ancestors. category_tree (categories db) [anc] = Some tree \<and>
    AncestorMap c db = Inr ancestors \<and>
    (\<forall>k. k \<in> set tree \<longleftrightarrow> (\<exists>chain. ancestors k = Some chain \<and> anc \<in> set chain))"
proof -
  let ?cats = "categories db"
  have "tree_levels ?cats (length ?cats + 1) [anc] \<noteq> None"
    unfolding tree_levels_ends [OF assms(1)]
    using under_bounded [OF assms(2) _ assms(4)] by fastforce
  then obtain tree where tree: "tree_levels ?cats (length ?cats + 1) [anc] = Some tree" by auto
  have down: "k \<in> set tree \<longleftrightarrow> (\<exists>n. under ?cats n anc k)" for k
    using set_tree_levels [OF assms(1) tree] by auto
  have up: "anc \<in> set (k # climb ?cats maxDepth (parent_of ?cats k)) \<longleftrightarrow> (\<exists>n. under ?cats n anc k)" for k
  proof -
    have "(\<exists>n. under ?cats n anc k) \<longleftrightarrow> k = anc \<or> (\<exists>n. under ?cats (Suc n) anc k)"
      by (metis not0_implies_Suc under.simps(1))
    also have "\<dots> \<longleftrightarrow> k = anc \<or> (\<exists>n < 32. under ?cats (Suc n) anc k)"
      using assms(3) by (meson Suc_le_lessD)
    finally show ?thesis by (auto simp: climb_under maxDepth_def simp del: under.simps(2))
  qed
  show ?thesis
    unfolding AncestorMap_def category_tree_def
    using tree assms(4,5) up down under_category [of ?cats _ anc]
    by auto
qed

definition category_example :: shop_db where
  "category_example = empty_shop\<lparr>categories :=
     [\<lparr>c_id = 1, c_name = ''a'', c_description = None, c_parent_id = None, c_created_at = None\<rparr>,
      \<lparr>c_id = 2, c_name = ''b'', c_description = None, c_parent_id = Some 1, c_created_at = None\<rparr>]\<rparr>"

lemma category_example_under: "under (categories category_example) n anc k \<Longrightarrow> n \<le> 1 \<and> (n = 1 \<longrightarrow> anc = 1 \<and> k = 2)"
proof -
  have parent: "parent_of (categories category_example) k = (if k = 2 then Some 1 else None)" for k
    by (simp add: category_example_def parent_of_def find_row_def)
  assume "under (categories category_example) n anc k"
  then show ?thesis by (cases n; cases "n - 1") (auto simp: parent split: if_splits)
qed

theorem category_walks_agree_witness:
  "\<exists>tree ancestors. category_tree (categories category_example) [1] = Some tree \<and>
    AncestorMap healthy category_example = Inr ancestors \<and>
    (\<forall>k. k \<in> set tree \<longleftrightarrow> (\<exists>chain. ancestors k = Some chain \<and> 1 \<in> set chain))"
proof (rule category_walks_agree)
  show "acyclic_categories (categories category_example)"
    unfolding acyclic_categories_def using category_example_under by fastforce
  show "\<forall>n k. under (categories category_example) n 1 k \<longrightarrow> n \<le> 32"
    using category_example_under by fastforce
qed (simp_all add: category_example_def healthy_def)

lemma cycle_tree_None:
  assumes "under cats (Suc n) k k" "distinct (map c_id cats)" "k \<in> c_id ` set cats"
  shows "category_tree cats [k] = None"
proof -
  have "under cats (Suc (length cats) * Suc n) k k" by (rule under_iterate [OF assms(1)])
  then have "tree_levels cats (length cats + 1) [k] = None"
    using tree_levels_ends [OF assms(2), of "length cats + 1" "[k]"] by fastforce
  then show ?thesis using assms(3) by (simp add: category_tree_def)
qed

lemma own_parent_cycle:
  assumes "distinct (map c_id (categories db))" "k \<in> c_id ` set (categories db)"
  shows "category_tree (categories (snd (SetParent healthy k (Some k) db))) [k] = None"
proof (rule cycle_tree_None)
  obtain r where "find_row c_id (categories db) k = Some r"
    using assms(2) category_rows.find_row_None [of "categories db" k] by fastforce
  moreover from this have "c_id r = k" by (simp add: category_rows.find_row_Some)
  ultimately show "under (categories (snd (SetParent healthy k (Some k) db))) (Suc 0) k k"
    using assms(2) by (simp add: SetParent_def healthy_def parent_of_def set_parent.lookup_update)
qed (use assms in \<open>simp_all add: SetParent_def healthy_def set_parent.update_keys set_parent.update_key_set\<close>)

text \<open>
  Nothing keeps \<open>SetParent\<close> from closing a cycle, and then the recursive query under a
  category of the cycle never ends (the call fails on its timeout), while \<open>AncestorMap\<close> still
  answers: its guard against cycles has no counterpart in the queries of the catalogue.
\<close>

theorem category_cycle_never_ends:
  assumes "distinct (map c_id (categories db))" "k \<in> c_id ` set (categories db)"
  shows "(under (categories db) (Suc n) k k \<longrightarrow> category_tree (categories db) [k] = None) \<and>
    category_tree (categories (snd (SetParent healthy k (Some k) db))) [k] = None \<and>
    is_ok (AncestorMap healthy db)"
  using cycle_tree_None [OF _ assms] own_parent_cycle [OF assms]
  by (simp add: AncestorMap_def healthy_def)

theorem category_cycle_never_ends_witness:
  "category_tree (categories (snd (SetParent healthy 1 (Some 1) category_example))) [1] = None"
  using category_cycle_never_ends [of category_example 1] by (simp add: category_example_def)

end
