(* ===== verification/Text.thy ===== *)
theory Text
  imports Prelude "HOL-Library.Sublist"
begin

text \<open>
  Strings as the code uses them: \<open>strings.TrimSpace\<close> and \<open>strings.ToLower\<close> on ASCII text, and
  the pattern matching of SQL's LIKE and ILIKE, where % stands for any run of characters, _ for
  any one, and a backslash takes the next character as it is.
\<close>

definition is_space :: "char \<Rightarrow> bool" where
  "is_space ch = (ch = CHR '' '' \<or> (9::nat) \<le> of_char ch \<and> of_char ch \<le> (13::nat))"

definition TrimSpace :: "string \<Rightarrow> string" where
  "TrimSpace s = rev (dropWhile is_space (rev (dropWhile is_space s)))"

lemma dropWhile_end_idem: "dropWhile P (rev (dropWhile P (rev (dropWhile P s)))) = rev (dropWhile P (rev (dropWhile P s)))"
proof (cases "dropWhile P s")
  case (Cons a t)
  have "\<not> P a" using Cons by (metis hd_dropWhile list.sel(1) list.discI)
  then have "rev (dropWhile P (rev (a # t))) = a # rev (dropWhile P (rev t))"
    by (auto simp: dropWhile_append split: if_splits)
  then show ?thesis using Cons \<open>\<not> P a\<close> by simp
next
  case Nil
  show ?thesis unfolding Nil by simp
qed

lemma TrimSpace_idem: "TrimSpace (TrimSpace s) = TrimSpace s"
  unfolding TrimSpace_def by (subst dropWhile_end_idem) (simp add: dropWhile_idem)

definition lower_char :: "char \<Rightarrow> char" where
  "lower_char ch = (if (65::nat) \<le> of_char ch \<and> of_char ch \<le> (90::nat) then char_of (of_char ch + (32::nat)) else ch)"

definition ToLower :: "string \<Rightarrow> string" where
  "ToLower s = map lower_char s"

fun sql_like :: "string \<Rightarrow> string \<Rightarrow> bool" where
  "sql_like [] s = (s = [])"
| "sql_like (p # ps) [] = (p = CHR ''%'' \<and> sql_like ps [])"
| "sql_like (p # ps) (ch # s) =
     (if p = CHR ''%'' then sql_like ps (ch # s) \<or> sql_like (p # ps) s
      else if p = CHR ''_'' then sql_like ps s
      else if p = CHR 0x5C then (case ps of q # qs \<Rightarrow> q = ch \<and> sql_like qs s | [] \<Rightarrow> False)
      else p = ch \<and> sql_like ps s)"

definition ILike :: "string \<Rightarrow> string \<Rightarrow> bool" where
  "ILike pattern s = sql_like (ToLower pattern) (ToLower s)"

text \<open>The pattern of a search: the query between two per cent signs, not escaped.\<close>

definition search_pattern :: "string \<Rightarrow> string" where
  "search_pattern query = ''%'' @ query @ ''%''"

definition plain_char :: "char \<Rightarrow> bool" where
  "plain_char ch = (ch \<noteq> CHR ''%'' \<and> ch \<noteq> CHR ''_'' \<and> ch \<noteq> CHR 0x5C)"

lemma like_percent_end: "sql_like ''%'' s"
  by (induction s) auto

lemma like_plain_prefix:
  "\<forall>ch \<in> set q. plain_char ch \<Longrightarrow> sql_like (q @ ps) s \<longleftrightarrow> (\<exists>t. s = q @ t \<and> sql_like ps t)"
proof (induction q arbitrary: s)
  case (Cons a q)
  then show ?case by (cases s) (auto simp: plain_char_def)
qed simp

lemma like_percent: "sql_like (CHR ''%'' # ps) s \<longleftrightarrow> (\<exists>u t. s = u @ t \<and> sql_like ps t)"
proof (induction s)
  case (Cons a s)
  have "(\<exists>u t. a # s = u @ t \<and> sql_like ps t) \<longleftrightarrow>
      sql_like ps (a # s) \<or> (\<exists>u t. s = u @ t \<and> sql_like ps t)"
    by (metis append_Cons append_Nil neq_Nil_conv list.inject)
  with Cons show ?case by simp
qed simp

lemma plain_char_code: "plain_char ch \<longleftrightarrow> of_char ch \<notin> {37, 95, 92 :: nat}"
proof -
  have code: "ch = x \<longleftrightarrow> of_char ch = (of_char x :: nat)" for x by simp
  show ?thesis
    unfolding plain_char_def code [of "CHR ''%''"] code [of "CHR ''_''"] code [of "CHR 0x5C"]
    by (simp del: of_char_eq_iff)
qed

lemma of_lower_char:
  "of_char (lower_char ch) =
    (if (65::nat) \<le> of_char ch \<and> of_char ch \<le> (90::nat) then of_char ch + 32 else of_char ch :: nat)"
  by (auto simp: lower_char_def)

lemma lower_plain: "plain_char (lower_char ch) \<longleftrightarrow> plain_char ch"
  unfolding plain_char_code of_lower_char by auto

lemma ToLower_append: "ToLower (s @ t) = ToLower s @ ToLower t"
  by (simp add: ToLower_def)

lemma ToLower_idem [simp]: "ToLower (ToLower s) = ToLower s"
proof -
  have "lower_char (lower_char ch) = lower_char ch" for ch
  proof -
    have "of_char (lower_char (lower_char ch)) = (of_char (lower_char ch) :: nat)"
      unfolding of_lower_char by auto
    then show ?thesis by simp
  qed
  then show ?thesis by (simp add: ToLower_def)
qed

text \<open>\<open>strings.Index\<close> and \<open>strings.Split\<close> at one character.\<close>

fun find_sub :: "string \<Rightarrow> string \<Rightarrow> nat option" where
  "find_sub sub [] = (if sub = [] then Some 0 else None)"
| "find_sub sub (ch # s) = (if prefix sub (ch # s) then Some 0 else map_option Suc (find_sub sub s))"

lemma find_sub_bound: "find_sub sub s = Some k \<Longrightarrow> k + length sub \<le> length s"
  by (induction s arbitrary: k) (auto split: if_splits dest: prefix_length_le)

lemma find_sub_None: "find_sub sub s = None \<longleftrightarrow> \<not> sublist sub s"
  by (induction s) (auto simp: sublist_Cons_right split: if_splits)

fun split_on :: "char \<Rightarrow> string \<Rightarrow> string list" where
  "split_on d [] = [[]]"
| "split_on d (ch # s) =
     (if ch = d then [] # split_on d s
      else case split_on d s of l # ls \<Rightarrow> (ch # l) # ls | [] \<Rightarrow> [[ch]])"

text \<open>\<open>utf8.RuneCountInString\<close> of valid UTF-8: the bytes that do not continue a character.\<close>

definition runes :: "string \<Rightarrow> nat" where
  "runes s = length (filter (\<lambda>ch. \<not> ((128::nat) \<le> of_char ch \<and> of_char ch \<le> (191::nat))) s)"

text \<open>A query without special characters finds the names that contain it, whatever the case.\<close>

lemma search_pattern_contains:
  assumes "\<forall>ch \<in> set query. plain_char ch"
  shows "ILike (search_pattern query) s \<longleftrightarrow> sublist (ToLower query) (ToLower s)"
proof -
  have pct: "ToLower ''%'' = ''%''" by (simp add: ToLower_def lower_char_def)
  have "\<forall>ch \<in> set (ToLower query). plain_char ch"
    using assms by (auto simp: ToLower_def lower_plain)
  note prefix = like_plain_prefix [OF this, of "''%''"]
  have "ILike (search_pattern query) s \<longleftrightarrow> (\<exists>u t. ToLower s = u @ t \<and> sql_like (ToLower query @ ''%'') t)"
    unfolding ILike_def search_pattern_def ToLower_append pct by (simp add: like_percent)
  also have "\<dots> \<longleftrightarrow> (\<exists>u t. ToLower s = u @ ToLower query @ t)"
    unfolding prefix using like_percent_end by auto
  finally show ?thesis by (auto simp: sublist_def)
qed

section \<open>Numbers in text\<close>

definition is_digit :: "char \<Rightarrow> bool" where
  "is_digit ch = ((48::nat) \<le> of_char ch \<and> of_char ch \<le> (57::nat))"

definition digit :: "nat \<Rightarrow> char" where
  "digit n = char_of (48 + n)"

fun decimal :: "nat \<Rightarrow> string" where
  "decimal n = (if n < 10 then [digit n] else decimal (n div 10) @ [digit (n mod 10)])"

declare decimal.simps [simp del]

text \<open>\<open>%d\<close> of a signed number.\<close>

definition show_int :: "int \<Rightarrow> string" where
  "show_int n = (if n < 0 then CHR ''-'' # decimal (nat (- n)) else decimal (nat n))"

lemma is_digit_digit: "n < 10 \<Longrightarrow> is_digit (digit n)"
  by (auto simp: is_digit_def digit_def of_char_of)

lemma decimal_digits: "list_all is_digit (decimal n)"
proof (induction n rule: decimal.induct)
  case (1 n)
  then show ?case by (subst decimal.simps) (simp add: is_digit_digit)
qed

lemma length_decimal: "10 ^ k \<le> n \<Longrightarrow> n < 10 * 10 ^ k \<Longrightarrow> length (decimal n) = Suc k"
proof (induction k arbitrary: n)
  case 0
  then show ?case by (subst decimal.simps) simp
next
  case (Suc k)
  have one: "(1::nat) \<le> 10 ^ k" by simp
  have "(10::nat) \<le> 10 * 10 ^ k" using one by simp
  also have "\<dots> \<le> n" using Suc.prems(1) by simp
  finally have big: "\<not> n < 10" by simp
  have "10 ^ k \<le> n div 10" "n div 10 < 10 * 10 ^ k"
    using Suc.prems by (simp_all add: less_eq_div_iff_mult_less_eq div_less_iff_less_mult)
  note this big
  with Suc.IH [of "n div 10"] show ?case by (subst decimal.simps) simp
qed

text \<open>
  \<open>strconv.Atoi\<close> and \<open>strconv.ParseInt\<close> on 64 bits; where the code ignores the error, it goes on with 0,
  or with the last number of the type when the text has a larger one.
\<close>

fun digits_value :: "int \<Rightarrow> string \<Rightarrow> int option" where
  "digits_value acc [] = Some acc"
| "digits_value acc (ch # s) = (if is_digit ch then digits_value (10 * acc + of_char ch - 48) s else None)"

definition Atoi :: "string \<Rightarrow> int option" where
  "Atoi s =
     (let neg = (s \<noteq> [] \<and> hd s = CHR ''-'');
          body = (if s \<noteq> [] \<and> hd s \<in> {CHR ''-'', CHR ''+''} then tl s else s)
      in if body = [] then None
         else case digits_value 0 body of
           None \<Rightarrow> None
         | Some v \<Rightarrow>
             let n = (if neg then - v else v) in if - (2 ^ 63) \<le> n \<and> n < 2 ^ 63 then Some n else None)"

definition Atoi_value :: "string \<Rightarrow> int" where
  "Atoi_value s =
     (case Atoi s of
        Some n \<Rightarrow> n
      | None \<Rightarrow>
          (let neg = (s \<noteq> [] \<and> hd s = CHR ''-'');
               body = (if s \<noteq> [] \<and> hd s \<in> {CHR ''-'', CHR ''+''} then tl s else s)
           in if body = [] \<or> digits_value 0 body = None then 0
              else if neg then - (2 ^ 63) else 2 ^ 63 - 1))"

text \<open>What \<open>%d\<close> prints is read back.\<close>

lemma digits_value_append:
  "digits_value acc (s @ t) = (case digits_value acc s of Some v \<Rightarrow> digits_value v t | None \<Rightarrow> None)"
  by (induction s arbitrary: acc) auto

lemma digit_value: "n < 10 \<Longrightarrow> of_char (digit n) = (48 + int n)"
proof -
  assume "n < 10"
  then have "(of_char (digit n) :: nat) = 48 + n" by (simp add: digit_def of_char_of)
  moreover have "(of_char (digit n) :: int) = int (of_char (digit n))" by (metis of_nat_of_char)
  ultimately show ?thesis by simp
qed

lemma digits_value_decimal: "digits_value 0 (decimal n) = Some (int n)"
proof (induction n rule: decimal.induct)
  case (1 n)
  show ?case
  proof (cases "n < 10")
    case True
    then show ?thesis by (subst decimal.simps) (simp add: is_digit_digit digit_value)
  next
    case False
    have "int n = 10 * int (n div 10) + int (n mod 10)" by presburger
    with False 1 show ?thesis
      by (subst decimal.simps) (simp add: digits_value_append is_digit_digit digit_value)
  qed
qed

lemma decimal_head: "decimal n \<noteq> [] \<and> hd (decimal n) \<notin> {CHR ''-'', CHR ''+''}"
proof -
  have "decimal n \<noteq> []" by (subst decimal.simps) simp
  moreover have "is_digit (hd (decimal n))" using calculation decimal_digits [of n] by (simp add: list_all_iff)
  moreover have "\<not> is_digit (CHR ''-'')" "\<not> is_digit (CHR ''+'')" by (simp_all add: is_digit_def)
  ultimately show ?thesis by auto
qed

lemma Atoi_show_int:
  assumes "- (2 ^ 63) \<le> n" "n < 2 ^ 63"
  shows "Atoi (show_int n) = Some n"
  using assms decimal_head digits_value_decimal by (auto simp: Atoi_def show_int_def Let_def)

end
