(* ===== verification/ProductStore.thy ===== *)
theory ProductStore
  imports Categories Text
begin

text \<open>
  internal/db/products.go: the product table. A row as the database gives it has blank
  transient fields (those the use cases fill for the client). Rows with the same creation
  time come in an order Postgres leaves open; the model has them newest row first. The LIMIT
  and OFFSET arguments are the non-negative numbers the callers pass.
\<close>

section \<open>Rows\<close>

definition product_statuses :: "string set" where
  "product_statuses = {''active'', ''out_of_stock'', ''deleted'', ''archived''}"

definition blank_transient :: "product \<Rightarrow> product" where
  "blank_transient p = p\<lparr>p_effective_price := None, p_discount_percent := None,
     p_promotion_type := [], p_promotion_title := [], p_promotion_kind := []\<rparr>"

definition newest_first :: "('r \<Rightarrow> time) \<Rightarrow> 'r list \<Rightarrow> 'r list" where
  "newest_first created rows = rev (sort_key created rows)"

definition page :: "nat \<Rightarrow> nat \<Rightarrow> 'r list \<Rightarrow> 'r list" where
  "page limit offset rows = take limit (drop offset rows)"

text \<open>The WHERE of the catalogue: active, of status active, and in stock.\<close>

definition on_sale :: "product \<Rightarrow> bool" where
  "on_sale p = (p_active p \<and> p_status p = ''active'' \<and> 0 < p_stock p)"

definition listed :: "product \<Rightarrow> bool" where
  "listed p = (p_active p \<and> p_status p = ''active'')"

definition in_categories :: "id64 list \<Rightarrow> product \<Rightarrow> bool" where
  "in_categories tree p = (case p_category_id p of Some k \<Rightarrow> k \<in> set tree | None \<Rightarrow> False)"

section \<open>Reading\<close>

definition product_GetByID :: "conn \<Rightarrow> nat \<Rightarrow> id64 \<Rightarrow> shop_db \<Rightarrow> product option result" where
  "product_GetByID c k pid db =
     (if \<not> c_stmt c k then Inl DbError
      else case scan_one (filter (\<lambda>p. p_id p = pid) (products db)) of
        NoRows \<Rightarrow> Inr None
      | OneRow p \<Rightarrow> Inr (Some p)
      | ManyRows \<Rightarrow> Inl DbError)"

definition product_GetByIDs :: "conn \<Rightarrow> nat \<Rightarrow> id64 list \<Rightarrow> shop_db \<Rightarrow> product list result" where
  "product_GetByIDs c k ids db =
     (if ids = [] then Inr []
      else if \<not> c_stmt c k then Inl DbError
      else Inr (filter (\<lambda>p. p_id p \<in> set ids) (products db)))"

definition product_GetByMoyskladID :: "conn \<Rightarrow> nat \<Rightarrow> string \<Rightarrow> shop_db \<Rightarrow> product option result" where
  "product_GetByMoyskladID c k ms db =
     (if \<not> c_stmt c k then Inl DbError
      else case scan_one (filter (\<lambda>p. p_moysklad_id p = Some ms) (products db)) of
        NoRows \<Rightarrow> Inr None
      | OneRow p \<Rightarrow> Inr (Some p)
      | ManyRows \<Rightarrow> Inl DbError)"

definition product_GetAll :: "conn \<Rightarrow> nat \<Rightarrow> nat \<Rightarrow> shop_db \<Rightarrow> product list result" where
  "product_GetAll c limit offset db =
     (if c_stmt c 0 then Inr (page limit offset (newest_first p_created_at (products db)))
      else Inl DbError)"

definition GetActive :: "conn \<Rightarrow> nat \<Rightarrow> nat \<Rightarrow> shop_db \<Rightarrow> product list result" where
  "GetActive c limit offset db =
     (if c_stmt c 0 then
        Inr (page limit offset (newest_first p_created_at (filter on_sale (products db))))
      else Inl DbError)"

text \<open>
  The rows a search selects, and those of a category with its subcategories; \<open>None\<close> when the
  recursive query does not end.
\<close>

definition search_rows :: "string \<Rightarrow> id64 option \<Rightarrow> shop_db \<Rightarrow> product list option" where
  "search_rows query categoryID db =
     (let hit = (\<lambda>p. on_sale p \<and> ILike (search_pattern query) (p_name p))
      in case categoryID of
        Some k \<Rightarrow> map_option (\<lambda>tree. filter (\<lambda>p. hit p \<and> in_categories tree p) (products db))
                    (category_tree (categories db) [k])
      | None \<Rightarrow> Some (filter hit (products db)))"

definition category_products :: "id64 \<Rightarrow> shop_db \<Rightarrow> product list option" where
  "category_products k db =
     map_option (\<lambda>tree. filter (\<lambda>p. on_sale p \<and> in_categories tree p) (products db))
       (category_tree (categories db) [k])"

definition Search ::
  "conn \<Rightarrow> string \<Rightarrow> id64 option \<Rightarrow> nat \<Rightarrow> nat \<Rightarrow> shop_db \<Rightarrow> product list result" where
  "Search c query categoryID limit offset db =
     (if \<not> c_stmt c 0 then Inl DbError
      else case search_rows query categoryID db of
        None \<Rightarrow> Inl DbError
      | Some rows \<Rightarrow> Inr (page limit offset (newest_first p_created_at rows)))"

definition GetByCategory :: "conn \<Rightarrow> id64 \<Rightarrow> nat \<Rightarrow> nat \<Rightarrow> shop_db \<Rightarrow> product list result" where
  "GetByCategory c k limit offset db =
     (if \<not> c_stmt c 0 then Inl DbError
      else case category_products k db of
        None \<Rightarrow> Inl DbError
      | Some rows \<Rightarrow> Inr (page limit offset (newest_first p_created_at rows)))"

definition CountActive :: "conn \<Rightarrow> shop_db \<Rightarrow> nat result" where
  "CountActive c db =
     (if c_stmt c 0 then Inr (length (filter on_sale (products db))) else Inl DbError)"

definition CountByCategory :: "conn \<Rightarrow> id64 \<Rightarrow> shop_db \<Rightarrow> nat result" where
  "CountByCategory c k db =
     (if \<not> c_stmt c 0 then Inl DbError
      else case category_products k db of None \<Rightarrow> Inl DbError | Some rows \<Rightarrow> Inr (length rows))"

definition CountSearch :: "conn \<Rightarrow> string \<Rightarrow> id64 option \<Rightarrow> shop_db \<Rightarrow> nat result" where
  "CountSearch c query categoryID db =
     (if \<not> c_stmt c 0 then Inl DbError
      else case search_rows query categoryID db of
        None \<Rightarrow> Inl DbError
      | Some rows \<Rightarrow> Inr (length rows))"

definition ListIDsByCategoryTrees :: "conn \<Rightarrow> id64 list \<Rightarrow> shop_db \<Rightarrow> id64 list result" where
  "ListIDsByCategoryTrees c ks db =
     (if ks = [] then Inr []
      else if \<not> c_stmt c 0 then Inl DbError
      else case tree_levels (categories db) (length (categories db) + 1) ks of
        None \<Rightarrow> Inl DbError
      | Some tree \<Rightarrow>
          Inr (map p_id (filter (\<lambda>p. listed p \<and> in_categories tree p) (products db))))"

definition matches_text :: "string \<Rightarrow> product \<Rightarrow> bool" where
  "matches_text search p =
     (search = [] \<or> ILike (search_pattern search) (p_name p) \<or>
      (case p_description p of Some d \<Rightarrow> ILike (search_pattern search) d | None \<Rightarrow> False))"

definition FilterPromotionalIDs ::
  "conn \<Rightarrow> id64 list \<Rightarrow> string \<Rightarrow> id64 option \<Rightarrow> shop_db \<Rightarrow> id64 list result" where
  "FilterPromotionalIDs c ids search categoryID db =
     (if ids = [] then Inr []
      else
        let search = TrimSpace search;
            hit = (\<lambda>p. listed p \<and> p_id p \<in> set ids \<and> matches_text search p)
        in if \<not> c_stmt c 0 then Inl DbError
           else if categoryID \<noteq> None \<and> 0 < the categoryID then
             (case category_tree (categories db) [the categoryID] of
                None \<Rightarrow> Inl DbError
              | Some tree \<Rightarrow> Inr (map p_id (filter (\<lambda>p. hit p \<and> in_categories tree p) (products db))))
           else Inr (map p_id (filter hit (products db))))"

definition ListCategoriesForProductIDs ::
  "conn \<Rightarrow> (category list \<Rightarrow> category list) \<Rightarrow> id64 list \<Rightarrow> shop_db \<Rightarrow> (id64 \<times> string) list result" where
  "ListCategoriesForProductIDs c order_by_name ids db =
     (if ids = [] then Inr []
      else if \<not> c_stmt c 0 then Inl DbError
      else Inr (map (\<lambda>r. (c_id r, c_name r)) (order_by_name
             (filter (\<lambda>r. \<exists>p \<in> set (products db). p_id p \<in> set ids \<and> p_category_id p = Some (c_id r))
               (categories db)))))"

section \<open>Writing\<close>

text \<open>The constraints of the table on the row with key \<open>k\<close>.\<close>

definition product_constraints :: "shop_db \<Rightarrow> id64 \<Rightarrow> product \<Rightarrow> bool" where
  "product_constraints db k p =
     (p_status p \<in> product_statuses \<and>
      (\<forall>q. p_category_id p = Some q \<longrightarrow> q \<in> c_id ` set (categories db)) \<and>
      (\<forall>r \<in> set (products db). p_id r \<noteq> k \<longrightarrow> p_moysklad_id p \<noteq> None \<longrightarrow>
         p_moysklad_id r \<noteq> p_moysklad_id p))"

definition product_Insert :: "conn \<Rightarrow> nat \<Rightarrow> time \<Rightarrow> product \<Rightarrow> shop_db \<Rightarrow> product result \<times> shop_db" where
  "product_Insert c k now p db =
     (let row = p\<lparr>p_id := next_product db,
                  p_created_at := (if p_created_at p = zero_time then now else p_created_at p),
                  p_updated_at := (if p_updated_at p = zero_time then now else p_updated_at p)\<rparr>
      in if c_stmt c k \<and> product_constraints db (next_product db) p then
           (Inr row, db\<lparr>products := products db @ [blank_transient row],
                        next_product := next_product db + 1\<rparr>)
         else (Inl DbError, db))"

definition product_columns :: "product \<Rightarrow> product \<Rightarrow> product" where
  "product_columns p row =
     row\<lparr>p_name := p_name p, p_description := p_description p, p_price := p_price p,
         p_image_url := p_image_url p, p_moysklad_id := p_moysklad_id p,
         p_category_id := p_category_id p, p_stock := p_stock p, p_active := p_active p,
         p_status := p_status p, p_last_sync_updated := p_last_sync_updated p,
         p_updated_at := p_updated_at p\<rparr>"

definition product_Update ::
  "conn \<Rightarrow> nat \<Rightarrow> time \<Rightarrow> product \<Rightarrow> id64 \<Rightarrow> shop_db \<Rightarrow> product result \<times> shop_db" where
  "product_Update c k now p pid db =
     (let p' = p\<lparr>p_updated_at := now\<rparr>
      in if \<not> c_stmt c k \<or> \<not> product_constraints db pid p' then (Inl DbError, db)
         else case scan_one (sql_returning (\<lambda>r. p_id r = pid) (product_columns p') (products db)) of
           OneRow row \<Rightarrow>
             (Inr (row\<lparr>p_effective_price := p_effective_price p,
                 p_discount_percent := p_discount_percent p, p_promotion_type := p_promotion_type p,
                 p_promotion_title := p_promotion_title p, p_promotion_kind := p_promotion_kind p\<rparr>),
              db\<lparr>products := sql_update (\<lambda>r. p_id r = pid) (product_columns p') (products db)\<rparr>)
         | _ \<Rightarrow> (Inl DbError, db))"

text \<open>Deleting cascades to the cart lines and promotion links; an ordered product stays.\<close>

definition product_Delete :: "conn \<Rightarrow> id64 \<Rightarrow> shop_db \<Rightarrow> unit result \<times> shop_db" where
  "product_Delete c pid db =
     (if \<not> c_stmt c 0 \<or> pid \<in> oi_product_id ` set (order_items db) then (Inl DbError, db)
      else if pid \<notin> p_id ` set (products db) then (Inl (Rejected ''no product found''), db)
      else (Inr (), db\<lparr>products := sql_delete (\<lambda>p. p_id p = pid) (products db),
              cart_items := sql_delete (\<lambda>ci. ci_product_id ci = pid) (cart_items db),
              promotion_products := sql_delete (\<lambda>l. snd l = pid) (promotion_products db)\<rparr>))"

interpretation product_update: row_update p_id "product_columns p" for p
  by unfold_locales (simp add: product_columns_def)

section \<open>Facts\<close>

lemma product_GetByID_find:
  assumes "distinct (map p_id (products db))" "c_stmt c k"
  shows "product_GetByID c k pid db = Inr (find_product db pid)"
  using product_rows.filter_key [OF assms(1), of pid] assms(2)
  by (simp add: product_GetByID_def split: option.splits)

lemma mset_newest_first [simp]: "mset (newest_first f rows) = mset rows"
  by (simp add: newest_first_def)

lemma length_newest_first [simp]: "length (newest_first f rows) = length rows"
  by (simp add: newest_first_def)

lemma set_newest_first [simp]: "set (newest_first f rows) = set rows"
  by (simp add: newest_first_def)

lemma concat_pages: "concat (map (\<lambda>i. page limit (i * limit) rows) [0..<n]) = take (n * limit) rows"
proof (induction n)
  case (Suc n)
  have "take (Suc n * limit) rows = take (n * limit + limit) rows" by (simp add: add.commute)
  then show ?case using Suc by (simp add: page_def take_add)
qed simp

text \<open>
  Paging loses and repeats nothing: the pages of a search, read one after the other until
  the count is covered, hold together exactly the products the search is for, once each, and
  their number is what \<open>CountSearch\<close> says; the products are those on sale whose name matches and,
  when a category is asked for, that lie in it or under it.
\<close>

theorem search_pages_cover:
  assumes "c_stmt c 0" "CountSearch c query categoryID db = Inr found" "found \<le> n * limit"
  shows "\<exists>pages. map (\<lambda>i. Search c query categoryID limit (i * limit) db) [0..<n] = map Inr pages \<and>
    length (concat pages) = found \<and> mset (concat pages) = mset (the (search_rows query categoryID db)) \<and>
    (\<forall>p. p \<in> set (concat pages) \<longleftrightarrow> p \<in> set (products db) \<and> on_sale p \<and>
      ILike (search_pattern query) (p_name p) \<and>
      (\<forall>k. categoryID = Some k \<longrightarrow> in_categories (the (category_tree (categories db) [k])) p))"
proof -
  from assms(1,2) obtain rows where rows: "search_rows query categoryID db = Some rows"
    and found: "length rows = found"
    by (auto simp: CountSearch_def split: option.splits)
  let ?all = "newest_first p_created_at rows"
  let ?pages = "map (\<lambda>i. page limit (i * limit) ?all) [0..<n]"
  have "concat ?pages = ?all" using assms(3) found by (simp add: concat_pages)
  moreover have "map (\<lambda>i. Search c query categoryID limit (i * limit) db) [0..<n] = map Inr ?pages"
    using assms(1) rows by (simp add: Search_def comp_def)
  moreover have "\<forall>p. p \<in> set rows \<longleftrightarrow> p \<in> set (products db) \<and> on_sale p \<and>
      ILike (search_pattern query) (p_name p) \<and>
      (\<forall>k. categoryID = Some k \<longrightarrow> in_categories (the (category_tree (categories db) [k])) p)"
    using rows by (cases categoryID) (auto simp: search_rows_def Let_def)
  ultimately show ?thesis using found rows
    by (intro exI [of _ ?pages]) simp
qed

definition product_example :: shop_db where
  "product_example = empty_shop\<lparr>products := [mk_product 1 10 5, mk_product 2 4 0]\<rparr>"

theorem search_pages_cover_witness:
  "\<exists>pages. map (\<lambda>i. Search healthy ''p'' None 1 (i * 1) product_example) [0..<2] = map Inr pages \<and>
    length (concat pages) = 1"
proof -
  have "CountSearch healthy ''p'' None product_example = Inr 1"
    by (simp add: healthy_def CountSearch_def search_rows_def product_example_def mk_product_def
        empty_shop_def on_sale_def ILike_def search_pattern_def ToLower_def lower_char_def
        Let_def)
  from search_pages_cover [OF _ this, of 2 1] show ?thesis by (auto simp: healthy_def)
qed

text \<open>
  A search for text without the characters %, _ and backslash finds a product exactly when
  its name contains the text, in whatever case.
\<close>

theorem search_finds_names:
  assumes "c_stmt c 0" "\<forall>ch \<in> set query. plain_char ch" "length (products db) \<le> limit"
  shows "\<exists>found. Search c query None limit 0 db = Inr found \<and>
    set found = {p \<in> set (products db). on_sale p \<and> sublist (ToLower query) (ToLower (p_name p))}"
proof -
  let ?rows = "filter (\<lambda>p. on_sale p \<and> ILike (search_pattern query) (p_name p)) (products db)"
  have "length ?rows \<le> limit" using assms(3) length_filter_le le_trans by blast
  then have "Search c query None limit 0 db = Inr (newest_first p_created_at ?rows)"
    using assms(1) by (simp add: Search_def search_rows_def page_def)
  then show ?thesis using search_pattern_contains [OF assms(2)] by auto
qed

theorem search_finds_names_witness:
  "\<exists>found. Search healthy ''p'' None 2 0 product_example = Inr found \<and>
    set found = {p \<in> set (products product_example). on_sale p \<and>
      sublist (ToLower ''p'') (ToLower (p_name p))}"
  using search_finds_names [of healthy "''p''" product_example 2]
  by (simp add: healthy_def product_example_def plain_char_def)

end
