(* ===== verification/Promotions.thy ===== *)
theory Promotions
  imports ProductStore Reservation
begin

text \<open>
  internal/db/promotions.go and internal/db/promotion_links.go: the promotions, the products
  and categories they are linked to, and the best active promotion of a product or category.
\<close>

section \<open>The table of promotions\<close>

definition promotion_GetByID :: "conn \<Rightarrow> nat \<Rightarrow> id64 \<Rightarrow> shop_db \<Rightarrow> promotion option result" where
  "promotion_GetByID c k pid db =
     (if \<not> c_stmt c k then Inl DbError
      else case scan_one (filter (\<lambda>p. pr_id p = pid) (promotions db)) of
        NoRows \<Rightarrow> Inr None
      | OneRow p \<Rightarrow> Inr (Some p)
      | ManyRows \<Rightarrow> Inl DbError)"

definition promotion_GetByMoyskladID :: "conn \<Rightarrow> nat \<Rightarrow> string \<Rightarrow> shop_db \<Rightarrow> promotion option result" where
  "promotion_GetByMoyskladID c k ms db =
     (if ms = [] then Inr None
      else if \<not> c_stmt c k then Inl DbError
      else case take 1 (filter (\<lambda>p. pr_moysklad_id p = Some ms) (promotions db)) of
        [] \<Rightarrow> Inr None
      | p # _ \<Rightarrow> Inr (Some p))"

definition started :: "time \<Rightarrow> promotion \<Rightarrow> bool" where
  "started now p = (case pr_start_date p of Some t \<Rightarrow> t \<le> now | None \<Rightarrow> True)"

definition not_ended :: "time \<Rightarrow> promotion \<Rightarrow> bool" where
  "not_ended now p = (case pr_end_date p of Some t \<Rightarrow> now \<le> t | None \<Rightarrow> True)"

definition promotion_GetActive :: "conn \<Rightarrow> time \<Rightarrow> shop_db \<Rightarrow> promotion list result" where
  "promotion_GetActive c now db =
     (if c_stmt c 0 then
        Inr (newest_first pr_created_at
          (filter (\<lambda>p. pr_active p \<and> started now p \<and> not_ended now p) (promotions db)))
      else Inl DbError)"

definition promotion_GetAll :: "conn \<Rightarrow> shop_db \<Rightarrow> promotion list result" where
  "promotion_GetAll c db =
     (if c_stmt c 0 then Inr (newest_first pr_created_at (promotions db)) else Inl DbError)"

text \<open>The unique index of migration 013: no other row has the same Moysklad id.\<close>

definition promotion_unique :: "shop_db \<Rightarrow> id64 \<Rightarrow> promotion \<Rightarrow> bool" where
  "promotion_unique db k p =
     (\<forall>r \<in> set (promotions db). pr_id r \<noteq> k \<longrightarrow> pr_moysklad_id p \<noteq> None \<longrightarrow>
        pr_moysklad_id r \<noteq> pr_moysklad_id p)"

definition promotion_Insert ::
  "conn \<Rightarrow> nat \<Rightarrow> time \<Rightarrow> promotion \<Rightarrow> shop_db \<Rightarrow> promotion result \<times> shop_db" where
  "promotion_Insert c k now p db =
     (let row = p\<lparr>pr_id := next_promotion db, pr_created_at := now, pr_updated_at := now\<rparr>
      in if c_stmt c k \<and> promotion_unique db (next_promotion db) p then
           (Inr row, db\<lparr>promotions := promotions db @ [row], next_promotion := next_promotion db + 1\<rparr>)
         else (Inl DbError, db))"

definition promotion_columns :: "promotion \<Rightarrow> promotion \<Rightarrow> promotion" where
  "promotion_columns p row = p\<lparr>pr_id := pr_id row, pr_created_at := pr_created_at row\<rparr>"

definition promotion_Update ::
  "conn \<Rightarrow> nat \<Rightarrow> promotion \<Rightarrow> id64 \<Rightarrow> shop_db \<Rightarrow> promotion result \<times> shop_db" where
  "promotion_Update c k p pid db =
     (if \<not> c_stmt c k \<or> \<not> promotion_unique db pid p then (Inl DbError, db)
      else case scan_one (sql_returning (\<lambda>r. pr_id r = pid) (promotion_columns p) (promotions db)) of
        OneRow row \<Rightarrow>
          (Inr row, db\<lparr>promotions := sql_update (\<lambda>r. pr_id r = pid) (promotion_columns p) (promotions db)\<rparr>)
      | _ \<Rightarrow> (Inl DbError, db))"

text \<open>Deleting cascades to the links.\<close>

definition promotion_Delete :: "conn \<Rightarrow> id64 \<Rightarrow> shop_db \<Rightarrow> unit result \<times> shop_db" where
  "promotion_Delete c pid db =
     (if \<not> c_stmt c 0 then (Inl DbError, db)
      else if pid \<notin> pr_id ` set (promotions db) then (Inl (Rejected ''no promotion found''), db)
      else (Inr (), db\<lparr>promotions := sql_delete (\<lambda>p. pr_id p = pid) (promotions db),
              promotion_products := sql_delete (\<lambda>l. fst l = pid) (promotion_products db),
              promotion_categories := sql_delete (\<lambda>l. fst l = pid) (promotion_categories db)\<rparr>))"

interpretation promotion_update: row_update pr_id "promotion_columns p" for p
  by unfold_locales (simp add: promotion_columns_def)

section \<open>Links\<close>

text \<open>The first occurrence of each id, as the loop with \<open>seen\<close> keeps it.\<close>

fun first_seen :: "id64 list \<Rightarrow> id64 list \<Rightarrow> id64 list" where
  "first_seen seen [] = []"
| "first_seen seen (k # ks) =
     (if k \<in> set seen then first_seen seen ks else k # first_seen (k # seen) ks)"

text \<open>
  \<open>replaceLinks\<close> on one of the two link tables, whose keys must exist; the whole call is one
  transaction.
\<close>

definition replaceLinks ::
  "conn \<Rightarrow> (id64 \<Rightarrow> bool) \<Rightarrow> (id64 \<Rightarrow> bool) \<Rightarrow> id64 \<Rightarrow> id64 list \<Rightarrow> link list
    \<Rightarrow> unit result \<times> link list" where
  "replaceLinks c promotion_exists target_exists pid ids table =
     run_tx (c_begin c) (c_commit c) (\<lambda>table.
       let table1 = sql_delete (\<lambda>l. fst l = pid) table
       in if \<not> c_stmt c 0 then Inl DbError
          else if ids = [] then Inr ((), table1)
          else if c_stmt c 1 \<and> promotion_exists pid \<and> list_all target_exists ids then
            Inr ((), table1 @ filter (\<lambda>l. l \<notin> set table1) (map (Pair pid) (first_seen [] ids)))
          else Inl DbError) table"

definition ReplaceProductLinks :: "conn \<Rightarrow> id64 \<Rightarrow> id64 list \<Rightarrow> shop_db \<Rightarrow> unit result \<times> shop_db" where
  "ReplaceProductLinks c pid ids db =
     (let (r, t) = replaceLinks c (\<lambda>k. k \<in> pr_id ` set (promotions db))
            (\<lambda>k. k \<in> p_id ` set (products db)) pid ids (promotion_products db)
      in (r, db\<lparr>promotion_products := t\<rparr>))"

definition ReplaceCategoryLinks :: "conn \<Rightarrow> id64 \<Rightarrow> id64 list \<Rightarrow> shop_db \<Rightarrow> unit result \<times> shop_db" where
  "ReplaceCategoryLinks c pid ids db =
     (let (r, t) = replaceLinks c (\<lambda>k. k \<in> pr_id ` set (promotions db))
            (\<lambda>k. k \<in> c_id ` set (categories db)) pid ids (promotion_categories db)
      in (r, db\<lparr>promotion_categories := t\<rparr>))"

definition listIDs :: "conn \<Rightarrow> nat \<Rightarrow> id64 \<Rightarrow> link list \<Rightarrow> id64 list result" where
  "listIDs c k pid table =
     (if c_stmt c k then Inr (map snd (filter (\<lambda>l. fst l = pid) table)) else Inl DbError)"

definition ListProductIDs :: "conn \<Rightarrow> nat \<Rightarrow> id64 \<Rightarrow> shop_db \<Rightarrow> id64 list result" where
  "ListProductIDs c k pid db = listIDs c k pid (promotion_products db)"

definition ListCategoryIDs :: "conn \<Rightarrow> nat \<Rightarrow> id64 \<Rightarrow> shop_db \<Rightarrow> id64 list result" where
  "ListCategoryIDs c k pid db = listIDs c k pid (promotion_categories db)"

text \<open>The map from each promotion asked for to its linked ids; an entry appears with its first row.\<close>

definition links_for :: "conn \<Rightarrow> nat \<Rightarrow> id64 list \<Rightarrow> link list \<Rightarrow> (id64 \<rightharpoonup> id64 list) result" where
  "links_for c k pids table =
     (if pids = [] then Inr Map.empty
      else if \<not> c_stmt c k then Inl DbError
      else Inr (foldl (\<lambda>m l. m(fst l \<mapsto> (case m (fst l) of Some ids \<Rightarrow> ids | None \<Rightarrow> []) @ [snd l]))
             Map.empty (filter (\<lambda>l. fst l \<in> set pids) table)))"

definition ListProductIDsForPromotions ::
  "conn \<Rightarrow> nat \<Rightarrow> id64 list \<Rightarrow> shop_db \<Rightarrow> (id64 \<rightharpoonup> id64 list) result" where
  "ListProductIDsForPromotions c k pids db = links_for c k pids (promotion_products db)"

definition ListCategoryIDsForPromotions ::
  "conn \<Rightarrow> nat \<Rightarrow> id64 list \<Rightarrow> shop_db \<Rightarrow> (id64 \<rightharpoonup> id64 list) result" where
  "ListCategoryIDsForPromotions c k pids db = links_for c k pids (promotion_categories db)"

section \<open>The best active promotion\<close>

definition better :: "(id64 \<rightharpoonup> promotion) \<Rightarrow> id64 \<times> promotion \<Rightarrow> (id64 \<rightharpoonup> promotion)" where
  "better m r =
     (case m (fst r) of
        None \<Rightarrow> m(fst r \<mapsto> snd r)
      | Some existing \<Rightarrow>
          if pr_discount (snd r) > pr_discount existing then m(fst r \<mapsto> snd r) else m)"

definition active_rows :: "time \<Rightarrow> id64 list \<Rightarrow> link list \<Rightarrow> promotion list \<Rightarrow> (id64 \<times> promotion) list" where
  "active_rows now ids table ps =
     [(snd l, p). l \<leftarrow> table, p \<leftarrow> ps, pr_id p = fst l \<and> snd l \<in> set ids \<and> pr_active p \<and>
        started now p \<and> not_ended now p]"

definition bestActivePromotionsByLink ::
  "conn \<Rightarrow> nat \<Rightarrow> time \<Rightarrow> link list \<Rightarrow> id64 list \<Rightarrow> shop_db \<Rightarrow> (id64 \<rightharpoonup> promotion) result" where
  "bestActivePromotionsByLink c k now table ids db =
     (if ids = [] then Inr Map.empty
      else if \<not> c_stmt c k then Inl DbError
      else Inr (foldl better Map.empty (active_rows now ids table (promotions db))))"

definition BestActiveProductPromotions ::
  "conn \<Rightarrow> nat \<Rightarrow> time \<Rightarrow> id64 list \<Rightarrow> shop_db \<Rightarrow> (id64 \<rightharpoonup> promotion) result" where
  "BestActiveProductPromotions c k now ids db =
     bestActivePromotionsByLink c k now (promotion_products db) ids db"

definition BestActiveCategoryPromotions ::
  "conn \<Rightarrow> nat \<Rightarrow> time \<Rightarrow> id64 list \<Rightarrow> shop_db \<Rightarrow> (id64 \<rightharpoonup> promotion) result" where
  "BestActiveCategoryPromotions c k now ids db =
     bestActivePromotionsByLink c k now (promotion_categories db) ids db"

section \<open>Facts\<close>

lemma set_first_seen: "set (first_seen seen ks) = set ks - set seen"
  by (induction ks arbitrary: seen) auto

lemma distinct_first_seen: "distinct (first_seen seen ks)"
  by (induction ks arbitrary: seen) (auto simp: set_first_seen)

text \<open>A promotion runs at \<open>now\<close> and is linked to \<open>k\<close> in the table.\<close>

definition running_for :: "time \<Rightarrow> link list \<Rightarrow> shop_db \<Rightarrow> id64 \<Rightarrow> promotion \<Rightarrow> bool" where
  "running_for now table db k p =
     (p \<in> set (promotions db) \<and> (pr_id p, k) \<in> set table \<and> pr_active p \<and> started now p \<and> not_ended now p)"

lemma set_active_rows:
  "(k, p) \<in> set (active_rows now ids table (promotions db)) \<longleftrightarrow>
    k \<in> set ids \<and> running_for now table db k p"
  by (force simp: active_rows_def running_for_def)

lemma foldl_better_None:
  "foldl better m rows k = None \<longleftrightarrow> m k = None \<and> k \<notin> fst ` set rows"
proof (induction rows arbitrary: m)
  case (Cons r rows)
  have "better m r k = None \<longleftrightarrow> m k = None \<and> k \<noteq> fst r"
    by (auto simp: better_def split: option.splits)
  with Cons show ?case by auto
qed simp

lemma foldl_better_in:
  "foldl better m rows k = Some p \<Longrightarrow> (k, p) \<in> set rows \<or> m k = Some p"
proof (induction rows arbitrary: m)
  case (Cons r rows)
  have "better m r k = Some p \<Longrightarrow> r = (k, p) \<or> m k = Some p"
    by (cases r) (auto simp: better_def split: option.splits if_splits)
  with Cons.IH [of "better m r"] Cons.prems show ?case by auto
qed simp

lemma better_keeps: "m k = Some q \<Longrightarrow> \<exists>q'. better m r k = Some q' \<and> pr_discount q \<le> pr_discount q'"
  by (cases "m (fst r)") (auto simp: better_def)

lemma better_takes: "\<exists>q'. better m (k, q) k = Some q' \<and> pr_discount q \<le> pr_discount q'"
  by (auto simp: better_def split: option.splits)

lemma foldl_better_max:
  "foldl better m rows k = Some p \<Longrightarrow> (k, q) \<in> set rows \<or> m k = Some q \<Longrightarrow>
    pr_discount q \<le> pr_discount p"
proof (induction rows arbitrary: m q)
  case (Cons r rows)
  show ?case
  proof (cases "(k, q) \<in> set rows")
    case True
    with Cons show ?thesis by simp
  next
    case False
    with Cons.prems(2) have "r = (k, q) \<or> m k = Some q" by auto
    then obtain q' where q': "better m r k = Some q'" "pr_discount q \<le> pr_discount q'"
      using better_takes better_keeps by metis
    from Cons.IH [of "better m r" q'] Cons.prems(1) q' show ?thesis by simp
  qed
qed simp

lemma best_spec:
  assumes "bestActivePromotionsByLink c k now table ids db = Inr best" "j \<in> set ids"
  shows "case best j of
      None \<Rightarrow> \<forall>p. \<not> running_for now table db j p
    | Some p \<Rightarrow> running_for now table db j p \<and>
        (\<forall>q. running_for now table db j q \<longrightarrow> pr_discount q \<le> pr_discount p)"
proof -
  have best: "best = foldl better Map.empty (active_rows now ids table (promotions db))"
    using assms by (auto simp: bestActivePromotionsByLink_def split: if_splits)
  show ?thesis
  proof (cases "best j")
    case None
    then have "j \<notin> fst ` set (active_rows now ids table (promotions db))"
      by (simp add: best foldl_better_None)
    then have "\<forall>p. (j, p) \<notin> set (active_rows now ids table (promotions db))" by force
    with None assms(2) show ?thesis by (simp add: set_active_rows)
  next
    case (Some p)
    then have "(j, p) \<in> set (active_rows now ids table (promotions db))"
      using foldl_better_in [of Map.empty _ j p] by (simp add: best)
    moreover have "\<forall>q. (j, q) \<in> set (active_rows now ids table (promotions db)) \<longrightarrow> pr_discount q \<le> pr_discount p"
      using foldl_better_max [of Map.empty _ j p] Some by (simp add: best)
    ultimately show ?thesis using Some assms(2) by (simp add: set_active_rows)
  qed
qed

text \<open>
  C11. For every product asked for, \<open>BestActiveProductPromotions\<close> has an active promotion linked to
  it, started and not ended, with the largest discount of all such promotions, or nothing when
  there is none; likewise for categories.
\<close>

theorem best_promotion_is_best:
  assumes "BestActiveProductPromotions c k now ids db = Inr best"
    "BestActiveCategoryPromotions c' k' now ids' db = Inr best'"
  shows "(\<forall>j \<in> set ids. case best j of
      None \<Rightarrow> \<forall>p. \<not> running_for now (promotion_products db) db j p
    | Some p \<Rightarrow> running_for now (promotion_products db) db j p \<and>
        (\<forall>q. running_for now (promotion_products db) db j q \<longrightarrow> pr_discount q \<le> pr_discount p)) \<and>
    (\<forall>j \<in> set ids'. case best' j of
      None \<Rightarrow> \<forall>p. \<not> running_for now (promotion_categories db) db j p
    | Some p \<Rightarrow> running_for now (promotion_categories db) db j p \<and>
        (\<forall>q. running_for now (promotion_categories db) db j q \<longrightarrow> pr_discount q \<le> pr_discount p))"
  using assms best_spec
  unfolding BestActiveProductPromotions_def BestActiveCategoryPromotions_def by blast

text \<open>Two promotions on product 1: 30 per cent for a day, 10 per cent by hand.\<close>

definition mk_promotion :: "id64 \<Rightarrow> string \<Rightarrow> money \<Rightarrow> time \<Rightarrow> promotion" where
  "mk_promotion k kind discount created = \<lparr>pr_id = k, pr_title = ''t'', pr_description = None,
     pr_discount = discount, pr_image_url = None, pr_active = True, pr_start_date = None,
     pr_end_date = None, pr_moysklad_id = None, pr_kind = kind, pr_valid_from = None,
     pr_valid_until = None, pr_locked = False, pr_created_at = created, pr_updated_at = created\<rparr>"

definition promotion_example :: shop_db where
  "promotion_example = empty_shop\<lparr>products := [mk_product 1 10 5],
     promotions := [mk_promotion 1 ''day'' 30 (9 * hour), mk_promotion 2 ''manual'' 10 (9 * hour)],
     promotion_products := [(1, 1), (2, 1)]\<rparr>"

lemma promotion_example_best:
  "BestActiveProductPromotions healthy k now [1] promotion_example =
    Inr [1 \<mapsto> mk_promotion 1 ''day'' 30 (9 * hour)]"
  "BestActiveCategoryPromotions healthy k now ids promotion_example = Inr Map.empty"
  by (simp_all add: BestActiveProductPromotions_def BestActiveCategoryPromotions_def
      bestActivePromotionsByLink_def healthy_def promotion_example_def active_rows_def
      mk_promotion_def started_def not_ended_def better_def empty_shop_def)

theorem best_promotion_is_best_witness:
  "running_for 0 (promotion_products promotion_example) promotion_example 1
    (mk_promotion 1 ''day'' 30 (9 * hour))"
  using best_promotion_is_best [OF promotion_example_best(1) promotion_example_best(2)] by simp

text \<open>
  Replacing the links of a promotion leaves exactly the ids asked for, once each, and the
  links of every other promotion; reading them back gives those ids. A call that fails leaves
  all links as they were.
\<close>

theorem replace_links_roundtrip:
  "(\<forall>table'. replaceLinks c pe te pid ids table = (Inr (), table') \<longrightarrow>
      (\<exists>found. listIDs healthy 0 pid table' = Inr found \<and> set found = set ids \<and> distinct found) \<and>
      (\<forall>other. other \<noteq> pid \<longrightarrow> listIDs healthy 0 other table' = listIDs healthy 0 other table)) \<and>
   (\<forall>e table'. replaceLinks c pe te pid ids table = (Inl e, table') \<longrightarrow> table' = table)"
proof (intro conjI allI impI)
  fix table' assume ok: "replaceLinks c pe te pid ids table = (Inr (), table')"
  let ?kept = "sql_delete (\<lambda>l. fst l = pid) table"
  have "filter (\<lambda>l. l \<notin> set ?kept) (map (Pair pid) (first_seen [] ids)) = map (Pair pid) (first_seen [] ids)"
    by (auto simp: filter_id_conv)
  with ok have table': "table' = ?kept @ map (Pair pid) (first_seen [] ids)"
    by (cases "ids = []") (auto simp: replaceLinks_def run_tx_ok Let_def split: if_splits)
  have mine: "filter (\<lambda>l. fst l = pid) table' = map (Pair pid) (first_seen [] ids)"
    by (auto simp: table' sql_delete_def filter_empty_conv filter_id_conv)
  show "\<exists>found. listIDs healthy 0 pid table' = Inr found \<and> set found = set ids \<and> distinct found"
    by (simp add: listIDs_def healthy_def mine comp_def set_first_seen distinct_first_seen)
  fix other assume "other \<noteq> pid"
  then have "filter (\<lambda>l. fst l = other) table' = filter (\<lambda>l. fst l = other) table"
    by (auto simp: table' sql_delete_def filter_empty_conv conj_commute intro: filter_cong)
  then show "listIDs healthy 0 other table' = listIDs healthy 0 other table"
    by (simp add: listIDs_def)
next
  fix e table' assume "replaceLinks c pe te pid ids table = (Inl e, table')"
  then show "table' = table" by (simp add: replaceLinks_def run_tx_error)
qed

theorem replace_links_roundtrip_witness:
  "\<exists>found. listIDs healthy 0 1 (snd (replaceLinks healthy (\<lambda>_. True) (\<lambda>_. True) 1 [4, 5, 4] [(1, 3), (2, 3)])) =
    Inr found \<and> set found = {4, 5}"
proof -
  have "replaceLinks healthy (\<lambda>_. True) (\<lambda>_. True) 1 [4, 5, 4] [(1, 3), (2, 3)] =
      (Inr (), [(2, 3), (1, 4), (1, 5)])"
    by (simp add: replaceLinks_def run_tx_def healthy_def)
  then show ?thesis
    using conjunct1 [OF replace_links_roundtrip [of healthy "\<lambda>_. True" "\<lambda>_. True" 1 "[4, 5, 4]" "[(1, 3), (2, 3)]"]]
    by auto
qed

end
