(* ===== verification/Pricing.thy ===== *)
theory Pricing
  imports Promotions
begin

text \<open>
  internal/usecase/promotion_pricing.go: the effective price of a product under its promotions.
  The clock does not move inside one call. A map of Go is a partial function; where the code
  asks whether the ancestor map is empty, an empty one gives every category no ancestors, and
  the outcome is the same. \<open>pc_categories\<close> is whether a category query was given.
\<close>

record pricer =
  pc_categories :: bool
  pc_ancestors :: "(id64 \<rightharpoonup> id64 list) option"
  pc_ancestors_exp :: time

definition NewPromotionPricer :: "bool \<Rightarrow> pricer" where
  "NewPromotionPricer has_categories =
     \<lparr>pc_categories = has_categories, pc_ancestors = None, pc_ancestors_exp = zero_time\<rparr>"

section \<open>The price of one product\<close>

text \<open>\<open>math.Round\<close>: halves away from zero.\<close>

definition round_half_away :: "money \<Rightarrow> int" where
  "round_half_away x = (if 0 \<le> x then \<lfloor>x + 1/2\<rfloor> else \<lceil>x - 1/2\<rceil>)"

definition discounted :: "money \<Rightarrow> money \<Rightarrow> money" where
  "discounted price discount = of_int (round_half_away (price * (1 - discount / 100) * 100)) / 100"

definition setEffective :: "product \<Rightarrow> promotion \<Rightarrow> string \<Rightarrow> product" where
  "setEffective item promo ptype =
     (if pr_discount promo \<le> 0 then item
      else
        let discount = (if pr_discount promo > 100 then 100 else pr_discount promo)
        in item\<lparr>p_effective_price := Some (discounted (p_price item) discount),
                p_discount_percent := Some discount, p_promotion_type := ptype,
                p_promotion_title := pr_title promo, p_promotion_kind := pr_kind promo\<rparr>)"

fun best_of_chain :: "(id64 \<rightharpoonup> promotion) \<Rightarrow> id64 list \<Rightarrow> promotion option \<Rightarrow> promotion option" where
  "best_of_chain promos [] best = best"
| "best_of_chain promos (k # ks) best =
     best_of_chain promos ks
       (case promos k of
          None \<Rightarrow> best
        | Some p \<Rightarrow>
            if pr_discount p \<le> 0 then best
            else case best of
              None \<Rightarrow> Some p
            | Some b \<Rightarrow> if pr_discount p > pr_discount b then Some p else best)"

definition category_chain :: "(id64 \<rightharpoonup> id64 list) \<Rightarrow> id64 \<Rightarrow> id64 list" where
  "category_chain ancestors k =
     (case ancestors k of Some (a # as) \<Rightarrow> a # as | _ \<Rightarrow> [k])"

definition applyToProduct ::
  "(id64 \<rightharpoonup> promotion) \<Rightarrow> (id64 \<rightharpoonup> promotion) \<Rightarrow> (id64 \<rightharpoonup> id64 list) \<Rightarrow> product \<Rightarrow> product" where
  "applyToProduct productPromos categoryPromos ancestors item =
     (case productPromos (p_id item) of
        Some promo \<Rightarrow>
          if pr_discount promo > 0 then setEffective item promo ''product''
          else (case p_category_id item of
                  None \<Rightarrow> item
                | Some k \<Rightarrow>
                    (case best_of_chain categoryPromos (category_chain ancestors k) None of
                       Some best \<Rightarrow> setEffective item best ''category''
                     | None \<Rightarrow> item))
      | None \<Rightarrow>
          (case p_category_id item of
             None \<Rightarrow> item
           | Some k \<Rightarrow>
               (case best_of_chain categoryPromos (category_chain ancestors k) None of
                  Some best \<Rightarrow> setEffective item best ''category''
                | None \<Rightarrow> item)))"

section \<open>The pricer\<close>

definition getAncestorMap ::
  "conn \<Rightarrow> time \<Rightarrow> shop_db \<Rightarrow> pricer \<Rightarrow> (id64 \<rightharpoonup> id64 list) \<times> pricer" where
  "getAncestorMap c now db pc =
     (case pc_ancestors pc of
        Some m \<Rightarrow> if now < pc_ancestors_exp pc then (m, pc)
          else if \<not> pc_categories pc then (Map.empty, pc)
          else (case AncestorMap c db of
            Inl e \<Rightarrow> (Map.empty, pc\<lparr>pc_ancestors := Some Map.empty, pc_ancestors_exp := now + 30 * second\<rparr>)
          | Inr m' \<Rightarrow> (m', pc\<lparr>pc_ancestors := Some m', pc_ancestors_exp := now + 5 * minute\<rparr>))
      | None \<Rightarrow>
          if \<not> pc_categories pc then (Map.empty, pc)
          else (case AncestorMap c db of
            Inl e \<Rightarrow> (Map.empty, pc\<lparr>pc_ancestors := Some Map.empty, pc_ancestors_exp := now + 30 * second\<rparr>)
          | Inr m' \<Rightarrow> (m', pc\<lparr>pc_ancestors := Some m', pc_ancestors_exp := now + 5 * minute\<rparr>)))"

definition InvalidateCategoryCache :: "pricer \<Rightarrow> pricer" where
  "InvalidateCategoryCache pc = pc\<lparr>pc_ancestors := None, pc_ancestors_exp := zero_time\<rparr>"

definition filterPromotionsMap :: "(id64 \<rightharpoonup> promotion) \<Rightarrow> time \<Rightarrow> (id64 \<rightharpoonup> promotion)" where
  "filterPromotionsMap src now =
     (\<lambda>k. case src k of
        Some p \<Rightarrow> if PromotionAppliesForReservation (Some p) now then Some p else None
      | None \<Rightarrow> None)"

definition or_empty :: "(id64 \<rightharpoonup> promotion) result \<Rightarrow> (id64 \<rightharpoonup> promotion)" where
  "or_empty r = (case r of Inl e \<Rightarrow> Map.empty | Inr m \<Rightarrow> m)"

text \<open>The categories of the products with all their ancestors.\<close>

definition expanded_categories :: "(id64 \<rightharpoonup> id64 list) \<Rightarrow> product list \<Rightarrow> id64 list" where
  "expanded_categories ancestors prods =
     concat (map (\<lambda>k. k # (case ancestors k of Some as \<Rightarrow> as | None \<Rightarrow> []))
       (List.map_filter p_category_id prods))"

text \<open>\<open>Apply\<close>; the connection gets the two queries of promotions as statements 0 and 1, the query
  of the categories has a connection of its own.\<close>

definition Apply ::
  "conn \<Rightarrow> conn \<Rightarrow> time \<Rightarrow> product list \<Rightarrow> shop_db \<Rightarrow> pricer \<Rightarrow> product list \<times> pricer" where
  "Apply c cc now prods db pc =
     (if prods = [] then (prods, pc)
      else
        let productPromos = filterPromotionsMap
              (or_empty (BestActiveProductPromotions c 0 now (map p_id prods) db)) now;
            (ancestors, pc') = getAncestorMap cc now db pc;
            categoryPromos = filterPromotionsMap
              (or_empty (BestActiveCategoryPromotions c 1 now (expanded_categories ancestors prods) db)) now
        in (map (applyToProduct productPromos categoryPromos ancestors) prods, pc'))"

section \<open>Day promotions in an order\<close>

definition DayPromotionDeadline :: "conn \<Rightarrow> nat \<Rightarrow> id64 list \<Rightarrow> time \<Rightarrow> shop_db \<Rightarrow> time option result" where
  "DayPromotionDeadline c k productIDs now db =
     (if productIDs = [] then Inr None
      else case BestActiveProductPromotions c k now productIDs db of
        Inl e \<Rightarrow> Inl e
      | Inr promos \<Rightarrow>
          if \<exists>j \<in> set productIDs. case promos j of
               Some p \<Rightarrow> pr_kind p = PromotionKindDay \<and> PromotionAppliesForReservation (Some p) now
             | None \<Rightarrow> False
          then Inr (Some (ReservationDeadline now)) else Inr None)"

definition CheckDayPromotionWindow :: "conn \<Rightarrow> nat \<Rightarrow> id64 list \<Rightarrow> time \<Rightarrow> shop_db \<Rightarrow> error option" where
  "CheckDayPromotionWindow c k productIDs now db =
     (if productIDs = [] then None
      else case BestActiveProductPromotions c k now productIDs db of
        Inl e \<Rightarrow> None
      | Inr promos \<Rightarrow>
          if \<exists>j \<in> set productIDs. case promos j of
               Some p \<Rightarrow> pr_kind p = PromotionKindDay \<and> \<not> PromotionAppliesForReservation (Some p) now
             | None \<Rightarrow> False
          then Some (Rejected ''promotion_window_closed'') else None)"

section \<open>Facts\<close>

definition whole_cents :: "money \<Rightarrow> bool" where
  "whole_cents x = (\<exists>n :: int. x * 100 = of_int n)"

lemma discounted_bounds:
  assumes "0 \<le> price" "whole_cents price" "0 \<le> d" "d \<le> 100"
  shows "0 \<le> discounted price d" "discounted price d \<le> price" "whole_cents (discounted price d)"
    "\<bar>discounted price d - price * (1 - d / 100)\<bar> \<le> 1 / 200"
proof -
  let ?x = "price * (1 - d / 100) * 100"
  obtain n where n: "price * 100 = of_int n" using assms(2) by (auto simp: whole_cents_def)
  have x: "0 \<le> ?x" using assms by simp
  have "?x = of_int n * (1 - d / 100)" unfolding n [symmetric] by simp
  also have "\<dots> \<le> of_int n" using assms n by (simp add: mult_left_le flip: n)
  finally have le: "?x \<le> of_int n" .
  have r: "round_half_away ?x = \<lfloor>?x + 1/2\<rfloor>" using x by (simp add: round_half_away_def)
  have "\<lfloor>?x + 1/2\<rfloor> \<le> n" using le by (simp add: floor_le_iff)
  then have "of_int \<lfloor>?x + 1/2\<rfloor> \<le> price * 100" using n by simp
  then show "discounted price d \<le> price" unfolding discounted_def r by simp
  have "0 \<le> \<lfloor>?x + 1/2\<rfloor>" using x by simp
  then show "0 \<le> discounted price d" unfolding discounted_def r by simp
  show "whole_cents (discounted price d)" by (simp add: discounted_def whole_cents_def)
  have "of_int \<lfloor>?x + 1/2\<rfloor> \<le> ?x + 1/2" "?x - 1/2 < of_int \<lfloor>?x + 1/2\<rfloor>"
    using floor_correct [of "?x + 1/2"] by linarith+
  moreover have "\<bar>f / 100 - y\<bar> \<le> 1 / 200" if "f \<le> y * 100 + 1/2" "y * 100 - 1/2 < f" for f y :: money
    using that by linarith
  ultimately show "\<bar>discounted price d - price * (1 - d / 100)\<bar> \<le> 1 / 200"
    unfolding discounted_def r by blast
qed

lemma best_of_chain_spec:
  "case best_of_chain promos ks best of
     None \<Rightarrow> best = None \<and> (\<forall>k \<in> set ks. \<forall>p. promos k = Some p \<longrightarrow> pr_discount p \<le> 0)
   | Some b \<Rightarrow> (best = Some b \<or> (\<exists>k \<in> set ks. promos k = Some b \<and> 0 < pr_discount b)) \<and>
       (\<forall>q. best = Some q \<longrightarrow> pr_discount q \<le> pr_discount b) \<and>
       (\<forall>k \<in> set ks. \<forall>p. promos k = Some p \<longrightarrow> 0 < pr_discount p \<longrightarrow> pr_discount p \<le> pr_discount b)"
proof (induction ks arbitrary: best)
  case (Cons k ks)
  show ?case
  proof (cases "promos k")
    case None
    with Cons [of best] show ?thesis by (auto split: option.splits)
  next
    case (Some p)
    let ?best = "if pr_discount p \<le> 0 then best else case best of None \<Rightarrow> Some p
      | Some b \<Rightarrow> if pr_discount p > pr_discount b then Some p else best"
    have step: "best_of_chain promos (k # ks) best = best_of_chain promos ks ?best"
      by (simp add: Some)
    show ?thesis
      unfolding step using Cons [of ?best] Some
      by (cases best; cases "best_of_chain promos ks ?best"; cases "pr_discount p \<le> 0")
        (auto split: if_splits; force)+
  qed
qed (simp split: option.split)

lemma setEffective_pos:
  assumes "0 < pr_discount promo"
  shows "p_effective_price (setEffective item promo ty) = Some (discounted (p_price item) (min (pr_discount promo) 100))"
    "p_discount_percent (setEffective item promo ty) = Some (min (pr_discount promo) 100)"
    "p_promotion_type (setEffective item promo ty) = ty" "p_id (setEffective item promo ty) = p_id item"
    "p_price (setEffective item promo ty) = p_price item" "p_stock (setEffective item promo ty) = p_stock item"
  using assms by (auto simp: setEffective_def Let_def min_def)

text \<open>Where the price of a product comes from: nowhere, its own promotion, or its categories'.\<close>

lemma applyToProduct_cases:
  "applyToProduct pp cp ancestors item = item \<or>
   (\<exists>promo. pp (p_id item) = Some promo \<and> 0 < pr_discount promo \<and>
     applyToProduct pp cp ancestors item = setEffective item promo ''product'') \<or>
   (\<exists>cat k promo. p_category_id item = Some cat \<and> k \<in> set (category_chain ancestors cat) \<and>
     cp k = Some promo \<and> 0 < pr_discount promo \<and>
     applyToProduct pp cp ancestors item = setEffective item promo ''category'')"
proof -
  have cat: "\<exists>k \<in> set (category_chain ancestors cat). cp k = Some promo \<and> 0 < pr_discount promo"
    if "best_of_chain cp (category_chain ancestors cat) None = Some promo" for cat promo
    using best_of_chain_spec [where promos = cp and ks = "category_chain ancestors cat" and best = None] that by simp
  show ?thesis
    by (cases "pp (p_id item)"; cases "p_category_id item")
      (auto simp: applyToProduct_def split: option.splits dest!: cat)
qed

lemma best_filtered:
  assumes "filterPromotionsMap (or_empty r) now j = Some promo"
  shows "\<exists>m. r = Inr m \<and> m j = Some promo \<and> PromotionAppliesForReservation (Some promo) now"
  using assms by (auto simp: filterPromotionsMap_def or_empty_def split: sum.splits option.splits if_splits)

lemma best_some_running:
  assumes "bestActivePromotionsByLink c k now table ids db = Inr m" "m j = Some promo"
  shows "running_for now table db j promo"
  using assms foldl_better_in [of Map.empty "active_rows now ids table (promotions db)" j promo]
  by (auto simp: bestActivePromotionsByLink_def set_active_rows split: if_splits)

lemma fresh_ancestors:
  assumes "pc_ancestors pc = None" "pc_categories pc" "k \<in> set (category_chain (fst (getAncestorMap healthy now db pc)) cat)"
  shows "\<exists>n. under (categories db) n k cat"
proof -
  have fst: "fst (getAncestorMap healthy now db pc) = (\<lambda>k. if k \<in> c_id ` set (categories db)
      then Some (k # climb (categories db) maxDepth (parent_of (categories db) k)) else None)"
    using assms(1,2) by (simp add: getAncestorMap_def AncestorMap_def healthy_def)
  have "k = cat \<or> k \<in> set (climb (categories db) maxDepth (parent_of (categories db) cat))"
    using assms(3) by (auto simp: category_chain_def fst split: if_splits)
  then show ?thesis using climb_under [of k "categories db" maxDepth cat] under.simps(1) by blast
qed

text \<open>
  C10. Every price that \<open>Apply\<close> shows is earned and in bounds: a product keeps its base price, or it
  gets the discount (at most 100 per cent) of a promotion that is active, started, not ended,
  applies in the current reservation window and is linked to the product itself, to its category
  or to an ancestor of it; the effective price then lies between zero and the base price and
  within half a cent of the exact one. Nothing else of the product changes.
\<close>

theorem apply_price_sound:
  assumes "Apply healthy healthy now items db pc = (out, pc')" "item \<in> set items"
    "0 \<le> p_price item" "whole_cents (p_price item)" "pc_ancestors pc = None" "pc_categories pc"
  shows "item \<in> set out \<or>
    (\<exists>o' promo e. o' \<in> set out \<and> p_id o' = p_id item \<and> p_price o' = p_price item \<and> p_stock o' = p_stock item \<and>
      p_effective_price o' = Some e \<and> 0 \<le> e \<and> e \<le> p_price item \<and>
      p_discount_percent o' = Some (min (pr_discount promo) 100) \<and> 0 < pr_discount promo \<and>
      \<bar>e - p_price item * (1 - min (pr_discount promo) 100 / 100)\<bar> \<le> 1 / 200 \<and>
      PromotionAppliesForReservation (Some promo) now \<and>
      (if p_promotion_type o' = ''product''
       then running_for now (promotion_products db) db (p_id item) promo
       else \<exists>cat k n. p_category_id item = Some cat \<and> under (categories db) n k cat \<and>
              running_for now (promotion_categories db) db k promo))"
proof -
  let ?pp = "filterPromotionsMap (or_empty (BestActiveProductPromotions healthy 0 now (map p_id items) db)) now"
  let ?an = "fst (getAncestorMap healthy now db pc)"
  let ?cp = "filterPromotionsMap (or_empty (BestActiveCategoryPromotions healthy 1 now (expanded_categories ?an items) db)) now"
  let ?o = "applyToProduct ?pp ?cp ?an item"
  have out: "?o \<in> set out"
    using assms(1,2) by (auto simp: Apply_def Let_def case_prod_beta split: if_splits)
  have bounds: "0 \<le> discounted (p_price item) d \<and> discounted (p_price item) d \<le> p_price item \<and>
      \<bar>discounted (p_price item) d - p_price item * (1 - d / 100)\<bar> \<le> 1 / 200" if "0 < d" "d \<le> 100" for d
    using discounted_bounds [OF assms(3,4), of d] that by simp
  from applyToProduct_cases [of ?pp ?cp ?an item] show ?thesis
  proof (elim disjE exE conjE)
    assume "?o = item"
    then show ?thesis using out by metis
  next
    fix promo assume promo: "?pp (p_id item) = Some promo" "0 < pr_discount promo"
      "?o = setEffective item promo ''product''"
    from best_filtered [OF promo(1)] have "PromotionAppliesForReservation (Some promo) now"
      "running_for now (promotion_products db) db (p_id item) promo"
      using best_some_running unfolding BestActiveProductPromotions_def by blast+
    then show ?thesis
      using out promo(2,3) bounds [of "min (pr_discount promo) 100"]
      by (intro disjI2 exI [of _ ?o] exI [of _ promo]) (simp add: setEffective_pos)
  next
    fix cat k promo assume promo: "p_category_id item = Some cat" "k \<in> set (category_chain ?an cat)"
      "?cp k = Some promo" "0 < pr_discount promo" "?o = setEffective item promo ''category''"
    from best_filtered [OF promo(3)] have run: "PromotionAppliesForReservation (Some promo) now"
      "running_for now (promotion_categories db) db k promo"
      using best_some_running unfolding BestActiveCategoryPromotions_def by blast+
    from fresh_ancestors [OF assms(5,6) promo(2)] obtain n where "under (categories db) n k cat" by blast
    with run have "\<exists>cat k n. p_category_id item = Some cat \<and> under (categories db) n k cat \<and>
              running_for now (promotion_categories db) db k promo"
      using promo(1) by blast
    then show ?thesis
      using out promo(4,5) run bounds [of "min (pr_discount promo) 100"]
      by (intro disjI2 exI [of _ ?o] exI [of _ promo]) (simp add: setEffective_pos)
  qed
qed

theorem apply_price_sound_witness:
  "let out = fst (Apply healthy healthy (10 * hour) [mk_product 1 10 5] promotion_example (NewPromotionPricer True))
   in mk_product 1 10 5 \<in> set out \<or> (\<exists>o' \<in> set out. \<exists>e. p_effective_price o' = Some e \<and> e \<le> 10)"
proof -
  let ?run = "Apply healthy healthy (10 * hour) [mk_product 1 10 5] promotion_example (NewPromotionPricer True)"
  have "?run = (fst ?run, snd ?run)" by simp
  from apply_price_sound [OF this, of "mk_product 1 10 5"] show ?thesis
    by (auto simp: Let_def mk_product_def whole_cents_def NewPromotionPricer_def intro!: exI [of _ 1000])
qed

text \<open>
  A promotion out of its window hides the others: when the running promotion of a product with
  the largest discount is a day promotion whose window is over, the product gets no price of its
  own promotions however many others apply, and every order with the product is refused as out of
  the promotion window.
\<close>

theorem stale_day_promotion_shadows:
  assumes "BestActiveProductPromotions healthy 0 now (map p_id items) db = Inr best"
    "item \<in> set items" "best (p_id item) = Some promo" "pr_kind promo = PromotionKindDay"
    "\<not> PromotionAppliesForReservation (Some promo) now"
    "Apply healthy cc now items db pc = (out, pc')" "distinct (map p_id items)"
    "p_promotion_type item \<noteq> ''product''"
  shows "(\<forall>o' \<in> set out. p_id o' = p_id item \<longrightarrow> p_promotion_type o' \<noteq> ''product'') \<and>
    CheckDayPromotionWindow healthy 0 (map p_id items) now db = Some (Rejected ''promotion_window_closed'')"
proof
  let ?pp = "filterPromotionsMap (or_empty (BestActiveProductPromotions healthy 0 now (map p_id items) db)) now"
  have none: "?pp (p_id item) = None"
    using assms(1,3,5) by (simp add: filterPromotionsMap_def or_empty_def)
  have apply_id: "p_id (applyToProduct pp cp an i) = p_id i" for pp cp an i
    using applyToProduct_cases [of pp cp an i] by (auto simp: setEffective_pos)
  show "\<forall>o' \<in> set out. p_id o' = p_id item \<longrightarrow> p_promotion_type o' \<noteq> ''product''"
  proof (intro ballI impI)
    fix o' assume o': "o' \<in> set out" "p_id o' = p_id item"
    then obtain cp an i where i: "i \<in> set items" "o' = applyToProduct ?pp cp an i"
      using assms(2,6) by (auto simp: Apply_def Let_def case_prod_beta split: if_splits)
    then have "p_id i = p_id item" using o'(2) apply_id by metis
    then have "i = item"
      using i(1) assms(2,7) product_rows.row_eq_by_key by blast
    then show "p_promotion_type o' \<noteq> ''product''"
      using applyToProduct_cases [of ?pp cp an item] none assms(8) i(2) by (auto simp: setEffective_pos)
  qed
  show "CheckDayPromotionWindow healthy 0 (map p_id items) now db = Some (Rejected ''promotion_window_closed'')"
    using assms(1-5) by (auto simp: CheckDayPromotionWindow_def intro!: bexI [of _ item])
qed

theorem stale_day_promotion_shadows_witness:
  "CheckDayPromotionWindow healthy 0 [1] (40 * hour) promotion_example = Some (Rejected ''promotion_window_closed'') \<and>
    PromotionAppliesForReservation (Some (mk_promotion 2 ''manual'' 10 (9 * hour))) (40 * hour)"
proof -
  let ?item = "mk_product 1 10 5" and ?promo = "mk_promotion 1 ''day'' 30 (9 * hour)"
  have stale: "\<not> PromotionAppliesForReservation (Some ?promo) (40 * hour)"
    by (simp add: PromotionAppliesForReservation_def mk_promotion_def PromotionKindDay_def
        sameMoscowDay_def PromotionReservationDay_def promotion_ref_def ReservationDate_def
        isBeforeReservationCutoff_def reservationCutoffHour_def weekday_def civil_day_def
        date_in_def moscowLocation_def Let_def)
  let ?run = "Apply healthy healthy (40 * hour) [?item] promotion_example (NewPromotionPricer True)"
  have best: "BestActiveProductPromotions healthy 0 (40 * hour) (map p_id [?item]) promotion_example =
      Inr [1 \<mapsto> ?promo]"
    using promotion_example_best(1) [of 0 "40 * hour"] by (simp add: mk_product_def)
  have "?run = (fst ?run, snd ?run)" by simp
  from stale_day_promotion_shadows [OF best, of ?item ?promo healthy, OF _ _ _ stale this]
  show ?thesis
    by (simp add: mk_product_def mk_promotion_def PromotionKindDay_def PromotionAppliesForReservation_def)
qed

text \<open>
  The two looks a new order takes at day promotions agree: when \<open>CheckDayPromotionWindow\<close>
  lets an order through, \<open>DayPromotionDeadline\<close> gives the pickup deadline of the current window
  exactly when the best promotion of one of its products is a day promotion.
\<close>

theorem day_promotion_deadline_agrees:
  assumes "BestActiveProductPromotions c k now ids db = Inr best"
    "CheckDayPromotionWindow c k ids now db = None"
  shows "DayPromotionDeadline c k ids now db = Inr
    (if \<exists>j \<in> set ids. \<exists>p. best j = Some p \<and> pr_kind p = PromotionKindDay
     then Some (ReservationDeadline now) else None)"
proof -
  have "\<forall>j \<in> set ids. \<forall>p. best j = Some p \<and> pr_kind p = PromotionKindDay \<longrightarrow>
      PromotionAppliesForReservation (Some p) now"
    using assms by (auto simp: CheckDayPromotionWindow_def split: if_splits)
  then show ?thesis
    using assms(1) by (auto simp: DayPromotionDeadline_def split: option.splits)
qed

theorem day_promotion_deadline_agrees_witness:
  "DayPromotionDeadline healthy 0 [1] (9 * hour) promotion_example = Inr (Some (ReservationDeadline (9 * hour)))"
proof -
  have "PromotionAppliesForReservation (Some (mk_promotion 1 ''day'' 30 (9 * hour))) (9 * hour)"
    by (simp add: PromotionAppliesForReservation_def mk_promotion_def sameMoscowDay_def
        PromotionReservationDay_def promotion_ref_def)
  then have "CheckDayPromotionWindow healthy 0 [1] (9 * hour) promotion_example = None"
    by (simp add: CheckDayPromotionWindow_def promotion_example_best)
  from day_promotion_deadline_agrees [OF promotion_example_best(1) this] show ?thesis
    by (simp add: mk_promotion_def PromotionKindDay_def)
qed

end
