(* ===== verification/StockCache.thy ===== *)
theory StockCache
  imports ProductStore
begin

text \<open>
  internal/cache/redis.go: the cache of stock levels and the counters of reserved units. A
  Redis entry is its value with the time it expires at; an expired entry is not there. Each
  command to Redis may fail: \<open>up k\<close> says whether command number \<open>k\<close> of the call goes through.
  JSON and RFC 3339 are not modelled beyond their effect: what is written is read back, the
  sync time to the second.
\<close>

section \<open>State\<close>

record stock_info =
  si_stock :: int
  si_cached_at :: time
  si_moysklad_id :: string

record redis =
  rd_stock :: "id64 \<rightharpoonup> stock_info \<times> time"
  rd_reserved :: "id64 \<rightharpoonup> int"
  rd_last_sync :: "time option"

definition redis_empty :: redis where
  "redis_empty = \<lparr>rd_stock = Map.empty, rd_reserved = Map.empty, rd_last_sync = None\<rparr>"

type_synonym command_ok = "nat \<Rightarrow> bool"

section \<open>The operations\<close>

definition SetStock ::
  "command_ok \<Rightarrow> nat \<Rightarrow> time \<Rightarrow> id64 \<Rightarrow> string \<Rightarrow> int \<Rightarrow> redis \<Rightarrow> unit result \<times> redis" where
  "SetStock up k now pid msID stock rd =
     (if up k then
        (Inr (), rd\<lparr>rd_stock := (rd_stock rd)(pid \<mapsto>
           (\<lparr>si_stock = stock, si_cached_at = now, si_moysklad_id = msID\<rparr>, now + 30 * minute))\<rparr>)
      else (Inl (Upstream ''redis''), rd))"

text \<open>The entry that GET sees.\<close>

definition live_stock :: "time \<Rightarrow> redis \<Rightarrow> id64 \<Rightarrow> stock_info option" where
  "live_stock now rd pid =
     (case rd_stock rd pid of Some (info, expires) \<Rightarrow> if now < expires then Some info else None
      | None \<Rightarrow> None)"

definition GetStock :: "command_ok \<Rightarrow> nat \<Rightarrow> time \<Rightarrow> id64 \<Rightarrow> redis \<Rightarrow> stock_info option result" where
  "GetStock up k now pid rd = (if up k then Inr (live_stock now rd pid) else Inl (Upstream ''redis''))"

text \<open>Go's conversion of a float to an int cuts towards zero.\<close>

definition trunc :: "money \<Rightarrow> int" where
  "trunc x = (if 0 \<le> x then \<lfloor>x\<rfloor> else \<lceil>x\<rceil>)"

definition GetStockWithBuffer ::
  "command_ok \<Rightarrow> time \<Rightarrow> id64 \<Rightarrow> money \<Rightarrow> redis \<Rightarrow> int result" where
  "GetStockWithBuffer up now pid bufferPercent rd =
     (case GetStock up 0 now pid rd of
        Inl e \<Rightarrow> Inl e
      | Inr None \<Rightarrow> Inr (-1)
      | Inr (Some info) \<Rightarrow> Inr (trunc (of_int (si_stock info) * (1 - bufferPercent / 100))))"

definition InvalidateStock :: "command_ok \<Rightarrow> nat \<Rightarrow> id64 \<Rightarrow> redis \<Rightarrow> unit result \<times> redis" where
  "InvalidateStock up k pid rd =
     (if up k then (Inr (), rd\<lparr>rd_stock := (rd_stock rd)(pid := None)\<rparr>)
      else (Inl (Upstream ''redis''), rd))"

text \<open>\<open>keys_ok\<close> is the KEYS command, \<open>key_ok pid\<close> the GET and DEL of one key.\<close>

definition InvalidateByMoyskladID ::
  "bool \<Rightarrow> (id64 \<Rightarrow> bool) \<Rightarrow> time \<Rightarrow> string \<Rightarrow> redis \<Rightarrow> unit result \<times> redis" where
  "InvalidateByMoyskladID keys_ok key_ok now msID rd =
     (if \<not> keys_ok then (Inl (Upstream ''redis''), rd)
      else (Inr (), rd\<lparr>rd_stock := (\<lambda>pid.
             case live_stock now rd pid of
               Some info \<Rightarrow> if key_ok pid \<and> si_moysklad_id info = msID then None else rd_stock rd pid
             | None \<Rightarrow> rd_stock rd pid)\<rparr>))"

definition SetLastSyncTime :: "command_ok \<Rightarrow> time \<Rightarrow> redis \<Rightarrow> unit result \<times> redis" where
  "SetLastSyncTime up t rd =
     (if up 0 then (Inr (), rd\<lparr>rd_last_sync := Some (t div second * second)\<rparr>)
      else (Inl (Upstream ''redis''), rd))"

definition GetLastSyncTime :: "command_ok \<Rightarrow> redis \<Rightarrow> time option result" where
  "GetLastSyncTime up rd = (if up 0 then Inr (rd_last_sync rd) else Inl (Upstream ''redis''))"

definition ReserveStock :: "command_ok \<Rightarrow> id64 \<Rightarrow> int \<Rightarrow> redis \<Rightarrow> unit result \<times> redis" where
  "ReserveStock up pid q rd =
     (if q \<le> 0 then (Inr (), rd)
      else if up 0 then
        (Inr (), rd\<lparr>rd_reserved := (rd_reserved rd)(pid \<mapsto>
           (case rd_reserved rd pid of Some r \<Rightarrow> r | None \<Rightarrow> 0) + q)\<rparr>)
      else (Inl (Upstream ''redis''), rd))"

text \<open>The Lua script: the counter goes down by \<open>q\<close> and is deleted when nothing is left.\<close>

definition ReleaseStock :: "command_ok \<Rightarrow> nat \<Rightarrow> id64 \<Rightarrow> int \<Rightarrow> redis \<Rightarrow> unit result \<times> redis" where
  "ReleaseStock up k pid q rd =
     (if q \<le> 0 then (Inr (), rd)
      else if \<not> up k then (Inl (Upstream ''redis''), rd)
      else
        let next = (case rd_reserved rd pid of Some r \<Rightarrow> r | None \<Rightarrow> 0) - q
        in if next \<le> 0 then (Inr (), rd\<lparr>rd_reserved := (rd_reserved rd)(pid := None)\<rparr>)
           else (Inr (), rd\<lparr>rd_reserved := (rd_reserved rd)(pid \<mapsto> next)\<rparr>))"

definition GetReservedStock :: "command_ok \<Rightarrow> nat \<Rightarrow> id64 \<Rightarrow> redis \<Rightarrow> int result" where
  "GetReservedStock up k pid rd =
     (if up k then Inr (case rd_reserved rd pid of Some r \<Rightarrow> r | None \<Rightarrow> 0)
      else Inl (Upstream ''redis''))"

definition GetAvailableStock ::
  "command_ok \<Rightarrow> conn \<Rightarrow> time \<Rightarrow> id64 \<Rightarrow> shop_db \<Rightarrow> redis \<Rightarrow> int result \<times> redis" where
  "GetAvailableStock up c now pid db rd =
     (let finish = (\<lambda>stock rd'.
            case GetReservedStock up 2 pid rd' of
              Inl e \<Rightarrow> (Inl e, rd')
            | Inr r \<Rightarrow> (Inr (if stock - r < 0 then 0 else stock - r), rd'))
      in case GetStock up 0 now pid rd of
        Inl e \<Rightarrow> (Inl e, rd)
      | Inr (Some info) \<Rightarrow> finish (si_stock info) rd
      | Inr None \<Rightarrow>
          (case product_GetByID c 0 pid db of
             Inl e \<Rightarrow> (Inl e, rd)
           | Inr None \<Rightarrow> (Inl (RejectedItem ''not found'' pid), rd)
           | Inr (Some p) \<Rightarrow> finish (p_stock p) (snd (SetStock up 1 now (p_id p) [] (p_stock p) rd))))"

definition moysklad_key :: "product \<Rightarrow> string" where
  "moysklad_key p = (case p_moysklad_id p of Some m \<Rightarrow> m | None \<Rightarrow> [])"

fun BatchSetStocks :: "command_ok \<Rightarrow> nat \<Rightarrow> time \<Rightarrow> product list \<Rightarrow> redis \<Rightarrow> redis" where
  "BatchSetStocks up k now [] rd = rd"
| "BatchSetStocks up k now (p # ps) rd =
     BatchSetStocks up (Suc k) now ps (snd (SetStock up k now (p_id p) (moysklad_key p) (p_stock p) rd))"

text \<open>
  \<open>BatchGetAvailableStocks\<close>: \<open>read pid\<close> is whether the two GETs of a product in the pipeline
  go through. Products without a live entry are cold: their stock comes from the database (zero
  for those it does not have), warms the cache, and their reservation is not read.
\<close>

definition BatchGetAvailableStocks ::
  "(id64 \<Rightarrow> bool) \<Rightarrow> command_ok \<Rightarrow> conn \<Rightarrow> time \<Rightarrow> id64 list \<Rightarrow> shop_db \<Rightarrow> redis
    \<Rightarrow> (id64 \<rightharpoonup> int) \<times> redis" where
  "BatchGetAvailableStocks read up c now ids db rd =
     (let cached = (\<lambda>pid. if read pid then live_stock now rd pid else None);
          coldIDs = filter (\<lambda>pid. cached pid = None) ids;
          rows = (case product_GetByIDs c 0 coldIDs db of Inl e \<Rightarrow> [] | Inr ps \<Rightarrow> ps);
          stock = (\<lambda>pid. case cached pid of
                     Some info \<Rightarrow> si_stock info
                   | None \<Rightarrow> (case find_row p_id rows pid of Some p \<Rightarrow> p_stock p | None \<Rightarrow> 0));
          reserved = (\<lambda>pid. case cached pid of
                     Some info \<Rightarrow> (case rd_reserved rd pid of Some r \<Rightarrow> r | None \<Rightarrow> 0)
                   | None \<Rightarrow> 0)
      in ((\<lambda>pid. if pid \<in> set ids then Some (max 0 (stock pid - reserved pid)) else None),
          BatchSetStocks up 0 now rows rd))"

section \<open>Facts\<close>

lemma find_row_filter_ids:
  "pid \<in> set ids \<Longrightarrow> find_row p_id (filter (\<lambda>p. p_id p \<in> set ids) ps) pid = find_row p_id ps pid"
  by (induction ps) (auto simp: find_row_def)

text \<open>
  The reservation counters: releasing what was reserved gives the counter back as it was,
  a release never leaves a counter at zero or below, and neither touches the other products,
  the cached stocks or the sync time.
\<close>

theorem reserve_release:
  assumes "\<forall>r. rd_reserved rd pid = Some r \<longrightarrow> 0 < r" "0 < q"
  shows "(let (_, rd1) = ReserveStock (\<lambda>_. True) pid q rd;
        (_, rd2) = ReleaseStock (\<lambda>_. True) 0 pid q rd1
    in rd2 = rd) \<and>
    (let (_, rd1) = ReleaseStock (\<lambda>_. True) 0 pid q' rd
     in (\<forall>r. rd_reserved rd1 pid = Some r \<longrightarrow> 0 < r) \<and> rd_stock rd1 = rd_stock rd \<and>
       (\<forall>i. i \<noteq> pid \<longrightarrow> rd_reserved rd1 i = rd_reserved rd i))"
proof (cases "rd_reserved rd pid")
  case None
  then have "(rd_reserved rd)(pid := None) = rd_reserved rd" by (simp add: fun_upd_idem)
  with None assms show ?thesis by (simp add: ReserveStock_def ReleaseStock_def Let_def)
next
  case (Some r)
  then have "(rd_reserved rd)(pid \<mapsto> r) = rd_reserved rd" by (simp add: fun_upd_idem)
  with Some assms show ?thesis
    by (auto simp: ReserveStock_def ReleaseStock_def Let_def)
qed

theorem reserve_release_witness:
  "(let (_, rd1) = ReserveStock (\<lambda>_. True) 1 2 redis_empty;
        (_, rd2) = ReleaseStock (\<lambda>_. True) 0 1 2 rd1
    in rd2 = redis_empty)"
  using reserve_release [of redis_empty 1 2] by (simp add: redis_empty_def)

text \<open>
  The batch read against the single one, with Redis and the database up: for a product in
  the cache they give the same; for one that is not, the batch forgets the reservation: it gives
  the whole stock of the database where the single read subtracts what is reserved.
\<close>

theorem batch_against_single:
  assumes "distinct (map p_id (products db))" "pid \<in> set ids" "find_product db pid = Some p"
    "0 \<le> p_stock p"
  shows "fst (BatchGetAvailableStocks (\<lambda>_. True) up healthy now ids db rd) pid =
      (case live_stock now rd pid of
         Some info \<Rightarrow> (case fst (GetAvailableStock (\<lambda>_. True) healthy now pid db rd) of
                        Inr n \<Rightarrow> Some n | Inl e \<Rightarrow> None)
       | None \<Rightarrow> Some (p_stock p)) \<and>
    fst (GetAvailableStock (\<lambda>_. True) healthy now pid db rd) =
      Inr (max 0 ((case live_stock now rd pid of Some info \<Rightarrow> si_stock info | None \<Rightarrow> p_stock p) -
        (case rd_reserved rd pid of Some r \<Rightarrow> r | None \<Rightarrow> 0)))"
proof -
  have stmts: "c_stmt healthy k" for k by (simp add: healthy_def)
  have get: "product_GetByID healthy 0 pid db = Inr (Some p)"
    using product_GetByID_find [OF assms(1) stmts] assms(3) by simp
  have single: "fst (GetAvailableStock (\<lambda>_. True) healthy now pid db rd) =
      Inr (max 0 ((case live_stock now rd pid of Some info \<Rightarrow> si_stock info | None \<Rightarrow> p_stock p) -
        (case rd_reserved rd pid of Some r \<Rightarrow> r | None \<Rightarrow> 0)))"
    by (auto simp: GetAvailableStock_def GetStock_def GetReservedStock_def SetStock_def get Let_def
        split: option.splits)
  let ?cold = "filter (\<lambda>i. live_stock now rd i = None) ids"
  have "find_row p_id (case product_GetByIDs healthy 0 ?cold db of Inl e \<Rightarrow> [] | Inr ps \<Rightarrow> ps) pid = Some p"
    if "live_stock now rd pid = None"
  proof -
    have "pid \<in> set ?cold" using that assms(2) by simp
    moreover from this have "?cold \<noteq> []" by (metis list.distinct(1) list.set_cases)
    ultimately have "product_GetByIDs healthy 0 ?cold db = Inr (filter (\<lambda>p. p_id p \<in> set ?cold) (products db))"
      by (simp only: product_GetByIDs_def stmts if_False not_True_eq_False)
    with \<open>pid \<in> set ?cold\<close> show ?thesis using find_row_filter_ids [OF \<open>pid \<in> set ?cold\<close>, of "products db"] assms(3) by simp
  qed
  then show ?thesis
    using single assms(2,4)
    by (cases "live_stock now rd pid") (simp_all add: BatchGetAvailableStocks_def Let_def)
qed

text \<open>Two units of product 1 are reserved; the cache is cold.\<close>

definition stock_example :: redis where
  "stock_example = redis_empty\<lparr>rd_reserved := [1 \<mapsto> 2]\<rparr>"

theorem batch_against_single_witness:
  "fst (BatchGetAvailableStocks (\<lambda>_. True) (\<lambda>_. True) healthy 0 [1] product_example stock_example) 1 = Some 5 \<and>
    fst (GetAvailableStock (\<lambda>_. True) healthy 0 1 product_example stock_example) = Inr 3"
  using batch_against_single [of product_example 1 "[1]" "mk_product 1 10 5" "\<lambda>_. True" 0 stock_example]
  by (simp add: product_example_def mk_product_def find_row_def live_stock_def stock_example_def
      redis_empty_def max_def)

text \<open>
  What is cached is read back for thirty minutes and then no more; the buffered level of a
  non-negative stock stays between zero and the stock for any percentage from 0 to 100, and a
  miss is told apart by -1.
\<close>

theorem cached_stock_lifetime:
  assumes "0 \<le> stock" "0 \<le> buffer" "buffer \<le> 100" "now \<le> t"
  shows "let rd' = snd (SetStock (\<lambda>_. True) 0 now pid ms stock rd) in
    (if t < now + 30 * minute then
      map_option si_stock (live_stock t rd' pid) = Some stock \<and>
      (\<exists>n. GetStockWithBuffer (\<lambda>_. True) t pid buffer rd' = Inr n \<and> 0 \<le> n \<and> n \<le> stock)
     else GetStockWithBuffer (\<lambda>_. True) t pid buffer rd' = Inr (-1))"
proof -
  let ?x = "of_int stock * (1 - buffer / 100)"
  have "0 \<le> ?x" using assms by simp
  moreover have "?x \<le> of_int stock" using assms by (simp add: mult_left_le)
  ultimately have "0 \<le> trunc ?x \<and> trunc ?x \<le> stock"
    by (simp add: trunc_def) (metis floor_mono floor_of_int)
  then show ?thesis
    by (simp add: SetStock_def live_stock_def GetStockWithBuffer_def GetStock_def Let_def)
qed

theorem cached_stock_lifetime_witness:
  "GetStockWithBuffer (\<lambda>_. True) (40 * minute) 1 10 (snd (SetStock (\<lambda>_. True) 0 0 1 ''m'' 7 redis_empty)) = Inr (-1)"
  using cached_stock_lifetime [of 7 10 0 "40 * minute" 1 "''m''" redis_empty] by (simp add: Let_def)

end
