(* ===== verification/OrderUsecase.thy ===== *)
theory OrderUsecase
  imports OrderLifecycle Pricing StockCache
begin

text \<open>
  internal/usecase/order.go, internal/services/reservation_expiry.go and the order handlers of
  internal/handlers/orders.go: taking, cancelling, expiring and completing an order over the
  database, the stock cache and the Moysklad ERP. The state is the shop's database, the cache and
  the ids of the customer orders Moysklad holds. What the outside world answers in a call is the
  record \<open>order_env\<close>: the connection of each group of statements, the commands to Redis that go
  through, and the answers of Moysklad (its HTTP client is modelled in MoyskladClient).
\<close>

section \<open>State and environment\<close>

record world =
  w_db :: shop_db
  w_redis :: redis
  w_remote :: "string set"

record order_env =
  oe_now :: time
  oe_location :: duration
  oe_pricer :: bool
  oe_moysklad :: "bool option"
  oe_create :: "string result"
  oe_delete_ok :: bool
  oe_cache :: bool
  oe_up :: command_ok
  oe_check :: conn
  oe_deadline :: conn
  oe_prices :: conn
  oe_tx :: conn
  oe_events :: "conn option"

text \<open>\<open>oe_moysklad\<close> is \<open>None\<close> without the integration, else whether its order defaults are set.\<close>

definition usual_env :: "time \<Rightarrow> order_env" where
  "usual_env now = \<lparr>oe_now = now, oe_location = 0, oe_pricer = True, oe_moysklad = None,
     oe_create = Inl (Upstream ''moysklad''), oe_delete_ok = True, oe_cache = True,
     oe_up = (\<lambda>_. True), oe_check = healthy, oe_deadline = healthy, oe_prices = healthy,
     oe_tx = healthy, oe_events = Some healthy\<rparr>"

lemma usual_env_simps [simp]:
  "oe_now (usual_env t) = t" "oe_location (usual_env t) = 0" "oe_pricer (usual_env t)"
  "oe_moysklad (usual_env t) = None" "oe_cache (usual_env t)" "oe_up (usual_env t) = (\<lambda>_. True)"
  "oe_check (usual_env t) = healthy" "oe_deadline (usual_env t) = healthy"
  "oe_prices (usual_env t) = healthy" "oe_tx (usual_env t) = healthy"
  "oe_events (usual_env t) = Some healthy" "oe_delete_ok (usual_env t)"
  by (simp_all add: usual_env_def)

record create_order_request =
  rq_user_id :: id64
  rq_customer_name :: string
  rq_phone :: string
  rq_address :: "string option"
  rq_comment :: "string option"
  rq_pickup_at :: "time option"
  rq_items :: "(id64 \<times> int) list"

section \<open>Parts of CreateOrder\<close>

text \<open>The loop that fixes the price of each line; the queries are statements \<open>k\<close>, \<open>k + 1\<close>, ...\<close>

fun price_items ::
  "conn \<Rightarrow> nat \<Rightarrow> (id64 \<times> int) list \<Rightarrow> shop_db \<Rightarrow> (order_item list \<times> money) result" where
  "price_items c k [] db = Inr ([], 0)"
| "price_items c k ((pid, q) # its) db =
     (if q \<le> 0 then Inl (RejectedItem ''invalid quantity'' pid)
      else case product_GetByID c k pid db of
        Inl e \<Rightarrow> Inl e
      | Inr None \<Rightarrow> Inl (RejectedItem ''not found'' pid)
      | Inr (Some p) \<Rightarrow>
          if \<not> p_active p then Inl (RejectedItem ''not active'' pid)
          else case price_items c (Suc k) its db of
            Inl e \<Rightarrow> Inl e
          | Inr (items, totalPrice) \<Rightarrow>
              Inr (\<lparr>oi_id = 0, oi_order_id = 0, oi_product_id = pid, oi_quantity = q,
                     oi_price = p_price p, oi_product_name = []\<rparr> # items,
                   p_price p * of_int q + totalPrice))"

definition check_pickup :: "time \<Rightarrow> time \<Rightarrow> bool \<Rightarrow> time option \<Rightarrow> error option" where
  "check_pickup now reservedUntil day_promo pickup =
     (case pickup of
        None \<Rightarrow> None
      | Some t \<Rightarrow>
          if \<not> t > now then Some (Rejected ''pickup time must be in the future'')
          else if t > reservedUntil then
            (if day_promo then Some (Rejected ''promotion_pickup_window'')
             else Some (Rejected ''pickup time must be before reservation expires''))
          else None)"

definition recordEvent ::
  "order_env \<Rightarrow> id64 \<Rightarrow> string \<Rightarrow> id64 option \<Rightarrow> event_payload option \<Rightarrow> shop_db \<Rightarrow> shop_db" where
  "recordEvent env orderID ty actor payload db =
     (case oe_events env of
        None \<Rightarrow> db
      | Some c \<Rightarrow> snd (event_Insert c (oe_now env) orderID ty actor payload db))"

text \<open>After the commit, for each product: cache its stock, release its reservation.\<close>

fun refresh_cache ::
  "command_ok \<Rightarrow> nat \<Rightarrow> time \<Rightarrow> product list \<Rightarrow> order_item list \<Rightarrow> redis \<Rightarrow> redis" where
  "refresh_cache up k now (p # ps) (it # its) rd =
     (let rd1 = snd (SetStock up k now (p_id p) (moysklad_key p) (p_stock p) rd);
          rd2 = snd (ReleaseStock up (Suc k) (p_id p) (oi_quantity it) rd1)
      in refresh_cache up (k + 2) now ps its rd2)"
| "refresh_cache up k now _ _ rd = rd"

definition new_order :: "create_order_request \<Rightarrow> money \<Rightarrow> time \<Rightarrow> string option \<Rightarrow> order" where
  "new_order req totalPrice reservedUntil msID =
     \<lparr>o_id = 0, o_user_id = Some (rq_user_id req), o_status = ''pending'',
       o_total_price = totalPrice, o_customer_name = rq_customer_name req,
       o_phone = rq_phone req, o_address = rq_address req, o_comment = rq_comment req,
       o_moysklad_id = msID, o_created_at = zero_time, o_updated_at = zero_time,
       o_reserved_until = Some reservedUntil, o_pickup_at = rq_pickup_at req, o_items = []\<rparr>"

text \<open>The deadline of a day promotion in the order; a failed query counts as none.\<close>

definition day_deadline :: "order_env \<Rightarrow> id64 list \<Rightarrow> shop_db \<Rightarrow> time option" where
  "day_deadline env productIDs db =
     (if oe_pricer env then
        (case DayPromotionDeadline (oe_deadline env) 0 productIDs (oe_now env) db of
           Inr d \<Rightarrow> d | Inl e \<Rightarrow> None)
      else None)"

definition reserved_until :: "order_env \<Rightarrow> id64 list \<Rightarrow> shop_db \<Rightarrow> time" where
  "reserved_until env productIDs db =
     (case day_deadline env productIDs db of
        Some d \<Rightarrow> d
      | None \<Rightarrow> reservedUntilFor (oe_location env) (oe_now env))"

text \<open>What the call decides before it writes anything: the lines, the total, the deadline.\<close>

definition prepare_order ::
  "order_env \<Rightarrow> create_order_request \<Rightarrow> shop_db \<Rightarrow> (order_item list \<times> money \<times> time) result" where
  "prepare_order env req db =
     (let now = oe_now env; productIDs = map fst (rq_items req)
      in if rq_customer_name req = [] then Inl (Rejected ''customer name is required'')
         else if rq_phone req = [] then Inl (Rejected ''phone is required'')
         else if rq_items req = [] then Inl (Rejected ''at least one item is required'')
         else if oe_moysklad env = Some False then
           Inl (Rejected ''moysklad integration is not fully configured'')
         else case (if oe_pricer env then CheckDayPromotionWindow (oe_check env) 0 productIDs now db else None) of
           Some e \<Rightarrow> Inl e
         | None \<Rightarrow>
             case price_items (oe_prices env) 0 (rq_items req) db of
               Inl e \<Rightarrow> Inl e
             | Inr (items, totalPrice) \<Rightarrow>
                 case check_pickup now (reserved_until env productIDs db)
                        (day_deadline env productIDs db \<noteq> None) (rq_pickup_at req) of
                   Some e \<Rightarrow> Inl e
                 | None \<Rightarrow> Inr (items, totalPrice, reserved_until env productIDs db))"

section \<open>The use case\<close>

text \<open>The order of Moysklad, created first when there is a client.\<close>

definition remote_order :: "order_env \<Rightarrow> string option result" where
  "remote_order env =
     (if oe_moysklad env = None then Inr None
      else case oe_create env of Inl e \<Rightarrow> Inl e | Inr mid \<Rightarrow> Inr (Some mid))"

definition CreateOrder :: "order_env \<Rightarrow> create_order_request \<Rightarrow> world \<Rightarrow> order result \<times> world" where
  "CreateOrder env req w =
     (case prepare_order env req (w_db w) of
        Inl e \<Rightarrow> (Inl e, w)
      | Inr (items, totalPrice, reservedUntil) \<Rightarrow>
          (case remote_order env of
             Inl e \<Rightarrow> (Inl e, w)
           | Inr msID \<Rightarrow>
               let w1 = (case msID of None \<Rightarrow> w | Some mid \<Rightarrow> w\<lparr>w_remote := insert mid (w_remote w)\<rparr>);
                   ord = new_order req totalPrice reservedUntil msID
               in (case CreateOrderAtomic (oe_tx env) (oe_now env) ord items (rq_user_id req) (w_db w1) of
                  (Inl e, db') \<Rightarrow>
                    (Inl e, case msID of
                       None \<Rightarrow> w1
                     | Some mid \<Rightarrow> if oe_delete_ok env then w1\<lparr>w_remote := w_remote w1 - {mid}\<rparr> else w1)
                | (Inr (row, updated), db') \<Rightarrow>
                    let db1 = recordEvent env (o_id row) OrderEventCreated (Some (rq_user_id req))
                                (Some (ItemsAndTotal (length items) (o_total_price row))) db';
                        rd = (if oe_cache env then refresh_cache (oe_up env) 0 (oe_now env) updated items (w_redis w1)
                              else w_redis w1);
                        db2 = (case msID of
                                 None \<Rightarrow> db1
                               | Some mid \<Rightarrow> recordEvent env (o_id row) OrderEventMoyskladSynced None
                                                (Some (MoyskladOrderId mid)) db1)
                    in (Inr row, w1\<lparr>w_db := db2, w_redis := rd\<rparr>))))"

text \<open>
  A cancel call: \<open>locked\<close> and \<open>pick\<close> as in \<open>CancelPendingOrderAtomic\<close>; \<open>oe_moysklad\<close> says whether
  there is a client to delete the remote order with.
\<close>

definition drop_remote :: "order_env \<Rightarrow> string option \<Rightarrow> string set \<Rightarrow> string set" where
  "drop_remote env msID remote =
     (case msID of
        Some m \<Rightarrow> if m \<noteq> [] \<and> oe_moysklad env \<noteq> None \<and> oe_delete_ok env then remote - {m} else remote
      | None \<Rightarrow> remote)"

definition cancel_with ::
  "order_env \<Rightarrow> bool \<Rightarrow> (order_item list \<Rightarrow> order_item) \<Rightarrow> id64 \<Rightarrow> string \<Rightarrow> id64 option
    \<Rightarrow> string \<Rightarrow> id64 option \<Rightarrow> event_payload \<Rightarrow> world \<Rightarrow> unit result \<times> world" where
  "cancel_with env locked pick orderID targetStatus owner eventType actor payload w =
     (case CancelPendingOrderAtomic (oe_tx env) locked pick (oe_now env) orderID targetStatus owner (w_db w) of
        (Inl e, db') \<Rightarrow> (Inl e, w\<lparr>w_db := db'\<rparr>)
      | (Inr (msID, alreadyHandled, restored), db') \<Rightarrow>
          if alreadyHandled then (Inr (), w\<lparr>w_db := db'\<rparr>)
          else (Inr (),
            w\<lparr>w_db := recordEvent env orderID eventType actor (Some payload) db',
              w_redis := (if oe_cache env then BatchSetStocks (oe_up env) 0 (oe_now env) restored (w_redis w)
                          else w_redis w),
              w_remote := drop_remote env msID (w_remote w)\<rparr>))"

definition cancelOrder ::
  "order_env \<Rightarrow> bool \<Rightarrow> (order_item list \<Rightarrow> order_item) \<Rightarrow> id64 \<Rightarrow> string \<Rightarrow> id64 option
    \<Rightarrow> id64 option \<Rightarrow> world \<Rightarrow> unit result \<times> world" where
  "cancelOrder env locked pick orderID targetStatus owner actor w =
     cancel_with env locked pick orderID targetStatus owner
       (if targetStatus = ''expired'' then OrderEventExpired else OrderEventCancelled) actor
       (TargetStatus targetStatus) w"

definition CancelOrderByUser where
  "CancelOrderByUser env locked pick userID orderID w =
     cancelOrder env locked pick orderID ''cancelled'' (Some userID) (Some userID) w"

definition CancelOrderByAdmin where
  "CancelOrderByAdmin env locked pick orderID admin w =
     cancelOrder env locked pick orderID ''cancelled'' None admin w"

definition ExpireOrderByAdmin where
  "ExpireOrderByAdmin env locked pick orderID admin w =
     cancelOrder env locked pick orderID ''expired'' None admin w"

definition uc_CompleteOrder :: "order_env \<Rightarrow> id64 \<Rightarrow> id64 option \<Rightarrow> world \<Rightarrow> unit result \<times> world" where
  "uc_CompleteOrder env orderID admin w =
     (case CompleteOrder (oe_tx env) (oe_now env) orderID (w_db w) of
        (Inl e, db') \<Rightarrow> (Inl e, w\<lparr>w_db := db'\<rparr>)
      | (Inr alreadyHandled, db') \<Rightarrow>
          if alreadyHandled then (Inr (), w\<lparr>w_db := db'\<rparr>)
          else (Inr (), w\<lparr>w_db := recordEvent env orderID OrderEventShipped admin None db'\<rparr>))"

text \<open>
  \<open>GetUserOrders\<close>: the lines of each order with the names of their products; an order whose
  lines cannot be read is given without. \<open>ic\<close> and \<open>pc\<close> are the connections of the queries for an
  order's lines and for a product.
\<close>

definition named_item :: "(id64 \<Rightarrow> conn) \<Rightarrow> shop_db \<Rightarrow> order_item \<Rightarrow> order_item" where
  "named_item pc db it =
     (case product_GetByID (pc (oi_id it)) 0 (oi_product_id it) db of
        Inr (Some p) \<Rightarrow> it\<lparr>oi_product_name := p_name p\<rparr>
      | _ \<Rightarrow> it)"

definition GetUserOrders ::
  "conn \<Rightarrow> (id64 \<Rightarrow> conn) \<Rightarrow> (id64 \<Rightarrow> conn) \<Rightarrow> id64 \<Rightarrow> shop_db \<Rightarrow> order list result" where
  "GetUserOrders c ic pc uid db =
     (case GetByUserID c uid db of
        Inl e \<Rightarrow> Inl e
      | Inr os \<Rightarrow> Inr (map (\<lambda>o'.
          case getOrderItems (ic (o_id o')) 0 (o_id o') db of
            Inl e \<Rightarrow> o'
          | Inr its \<Rightarrow> o'\<lparr>o_items := o_items o' @ map (named_item pc db) its\<rparr>) os))"

section \<open>The expiry job\<close>

definition NewReservationExpiryService :: "duration \<Rightarrow> int \<Rightarrow> duration \<times> int" where
  "NewReservationExpiryService interval batchSize =
     (if interval \<le> 0 then 5 * minute else interval, if batchSize \<le> 0 then 100 else batchSize)"

definition expireOne ::
  "order_env \<Rightarrow> bool \<Rightarrow> (order_item list \<Rightarrow> order_item) \<Rightarrow> id64 \<Rightarrow> world \<Rightarrow> unit result \<times> world" where
  "expireOne env locked pick orderID w =
     cancel_with env locked pick orderID ''expired'' None OrderEventExpired None
       (Reason ''ttl_expired_by_cron'') w"

text \<open>The loop over the ids, with the number of orders counted as expired.\<close>

fun expire_all ::
  "(id64 \<Rightarrow> order_env) \<Rightarrow> (id64 \<Rightarrow> bool) \<Rightarrow> (order_item list \<Rightarrow> order_item) \<Rightarrow> id64 list \<Rightarrow> world
    \<Rightarrow> nat \<times> world" where
  "expire_all envs locked pick [] w = (0, w)"
| "expire_all envs locked pick (k # ks) w =
     (case expireOne (envs k) (locked k) pick k w of
        (Inl e, w') \<Rightarrow> expire_all envs locked pick ks w'
      | (Inr _, w') \<Rightarrow> (let (n, w'') = expire_all envs locked pick ks w' in (Suc n, w'')))"

definition tick ::
  "conn \<Rightarrow> time \<Rightarrow> int \<Rightarrow> (id64 \<Rightarrow> order_env) \<Rightarrow> (id64 \<Rightarrow> bool) \<Rightarrow> (order_item list \<Rightarrow> order_item)
    \<Rightarrow> world \<Rightarrow> nat \<times> world" where
  "tick c now batchSize envs locked pick w =
     (case ListExpiredPendingIDs c now batchSize (w_db w) of
        Inl e \<Rightarrow> (0, w)
      | Inr ids \<Rightarrow> expire_all envs locked pick ids w)"

section \<open>Handlers\<close>

text \<open>
  A handler gives the HTTP status and the transitions it counted in the metrics. \<open>user\<close> is the
  \<open>user_id\<close> of the request context; \<open>orderID\<close> what \<open>strconv.ParseInt\<close> made of the path, \<open>None\<close>
  when it failed.
\<close>

definition handle_CancelOrder where
  "handle_CancelOrder env locked pick user orderID w =
     (case user of
        None \<Rightarrow> (401, [], w)
      | Some uid \<Rightarrow>
          (case orderID of
             None \<Rightarrow> (400, [], w)
           | Some k \<Rightarrow>
               if k \<le> 0 then (400, [], w)
               else (case CancelOrderByUser env locked pick uid k w of
                  (Inl e, w') \<Rightarrow> (if e = OrderForbidden then 403 else 500 :: int, [], w')
                | (Inr _, w') \<Rightarrow> (200, [''cancelled''], w'))))"

definition handle_admin ::
  "(id64 \<Rightarrow> world \<Rightarrow> unit result \<times> world) \<Rightarrow> string \<Rightarrow> id64 option \<Rightarrow> world
    \<Rightarrow> int \<times> string list \<times> world" where
  "handle_admin op transition orderID w =
     (case orderID of
        None \<Rightarrow> (400, [], w)
      | Some k \<Rightarrow>
          if k \<le> 0 then (400, [], w)
          else (case op k w of (Inl e, w') \<Rightarrow> (500, [], w') | (Inr _, w') \<Rightarrow> (200, [transition], w')))"

definition handle_ShipOrder where
  "handle_ShipOrder env actor orderID w =
     handle_admin (\<lambda>k. uc_CompleteOrder env k actor) ''completed'' orderID w"

definition handle_CancelOrderByAdmin where
  "handle_CancelOrderByAdmin env locked pick actor orderID w =
     handle_admin (\<lambda>k. CancelOrderByAdmin env locked pick k actor) ''cancelled'' orderID w"

definition handle_ExpireOrder where
  "handle_ExpireOrder env locked pick actor orderID w =
     handle_admin (\<lambda>k. ExpireOrderByAdmin env locked pick k actor) ''expired'' orderID w"

text \<open>
  \<open>handle_CreateOrder\<close>: \<open>user\<close>, \<open>username\<close>, \<open>email\<close> of the context, whether the request calls
  itself JSON, the request its body parsed to, and the phone of the profile when it can be read.
\<close>

definition create_error_status :: "error \<Rightarrow> int" where
  "create_error_status e =
     (case e of
        InsufficientStock pid \<Rightarrow> 409
      | Rejected m \<Rightarrow>
          if m = ''promotion_pickup_window'' \<or> m = ''promotion_window_closed'' then 409
          else if m = ''moysklad integration is not fully configured'' then 503
          else 500
      | _ \<Rightarrow> 500)"

definition handle_CreateOrder ::
  "order_env \<Rightarrow> id64 option \<Rightarrow> string option \<Rightarrow> string option \<Rightarrow> bool
    \<Rightarrow> create_order_request option \<Rightarrow> string option \<Rightarrow> world \<Rightarrow> int \<times> money list \<times> world" where
  "handle_CreateOrder env user username email json body profile_phone w =
     (case user of
        None \<Rightarrow> (if json then 401 else 302, [], w)
      | Some uid \<Rightarrow>
          (case body of
             None \<Rightarrow> (400, [], w)
           | Some req \<Rightarrow>
               let name = (if rq_customer_name req \<noteq> [] then Some (rq_customer_name req)
                           else if username \<noteq> None \<and> username \<noteq> Some [] then username
                           else if email \<noteq> None \<and> email \<noteq> Some [] then email
                           else None);
                   phone = (if rq_phone req \<noteq> [] then Some (rq_phone req)
                            else if profile_phone \<noteq> Some [] then profile_phone else None)
               in case name of
                 None \<Rightarrow> (400, [], w)
               | Some n \<Rightarrow>
                   (case phone of
                      None \<Rightarrow> (400, [], w)
                    | Some ph \<Rightarrow>
                        (case CreateOrder env (req\<lparr>rq_user_id := uid, rq_customer_name := n, rq_phone := ph\<rparr>) w of
                           (Inl e, w') \<Rightarrow> (create_error_status e, [], w')
                         | (Inr row, w') \<Rightarrow> (201, [o_total_price row], w')))))"

end
