(* ===== verification/OrderExpiry.thy ===== *)
theory OrderExpiry
  imports OrderFlow OrderGuarantees
begin

text \<open>
  The properties of cancellation and of the expiry job, and the stock cache after an order.
\<close>

section \<open>A cancellation on a working connection\<close>

lemma cancel_healthy:
  "CancelPendingOrderAtomic healthy locked pick now k target owner db =
    (if target \<notin> allowedCancelStatuses then (Inl (InvalidTarget target), db)
     else case find_order db k of
       None \<Rightarrow> (Inr (None, True, []), db)
     | Some o' \<Rightarrow>
         if locked \<or> o_status o' \<noteq> ''pending'' then (Inr (None, True, []), db)
         else if owner \<noteq> None \<and> o_user_id o' \<noteq> owner then (Inl OrderForbidden, db)
         else (Inr (o_moysklad_id o', False,
             sql_returning (\<lambda>p. restore_items k (order_items db) p \<noteq> [])
               (restore_set now pick k (order_items db)) (products db)), cancelled_db pick now k target db))"
  by (auto simp: CancelPendingOrderAtomic_def cancel_body_def cancelled_db_def healthy_def Let_def
      split: option.splits)

lemma cancel_with_db:
  assumes "shop_inv (w_db w)" "picks_row pick" "cancel_with env locked pick k target owner ty actor pl w = (r, w')"
  shows "shop_inv (w_db w')"
proof -
  obtain res db' where c: "CancelPendingOrderAtomic (oe_tx env) locked pick (oe_now env) k target owner (w_db w) = (res, db')"
    by (cases "CancelPendingOrderAtomic (oe_tx env) locked pick (oe_now env) k target owner (w_db w)")
  have "order_step (w_db w) db'" by (rule order_step.cancel [OF assms(2) c])
  then have "shop_inv db'" using order_step_inv assms(1) by blast
  then show ?thesis
    using assms(3) c by (auto simp: cancel_with_def split: sum.splits prod.splits if_splits)
qed

text \<open>
  What a customer's cancel request gets, with everything working and the order not locked. There
  is no 404: an order that is unknown or no longer pending is answered 200 'cancelled' and counted
  as a cancellation although nothing happened, even to a stranger; a stranger's pending order gives
  403 and stays; the customer's own pending order becomes cancelled and its stock comes back.
\<close>

theorem customer_cancel_outcomes:
  assumes "shop_inv (w_db w)" "picks_row pick" "oe_tx env = healthy" "0 < k"
  shows "let (code, counted, w') = handle_CancelOrder env False pick (Some uid) (Some k) w in
    (case find_order (w_db w) k of
       None \<Rightarrow> code = 200 \<and> counted = [''cancelled''] \<and> w' = w
     | Some o' \<Rightarrow>
         if o_status o' \<noteq> ''pending'' then code = 200 \<and> counted = [''cancelled''] \<and> w' = w
         else if o_user_id o' \<noteq> Some uid then code = 403 \<and> counted = [] \<and> w' = w
         else code = 200 \<and> counted = [''cancelled''] \<and> status_of (w_db w') k = Some ''cancelled'' \<and>
           (\<forall>pid. stock_of (w_db w') pid = stock_of (w_db w) pid + qty (order_lines (w_db w) k) pid) \<and>
           (\<forall>j. j \<noteq> k \<longrightarrow> status_of (w_db w') j = status_of (w_db w) j))"
proof (cases "find_order (w_db w) k")
  case None
  then show ?thesis
    using assms(3,4) by (simp add: handle_CancelOrder_def CancelOrderByUser_def cancelOrder_def cancel_with_def
        cancel_healthy allowedCancelStatuses_def)
next
  case (Some o')
  have inv: "schema_inv (w_db w)" "lines_inv (w_db w)" using assms(1) by (simp_all add: shop_inv_def)
  have st: "status_of (w_db w) k = Some (o_status o')" using Some by (simp add: status_of_def)
  show ?thesis
    using Some assms(3,4) st
    by (simp add: handle_CancelOrder_def CancelOrderByUser_def cancelOrder_def cancel_with_def
        cancel_healthy allowedCancelStatuses_def cancelled_effect
        stock_cancelled_lines [OF inv assms(2)])
qed

theorem customer_cancel_outcomes_witness:
  "let (code, counted, w') = handle_CancelOrder (usual_env 0) False hd (Some 7) (Some 99) order_example
   in code = 200 \<and> counted = [''cancelled''] \<and> w' = order_example"
proof -
  have "find_order (w_db order_example) 99 = None"
    by (simp add: order_example_def promotion_example_def empty_shop_def find_row_def)
  then show ?thesis
    using customer_cancel_outcomes [OF order_example_inv example_items_ok(4) usual_env_simps(10), of 99 0 7]
    by (simp split: prod.splits)
qed

section \<open>The expiry job\<close>

lemma expireOne_healthy:
  assumes "oe_tx env = healthy" "status_of (w_db w) k = Some ''pending''"
  shows "\<exists>w'. expireOne env False pick k w = (Inr (), w') \<and>
    products (w_db w') = products (cancelled_db pick (oe_now env) k ''expired'' (w_db w)) \<and>
    (\<forall>j. status_of (w_db w') j = (if j = k then Some ''expired'' else status_of (w_db w) j))"
proof -
  obtain o' where o': "find_order (w_db w) k = Some o'" "o_status o' = ''pending''"
    using assms(2) by (auto simp: status_of_def)
  then show ?thesis
    using assms by (auto simp: expireOne_def cancel_with_def cancel_healthy allowedCancelStatuses_def
        cancelled_effect)
qed

lemma expire_all_healthy:
  assumes "\<forall>k. oe_tx (envs k) = healthy" "picks_row pick" "distinct ks"
    "\<forall>k \<in> set ks. status_of (w_db w) k = Some ''pending''" "shop_inv (w_db w)"
  shows "\<exists>w'. expire_all envs (\<lambda>_. False) pick ks w = (length ks, w') \<and> shop_inv (w_db w') \<and>
    (\<forall>j. status_of (w_db w') j = (if j \<in> set ks then Some ''expired'' else status_of (w_db w) j))"
  using assms(3-5)
proof (induction ks arbitrary: w)
  case (Cons k ks)
  from expireOne_healthy [of "envs k" w k pick] assms(1) Cons.prems(2)
  obtain w1 where w1: "expireOne (envs k) False pick k w = (Inr (), w1)"
    and st: "\<forall>j. status_of (w_db w1) j = (if j = k then Some ''expired'' else status_of (w_db w) j)"
    by auto
  have inv: "shop_inv (w_db w1)"
    using cancel_with_db [OF Cons.prems(3) assms(2)] w1 unfolding expireOne_def by blast
  have "\<forall>j \<in> set ks. status_of (w_db w1) j = Some ''pending''"
    using st Cons.prems(1,2) by auto
  from Cons.IH [OF _ this inv] Cons.prems(1) obtain w' where
    "expire_all envs (\<lambda>_. False) pick ks w1 = (length ks, w')" "shop_inv (w_db w')"
    "\<forall>j. status_of (w_db w') j = (if j \<in> set ks then Some ''expired'' else status_of (w_db w1) j)"
    by auto
  with w1 st show ?case by auto
qed simp

text \<open>
  C9. One run of the expiry job, with everything working, no order locked and no more orders due
  than the batch holds: exactly the pending orders whose reservation is over become expired, all
  others keep their status, their number is what the job counts, the invariant is kept, and no
  pending order is due afterwards.
\<close>

theorem expiry_tick_expires_due:
  assumes "shop_inv (w_db w)" "picks_row pick" "\<forall>k. oe_tx (envs k) = healthy"
    "length (filter (expired_pending now) (orders (w_db w))) \<le> nat batch" "0 < batch"
  shows "let (n, w') = tick healthy now batch envs (\<lambda>_. False) pick w in
    n = length (filter (expired_pending now) (orders (w_db w))) \<and> shop_inv (w_db w') \<and>
    (\<forall>k. status_of (w_db w') k =
      (case find_order (w_db w) k of
         Some o' \<Rightarrow> Some (if expired_pending now o' then ''expired'' else o_status o')
       | None \<Rightarrow> None))"
proof -
  let ?due = "filter (expired_pending now) (orders (w_db w))"
  let ?ids = "map o_id (sort_key (\<lambda>o'. the (o_reserved_until o')) ?due)"
  have list: "ListExpiredPendingIDs healthy now batch (w_db w) = Inr ?ids"
    using assms(4,5) by (simp add: ListExpiredPendingIDs_def healthy_def Let_def)
  have keys: "distinct (map o_id (orders (w_db w)))"
    using assms(1) by (simp add: shop_inv_def schema_inv_def)
  have "mset ?ids = mset (map o_id ?due)" by simp
  moreover have "distinct (map o_id ?due)" using keys by (simp add: distinct_map_filter)
  ultimately have dist: "distinct ?ids" by (metis mset_eq_imp_distinct_iff)
  have due: "k \<in> set ?ids \<longleftrightarrow> (\<exists>o'. find_order (w_db w) k = Some o' \<and> expired_pending now o')" for k
    using order_rows.find_row_unique [OF keys] by (force dest: order_rows.find_row_Some)
  have "\<forall>k \<in> set ?ids. status_of (w_db w) k = Some ''pending''"
    using due by (auto simp: status_of_def expired_pending_def)
  from expire_all_healthy [OF assms(3,2) dist this assms(1)] obtain w' where
    run: "expire_all envs (\<lambda>_. False) pick ?ids w = (length ?ids, w')" "shop_inv (w_db w')"
    and st: "\<forall>j. status_of (w_db w') j = (if j \<in> set ?ids then Some ''expired'' else status_of (w_db w) j)"
    by blast
  have "status_of (w_db w') k = (case find_order (w_db w) k of
         Some o' \<Rightarrow> Some (if expired_pending now o' then ''expired'' else o_status o')
       | None \<Rightarrow> None)" for k
    using st due [of k] by (auto simp: status_of_def split: option.splits)
  then show ?thesis using run by (simp add: tick_def list)
qed

definition expiry_example :: world where
  "expiry_example = order_example\<lparr>w_db := empty_shop\<lparr>products := [mk_product 1 10 2],
     orders := [(mk_order 7)\<lparr>o_id := 1, o_reserved_until := Some 5\<rparr>,
                (mk_order 7)\<lparr>o_id := 2, o_reserved_until := Some 50\<rparr>], next_order := 3,
     order_items := [(mk_item 1 1 10)\<lparr>oi_order_id := 1\<rparr>, (mk_item 1 2 10)\<lparr>oi_order_id := 2\<rparr>]\<rparr>\<rparr>"

theorem expiry_tick_expires_due_witness:
  "let (n, w') = tick healthy 10 100 (\<lambda>_. usual_env 10) (\<lambda>_. False) hd expiry_example
   in n = 1 \<and> status_of (w_db w') 1 = Some ''expired'' \<and> status_of (w_db w') 2 = Some ''pending''"
proof -
  have "shop_inv (w_db expiry_example)"
    by (auto simp: expiry_example_def empty_shop_def mk_order_def mk_item_def mk_product_def
        shop_inv_def schema_inv_def lines_inv_def stock_inv_def order_lines_def order_status_ok_def)
  from expiry_tick_expires_due [OF this example_items_ok(4), of "\<lambda>_. usual_env 10" 10 100]
  show ?thesis
    by (simp add: expiry_example_def empty_shop_def mk_order_def expired_pending_def find_row_def
        case_prod_beta Let_def)
qed

section \<open>The stock cache after an order\<close>

lemma decrement_other_rows:
  "decrement_all c k now its ps = Inr (updated, ps') \<Longrightarrow> pid \<notin> oi_product_id ` set its \<Longrightarrow>
    find_row p_id ps' pid = find_row p_id ps pid"
proof (induction its arbitrary: k ps updated)
  case (Cons it its)
  let ?ps = "sql_update (decrement_where it) (decrement_set now it) ps"
  obtain up where "decrement_all c (Suc k) now its ?ps = Inr (up, ps')"
    using Cons.prems(1) by (auto split: if_splits sum.splits prod.splits scan.splits)
  from Cons.IH [OF this] Cons.prems(2) have "find_row p_id ps' pid = find_row p_id ?ps pid" by simp
  also have "\<dots> = find_row p_id ps pid"
    using Cons.prems(2)
    by (cases "find_row p_id ps pid")
      (auto simp: decrement_lookup decrement_where_def dest: product_rows.find_row_Some)
  finally show ?case .
qed simp

lemma decrement_updated_rows:
  assumes "distinct (map p_id ps)" "decrement_all c k now its ps = Inr (updated, ps')"
    "distinct (map oi_product_id its)"
  shows "map p_id updated = map oi_product_id its \<and> (\<forall>p \<in> set updated. find_row p_id ps' (p_id p) = Some p)"
  using assms
proof (induction its arbitrary: k ps updated)
  case (Cons it its)
  let ?ps = "sql_update (decrement_where it) (decrement_set now it) ps"
  let ?p = "the (find_row p_id ps (oi_product_id it))"
  from Cons.prems obtain up where
      av: "available ps (oi_product_id it) (oi_quantity it)"
    and rest: "decrement_all c (Suc k) now its ?ps = Inr (up, ps')"
    and up: "updated = decrement_set now it ?p # up"
    unfolding decrement_step [OF Cons.prems(1)]
    by (auto split: if_splits sum.splits prod.splits)
  from av obtain p where p: "find_row p_id ps (oi_product_id it) = Some p" "oi_quantity it \<le> p_stock p" "p_active p"
    by (auto simp: available_def split: option.splits)
  have key: "p_id p = oi_product_id it" using p(1) by (simp add: product_rows.find_row_Some)
  have "find_row p_id ps' (oi_product_id it) = find_row p_id ?ps (oi_product_id it)"
    using decrement_other_rows [OF rest] Cons.prems(3) by simp
  then have "find_row p_id ps' (oi_product_id it) = Some (decrement_set now it p)"
    using p key by (simp add: decrement_lookup decrement_where_def)
  moreover have "distinct (map p_id ?ps)" using Cons.prems(1) by (simp add: decrement_keys)
  ultimately show ?case
    using Cons.IH [OF _ rest] Cons.prems(3) p(1) key by (simp add: up decrement_set_def)
qed simp

lemma refresh_cache_stock:
  assumes "length its = length ps" "distinct (map p_id ps)" "t < now + 30 * minute"
  shows "map_option si_stock (live_stock t (refresh_cache (\<lambda>_. True) k now ps its rd) pid) =
    (case find_row p_id ps pid of Some p \<Rightarrow> Some (p_stock p)
     | None \<Rightarrow> map_option si_stock (live_stock t rd pid))"
  using assms
proof (induction ps arbitrary: its k rd)
  case (Cons p ps)
  then obtain it its' where its: "its = it # its'" by (cases its) auto
  let ?rd1 = "snd (SetStock (\<lambda>_. True) k now (p_id p) (moysklad_key p) (p_stock p) rd)"
  let ?rd = "snd (ReleaseStock (\<lambda>_. True) (Suc k) (p_id p) (oi_quantity it) ?rd1)"
  have "rd_stock ?rd = rd_stock ?rd1" by (auto simp: ReleaseStock_def Let_def)
  then have live: "map_option si_stock (live_stock t ?rd pid) =
      (if pid = p_id p then Some (p_stock p) else map_option si_stock (live_stock t rd pid))"
    using Cons.prems(3) by (simp add: live_stock_def SetStock_def)
  have "find_row p_id ps (p_id p) = None"
    using Cons.prems(2) by (simp add: product_rows.find_row_None)
  with Cons.IH [of its' "k + 2" ?rd] Cons.prems live show ?case
    by (auto simp: its Let_def find_row_def split: option.splits)
qed (simp add: find_row_def)

text \<open>
  After an order of distinct products, with Redis up, the cache shows for each of them the very
  stock the database holds after the order, for half an hour, and is unchanged for all others.
\<close>

theorem order_refreshes_cache:
  assumes "shop_inv (w_db w)" "CreateOrder env req w = (Inr row, w')" "oe_cache env"
    "oe_up env = (\<lambda>_. True)" "distinct (map fst (rq_items req))" "t < oe_now env + 30 * minute"
  shows "map_option si_stock (live_stock t (w_redis w') pid) =
    (if pid \<in> fst ` set (rq_items req) then Some (stock_of (w_db w') pid)
     else map_option si_stock (live_stock t (w_redis w) pid))"
proof -
  from CreateOrder_ok [OF assms(2)] obtain items totalPrice reservedUntil msID updated db' where
      prep: "prepare_order env req (w_db w) = Inr (items, totalPrice, reservedUntil)"
    and atomic: "CreateOrderAtomic (oe_tx env) (oe_now env) (new_order req totalPrice reservedUntil msID) items
      (rq_user_id req) (w_db w) = (Inr (row, updated), db')"
    and same: "products (w_db w') = products db'"
    and rd: "w_redis w' = refresh_cache (\<lambda>_. True) 0 (oe_now env) updated items (w_redis w)"
    using assms(3,4) by auto
  have keys: "distinct (map p_id (products (w_db w)))"
    using assms(1) by (simp add: shop_inv_def schema_inv_def)
  have "rq_items req = map (\<lambda>it. (oi_product_id it, oi_quantity it)) items"
    using price_items_ok [OF prepare_order_ok(1) [OF prep] keys] by metis
  then have ids: "map oi_product_id items = map fst (rq_items req)" by simp
  obtain ps where dec: "decrement_all (oe_tx env) 0 (oe_now env) items (products (w_db w)) = Inr (updated, ps)"
    and ps: "products db' = ps"
    using create_body_ok [OF CreateOrderAtomic_ok [OF atomic]] by auto
  from decrement_updated_rows [OF keys dec] ids assms(5)
  have up: "map p_id updated = map fst (rq_items req)" "\<forall>p \<in> set updated. find_row p_id ps (p_id p) = Some p"
    by simp_all
  have len: "length items = length updated" using up ids by (metis length_map)
  have found: "find_row p_id updated pid = (if pid \<in> fst ` set (rq_items req) then find_row p_id ps pid else None)"
  proof (cases "find_row p_id updated pid")
    case None
    then have "pid \<notin> p_id ` set updated" by (simp add: product_rows.find_row_None)
    then have "pid \<notin> fst ` set (rq_items req)" using up(1) by (metis list.set_map)
    with None show ?thesis by simp
  next
    case (Some p)
    then have p: "p \<in> set updated" "p_id p = pid" by (simp_all add: product_rows.find_row_Some)
    then have "pid \<in> fst ` set (rq_items req)" using up(1) by (metis image_eqI list.set_map)
    with Some p up(2) show ?thesis by auto
  qed
  have "pid \<in> fst ` set (rq_items req) \<Longrightarrow> find_row p_id ps pid \<noteq> None"
    using up by (metis found image_iff list.set_map option.distinct(1) product_rows.find_row_None)
  then have hit: "pid \<in> fst ` set (rq_items req) \<Longrightarrow>
      \<exists>p. find_row p_id ps pid = Some p" by blast
  have "map_option si_stock (live_stock t (w_redis w') pid) =
      (case find_row p_id updated pid of Some p \<Rightarrow> Some (p_stock p)
       | None \<Rightarrow> map_option si_stock (live_stock t (w_redis w) pid))"
    unfolding rd using len up(1) assms(5,6) by (intro refresh_cache_stock) auto
  then show ?thesis
    using hit by (cases "pid \<in> fst ` set (rq_items req)") (auto simp: found same ps stock_in_def)
qed

theorem order_refreshes_cache_witness:
  "map_option si_stock (live_stock (9 * hour) (w_redis
     (snd (CreateOrder (usual_env (9 * hour)) request_example order_example))) 1) =
   Some (stock_of (w_db (snd (CreateOrder (usual_env (9 * hour)) request_example order_example))) 1)"
proof -
  obtain row w' where ok: "CreateOrder (usual_env (9 * hour)) request_example order_example = (Inr row, w')"
    using order_example_created by blast
  from order_refreshes_cache [OF order_example_inv ok, of "9 * hour" 1] show ?thesis
    using ok by simp
qed

end
