(* ===== verification/RateLimit.thy ===== *)
theory RateLimit
  imports Prelude
begin

text \<open>
  internal/cache/ratestore.go and internal/middleware/ratelimit.go: counters with a lifetime,
  in Redis or in memory, and the fixed-window limits of the router that use them. What the
  limits need of a counter is the locale \<open>counter_store\<close>; the in-memory counter, the Redis
  counter and the \<open>RateStore\<close> that is one or the other are shown to provide it.
\<close>

section \<open>The interface of a counter\<close>

locale counter_store =
  fixes incr :: "time \<Rightarrow> string \<Rightarrow> duration \<Rightarrow> 's \<Rightarrow> int \<times> 's"
    and get :: "time \<Rightarrow> string \<Rightarrow> 's \<Rightarrow> int"
    and reset :: "string \<Rightarrow> 's \<Rightarrow> 's"
    and inv :: "'s \<Rightarrow> bool"
  assumes incr_inv: "inv s \<Longrightarrow> inv (snd (incr now k ttl s))"
    and reset_inv: "inv s \<Longrightarrow> inv (reset k s)"
    and get_nonneg: "inv s \<Longrightarrow> 0 \<le> get t k s"
    and incr_value: "inv s \<Longrightarrow> fst (incr now k ttl s) = get now k s + 1"
    and incr_fresh: "inv s \<Longrightarrow> get now k s = 0 \<Longrightarrow> now \<le> t \<Longrightarrow> t < now + ttl \<Longrightarrow>
      get t k (snd (incr now k ttl s)) = 1"
    and incr_fresh_expires: "inv s \<Longrightarrow> get now k s = 0 \<Longrightarrow> 0 \<le> ttl \<Longrightarrow> now + ttl < t \<Longrightarrow>
      get t k (snd (incr now k ttl s)) = 0"
    and incr_live: "inv s \<Longrightarrow> 0 < get now k s \<Longrightarrow> now \<le> t \<Longrightarrow>
      get t k (snd (incr now k ttl s)) = (if 0 < get t k s then get t k s + 1 else 0)"
    and incr_other: "inv s \<Longrightarrow> k \<noteq> j \<Longrightarrow> get t j (snd (incr now k ttl s)) = get t j s"
    and get_reset: "inv s \<Longrightarrow> get t j (reset k s) = (if j = k then 0 else get t j s)"
begin

text \<open>A run of limited requests: the time, the key, the limit and the window of each.\<close>

fun serve :: "(time \<times> string \<times> int \<times> duration) list \<Rightarrow> 's \<Rightarrow> bool list \<times> 's" where
  "serve [] s = ([], s)"
| "serve ((t, k, cap, w) # es) s =
     (let (n, s') = incr t k w s; (rs, s'') = serve es s' in ((n \<le> cap) # rs, s''))"

definition answers :: "string \<Rightarrow> (time \<times> string \<times> int \<times> duration) list \<Rightarrow> bool list \<Rightarrow> bool list" where
  "answers k es rs = map snd (filter (\<lambda>(e, r). fst (snd e) = k) (zip es rs))"

text \<open>
  Inside one window the requests on a key are let through up to its limit and no further,
  whatever other keys are asked for in between.
\<close>

lemma serve_window:
  assumes "inv s" "\<forall>t. a \<le> t \<and> t < b \<longrightarrow> get t k s = m" "m = 0 \<Longrightarrow> b \<le> a + W"
    "\<forall>(t, k', cap, w) \<in> set es. a \<le> t \<and> t < b \<and> (k' = k \<longrightarrow> cap = L \<and> w = W)"
    "sorted (map fst es)" "0 \<le> m"
  shows "answers k es (fst (serve es s)) =
    map (\<lambda>i. m + int i < L) [0..<length (filter (\<lambda>e. fst (snd e) = k) es)]"
  using assms
proof (induction es arbitrary: s a m)
  case (Cons e es)
  obtain t k' cap w where e: "e = (t, k', cap, w)" by (cases e)
  let ?s = "snd (incr t k' w s)"
  have t: "a \<le> t" "t < b" and cap: "k' = k \<Longrightarrow> cap = L \<and> w = W" using Cons.prems(4) by (auto simp: e)
  have later: "\<forall>(u, j, l, v) \<in> set es. t \<le> u \<and> u < b \<and> (j = k \<longrightarrow> l = L \<and> v = W)"
    using Cons.prems(4,5) by (fastforce simp: e)
  have inv: "inv ?s" by (rule incr_inv [OF Cons.prems(1)])
  have srt: "sorted (map fst es)" using Cons.prems(5) by simp
  have run: "fst (serve (e # es) s) = (fst (incr t k' w s) \<le> cap) # fst (serve es ?s)"
    by (simp add: e case_prod_beta Let_def)
  show ?case
  proof (cases "k' = k")
    case False
    then have "\<forall>u. t \<le> u \<and> u < b \<longrightarrow> get u k ?s = m"
      using incr_other [OF Cons.prems(1)] Cons.prems(2) t by auto
    moreover have "m = 0 \<Longrightarrow> b \<le> t + W" using Cons.prems(3) t by simp
    ultimately show ?thesis
      using Cons.IH [OF inv _ _ later srt, of m] Cons.prems(6) False
      unfolding run by (simp add: answers_def e)
  next
    case True
    have now: "get t k s = m" using Cons.prems(2) t by simp
    have val: "fst (incr t k' w s) = m + 1"
      using incr_value [OF Cons.prems(1)] now True by simp
    have "\<forall>u. t \<le> u \<and> u < b \<longrightarrow> get u k ?s = m + 1"
    proof (intro allI impI)
      fix u assume u: "t \<le> u \<and> u < b"
      then have "get u k s = m" using Cons.prems(2) t by simp
      then show "get u k ?s = m + 1"
        using incr_fresh [OF Cons.prems(1), of t k u W] incr_live [OF Cons.prems(1), of t k u W]
          Cons.prems(3,6) u t True cap now by (cases "m = 0") auto
    qed
    from Cons.IH [OF inv this _ later srt] Cons.prems(6)
    have rest: "answers k es (fst (serve es ?s)) =
        map (\<lambda>i. m + 1 + int i < L) [0..<length (filter (\<lambda>e. fst (snd e) = k) es)]" by simp
    have "map (\<lambda>i. m + int i < L) [0..<Suc n] = (m < L) # map (\<lambda>i. m + 1 + int i < L) [0..<n]" for n
      by (induction n) (auto simp: ac_simps)
    moreover have "(m + 1 \<le> L) = (m < L)" by linarith
    ultimately show ?thesis
      unfolding run using rest True cap val by (simp add: answers_def e)
  qed
qed (simp add: answers_def)

end

section \<open>In memory\<close>

record mem_rec =
  mr_count :: int
  mr_expires :: time

type_synonym mem_counter = "string \<rightharpoonup> mem_rec"

definition mem_incr :: "time \<Rightarrow> string \<Rightarrow> duration \<Rightarrow> mem_counter \<Rightarrow> int \<times> mem_counter" where
  "mem_incr now k ttl m =
     (let r = (case m k of
                 Some r \<Rightarrow> if now > mr_expires r then \<lparr>mr_count = 0, mr_expires = now + ttl\<rparr> else r
               | None \<Rightarrow> \<lparr>mr_count = 0, mr_expires = now + ttl\<rparr>)
      in (mr_count r + 1, m(k \<mapsto> r\<lparr>mr_count := mr_count r + 1\<rparr>)))"

definition mem_get :: "time \<Rightarrow> string \<Rightarrow> mem_counter \<Rightarrow> int" where
  "mem_get now k m =
     (case m k of Some r \<Rightarrow> if now > mr_expires r then 0 else mr_count r | None \<Rightarrow> 0)"

definition mem_reset :: "string \<Rightarrow> mem_counter \<Rightarrow> mem_counter" where
  "mem_reset k m = m(k := None)"

text \<open>One round of \<open>cleanupLoop\<close>.\<close>

definition mem_cleanup :: "time \<Rightarrow> mem_counter \<Rightarrow> mem_counter" where
  "mem_cleanup now m =
     (\<lambda>k. case m k of Some r \<Rightarrow> if now > mr_expires r then None else Some r | None \<Rightarrow> None)"

definition mem_inv :: "mem_counter \<Rightarrow> bool" where
  "mem_inv m = (\<forall>k r. m k = Some r \<longrightarrow> 0 < mr_count r)"

lemma mem_inv_pos: "mem_inv m \<Longrightarrow> m k = Some r \<Longrightarrow> 0 < mr_count r"
  by (simp add: mem_inv_def)

interpretation mem: counter_store mem_incr mem_get mem_reset mem_inv
proof unfold_locales
  show "mem_inv s \<Longrightarrow> mem_inv (snd (mem_incr now k ttl s))" for s now k ttl
    by (auto simp: mem_incr_def mem_inv_def Let_def less_imp_le split: option.splits)
  show "mem_inv s \<Longrightarrow> mem_inv (mem_reset k s)" for s k
    by (auto simp: mem_reset_def mem_inv_def)
qed (fastforce simp: mem_incr_def mem_get_def mem_reset_def Let_def dest: mem_inv_pos
    split: option.splits if_splits)+

lemma mem_cleanup_get: "now \<le> t \<Longrightarrow> mem_get t k (mem_cleanup now m) = mem_get t k m"
  by (auto simp: mem_cleanup_def mem_get_def split: option.splits)

section \<open>In Redis\<close>

text \<open>
  A counter with the time it expires at, none when EXPIRE never reached Redis. A command of the
  model fails when its flag is false.
\<close>

type_synonym redis_counter = "string \<rightharpoonup> int \<times> time option"

definition redis_live :: "time \<Rightarrow> string \<Rightarrow> redis_counter \<Rightarrow> (int \<times> time option) option" where
  "redis_live now k m =
     (case m k of Some (n, Some e) \<Rightarrow> if e \<le> now then None else Some (n, Some e) | x \<Rightarrow> x)"

definition redis_incr ::
  "bool \<Rightarrow> bool \<Rightarrow> time \<Rightarrow> string \<Rightarrow> duration \<Rightarrow> redis_counter \<Rightarrow> int \<times> redis_counter" where
  "redis_incr incr_ok expire_ok now k ttl m =
     (if \<not> incr_ok then (1, m)
      else
        let (n, e) = (case redis_live now k m of Some (n, e) \<Rightarrow> (n + 1, e) | None \<Rightarrow> (1, None))
        in (n, m(k \<mapsto> (n, if n = 1 \<and> expire_ok then Some (now + ttl) else e))))"

definition redis_get :: "bool \<Rightarrow> time \<Rightarrow> string \<Rightarrow> redis_counter \<Rightarrow> int" where
  "redis_get get_ok now k m =
     (if \<not> get_ok then 0 else case redis_live now k m of Some (n, e) \<Rightarrow> n | None \<Rightarrow> 0)"

definition redis_reset :: "bool \<Rightarrow> string \<Rightarrow> redis_counter \<Rightarrow> redis_counter" where
  "redis_reset del_ok k m = (if del_ok then m(k := None) else m)"

definition redis_inv :: "redis_counter \<Rightarrow> bool" where
  "redis_inv m = (\<forall>k n e. m k = Some (n, e) \<longrightarrow> 0 < n)"

lemma redis_inv_pos: "redis_inv m \<Longrightarrow> m k = Some (n, e) \<Longrightarrow> 0 < n"
  by (auto simp: redis_inv_def)

lemma redis_live_pos: "redis_inv m \<Longrightarrow> redis_live now k m = Some (n, e) \<Longrightarrow> 0 < n"
  by (auto simp: redis_live_def dest: redis_inv_pos split: option.splits if_splits)

interpretation red: counter_store "redis_incr True True" "redis_get True" "redis_reset True" redis_inv
proof unfold_locales
  show "redis_inv s \<Longrightarrow> redis_inv (snd (redis_incr True True now k ttl s))" for s now k ttl
  proof -
    assume inv: "redis_inv s"
    have "redis_inv (s(k \<mapsto> (n, e)))" if "0 < n" for n e
      using inv that by (auto simp: redis_inv_def)
    moreover have "0 < n + 1" if "redis_live now k s = Some (n, e)" for n e
      using redis_live_pos [OF inv that] by simp
    ultimately show ?thesis
      by (auto simp: redis_incr_def Let_def split: option.splits prod.splits simp del: fun_upd_apply)
  qed
  show "redis_inv s \<Longrightarrow> redis_inv (redis_reset True k s)" for s k
    by (auto simp: redis_reset_def redis_inv_def)
qed (fastforce simp: redis_incr_def redis_get_def redis_live_def redis_reset_def Let_def
    dest: redis_inv_pos split: option.splits if_splits)+

section \<open>The store and the limits of the router\<close>

datatype rate_store = RedisStore redis_counter | MemStore mem_counter

definition NewRateStore :: "redis_counter option \<Rightarrow> rate_store" where
  "NewRateStore rdb = (case rdb of Some r \<Rightarrow> RedisStore r | None \<Rightarrow> MemStore Map.empty)"

fun rs_Incr :: "bool \<Rightarrow> bool \<Rightarrow> time \<Rightarrow> string \<Rightarrow> duration \<Rightarrow> rate_store \<Rightarrow> int \<times> rate_store" where
  "rs_Incr incr_ok expire_ok now k ttl (RedisStore r) =
     (let (n, r') = redis_incr incr_ok expire_ok now k ttl r in (n, RedisStore r'))"
| "rs_Incr incr_ok expire_ok now k ttl (MemStore m) =
     (let (n, m') = mem_incr now k ttl m in (n, MemStore m'))"

fun rs_Get :: "bool \<Rightarrow> time \<Rightarrow> string \<Rightarrow> rate_store \<Rightarrow> int" where
  "rs_Get get_ok now k (RedisStore r) = redis_get get_ok now k r"
| "rs_Get get_ok now k (MemStore m) = mem_get now k m"

fun rs_Reset :: "bool \<Rightarrow> string \<Rightarrow> rate_store \<Rightarrow> rate_store" where
  "rs_Reset del_ok k (RedisStore r) = RedisStore (redis_reset del_ok k r)"
| "rs_Reset del_ok k (MemStore m) = MemStore (mem_reset k m)"

definition rs_Allow ::
  "bool \<Rightarrow> bool \<Rightarrow> time \<Rightarrow> string \<Rightarrow> int \<Rightarrow> duration \<Rightarrow> rate_store \<Rightarrow> bool \<times> rate_store" where
  "rs_Allow incr_ok expire_ok now k cap window s =
     (let (n, s') = rs_Incr incr_ok expire_ok now k window s in (n \<le> cap, s'))"

fun rs_inv :: "rate_store \<Rightarrow> bool" where
  "rs_inv (RedisStore r) = redis_inv r"
| "rs_inv (MemStore m) = mem_inv m"

interpretation rate: counter_store "rs_Incr True True" "rs_Get True" "rs_Reset True" rs_inv
proof unfold_locales
  fix s now k ttl t j
  show "rs_inv s \<Longrightarrow> rs_inv (snd (rs_Incr True True now k ttl s))"
    by (cases s) (auto simp: case_prod_beta Let_def mem.incr_inv red.incr_inv)
  show "rs_inv s \<Longrightarrow> rs_inv (rs_Reset True k s)"
    by (cases s) (auto simp: mem.reset_inv red.reset_inv)
  show "rs_inv s \<Longrightarrow> 0 \<le> rs_Get True t k s"
    by (cases s) (auto simp: mem.get_nonneg red.get_nonneg)
  show "rs_inv s \<Longrightarrow> fst (rs_Incr True True now k ttl s) = rs_Get True now k s + 1"
    by (cases s) (auto simp: case_prod_beta Let_def mem.incr_value red.incr_value)
  show "rs_inv s \<Longrightarrow> rs_Get True now k s = 0 \<Longrightarrow> now \<le> t \<Longrightarrow> t < now + ttl \<Longrightarrow>
      rs_Get True t k (snd (rs_Incr True True now k ttl s)) = 1"
    by (cases s) (auto simp: case_prod_beta Let_def mem.incr_fresh red.incr_fresh)
  show "rs_inv s \<Longrightarrow> rs_Get True now k s = 0 \<Longrightarrow> 0 \<le> ttl \<Longrightarrow> now + ttl < t \<Longrightarrow>
      rs_Get True t k (snd (rs_Incr True True now k ttl s)) = 0"
    by (cases s) (auto simp: case_prod_beta Let_def mem.incr_fresh_expires red.incr_fresh_expires)
  show "rs_inv s \<Longrightarrow> 0 < rs_Get True now k s \<Longrightarrow> now \<le> t \<Longrightarrow>
      rs_Get True t k (snd (rs_Incr True True now k ttl s)) =
      (if 0 < rs_Get True t k s then rs_Get True t k s + 1 else 0)"
    by (cases s) (auto simp: case_prod_beta Let_def mem.incr_live red.incr_live)
  show "rs_inv s \<Longrightarrow> k \<noteq> j \<Longrightarrow>
      rs_Get True t j (snd (rs_Incr True True now k ttl s)) = rs_Get True t j s"
    by (cases s) (auto simp: case_prod_beta Let_def mem.incr_other red.incr_other)
  show "rs_inv s \<Longrightarrow> rs_Get True t j (rs_Reset True k s) = (if j = k then 0 else rs_Get True t j s)"
    by (cases s) (auto simp: mem.get_reset red.get_reset)
qed

text \<open>A limiter of the router: its name, its limit and its window of a minute.\<close>

datatype limiter = RateLimit | ProductRateLimit | AuthRateLimit | StrictRateLimit

fun limiter_name :: "limiter \<Rightarrow> string" where
  "limiter_name RateLimit = ''global''"
| "limiter_name ProductRateLimit = ''product''"
| "limiter_name AuthRateLimit = ''auth''"
| "limiter_name StrictRateLimit = ''admin''"

fun limiter_cap :: "limiter \<Rightarrow> int" where
  "limiter_cap RateLimit = 300"
| "limiter_cap ProductRateLimit = 600"
| "limiter_cap AuthRateLimit = 30"
| "limiter_cap StrictRateLimit = 300"

definition limit_key :: "string \<Rightarrow> string \<Rightarrow> string" where
  "limit_key name ip = ''rl:'' @ name @ '':'' @ ip"

text \<open>The handler: \<open>Some 429\<close> when it stops the request, \<open>None\<close> when it goes on.\<close>

definition limit_request ::
  "bool \<Rightarrow> bool \<Rightarrow> limiter \<Rightarrow> time \<Rightarrow> string \<Rightarrow> rate_store \<Rightarrow> int option \<times> rate_store" where
  "limit_request incr_ok expire_ok l now ip s =
     (let (ok, s') = rs_Allow incr_ok expire_ok now (limit_key (limiter_name l) ip) (limiter_cap l) minute s
      in (if ok then None else Some 429, s'))"

fun limit_requests ::
  "(limiter \<times> time \<times> string) list \<Rightarrow> rate_store \<Rightarrow> int option list \<times> rate_store" where
  "limit_requests [] s = ([], s)"
| "limit_requests ((l, t, ip) # rqs) s =
     (let (r, s') = limit_request True True l t ip s; (rs, s'') = limit_requests rqs s'
      in (r # rs, s''))"

definition request_event :: "limiter \<times> time \<times> string \<Rightarrow> time \<times> string \<times> int \<times> duration" where
  "request_event rq = (case rq of (l, t, ip) \<Rightarrow>
     (t, limit_key (limiter_name l) ip, limiter_cap l, minute))"

lemma limit_requests_serve:
  "map (\<lambda>r. r = None) (fst (limit_requests rqs s)) = fst (rate.serve (map request_event rqs) s)"
  by (induction rqs arbitrary: s)
    (auto simp: limit_request_def rs_Allow_def request_event_def Let_def case_prod_beta)

lemma statuses_of_nones:
  "\<forall>r \<in> set xs. r = None \<or> r = Some x \<Longrightarrow>
    xs = map (\<lambda>b. if b then None else Some x) (map (\<lambda>r. r = None) xs)"
  by (induction xs) auto

lemma limit_key_inj:
  "limit_key (limiter_name l) ip = limit_key (limiter_name l') ip' \<longleftrightarrow> l = l' \<and> ip = ip'"
proof
  assume "limit_key (limiter_name l) ip = limit_key (limiter_name l') ip'"
  then have eq: "limiter_name l @ CHR '':'' # ip = limiter_name l' @ CHR '':'' # ip'"
    by (simp add: limit_key_def)
  then have "l = l'" by (cases l; cases l') auto
  with eq show "l = l' \<and> ip = ip'" by simp
qed simp

lemma limit_requests_statuses:
  "length (fst (limit_requests rqs s)) = length rqs"
  "r \<in> set (fst (limit_requests rqs s)) \<Longrightarrow> r = None \<or> r = Some 429"
  by (induction rqs arbitrary: s) (auto simp: limit_request_def Let_def case_prod_beta split: if_splits)

text \<open>
  C12. A limiter, over either kind of counter: from the moment a client has no live count, of
  the requests it makes to one limiter within a minute exactly the first \<open>n\<close> (300, 600, 30 or 300)
  are let through and the rest answered 429, whatever other clients do and whichever other
  limits this client is counted by in between.
\<close>

theorem rate_limit_window:
  assumes "rs_inv s" "\<forall>t. rs_Get True t (limit_key (limiter_name l) ip) s = 0"
    "sorted (map (fst \<circ> snd) rqs)" "\<forall>(l', t, ip') \<in> set rqs. a \<le> t \<and> t < a + minute"
  shows "map snd (filter (\<lambda>((l', t, ip'), r). l' = l \<and> ip' = ip) (zip rqs (fst (limit_requests rqs s)))) =
    map (\<lambda>i. if int i < limiter_cap l then None else Some 429)
      [0..<length (filter (\<lambda>(l', t, ip'). l' = l \<and> ip' = ip) rqs)]"
proof -
  let ?k = "limit_key (limiter_name l) ip"
  let ?rs = "fst (limit_requests rqs s)"
  have ev: "fst (snd (request_event rq)) = ?k \<longleftrightarrow> (case rq of (l', t, ip') \<Rightarrow> l' = l \<and> ip' = ip)" for rq
    by (cases rq) (auto simp: request_event_def limit_key_inj)
  have window: "rate.answers ?k (map request_event rqs) (fst (rate.serve (map request_event rqs) s)) =
      map (\<lambda>i. 0 + int i < limiter_cap l)
        [0..<length (filter (\<lambda>e. fst (snd e) = ?k) (map request_event rqs))]"
  proof (rule rate.serve_window [OF assms(1), where a = a and b = "a + minute" and W = minute])
    show "\<forall>(t, k', cap, w) \<in> set (map request_event rqs). a \<le> t \<and> t < a + minute \<and>
        (k' = ?k \<longrightarrow> cap = limiter_cap l \<and> w = minute)"
      using assms(4) by (auto simp: request_event_def limit_key_inj)
    have "fst \<circ> request_event = fst \<circ> snd" by (auto simp: fun_eq_iff request_event_def)
    then show "sorted (map fst (map request_event rqs))" using assms(3) by simp
  qed (use assms(2) in auto)
  have zips: "zip (map request_event rqs) (map (\<lambda>r. r = None) ?rs) =
      map (\<lambda>(rq, r). (request_event rq, r = None)) (zip rqs ?rs)"
    by (simp add: zip_map_map)
  have pred: "(\<lambda>((l', t, ip'), r). l' = l \<and> ip' = ip) =
      (\<lambda>x. fst (fst x) = l \<and> snd (snd (fst x)) = ip)"
    by (auto simp: fun_eq_iff)
  let ?mine = "map snd (filter (\<lambda>((l', t, ip'), r). l' = l \<and> ip' = ip) (zip rqs ?rs))"
  have "map (\<lambda>r. r = None) ?mine =
      rate.answers ?k (map request_event rqs) (fst (rate.serve (map request_event rqs) s))"
    unfolding rate.answers_def limit_requests_serve [symmetric] zips pred
    by (simp add: filter_map comp_def case_prod_beta ev)
  also have "\<dots> = map (\<lambda>i. int i < limiter_cap l)
      [0..<length (filter (\<lambda>(l', t, ip'). l' = l \<and> ip' = ip) rqs)]"
    unfolding window by (simp add: filter_map comp_def ev)
  finally have nones: "map (\<lambda>r. r = None) ?mine = map (\<lambda>i. int i < limiter_cap l)
      [0..<length (filter (\<lambda>(l', t, ip'). l' = l \<and> ip' = ip) rqs)]" .
  have "\<forall>r \<in> set ?mine. r = None \<or> r = Some 429"
    using limit_requests_statuses(2) by (force dest: set_zip_rightD)
  from statuses_of_nones [OF this]
  show ?thesis unfolding nones by (simp add: comp_def)
qed

theorem rate_limit_window_witness:
  "fst (limit_requests [(AuthRateLimit, 0, ''a''), (AuthRateLimit, 1, ''a'')] (NewRateStore None)) =
    [None, None]"
proof -
  let ?rqs = "[(AuthRateLimit, 0, ''a''), (AuthRateLimit, 1, ''a'')]"
  have "rs_inv (NewRateStore None)"
    "\<forall>t. rs_Get True t (limit_key (limiter_name AuthRateLimit) ''a'') (NewRateStore None) = 0"
    by (simp_all add: NewRateStore_def mem_inv_def mem_get_def)
  from rate_limit_window [OF this, where rqs = ?rqs and a = 0]
  have "map snd (zip ?rqs (fst (limit_requests ?rqs (NewRateStore None)))) = [None, None]"
    by (simp add: upt_rec case_prod_beta)
  then show ?thesis by (simp add: case_prod_beta Let_def)
qed

text \<open>
  When EXPIRE is lost after the first INCR of a key, its counter never goes away: from the
  request after the limit on, the client is answered 429 at every later time, a minute or a year
  later. When INCR itself fails, the request is let through.
\<close>

theorem lost_expire_blocks_forever:
  assumes "r k = None" "0 \<le> cap"
  shows "(let s1 = snd (rs_Allow True False now k cap w (RedisStore r)) in
      \<forall>n t. rs_Get True t k (snd (rate.serve (replicate n (t', k, cap, w)) s1)) = 1 + int n) \<and>
    fst (rs_Allow False e now k (max 1 cap) w (RedisStore r)) \<and>
    (\<forall>t n. cap \<le> n \<and> 0 < n \<longrightarrow> \<not> fst (rs_Allow True e t k cap w (RedisStore (r(k \<mapsto> (n, None))))))"
proof -
  have step: "snd (rs_Incr True True t' k w (RedisStore (r(k \<mapsto> (m, None))))) =
      RedisStore (r(k \<mapsto> (m + 1, None)))" if "0 < m" for m
    using that by (simp add: redis_incr_def redis_live_def)
  have "0 < m \<Longrightarrow> snd (rate.serve (replicate n (t', k, cap, w)) (RedisStore (r(k \<mapsto> (m, None))))) =
      RedisStore (r(k \<mapsto> (m + int n, None)))" for m n
  proof (induction n arbitrary: m)
    case (Suc n)
    then show ?case using step [OF Suc.prems]
      by (simp add: case_prod_beta Let_def ac_simps del: fun_upd_apply)
  qed simp
  from this [of 1] show ?thesis
    using assms
    by (simp add: rs_Allow_def redis_incr_def redis_live_def redis_get_def case_prod_beta Let_def)
qed

theorem lost_expire_blocks_forever_witness:
  "\<not> fst (rs_Allow True True (365 * day) ''k'' 30 minute (RedisStore (Map.empty(''k'' \<mapsto> (30, None)))))"
  using lost_expire_blocks_forever [of Map.empty "''k''" 30] by simp

end
