(* ===== verification/Cart.thy ===== *)
theory Cart
  imports ProductStore
begin

text \<open>
  The cart: internal/db/cart.go (the table cart_items, one line per customer and product,
  quantities above zero) and internal/usecase/cart.go. The cart is a wish list: no operation
  on it touches the stock. The statement number of a database call is its first argument
  after the connection, so that a use case numbers its calls one after the other.
\<close>

section \<open>The table\<close>

definition cart_line :: "id64 \<Rightarrow> id64 \<Rightarrow> cart_item \<Rightarrow> bool" where
  "cart_line uid pid ci = (ci_user_id ci = uid \<and> ci_product_id ci = pid)"

text \<open>
  INSERT with the constraints of migration 003: a quantity above zero, an existing product,
  no second line for the same customer and product. The customer is a foreign key too; that
  it fails is one of the faults of the statement.
\<close>

definition cart_Create ::
  "conn \<Rightarrow> nat \<Rightarrow> time \<Rightarrow> cart_item \<Rightarrow> shop_db \<Rightarrow> cart_item result \<times> shop_db" where
  "cart_Create c k now item db =
     (let row = item\<lparr>ci_id := next_cart_item db, ci_created_at := now, ci_updated_at := now\<rparr>
      in if c_stmt c k \<and> 0 < ci_quantity item \<and> ci_product_id item \<in> p_id ` set (products db) \<and>
            (\<forall>ci \<in> set (cart_items db). \<not> cart_line (ci_user_id item) (ci_product_id item) ci)
         then (Inr row, db\<lparr>cart_items := cart_items db @ [row\<lparr>ci_product := None\<rparr>],
                           next_cart_item := next_cart_item db + 1\<rparr>)
         else (Inl DbError, db))"

definition cart_GetByUserID :: "conn \<Rightarrow> nat \<Rightarrow> id64 \<Rightarrow> shop_db \<Rightarrow> cart_item list result" where
  "cart_GetByUserID c k uid db =
     (if c_stmt c k then
        Inr (newest_first ci_created_at (filter (\<lambda>ci. ci_user_id ci = uid) (cart_items db)))
      else Inl DbError)"

definition cart_GetByUserIDAndProductID ::
  "conn \<Rightarrow> nat \<Rightarrow> id64 \<Rightarrow> id64 \<Rightarrow> shop_db \<Rightarrow> cart_item option result" where
  "cart_GetByUserIDAndProductID c k uid pid db =
     (if \<not> c_stmt c k then Inl DbError
      else case scan_one (filter (cart_line uid pid) (cart_items db)) of
        NoRows \<Rightarrow> Inr None
      | OneRow ci \<Rightarrow> Inr (Some ci)
      | ManyRows \<Rightarrow> Inl DbError)"

definition cart_set_quantity :: "int \<Rightarrow> time \<Rightarrow> cart_item \<Rightarrow> cart_item" where
  "cart_set_quantity q now ci = ci\<lparr>ci_quantity := q, ci_updated_at := now\<rparr>"

definition cart_UpdateQuantity ::
  "conn \<Rightarrow> nat \<Rightarrow> time \<Rightarrow> id64 \<Rightarrow> id64 \<Rightarrow> int \<Rightarrow> shop_db \<Rightarrow> unit result \<times> shop_db" where
  "cart_UpdateQuantity c k now uid pid q db =
     (if c_stmt c k \<and> (0 < q \<or> filter (cart_line uid pid) (cart_items db) = []) then
        (Inr (), db\<lparr>cart_items := sql_update (cart_line uid pid) (cart_set_quantity q now) (cart_items db)\<rparr>)
      else (Inl DbError, db))"

definition cart_Delete :: "conn \<Rightarrow> nat \<Rightarrow> id64 \<Rightarrow> id64 \<Rightarrow> shop_db \<Rightarrow> unit result \<times> shop_db" where
  "cart_Delete c k uid pid db =
     (if c_stmt c k then (Inr (), db\<lparr>cart_items := sql_delete (cart_line uid pid) (cart_items db)\<rparr>)
      else (Inl DbError, db))"

definition cart_Clear :: "conn \<Rightarrow> nat \<Rightarrow> id64 \<Rightarrow> shop_db \<Rightarrow> unit result \<times> shop_db" where
  "cart_Clear c k uid db =
     (if c_stmt c k then
        (Inr (), db\<lparr>cart_items := sql_delete (\<lambda>ci. ci_user_id ci = uid) (cart_items db)\<rparr>)
      else (Inl DbError, db))"

text \<open>
  SUM over no rows is NULL, which Scan cannot put into a float64.
\<close>

definition cart_GetTotal :: "conn \<Rightarrow> nat \<Rightarrow> id64 \<Rightarrow> shop_db \<Rightarrow> money result" where
  "cart_GetTotal c k uid db =
     (let joined = [(ci, p). ci \<leftarrow> cart_items db, p \<leftarrow> products db,
                     ci_product_id ci = p_id p \<and> ci_user_id ci = uid]
      in if \<not> c_stmt c k \<or> joined = [] then Inl DbError
         else Inr (sum_list (map (\<lambda>(ci, p). of_int (ci_quantity ci) * p_price p) joined)))"

section \<open>The use case\<close>

record cart_request =
  cr_user_id :: id64
  cr_product_id :: id64
  cr_quantity :: int

definition new_cart_item :: "time \<Rightarrow> cart_request \<Rightarrow> cart_item" where
  "new_cart_item now req = \<lparr>ci_id = 0, ci_user_id = cr_user_id req,
     ci_product_id = cr_product_id req, ci_quantity = cr_quantity req, ci_created_at = now,
     ci_updated_at = now, ci_product = None\<rparr>"

definition AddToCart :: "conn \<Rightarrow> time \<Rightarrow> cart_request \<Rightarrow> shop_db \<Rightarrow> unit result \<times> shop_db" where
  "AddToCart c now req db =
     (case product_GetByID c 0 (cr_product_id req) db of
        Inl e \<Rightarrow> (Inl e, db)
      | Inr None \<Rightarrow> (Inl (Rejected ''product not found''), db)
      | Inr (Some p) \<Rightarrow>
          if \<not> p_active p then (Inl (Rejected ''product is not active''), db)
          else if p_stock p \<le> 0 then (Inl (Rejected ''out of stock''), db)
          else case cart_GetByUserIDAndProductID c 1 (cr_user_id req) (cr_product_id req) db of
            Inl e \<Rightarrow> (Inl e, db)
          | Inr (Some ci) \<Rightarrow>
              cart_UpdateQuantity c 2 now (cr_user_id req) (cr_product_id req)
                (ci_quantity ci + cr_quantity req) db
          | Inr None \<Rightarrow>
              (case cart_Create c 2 now (new_cart_item now req) db of
                 (Inl e, db') \<Rightarrow> (Inl e, db')
               | (Inr _, db') \<Rightarrow> (Inr (), db')))"

definition UpdateCart :: "conn \<Rightarrow> time \<Rightarrow> cart_request \<Rightarrow> shop_db \<Rightarrow> unit result \<times> shop_db" where
  "UpdateCart c now req db =
     (case product_GetByID c 0 (cr_product_id req) db of
        Inl e \<Rightarrow> (Inl e, db)
      | Inr None \<Rightarrow> (Inl (Rejected ''product not found''), db)
      | Inr (Some p) \<Rightarrow>
          (case cart_GetByUserIDAndProductID c 1 (cr_user_id req) (cr_product_id req) db of
             Inl e \<Rightarrow> (Inl e, db)
           | Inr None \<Rightarrow> (Inl (Rejected ''item not found in cart''), db)
           | Inr (Some ci) \<Rightarrow>
               cart_UpdateQuantity c 2 now (cr_user_id req) (cr_product_id req) (cr_quantity req) db))"

definition RemoveFromCart :: "conn \<Rightarrow> id64 \<Rightarrow> id64 \<Rightarrow> shop_db \<Rightarrow> unit result \<times> shop_db" where
  "RemoveFromCart c uid pid db = cart_Delete c 0 uid pid db"

definition ClearCart :: "conn \<Rightarrow> id64 \<Rightarrow> shop_db \<Rightarrow> unit result \<times> shop_db" where
  "ClearCart c uid db = cart_Clear c 0 uid db"

definition GetCartTotal :: "conn \<Rightarrow> id64 \<Rightarrow> shop_db \<Rightarrow> money result" where
  "GetCartTotal c uid db = cart_GetTotal c 0 uid db"

record cart_response =
  crs_id :: id64
  crs_product_id :: id64
  crs_quantity :: int
  crs_product :: "product option"
  crs_created_at :: time

text \<open>
  \<open>GetCart\<close>: the products in one query; for a line whose product that did not give, a query of
  its own, and the line is left out when that fails.
\<close>

fun cart_responses ::
  "conn \<Rightarrow> nat \<Rightarrow> (id64 \<rightharpoonup> product) \<Rightarrow> cart_item list \<Rightarrow> shop_db \<Rightarrow> cart_response list" where
  "cart_responses c k pm [] db = []"
| "cart_responses c k pm (ci # items) db =
     (let respond = (\<lambda>p. \<lparr>crs_id = ci_id ci, crs_product_id = ci_product_id ci,
            crs_quantity = ci_quantity ci, crs_product = p, crs_created_at = ci_created_at ci\<rparr>)
      in case pm (ci_product_id ci) of
        Some p \<Rightarrow> respond (Some p) # cart_responses c k pm items db
      | None \<Rightarrow>
          (case product_GetByID c k (ci_product_id ci) db of
             Inl e \<Rightarrow> cart_responses c (Suc k) pm items db
           | Inr p \<Rightarrow> respond p # cart_responses c (Suc k) pm items db))"

definition GetCart :: "conn \<Rightarrow> id64 \<Rightarrow> shop_db \<Rightarrow> cart_response list result" where
  "GetCart c uid db =
     (case cart_GetByUserID c 0 uid db of
        Inl e \<Rightarrow> Inl e
      | Inr items \<Rightarrow>
          let pm = (if items = [] then Map.empty
                    else case product_GetByIDs c 1 (map ci_product_id items) db of
                      Inl e \<Rightarrow> Map.empty
                    | Inr ps \<Rightarrow> map_of (rev (map (\<lambda>p. (p_id p, p)) ps)))
          in Inr (cart_responses c 2 pm items db))"

section \<open>The invariant and the lines of a customer\<close>

definition cart_inv :: "shop_db \<Rightarrow> bool" where
  "cart_inv db =
     (distinct (map p_id (products db)) \<and>
      distinct (map (\<lambda>ci. (ci_user_id ci, ci_product_id ci)) (cart_items db)) \<and>
      (\<forall>ci \<in> set (cart_items db). 0 < ci_quantity ci \<and> ci_product_id ci \<in> p_id ` set (products db)))"

definition in_cart :: "shop_db \<Rightarrow> id64 \<Rightarrow> id64 \<Rightarrow> int" where
  "in_cart db uid pid = sum_list (map ci_quantity (filter (cart_line uid pid) (cart_items db)))"

lemma cart_line_cases:
  assumes "cart_inv db"
  shows "filter (cart_line uid pid) (cart_items db) = [] \<or>
    (\<exists>ci \<in> set (cart_items db). cart_line uid pid ci \<and> filter (cart_line uid pid) (cart_items db) = [ci])"
proof -
  have "cart_line uid pid = (\<lambda>ci. (ci_user_id ci, ci_product_id ci) = (uid, pid))"
    by (auto simp: cart_line_def fun_eq_iff)
  then show ?thesis
    using filter_distinct_key [of "\<lambda>ci. (ci_user_id ci, ci_product_id ci)" "cart_items db" "(uid, pid)"]
      assms unfolding cart_inv_def by simp
qed

lemma cart_line_set_quantity: "cart_line u p (cart_set_quantity q now ci) = cart_line u p ci"
  by (simp add: cart_line_def cart_set_quantity_def)

lemma filter_cart_update:
  "filter (cart_line u p) (sql_update (cart_line uid pid) (cart_set_quantity q now) items) =
    (if u = uid \<and> p = pid then map (cart_set_quantity q now) (filter (cart_line uid pid) items)
     else filter (cart_line u p) items)"
  by (induction items) (auto simp: cart_line_set_quantity, auto simp: cart_line_def)

lemma cart_UpdateQuantity_ok:
  assumes "cart_inv db" "filter (cart_line uid pid) (cart_items db) = [ci]"
    "cart_UpdateQuantity c k now uid pid q db = (Inr (), db')"
  shows "cart_inv db'" "in_cart db' u p = (if u = uid \<and> p = pid then q else in_cart db u p)"
    "products db' = products db" "0 < q"
proof -
  have q: "0 < q" and db': "db' = db\<lparr>cart_items :=
      sql_update (cart_line uid pid) (cart_set_quantity q now) (cart_items db)\<rparr>"
    using assms(2,3) by (auto simp: cart_UpdateQuantity_def split: if_splits)
  have keys: "map (\<lambda>ci. (ci_user_id ci, ci_product_id ci)) (cart_items db') =
      map (\<lambda>ci. (ci_user_id ci, ci_product_id ci)) (cart_items db)"
    by (auto simp: db' sql_update_def cart_set_quantity_def)
  show "0 < q" "products db' = products db" using q by (simp_all add: db')
  show "cart_inv db'"
    using assms(1) q unfolding cart_inv_def keys
    by (auto simp: db' set_sql_update cart_set_quantity_def)
  show "in_cart db' u p = (if u = uid \<and> p = pid then q else in_cart db u p)"
    by (auto simp: in_cart_def db' filter_cart_update assms(2) cart_set_quantity_def)
qed

lemma cart_Create_ok:
  assumes "cart_inv db" "cart_Create c k now item db = (Inr row, db')"
  shows "cart_inv db'" "in_cart db' u p = (if u = ci_user_id item \<and> p = ci_product_id item
      then ci_quantity item else in_cart db u p)"
    "products db' = products db" "0 < ci_quantity item"
proof -
  let ?row = "item\<lparr>ci_id := next_cart_item db, ci_created_at := now, ci_updated_at := now, ci_product := None\<rparr>"
  have facts: "0 < ci_quantity item" "ci_product_id item \<in> p_id ` set (products db)"
      "\<forall>ci \<in> set (cart_items db). \<not> cart_line (ci_user_id item) (ci_product_id item) ci"
    and db': "db' = db\<lparr>cart_items := cart_items db @ [?row], next_cart_item := next_cart_item db + 1\<rparr>"
    using assms(2) by (auto simp: cart_Create_def Let_def split: if_splits)
  have none: "filter (cart_line (ci_user_id item) (ci_product_id item)) (cart_items db) = []"
    using facts(3) by (simp add: filter_empty_conv)
  show "0 < ci_quantity item" "products db' = products db" using facts by (simp_all add: db')
  show "cart_inv db'" using assms(1) facts by (auto simp: cart_inv_def db' cart_line_def)
  show "in_cart db' u p = (if u = ci_user_id item \<and> p = ci_product_id item
      then ci_quantity item else in_cart db u p)"
    using none by (auto simp: in_cart_def db' cart_line_def [of u p ?row])
qed

lemma in_cart_delete:
  "in_cart (db\<lparr>cart_items := sql_delete P (cart_items db)\<rparr>) u p =
    sum_list (map ci_quantity (filter (\<lambda>ci. cart_line u p ci \<and> \<not> P ci) (cart_items db)))"
  by (simp add: in_cart_def sql_delete_def conj_commute)

lemma cart_inv_delete:
  "cart_inv db \<Longrightarrow> cart_inv (db\<lparr>cart_items := sql_delete P (cart_items db)\<rparr>)"
  by (auto simp: cart_inv_def sql_delete_def distinct_map_filter)

text \<open>
  Adding to the cart: what succeeds raises the customer's quantity of that product by the
  amount asked for, of a product that is active and in stock, and touches no other line, no
  stock and not the invariant of the cart; what fails changes nothing.
\<close>

theorem add_to_cart_accumulates:
  assumes "cart_inv db" "AddToCart c now req db = (r, db')"
  shows "case r of
      Inl e \<Rightarrow> db' = db
    | Inr _ \<Rightarrow> cart_inv db' \<and> products db' = products db \<and>
        (\<exists>p. find_product db (cr_product_id req) = Some p \<and> p_active p \<and> 0 < p_stock p) \<and>
        (\<forall>u p. in_cart db' u p = in_cart db u p +
          (if u = cr_user_id req \<and> p = cr_product_id req then cr_quantity req else 0))"
proof (cases r)
  case (Inl e)
  then show ?thesis
    using assms(2)
    by (auto simp: AddToCart_def cart_UpdateQuantity_def cart_Create_def Let_def
        split: sum.splits option.splits if_splits prod.splits)
next
  case (Inr x)
  note ok = assms(2) [unfolded Inr]
  have keys: "distinct (map p_id (products db))" using assms(1) by (simp add: cart_inv_def)
  from ok obtain p where get: "product_GetByID c 0 (cr_product_id req) db = Inr (Some p)"
    and p: "p_active p" "0 < p_stock p"
    by (auto simp: AddToCart_def split: sum.splits option.splits if_splits)
  then have "c_stmt c 0" by (auto simp: product_GetByID_def split: if_splits)
  then have find: "find_product db (cr_product_id req) = Some p"
    using get product_GetByID_find [OF keys] by simp
  let ?line = "cart_line (cr_user_id req) (cr_product_id req)"
  from cart_line_cases [OF assms(1), of "cr_user_id req" "cr_product_id req"]
  have "cart_inv db' \<and> products db' = products db \<and> (\<forall>u p. in_cart db' u p = in_cart db u p +
      (if u = cr_user_id req \<and> p = cr_product_id req then cr_quantity req else 0))"
  proof
    assume none: "filter ?line (cart_items db) = []"
    with ok get p obtain row where
      create: "cart_Create c 2 now (new_cart_item now req) db = (Inr row, db')"
      by (auto simp: AddToCart_def cart_GetByUserIDAndProductID_def
          split: sum.splits option.splits if_splits prod.splits)
    have "in_cart db (cr_user_id req) (cr_product_id req) = 0" using none by (simp add: in_cart_def)
    then show ?thesis
      using cart_Create_ok [OF assms(1) create] by (simp add: new_cart_item_def)
  next
    assume "\<exists>ci \<in> set (cart_items db). ?line ci \<and> filter ?line (cart_items db) = [ci]"
    then obtain ci where one: "filter ?line (cart_items db) = [ci]" by blast
    with ok get p have
      update: "cart_UpdateQuantity c 2 now (cr_user_id req) (cr_product_id req)
        (ci_quantity ci + cr_quantity req) db = (Inr (), db')"
      by (auto simp: AddToCart_def cart_GetByUserIDAndProductID_def
          split: sum.splits option.splits if_splits prod.splits)
    have "in_cart db (cr_user_id req) (cr_product_id req) = ci_quantity ci"
      using one by (simp add: in_cart_def)
    then show ?thesis using cart_UpdateQuantity_ok [OF assms(1) one update] by simp
  qed
  then show ?thesis using Inr find p by auto
qed

definition cart_example :: shop_db where
  "cart_example = empty_shop\<lparr>products := [mk_product 1 10 5]\<rparr>"

lemma cart_example_inv: "cart_inv cart_example"
  by (simp add: cart_inv_def cart_example_def empty_shop_def)

theorem add_to_cart_accumulates_witness:
  "\<forall>u p. in_cart (snd (AddToCart healthy 0 \<lparr>cr_user_id = 7, cr_product_id = 1, cr_quantity = 2\<rparr>
     cart_example)) u p = in_cart cart_example u p + (if u = 7 \<and> p = 1 then 2 else 0)"
proof -
  let ?req = "\<lparr>cr_user_id = 7, cr_product_id = 1, cr_quantity = 2\<rparr>"
  let ?res = "AddToCart healthy 0 ?req cart_example"
  have "fst ?res = Inr ()"
    by (simp add: AddToCart_def product_GetByID_def cart_GetByUserIDAndProductID_def
        cart_Create_def new_cart_item_def cart_example_def empty_shop_def mk_product_def healthy_def Let_def)
  then have "?res = (Inr (), snd ?res)" by (simp add: prod_eq_iff)
  from add_to_cart_accumulates [OF cart_example_inv this] show ?thesis by simp
qed

text \<open>
  The other cart operations on a working connection: \<open>UpdateCart\<close> sets the quantity of a
  line that exists (and refuses a quantity of zero or less), \<open>RemoveFromCart\<close> takes out one
  line, \<open>ClearCart\<close> all lines of one customer; none touches the lines of another customer, the
  stock, or the invariant.
\<close>

theorem cart_operations:
  assumes "cart_inv db"
  shows "(let (r, db') = UpdateCart healthy now req db in
      products db' = products db \<and> cart_inv db' \<and>
      (\<forall>u p. in_cart db' u p = (if is_ok r \<and> u = cr_user_id req \<and> p = cr_product_id req
         then cr_quantity req else in_cart db u p)) \<and>
      (is_ok r \<longleftrightarrow> 0 < cr_quantity req \<and> 0 < in_cart db (cr_user_id req) (cr_product_id req))) \<and>
    (let (r, db') = RemoveFromCart healthy uid pid db in
      products db' = products db \<and> cart_inv db' \<and> is_ok r \<and>
      (\<forall>u p. in_cart db' u p = (if u = uid \<and> p = pid then 0 else in_cart db u p))) \<and>
    (let (r, db') = ClearCart healthy uid db in
      products db' = products db \<and> cart_inv db' \<and> is_ok r \<and>
      (\<forall>u p. in_cart db' u p = (if u = uid then 0 else in_cart db u p)))"
proof (intro conjI)
  have stmts: "c_stmt healthy k" for k by (simp add: healthy_def)
  show "let (r, db') = UpdateCart healthy now req db in
      products db' = products db \<and> cart_inv db' \<and>
      (\<forall>u p. in_cart db' u p = (if is_ok r \<and> u = cr_user_id req \<and> p = cr_product_id req
         then cr_quantity req else in_cart db u p)) \<and>
      (is_ok r \<longleftrightarrow> 0 < cr_quantity req \<and> 0 < in_cart db (cr_user_id req) (cr_product_id req))"
  proof -
    let ?line = "cart_line (cr_user_id req) (cr_product_id req)"
    have keys: "distinct (map p_id (products db))" using assms by (simp add: cart_inv_def)
    note get = product_GetByID_find [where c = healthy and k = 0 and db = db and pid = "cr_product_id req", OF keys stmts]
    from cart_line_cases [OF assms, of "cr_user_id req" "cr_product_id req"] show ?thesis
    proof
      assume none: "filter ?line (cart_items db) = []"
      then have "\<exists>e. UpdateCart healthy now req db = (Inl e, db)"
        by (auto simp: UpdateCart_def get cart_GetByUserIDAndProductID_def stmts split: option.splits)
      then show ?thesis using assms none by (auto simp: in_cart_def)
    next
      assume "\<exists>ci \<in> set (cart_items db). ?line ci \<and> filter ?line (cart_items db) = [ci]"
      then obtain ci where ci: "ci \<in> set (cart_items db)" "?line ci"
        and one: "filter ?line (cart_items db) = [ci]" by blast
      have pos: "0 < in_cart db (cr_user_id req) (cr_product_id req)"
        using one ci assms by (simp add: in_cart_def cart_inv_def)
      have "cr_product_id req \<in> p_id ` set (products db)"
        using ci assms unfolding cart_inv_def cart_line_def by metis
      then obtain p where "find_product db (cr_product_id req) = Some p"
        using product_rows.find_row_None [of "products db" "cr_product_id req"] by fastforce
      then have upd: "UpdateCart healthy now req db =
          cart_UpdateQuantity healthy 2 now (cr_user_id req) (cr_product_id req) (cr_quantity req) db"
        by (simp add: UpdateCart_def get cart_GetByUserIDAndProductID_def stmts one)
      show ?thesis
      proof (cases "0 < cr_quantity req")
        case True
        then obtain db' where ok: "cart_UpdateQuantity healthy 2 now (cr_user_id req) (cr_product_id req)
            (cr_quantity req) db = (Inr (), db')"
          by (simp add: cart_UpdateQuantity_def stmts)
        then show ?thesis
          using cart_UpdateQuantity_ok [OF assms one ok] True pos by (simp add: upd)
      next
        case False
        then have "UpdateCart healthy now req db = (Inl DbError, db)"
          by (simp add: upd cart_UpdateQuantity_def one)
        then show ?thesis using assms False by simp
      qed
    qed
  qed
  have "in_cart (db\<lparr>cart_items := sql_delete (cart_line uid pid) (cart_items db)\<rparr>) u p =
      (if u = uid \<and> p = pid then 0 else in_cart db u p)" for u p
  proof (cases "u = uid \<and> p = pid")
    case False
    then have "(\<lambda>ci. cart_line u p ci \<and> \<not> cart_line uid pid ci) = cart_line u p"
      by (auto simp: cart_line_def fun_eq_iff)
    with False show ?thesis unfolding in_cart_delete by (auto simp: in_cart_def)
  qed (simp add: in_cart_delete)
  then show "let (r, db') = RemoveFromCart healthy uid pid db in
      products db' = products db \<and> cart_inv db' \<and> is_ok r \<and>
      (\<forall>u p. in_cart db' u p = (if u = uid \<and> p = pid then 0 else in_cart db u p))"
    by (simp add: RemoveFromCart_def cart_Delete_def stmts cart_inv_delete [OF assms])
  have "in_cart (db\<lparr>cart_items := sql_delete (\<lambda>ci. ci_user_id ci = uid) (cart_items db)\<rparr>) u p =
      (if u = uid then 0 else in_cart db u p)" for u p
  proof (cases "u = uid")
    case False
    then have "(\<lambda>ci. cart_line u p ci \<and> ci_user_id ci \<noteq> uid) = cart_line u p"
      by (auto simp: cart_line_def fun_eq_iff)
    with False show ?thesis unfolding in_cart_delete by (auto simp: in_cart_def)
  next
    case True
    then have "(\<lambda>ci. cart_line u p ci \<and> ci_user_id ci \<noteq> uid) = (\<lambda>_. False)"
      by (auto simp: cart_line_def fun_eq_iff)
    with True show ?thesis unfolding in_cart_delete by simp
  qed
  then show "let (r, db') = ClearCart healthy uid db in
      products db' = products db \<and> cart_inv db' \<and> is_ok r \<and>
      (\<forall>u p. in_cart db' u p = (if u = uid then 0 else in_cart db u p))"
    by (simp add: ClearCart_def cart_Clear_def stmts cart_inv_delete [OF assms])
qed

theorem cart_operations_witness:
  "let (r, db') = ClearCart healthy 7 cart_example in \<forall>p. in_cart db' 7 p = 0"
  using conjunct2 [OF conjunct2 [OF cart_operations [OF cart_example_inv, where uid = 7]]]
  by (auto simp: Let_def split: prod.splits)

text \<open>
  The total of a cart that has lines is the sum of quantity times base price; of an empty
  cart there is no total, the call fails (the handler answers 500), whatever the connection.
\<close>

theorem cart_total:
  assumes "cart_inv db"
  shows "GetCartTotal healthy uid db =
    (if \<forall>ci \<in> set (cart_items db). ci_user_id ci \<noteq> uid then Inl DbError
     else Inr (sum_list (map (\<lambda>ci. of_int (ci_quantity ci) * p_price (the (find_product db (ci_product_id ci))))
       (filter (\<lambda>ci. ci_user_id ci = uid) (cart_items db)))))"
proof -
  have keys: "distinct (map p_id (products db))" using assms by (simp add: cart_inv_def)
  have join: "[(ci, p). p \<leftarrow> products db, ci_product_id ci = p_id p \<and> ci_user_id ci = uid] =
      (if ci_user_id ci = uid then [(ci, the (find_product db (ci_product_id ci)))] else [])"
    if "ci \<in> set (cart_items db)" for ci
  proof -
    have "ci_product_id ci \<in> p_id ` set (products db)" using that assms by (simp add: cart_inv_def)
    then obtain p where p: "find_product db (ci_product_id ci) = Some p"
      using product_rows.find_row_None [of "products db" "ci_product_id ci"] by fastforce
    have collect: "concat (map (\<lambda>p. if ci_product_id ci = p_id p \<and> B then [(ci, p)] else []) ps) =
        (if B then map (Pair ci) (filter (\<lambda>p. p_id p = ci_product_id ci) ps) else [])" for B ps
      by (induction ps) auto
    show ?thesis
      unfolding collect using product_rows.filter_key [OF keys, of "ci_product_id ci"] p by simp
  qed
  have "[(ci, p). ci \<leftarrow> items, p \<leftarrow> products db, ci_product_id ci = p_id p \<and> ci_user_id ci = uid] =
      map (\<lambda>ci. (ci, the (find_product db (ci_product_id ci))))
        (filter (\<lambda>ci. ci_user_id ci = uid) items)" if "set items \<subseteq> set (cart_items db)" for items
    using that
  proof (induction items)
    case (Cons a items)
    then show ?case using join [of a] by (auto split: if_splits)
  qed simp
  from this [OF subset_refl] show ?thesis
    by (auto simp: GetCartTotal_def cart_GetTotal_def healthy_def filter_empty_conv comp_def)
qed

theorem cart_total_witness:
  "GetCartTotal healthy 7 cart_example = Inl DbError"
  using cart_total [OF cart_example_inv, of 7] by (simp add: cart_example_def empty_shop_def)

end
