(* ===== verification/Catalog.thy ===== *)
theory Catalog
  imports Pricing StockCache "HOL-Library.Product_Lexorder" "HOL-Library.List_Lexorder"
    "HOL-Library.Char_ord"
begin

text \<open>
  internal/usecase/product.go: the catalogue a customer sees. Rows come from the product store,
  their stock from the cache, their prices from the pricer; a listing asks for more batches of
  rows until the page is full. The stock cache is there, as internal/app/app.go builds the use
  case. The state is the cache and the pricer; what the outside world answers in a call is the
  record \<open>catalog_env\<close>, in which the queries of batch \<open>b\<close> have the index \<open>b\<close>.
\<close>

section \<open>Environment and state\<close>

record catalog_env =
  ce_now :: time
  ce_page :: "nat \<Rightarrow> conn"
  ce_read :: "nat \<Rightarrow> id64 \<Rightarrow> bool"
  ce_up :: "nat \<Rightarrow> command_ok"
  ce_cold :: "nat \<Rightarrow> conn"
  ce_promotions :: conn
  ce_ancestors :: conn
  ce_pricer :: bool
  ce_buffer :: money

definition catalog_up :: "catalog_env \<Rightarrow> bool" where
  "catalog_up env = (ce_page env = (\<lambda>_. healthy) \<and> ce_read env = (\<lambda>_ _. True) \<and>
     ce_up env = (\<lambda>_ _. True) \<and> ce_cold env = (\<lambda>_. healthy))"

definition usual_catalog :: "time \<Rightarrow> catalog_env" where
  "usual_catalog now = \<lparr>ce_now = now, ce_page = (\<lambda>_. healthy), ce_read = (\<lambda>_ _. True),
     ce_up = (\<lambda>_ _. True), ce_cold = (\<lambda>_. healthy), ce_promotions = healthy,
     ce_ancestors = healthy, ce_pricer = False, ce_buffer = 10\<rparr>"

section \<open>One batch of rows\<close>

definition applyStockBuffer :: "money \<Rightarrow> (id64 \<rightharpoonup> int) \<Rightarrow> product list \<Rightarrow> product list" where
  "applyStockBuffer buffer available ps =
     (if buffer \<le> 0 then ps
      else map (\<lambda>p. case available (p_id p) of
             Some a \<Rightarrow> if 0 \<le> a then p\<lparr>p_stock := a\<rparr>
                       else p\<lparr>p_stock := trunc (of_int (p_stock p) * (1 - buffer / 100))\<rparr>
           | None \<Rightarrow> p\<lparr>p_stock := trunc (of_int (p_stock p) * (1 - buffer / 100))\<rparr>) ps)"

definition take_available :: "(id64 \<rightharpoonup> int) \<Rightarrow> product \<Rightarrow> product" where
  "take_available available p = (case available (p_id p) of Some a \<Rightarrow> p\<lparr>p_stock := a\<rparr> | None \<Rightarrow> p)"

text \<open>The rows of a batch with their current stocks; those in stock are kept up to the limit.\<close>

definition stocked ::
  "catalog_env \<Rightarrow> nat \<Rightarrow> product list \<Rightarrow> shop_db \<Rightarrow> redis \<Rightarrow> product list \<times> redis" where
  "stocked env b ps db rd =
     (let (available, rd') = BatchGetAvailableStocks (ce_read env b) (ce_up env b) (ce_cold env b)
            (ce_now env) (map p_id ps) db rd
      in (map (take_available available) (applyStockBuffer (ce_buffer env) available ps), rd'))"

fun collect_batches ::
  "catalog_env \<Rightarrow> (nat \<Rightarrow> nat \<Rightarrow> nat \<Rightarrow> product list result) \<Rightarrow> nat \<Rightarrow> nat \<Rightarrow> nat \<Rightarrow> nat
    \<Rightarrow> product list \<Rightarrow> shop_db \<Rightarrow> redis \<Rightarrow> product list result \<times> redis" where
  "collect_batches env fetch 0 b limit offset collected db rd = (Inr collected, rd)"
| "collect_batches env fetch (Suc n) b limit offset collected db rd =
     (if limit \<le> length collected then (Inr collected, rd)
      else case fetch b limit offset of
        Inl e \<Rightarrow> (Inl e, rd)
      | Inr ps \<Rightarrow>
          if ps = [] then (Inr collected, rd)
          else
            let (rows, rd') = stocked env b ps db rd;
                collected' = collected @ take (limit - length collected) (filter (\<lambda>p. 0 < p_stock p) rows)
            in if length ps < limit then (Inr collected', rd')
               else collect_batches env fetch n (Suc b) limit (offset + limit) collected' db rd')"

definition maxBatches :: nat where "maxBatches = 20"

section \<open>The use case\<close>

definition applyPromotions ::
  "catalog_env \<Rightarrow> product list \<Rightarrow> shop_db \<Rightarrow> pricer \<Rightarrow> product list \<times> pricer" where
  "applyPromotions env ps db pc =
     (if \<not> ce_pricer env \<or> ps = [] then (ps, pc)
      else Apply (ce_promotions env) (ce_ancestors env) (ce_now env) ps db pc)"

definition priced ::
  "catalog_env \<Rightarrow> product list result \<times> redis \<Rightarrow> shop_db \<Rightarrow> pricer \<Rightarrow> product list result \<times> redis \<times> pricer" where
  "priced env r db pc =
     (case r of
        (Inl e, rd) \<Rightarrow> (Inl e, rd, pc)
      | (Inr ps, rd) \<Rightarrow> (let (ps', pc') = applyPromotions env ps db pc in (Inr ps', rd, pc')))"

definition catalog_fetch ::
  "catalog_env \<Rightarrow> id64 option \<Rightarrow> shop_db \<Rightarrow> nat \<Rightarrow> nat \<Rightarrow> nat \<Rightarrow> product list result" where
  "catalog_fetch env categoryID db b limit offset =
     (case categoryID of
        Some k \<Rightarrow> if 0 < k then GetByCategory (ce_page env b) k limit offset db
                  else GetActive (ce_page env b) limit offset db
      | None \<Rightarrow> GetActive (ce_page env b) limit offset db)"

definition GetCatalogProducts ::
  "catalog_env \<Rightarrow> int \<Rightarrow> nat \<Rightarrow> id64 option \<Rightarrow> shop_db \<Rightarrow> redis \<Rightarrow> pricer
    \<Rightarrow> product list result \<times> redis \<times> pricer" where
  "GetCatalogProducts env limit offset categoryID db rd pc =
     (if limit \<le> 0 then (Inr [], rd, pc)
      else priced env
        (collect_batches env (catalog_fetch env categoryID db) maxBatches 0 (nat limit) offset [] db rd) db pc)"

definition SearchProducts ::
  "catalog_env \<Rightarrow> string \<Rightarrow> id64 option \<Rightarrow> int \<Rightarrow> nat \<Rightarrow> shop_db \<Rightarrow> redis \<Rightarrow> pricer
    \<Rightarrow> product list result \<times> redis \<times> pricer" where
  "SearchProducts env q categoryID limit offset db rd pc =
     (if limit \<le> 0 then (Inr [], rd, pc)
      else priced env
        (collect_batches env (\<lambda>b lim off. Search (ce_page env b) q categoryID lim off db)
           maxBatches 0 (nat limit) offset [] db rd) db pc)"

definition GetProductByID ::
  "catalog_env \<Rightarrow> id64 \<Rightarrow> shop_db \<Rightarrow> redis \<Rightarrow> pricer \<Rightarrow> product option result \<times> redis \<times> pricer" where
  "GetProductByID env pid db rd pc =
     (case product_GetByID (ce_page env 0) 0 pid db of
        Inl e \<Rightarrow> (Inl e, rd, pc)
      | Inr None \<Rightarrow> (Inr None, rd, pc)
      | Inr (Some p) \<Rightarrow>
          (let (stock, rd') = GetAvailableStock (ce_up env 0) (ce_cold env 0) (ce_now env) pid db rd;
               p' = (case stock of Inl e \<Rightarrow> p | Inr s \<Rightarrow> if 0 \<le> s then p\<lparr>p_stock := s\<rparr> else p);
               (ps, pc') = applyPromotions env [p'] db pc
           in (Inr (Some (hd ps)), rd', pc')))"

definition GetProductsByIDs ::
  "catalog_env \<Rightarrow> id64 list \<Rightarrow> shop_db \<Rightarrow> redis \<Rightarrow> pricer \<Rightarrow> product list result \<times> redis \<times> pricer" where
  "GetProductsByIDs env ids db rd pc =
     (if ids = [] then (Inr [], rd, pc)
      else case product_GetByIDs (ce_page env 0) 0 ids db of
        Inl e \<Rightarrow> (Inl e, rd, pc)
      | Inr found \<Rightarrow>
          (let active = filter p_active found;
               (available, rd') = BatchGetAvailableStocks (ce_read env 0) (ce_up env 0) (ce_cold env 0)
                 (ce_now env) (map p_id active) db rd;
               buffered = applyStockBuffer (ce_buffer env) available active;
               restock = (\<lambda>p. case available (p_id p) of
                            Some a \<Rightarrow> if 0 \<le> a then p\<lparr>p_stock := a\<rparr> else p | None \<Rightarrow> p);
               ordered = List.map_filter (\<lambda>k. map_option restock (find_row p_id buffered k)) ids
           in priced env (Inr ordered, rd') db pc))"

definition GetActiveProductsCount :: "conn \<Rightarrow> id64 option \<Rightarrow> shop_db \<Rightarrow> nat result" where
  "GetActiveProductsCount c categoryID db =
     (case categoryID of Some k \<Rightarrow> CountByCategory c k db | None \<Rightarrow> CountActive c db)"

definition GetSearchProductsCount :: "conn \<Rightarrow> string \<Rightarrow> id64 option \<Rightarrow> shop_db \<Rightarrow> nat result" where
  "GetSearchProductsCount c query categoryID db = CountSearch c query categoryID db"

text \<open>The flag the handlers \<open>GetProducts\<close> and \<open>SearchProducts\<close> send with a page.\<close>

definition has_more :: "nat \<Rightarrow> nat \<Rightarrow> nat result \<Rightarrow> bool" where
  "has_more offset shown n_all = (offset + shown < (case n_all of Inr n \<Rightarrow> n | Inl e \<Rightarrow> 0))"

section \<open>What a page holds\<close>

definition shown_stock :: "time \<Rightarrow> redis \<Rightarrow> product \<Rightarrow> int" where
  "shown_stock now rd p =
     (case live_stock now rd (p_id p) of
        Some info \<Rightarrow> max 0 (si_stock info - (case rd_reserved rd (p_id p) of Some r \<Rightarrow> r | None \<Rightarrow> 0))
      | None \<Rightarrow> max 0 (p_stock p))"

definition restocked :: "time \<Rightarrow> redis \<Rightarrow> product \<Rightarrow> product" where
  "restocked now rd p = p\<lparr>p_stock := shown_stock now rd p\<rparr>"

lemma restocked_stock [simp]: "p_stock (restocked now rd p) = shown_stock now rd p"
  by (simp add: restocked_def)

lemma BatchSetStocks_reserved [simp]: "rd_reserved (BatchSetStocks up k now ps rd) = rd_reserved rd"
  by (induction ps arbitrary: k rd) (auto simp: SetStock_def)

lemma BatchSetStocks_other:
  "pid \<notin> p_id ` set ps \<Longrightarrow> rd_stock (BatchSetStocks up k now ps rd) pid = rd_stock rd pid"
proof (induction ps arbitrary: k rd)
  case (Cons p ps)
  then show ?case by (auto simp: SetStock_def)
qed simp

lemma stocked_up:
  assumes "catalog_up env" "distinct (map p_id (products db))" "set ps \<subseteq> set (products db)"
  shows "fst (stocked env b ps db rd) = map (restocked (ce_now env) rd) ps"
    "p_id p \<notin> p_id ` set ps \<Longrightarrow>
      shown_stock (ce_now env) (snd (stocked env b ps db rd)) p = shown_stock (ce_now env) rd p"
proof -
  let ?cold = "filter (\<lambda>pid. live_stock (ce_now env) rd pid = None) (map p_id ps)"
  let ?rows = "filter (\<lambda>p. p_id p \<in> set ?cold) (products db)"
  have rows: "(case product_GetByIDs healthy 0 ?cold db of Inl e \<Rightarrow> [] | Inr ps \<Rightarrow> ps) = ?rows"
    by (cases "?cold = []") (simp_all add: product_GetByIDs_def healthy_def del: set_filter set_map)
  have env: "ce_read env b = (\<lambda>_. True)" "ce_up env b = (\<lambda>_. True)" "ce_cold env b = healthy"
    using assms(1) by (simp_all add: catalog_up_def)
  obtain available where batch: "BatchGetAvailableStocks (ce_read env b) (ce_up env b) (ce_cold env b)
      (ce_now env) (map p_id ps) db rd =
      (available, BatchSetStocks (\<lambda>_. True) 0 (ce_now env) ?rows rd)"
    and av: "\<And>pid. pid \<in> set (map p_id ps) \<Longrightarrow> available pid = Some (max 0
       ((case live_stock (ce_now env) rd pid of Some info \<Rightarrow> si_stock info
         | None \<Rightarrow> (case find_row p_id ?rows pid of Some p \<Rightarrow> p_stock p | None \<Rightarrow> 0)) -
        (case live_stock (ce_now env) rd pid of Some info \<Rightarrow>
           (case rd_reserved rd pid of Some r \<Rightarrow> r | None \<Rightarrow> 0) | None \<Rightarrow> 0)))"
    by (simp add: BatchGetAvailableStocks_def env Let_def rows del: set_filter set_map
        cong del: option.case_cong_weak)
  have avail: "available (p_id p) = Some (shown_stock (ce_now env) rd p)" if p: "p \<in> set ps" for p
  proof -
    have "find_row p_id (products db) (p_id p) = Some p"
      using p assms(2,3) by (intro product_rows.find_row_unique) auto
    then have "live_stock (ce_now env) rd (p_id p) = None \<Longrightarrow> find_row p_id ?rows (p_id p) = Some p"
      using p by (subst find_row_filter_ids) auto
    with av [of "p_id p"] p show ?thesis by (auto simp: shown_stock_def split: option.splits)
  qed
  have nonneg: "0 \<le> shown_stock (ce_now env) rd p" for p by (auto simp: shown_stock_def split: option.splits)
  have "map (take_available available) (applyStockBuffer (ce_buffer env) available ps) =
      map (restocked (ce_now env) rd) ps"
    using avail nonneg by (auto simp: applyStockBuffer_def take_available_def restocked_def)
  then show "fst (stocked env b ps db rd) = map (restocked (ce_now env) rd) ps"
    by (simp add: stocked_def batch)
  show "shown_stock (ce_now env) (snd (stocked env b ps db rd)) p = shown_stock (ce_now env) rd p"
    if other: "p_id p \<notin> p_id ` set ps"
  proof -
    let ?rd = "BatchSetStocks (\<lambda>_. True) 0 (ce_now env) ?rows rd"
    have "p_id p \<notin> p_id ` set ?rows" using other by auto
    then have "live_stock (ce_now env) ?rd (p_id p) = live_stock (ce_now env) rd (p_id p)"
      unfolding live_stock_def by (subst BatchSetStocks_other) (rule refl | assumption)+
    moreover have "snd (stocked env b ps db rd) = ?rd" by (simp add: stocked_def batch)
    ultimately show ?thesis
      by (simp only: shown_stock_def BatchSetStocks_reserved)
  qed
qed

text \<open>
  With everything up, the batches give the first \<open>limit\<close> rows with stock among the rows from the
  offset on, of which at most \<open>n * limit\<close> are looked at. \<open>rd\<close> is the cache at the start of the
  call, \<open>rd'\<close> the cache as earlier batches left it.
\<close>

lemma collect_batches_up:
  assumes up: "catalog_up env" and keys: "distinct (map p_id (products db))"
    and sub: "set rows \<subseteq> set (products db)" and rows: "distinct (map p_id rows)"
    and fetch: "\<And>b off. fetch b limit off = Inr (page limit off rows)" and "0 < limit"
    and "length collected \<le> limit"
    and "\<forall>p \<in> set (drop offset rows). shown_stock (ce_now env) rd' p = shown_stock (ce_now env) rd p"
  shows "fst (collect_batches env fetch n b limit offset collected db rd') =
    Inr (collected @ take (limit - length collected) (map (restocked (ce_now env) rd)
      (filter (\<lambda>p. 0 < shown_stock (ce_now env) rd p) (take (n * limit) (drop offset rows)))))"
  using assms(6-8)
proof (induction n arbitrary: b offset collected rd')
  case (Suc n)
  let ?now = "ce_now env" and ?W = "take limit (drop offset rows)" and ?R = "drop (offset + limit) rows"
  let ?shown = "\<lambda>ps. map (restocked ?now rd) (filter (\<lambda>p. 0 < shown_stock ?now rd p) ps)"
  let ?next = "collected @ take (limit - length collected) (?shown ?W)"
  have split: "take (Suc n * limit) (drop offset rows) = ?W @ take (n * limit) ?R"
    by (simp add: take_add add.commute)
  have whole: "collected @ take (limit - length collected) (?shown (take (Suc n * limit) (drop offset rows))) =
      ?next @ take (limit - length ?next) (?shown (take (n * limit) ?R))"
    unfolding split by (simp add: min_def)
  have W: "set ?W \<subseteq> set (products db)" "set ?W \<subseteq> set (drop offset rows)"
    using sub by (auto dest!: in_set_takeD in_set_dropD)
  obtain rd'' where st: "stocked env b ?W db rd' = (map (restocked ?now rd') ?W, rd'')"
    using stocked_up(1) [OF up keys W(1), of b rd'] by (metis prod.collapse)
  have same: "map (restocked ?now rd') ?W = map (restocked ?now rd) ?W"
    using Suc.prems(3) W(2) by (auto simp: restocked_def)
  have shown: "filter (\<lambda>p. 0 < p_stock p) (map (restocked ?now rd') ?W) = ?shown ?W"
    unfolding same by (simp add: filter_map o_def)
  have step: "limit \<noteq> length collected \<Longrightarrow> ?W \<noteq> [] \<Longrightarrow>
      collect_batches env fetch (Suc n) b limit offset collected db rd' =
      (if length ?W < limit then (Inr ?next, rd'')
       else collect_batches env fetch n (Suc b) limit (offset + limit) ?next db rd'')"
    using Suc.prems(2) by (simp only: collect_batches.simps fetch page_def st shown Let_def sum.case prod.case) simp
  consider (full) "length collected = limit" | (none) "?W = []" "length collected \<noteq> limit"
    | (last) "?W \<noteq> []" "length collected \<noteq> limit" "length ?W < limit"
    | (more) "?W \<noteq> []" "length collected \<noteq> limit" "\<not> length ?W < limit" by blast
  then show ?case
  proof cases
    case none
    then have "drop offset rows = []" using Suc.prems(1) by auto
    with none Suc.prems(2) show ?thesis by (simp add: fetch page_def)
  next
    case last
    then have "?R = []" by auto
    moreover have "collect_batches env fetch (Suc n) b limit offset collected db rd' = (Inr ?next, rd'')"
      using step [OF last(2) [symmetric] last(1)] last(3) by (simp only: if_True)
    ultimately show ?thesis unfolding whole by simp
  next
    case more
    have "shown_stock ?now rd'' p = shown_stock ?now rd p" if p: "p \<in> set (drop (offset + limit) rows)" for p
    proof -
      have "distinct (map p_id (?W @ ?R))"
        using rows by (metis append_take_drop_id distinct_append drop_drop map_append add.commute)
      then have "p_id p \<notin> p_id ` set ?W" using p by auto
      with stocked_up(2) [OF up keys W(1), of p b rd'] st
      have "shown_stock ?now rd'' p = shown_stock ?now rd' p" by simp
      moreover have "p \<in> set (drop offset rows)"
        using p by (metis add.commute drop_drop in_set_dropD)
      ultimately show ?thesis using Suc.prems(3) by simp
    qed
    moreover have "length ?next \<le> limit" using Suc.prems(2) by simp
    moreover have "collect_batches env fetch (Suc n) b limit offset collected db rd' =
        collect_batches env fetch n (Suc b) limit (offset + limit) ?next db rd''"
      using step [OF more(2) [symmetric] more(1)] more(3) by (simp only: if_False)
    ultimately show ?thesis
      unfolding whole using Suc.IH [OF Suc.prems(1), of ?next "offset + limit" rd'' "Suc b"] by simp
  qed simp
qed simp

text \<open>The rows a listing goes through, in order.\<close>

definition catalog_rows :: "id64 option \<Rightarrow> shop_db \<Rightarrow> product list option" where
  "catalog_rows categoryID db =
     map_option (newest_first p_created_at)
       (case categoryID of
          Some k \<Rightarrow> if 0 < k then category_products k db else Some (filter on_sale (products db))
        | None \<Rightarrow> Some (filter on_sale (products db)))"

lemma newest_first_mset: "mset (newest_first created rows) = mset rows"
  by (simp add: newest_first_def)

lemma distinct_newest_first:
  "distinct (map key (filter P rows)) \<Longrightarrow> distinct (map key (newest_first created (filter P rows)))"
  by (metis mset_eq_imp_distinct_iff mset_map newest_first_mset)

lemma catalog_rows_ok:
  assumes "catalog_rows categoryID db = Some rows" "distinct (map p_id (products db))"
  shows "set rows \<subseteq> set (products db)" "distinct (map p_id rows)"
proof -
  obtain P where rows: "rows = newest_first p_created_at (filter P (products db))"
    using assms(1) by (auto simp: catalog_rows_def category_products_def split: option.splits if_splits)
  have "set rows = set (filter P (products db))"
    unfolding rows by (metis mset_eq_setD newest_first_mset)
  then show "set rows \<subseteq> set (products db)" by auto
  show "distinct (map p_id rows)"
    unfolding rows by (rule distinct_newest_first) (simp add: assms(2) distinct_map_filter)
qed

lemma catalog_fetch_rows:
  assumes "catalog_up env" "catalog_rows categoryID db = Some rows"
  shows "catalog_fetch env categoryID db b limit offset = Inr (page limit offset rows)"
  using assms
  by (auto simp: catalog_fetch_def catalog_rows_def catalog_up_def GetByCategory_def GetActive_def
      healthy_def split: option.splits if_splits)

lemma fst_priced: "fst (priced env (Inr ps, rd) db pc) = Inr (fst (applyPromotions env ps db pc))"
  by (simp add: priced_def split: prod.splits)

lemma catalog_page_rows:
  assumes "catalog_up env" "distinct (map p_id (products db))"
    "catalog_rows categoryID db = Some rows" "0 < limit"
  shows "fst (GetCatalogProducts env (int limit) offset categoryID db rd pc) =
    Inr (fst (applyPromotions env (map (restocked (ce_now env) rd) (take limit
      (filter (\<lambda>p. 0 < shown_stock (ce_now env) rd p) (take (20 * limit) (drop offset rows))))) db pc))"
proof -
  note ok = catalog_rows_ok [OF assms(3,2)]
  have "fst (collect_batches env (catalog_fetch env categoryID db) maxBatches 0 limit offset [] db rd) =
      Inr (take limit (map (restocked (ce_now env) rd)
        (filter (\<lambda>p. 0 < shown_stock (ce_now env) rd p) (take (20 * limit) (drop offset rows)))))"
    using collect_batches_up [where fetch = "catalog_fetch env categoryID db" and n = maxBatches and b = 0
        and collected = "[]" and offset = offset and rd = rd and rd' = rd,
        OF assms(1,2) ok catalog_fetch_rows [OF assms(1,3)] assms(4)]
    by (simp add: maxBatches_def)
  then show ?thesis
    using assms(4) by (simp add: GetCatalogProducts_def take_map)
      (metis fst_priced prod.collapse)
qed

text \<open>
  C16. What a page of the catalogue holds, with the database and Redis up: the first \<open>limit\<close>
  products that have something left among the rows from the offset on (at most twenty pages of
  rows are looked at), newest first, each with the stock the cache and its reservations leave, and
  priced. The stock buffer of the configuration has no effect on it.
\<close>

theorem catalog_page_dense:
  assumes "catalog_up env" "distinct (map p_id (products db))"
    "catalog_rows categoryID db = Some rows" "0 < limit"
  shows "fst (GetCatalogProducts env (int limit) offset categoryID db rd pc) =
    Inr (fst (applyPromotions env (map (restocked (ce_now env) rd) (take limit
      (filter (\<lambda>p. 0 < shown_stock (ce_now env) rd p) (take (20 * limit) (drop offset rows))))) db pc))"
  using assms by (rule catalog_page_rows)

definition catalog_example :: shop_db where
  "catalog_example = empty_shop\<lparr>products :=
     [(mk_product 1 10 5)\<lparr>p_created_at := 1\<rparr>, (mk_product 2 10 5)\<lparr>p_created_at := 2\<rparr>,
      (mk_product 3 10 5)\<lparr>p_created_at := 3\<rparr>], next_product := 4\<rparr>"

text \<open>The newest product is sold out by reservations that the cache knows of.\<close>

definition cache_example :: redis where
  "cache_example = redis_empty\<lparr>
     rd_stock := [3 \<mapsto> (\<lparr>si_stock = 5, si_cached_at = 0, si_moysklad_id = []\<rparr>, 30 * minute)],
     rd_reserved := [3 \<mapsto> 5]\<rparr>"

lemma catalog_example_rows:
  "catalog_rows None catalog_example = Some (rev (products catalog_example))"
  by (simp add: catalog_rows_def newest_first_def catalog_example_def on_sale_def mk_product_def empty_shop_def
      sort_key_def)

lemma catalog_example_keys: "distinct (map p_id (products catalog_example))"
  by (simp add: catalog_example_def mk_product_def)

lemma usual_catalog_up: "catalog_up (usual_catalog t)"
  by (simp add: catalog_up_def usual_catalog_def)

theorem catalog_page_dense_witness:
  "map_sum id (map p_id) (fst (GetCatalogProducts (usual_catalog 7) 2 0 None catalog_example cache_example
      (NewPromotionPricer False))) = Inr [2, 1]"
  using catalog_page_dense [OF usual_catalog_up catalog_example_keys catalog_example_rows,
      of 2 7 0 cache_example "NewPromotionPricer False"]
  by (simp add: applyPromotions_def usual_catalog_def catalog_example_def cache_example_def mk_product_def
      shown_stock_def live_stock_def redis_empty_def restocked_def)

text \<open>
  Pages overlap: when a row in the window of a page has nothing left, the page is topped up from
  beyond its window, but the next page starts where the window ends, so the first product of the
  next page was on this one already.
\<close>

theorem catalog_pages_overlap:
  assumes "catalog_up env" "\<not> ce_pricer env" "distinct (map p_id (products db))"
    "catalog_rows categoryID db = Some rows" "0 < limit" "length rows \<le> offset + 20 * limit"
    "p \<in> set (take limit (drop offset rows))" "shown_stock (ce_now env) rd p = 0"
    "fst (GetCatalogProducts env (int limit) (offset + limit) categoryID db rd pc) = Inr (q # qs)"
  shows "\<exists>ps. fst (GetCatalogProducts env (int limit) offset categoryID db rd pc) = Inr ps \<and> q \<in> set ps"
proof -
  let ?P = "\<lambda>p. 0 < shown_stock (ce_now env) rd p" and ?f = "restocked (ce_now env) rd"
  let ?W = "filter ?P (take limit (drop offset rows))" and ?R = "filter ?P (drop (offset + limit) rows)"
  have plain: "fst (applyPromotions env ps db pc) = ps" for ps
    using assms(2) by (simp add: applyPromotions_def)
  note pg = catalog_page_rows [OF assms(1,3,4,5), where rd = rd and pc = pc, unfolded plain]
  have "drop offset rows = take limit (drop offset rows) @ drop (offset + limit) rows"
    by (metis add.commute append_take_drop_id drop_drop)
  then have split: "filter ?P (drop offset rows) = ?W @ ?R" by (metis filter_append)
  have len: "length (drop offset rows) \<le> 20 * limit" "length (drop (offset + limit) rows) \<le> 20 * limit"
    using assms(6) by simp_all
  have first: "fst (GetCatalogProducts env (int limit) offset categoryID db rd pc) =
      Inr (map ?f (take limit (?W @ ?R)))"
    using pg [of offset] len(1) split by simp
  have "fst (GetCatalogProducts env (int limit) (offset + limit) categoryID db rd pc) =
      Inr (map ?f (take limit ?R))"
    using pg [of "offset + limit"] len(2) by simp
  with assms(9) obtain r rs where R: "?R = r # rs" "q = ?f r"
    using assms(5) by (cases ?R; cases limit) auto
  have "length ?W < length (take limit (drop offset rows))"
    using assms(7,8) by (intro length_filter_less [of p]) auto
  then have "length ?W < limit" by simp
  then have "r \<in> set (take limit (?W @ ?R))" unfolding R by (cases "limit - length ?W") auto
  with first R show ?thesis by auto
qed

theorem catalog_pages_overlap_witness:
  "\<exists>q qs ps. fst (GetCatalogProducts (usual_catalog 7) 1 1 None catalog_example cache_example
       (NewPromotionPricer False)) = Inr (q # qs) \<and>
     fst (GetCatalogProducts (usual_catalog 7) 1 0 None catalog_example cache_example
       (NewPromotionPricer False)) = Inr ps \<and> q \<in> set ps"
proof -
  let ?go = "\<lambda>off. fst (GetCatalogProducts (usual_catalog 7) (int 1) off None catalog_example cache_example
    (NewPromotionPricer False))"
  have two: "?go (0 + 1) = Inr ([(mk_product 2 10 5)\<lparr>p_created_at := 2\<rparr>])"
    by (simp add: GetCatalogProducts_def priced_def applyPromotions_def maxBatches_def eval_nat_numeral
        catalog_fetch_def usual_catalog_def GetActive_def healthy_def page_def newest_first_def on_sale_def
        catalog_example_def mk_product_def stocked_def BatchGetAvailableStocks_def live_stock_def
        cache_example_def redis_empty_def product_GetByIDs_def find_row_def applyStockBuffer_def
        take_available_def sort_key_def)
  show ?thesis
    using catalog_pages_overlap [OF usual_catalog_up _ catalog_example_keys catalog_example_rows _ _ _ _ two,
        of "(mk_product 3 10 5)\<lparr>p_created_at := 3\<rparr>"] two
    by (auto simp: catalog_example_def cache_example_def usual_catalog_def mk_product_def shown_stock_def
        live_stock_def redis_empty_def)
qed

end
