(* ===== verification/PromotionCatalog.thy ===== *)
theory PromotionCatalog
  imports Catalog
begin

text \<open>
  internal/usecase/promotion_catalog.go and the readers of internal/handlers/promotions.go: the
  page of discounted products, the sections of the promotion feed and the products of one
  promotion. Go's maps are walked in the order of the promotions, which the code leaves open; the
  results are sorted after it or do not depend on it. The calls to the product use case have an
  environment each.
\<close>

section \<open>Data\<close>

record catalog_ref =
  rf_id :: id64
  rf_title :: string
  rf_discount :: money
  rf_kind :: string

record catalog_promo =
  cp_id :: id64
  cp_title :: string
  cp_discount :: money
  cp_kind :: string
  cp_category_ids :: "id64 list"
  cp_product_ids :: "id64 list"

record catalog_category =
  cc_id :: id64
  cc_name :: string
  cc_promos :: "catalog_ref list"

record catalog_result =
  cr_products :: "product list"
  cr_total :: nat
  cr_categories :: "catalog_category list"
  cr_promotions :: "catalog_promo list"
  cr_window :: "string \<times> reservation_note"

record promo_env =
  pe_now :: time
  pe_active :: conn
  pe_links :: conn
  pe_trees :: conn
  pe_names :: conn
  pe_filter :: conn
  pe_listing :: catalog_env
  pe_calls :: "nat \<Rightarrow> catalog_env"

section \<open>Parts of ListProducts\<close>

definition reservable :: "promotion list \<Rightarrow> time \<Rightarrow> promotion list" where
  "reservable ps now = map the (FilterPromotionsForReservation (map Some ps) now)"

definition ids_in :: "(id64 \<rightharpoonup> id64 list) \<Rightarrow> id64 \<Rightarrow> id64 list" where
  "ids_in m k = (case m k of Some ids \<Rightarrow> ids | None \<Rightarrow> [])"

definition links_or_none :: "(id64 \<rightharpoonup> id64 list) result \<Rightarrow> (id64 \<rightharpoonup> id64 list)" where
  "links_or_none r = (case r of Inl e \<Rightarrow> Map.empty | Inr m \<Rightarrow> m)"

text \<open>A failed query of the links counts as no links here.\<close>

definition buildPromoSummaries :: "conn \<Rightarrow> promotion list \<Rightarrow> shop_db \<Rightarrow> catalog_promo list" where
  "buildPromoSummaries c ps db =
     (let ids = map pr_id ps;
          productMap = links_or_none (ListProductIDsForPromotions c 0 ids db);
          categoryMap = links_or_none (ListCategoryIDsForPromotions c 1 ids db)
      in sort_key (\<lambda>s. - cp_discount s) (map (\<lambda>p.
           \<lparr>cp_id = pr_id p, cp_title = pr_title p, cp_discount = pr_discount p,
             cp_kind = (if ids_in productMap (pr_id p) = [] \<and> ids_in categoryMap (pr_id p) \<noteq> [] then ''category''
                        else if ids_in categoryMap (pr_id p) \<noteq> [] then ''mixed''
                        else ''product''),
             cp_category_ids = ids_in categoryMap (pr_id p),
             cp_product_ids = ids_in productMap (pr_id p)\<rparr>) ps))"

definition resolveCandidateIDs ::
  "conn \<Rightarrow> conn \<Rightarrow> promotion list \<Rightarrow> shop_db \<Rightarrow> id64 list result" where
  "resolveCandidateIDs c ct ps db =
     (let ids = map pr_id ps
      in case ListProductIDsForPromotions c 2 ids db of
        Inl e \<Rightarrow> Inl e
      | Inr productMap \<Rightarrow>
          (case ListCategoryIDsForPromotions c 3 ids db of
             Inl e \<Rightarrow> Inl e
           | Inr categoryMap \<Rightarrow>
               let direct = concat (map (ids_in productMap) ids);
                   categoryIDs = first_seen [] (concat (map (ids_in categoryMap) ids))
               in if categoryIDs = [] then Inr (first_seen [] direct)
                  else (case ListIDsByCategoryTrees ct categoryIDs db of
                     Inl e \<Rightarrow> Inl e
                   | Inr covered \<Rightarrow> Inr (first_seen [] (direct @ covered)))))"

text \<open>The buckets of categories, in the order of their first promotion.\<close>

fun add_ref :: "id64 \<Rightarrow> catalog_ref \<Rightarrow> (id64 \<times> catalog_ref list) list \<Rightarrow> (id64 \<times> catalog_ref list) list" where
  "add_ref k r [] = [(k, [r])]"
| "add_ref k r ((j, rs) # bs) = (if j = k then (j, rs @ [r]) # bs else (j, rs) # add_ref k r bs)"

fun fill_buckets ::
  "(nat \<Rightarrow> catalog_env) \<Rightarrow> nat \<Rightarrow> catalog_promo list \<Rightarrow> shop_db \<Rightarrow> redis \<Rightarrow> pricer
    \<Rightarrow> (id64 \<times> catalog_ref list) list \<Rightarrow> (id64 \<times> catalog_ref list) list \<times> redis \<times> pricer" where
  "fill_buckets envs i [] db rd pc bs = (bs, rd, pc)"
| "fill_buckets envs i (p # ps) db rd pc bs =
     (let r = \<lparr>rf_id = cp_id p, rf_title = cp_title p, rf_discount = cp_discount p, rf_kind = cp_kind p\<rparr>;
          bs1 = fold (\<lambda>k. add_ref k r) (cp_category_ids p) bs
      in if cp_product_ids p = [] then fill_buckets envs (Suc i) ps db rd pc bs1
         else (case GetProductsByIDs (envs i) (cp_product_ids p) db rd pc of
             (Inl e, rd', pc') \<Rightarrow> fill_buckets envs (Suc i) ps db rd' pc' bs1
           | (Inr found, rd', pc') \<Rightarrow>
               fill_buckets envs (Suc i) ps db rd' pc'
                 (fold (\<lambda>k. add_ref k r) (List.map_filter p_category_id found) bs1)))"

definition buildCategoriesFromPromos ::
  "conn \<Rightarrow> (nat \<Rightarrow> catalog_env) \<Rightarrow> catalog_promo list \<Rightarrow> shop_db \<Rightarrow> redis \<Rightarrow> pricer
    \<Rightarrow> catalog_category list \<times> redis \<times> pricer" where
  "buildCategoriesFromPromos c envs promos db rd pc =
     (if promos = [] then ([], rd, pc)
      else
        let (_, rd1, pc1) = GetProductsByIDs (envs 0) (first_seen [] (concat (map cp_product_ids promos))) db rd pc;
            names = (case ListAll c db id of Inl e \<Rightarrow> [] | Inr cats \<Rightarrow> cats);
            name = (\<lambda>k. case find_row c_id names k of Some cat \<Rightarrow> c_name cat | None \<Rightarrow> []);
            (bs, rd2, pc2) = fill_buckets envs 1 promos db rd1 pc1 []
        in (sort_key cc_name (map (\<lambda>(k, rs). \<lparr>cc_id = k, cc_name = name k,
              cc_promos = sort_key (\<lambda>r. (- rf_discount r, rf_title r)) rs\<rparr>) bs), rd2, pc2))"

definition filterProductsWithPromotion :: "product list \<Rightarrow> product list" where
  "filterProductsWithPromotion ps =
     filter (\<lambda>p. case p_effective_price p of None \<Rightarrow> False | Some e \<Rightarrow> e < p_price p) ps"

definition filterByPromotionKind :: "product list \<Rightarrow> string \<Rightarrow> product list" where
  "filterByPromotionKind ps kind =
     (let kind = TrimSpace (ToLower kind)
      in if kind = [] \<or> kind = ''all'' then ps
         else filter (\<lambda>p. kind = ''product'' \<and> p_promotion_type p = ''product'' \<or>
                kind = ''category'' \<and> p_promotion_type p = ''category'') ps)"

definition discountOf :: "product \<Rightarrow> money" where
  "discountOf p = (case p_discount_percent p of None \<Rightarrow> 0 | Some d \<Rightarrow> d)"

text \<open>By falling discount, then by name.\<close>

definition promo_order :: "product list \<Rightarrow> product list" where
  "promo_order ps = sort_key (\<lambda>p. (- discountOf p, p_name p)) ps"

definition empty_result :: "catalog_promo list \<Rightarrow> time \<Rightarrow> catalog_result" where
  "empty_result promos now = \<lparr>cr_products = [], cr_total = 0, cr_categories = [],
     cr_promotions = promos, cr_window = ReservationTarget now\<rparr>"

text \<open>The slice \<open>[offset:offset+limit]\<close> after both ends are cut to the length.\<close>

definition slice_page :: "nat \<Rightarrow> nat \<Rightarrow> 'a list \<Rightarrow> 'a list" where
  "slice_page limit offset xs =
     (let offset' = (if offset > length xs then length xs else offset);
          stop = (if offset' + limit > length xs then length xs else offset' + limit)
      in take (stop - offset') (drop offset' xs))"

definition ListProducts ::
  "promo_env \<Rightarrow> string \<Rightarrow> id64 option \<Rightarrow> string \<Rightarrow> nat \<Rightarrow> nat \<Rightarrow> shop_db \<Rightarrow> redis \<Rightarrow> pricer
    \<Rightarrow> catalog_result result \<times> redis \<times> pricer" where
  "ListProducts env search categoryID kind limit offset db rd pc =
     (case promotion_GetActive (pe_active env) (pe_now env) db of
        Inl e \<Rightarrow> (Inl e, rd, pc)
      | Inr running \<Rightarrow>
          let ps = reservable running (pe_now env); promos = buildPromoSummaries (pe_links env) ps db
          in if ps = [] then (Inr (empty_result [] (pe_now env)), rd, pc)
             else case resolveCandidateIDs (pe_links env) (pe_trees env) ps db of
               Inl e \<Rightarrow> (Inl e, rd, pc)
             | Inr candidates \<Rightarrow>
                 if candidates = [] then (Inr (empty_result promos (pe_now env)), rd, pc)
                 else
                   let (cats, rd1, pc1) =
                         buildCategoriesFromPromos (pe_names env) (pe_calls env) promos db rd pc
                   in case FilterPromotionalIDs (pe_filter env) candidates (TrimSpace search) categoryID db of
                     Inl e \<Rightarrow> (Inl e, rd1, pc1)
                   | Inr ids \<Rightarrow>
                       (case GetProductsByIDs (pe_listing env) ids db rd1 pc1 of
                          (Inl e, rd2, pc2) \<Rightarrow> (Inl e, rd2, pc2)
                        | (Inr found, rd2, pc2) \<Rightarrow>
                            let hits = promo_order (filterByPromotionKind (filterProductsWithPromotion found) kind)
                            in (Inr \<lparr>cr_products = slice_page limit offset hits, cr_total = length hits,
                                  cr_categories = cats, cr_promotions = promos,
                                  cr_window = ReservationTarget (pe_now env)\<rparr>, rd2, pc2)))"

section \<open>The feed and the products of one promotion\<close>

record promotion_card =
  card_promotion :: promotion
  card_first_product :: "id64 option"
  card_first_category :: "id64 option"
  card_products :: nat
  card_categories :: nat
  card_window :: "string \<times> reservation_note"

definition buildCards :: "conn \<Rightarrow> promotion list \<Rightarrow> time \<Rightarrow> shop_db \<Rightarrow> promotion_card list" where
  "buildCards c ps now db =
     (let ids = map pr_id ps;
          productMap = links_or_none (ListProductIDsForPromotions c 0 ids db);
          categoryMap = links_or_none (ListCategoryIDsForPromotions c 1 ids db);
          head = (\<lambda>xs. case xs of [] \<Rightarrow> None | x # _ \<Rightarrow> Some x)
      in map (\<lambda>p. let plist = ids_in productMap (pr_id p); clist = ids_in categoryMap (pr_id p)
           in \<lparr>card_promotion = p, card_first_product = head plist, card_first_category = head clist,
                card_products = length plist, card_categories = length clist,
                card_window = ReservationTarget now\<rparr>) ps)"

definition GetActivePromotions :: "conn \<Rightarrow> conn \<Rightarrow> time \<Rightarrow> shop_db \<Rightarrow> promotion_card list result" where
  "GetActivePromotions c cl now db =
     (case promotion_GetActive c now db of
        Inl e \<Rightarrow> Inl e
      | Inr ps \<Rightarrow> Inr (buildCards cl (reservable ps now) now db))"

definition GetAllPromotions :: "conn \<Rightarrow> conn \<Rightarrow> time \<Rightarrow> shop_db \<Rightarrow> promotion_card list result" where
  "GetAllPromotions c cl now db =
     (case promotion_GetAll c db of
        Inl e \<Rightarrow> Inl e
      | Inr ps \<Rightarrow> Inr (buildCards cl (reservable ps now) now db))"

text \<open>
  The page of the feed in Go's 64-bit \<open>int\<close>: \<open>(page - 1) * pageSize\<close> may wrap around, and a slice
  whose ends are negative or the wrong way round panics.
\<close>

definition feed_slice :: "64 word \<Rightarrow> 64 word \<Rightarrow> 'a list \<Rightarrow> ('a list \<times> bool) result" where
  "feed_slice pageNo pageSize xs =
     (let pageStart = (pageNo - 1) * pageSize;
          pageEnd = pageStart + pageSize;
          a = (if sint pageStart > int (length xs) then int (length xs) else sint pageStart);
          b = (if sint pageEnd > int (length xs) then int (length xs) else sint pageEnd)
      in if 0 \<le> a \<and> a \<le> b then Inr (take (nat (b - a)) (drop (nat a) xs), b < int (length xs))
         else Inl (Panic ''slice bounds out of range''))"

definition feed_parameters :: "64 word \<Rightarrow> 64 word \<Rightarrow> 64 word \<times> 64 word" where
  "feed_parameters pageNo pageSize =
     (if sint pageNo < 1 then 1 else pageNo,
      if sint pageSize \<le> 0 \<or> sint pageSize > 60 then 20 else pageSize)"

definition GetPromotionsFeed ::
  "conn \<Rightarrow> conn \<Rightarrow> time \<Rightarrow> 64 word \<Rightarrow> 64 word \<Rightarrow> shop_db \<Rightarrow> (promotion_card list \<times> bool \<times> nat) result" where
  "GetPromotionsFeed c cl now pageNo pageSize db =
     (let (pageNo, pageSize) = feed_parameters pageNo pageSize
      in case GetActivePromotions c cl now db of
        Inl e \<Rightarrow> Inl e
      | Inr cards \<Rightarrow>
          let sections = sort_key (\<lambda>card. - pr_discount (card_promotion card))
                (filter (\<lambda>card. 0 < card_products card) cards)
          in case feed_slice pageNo pageSize sections of
            Inl e \<Rightarrow> Inl e
          | Inr (items, hasMore) \<Rightarrow> Inr (items, hasMore, length sections))"

text \<open>The products of a promotion: the ids are cut to the page before the products are read.\<close>

definition GetPromotionProducts ::
  "conn \<Rightarrow> catalog_env \<Rightarrow> id64 \<Rightarrow> int \<Rightarrow> int \<Rightarrow> shop_db \<Rightarrow> redis \<Rightarrow> pricer
    \<Rightarrow> (product list \<times> nat \<times> bool) result \<times> redis \<times> pricer" where
  "GetPromotionProducts c env pid limit offset db rd pc =
     (let limit = (if limit \<le> 0 \<or> limit > 60 then 20 else limit);
          offset = (if offset < 0 then 0 else offset)
      in case ListProductIDs c 0 pid db of
        Inl e \<Rightarrow> (Inl e, rd, pc)
      | Inr ids \<Rightarrow>
          let hasMore = min (min (nat offset) (length ids) + nat limit) (length ids) < length ids
          in (case GetProductsByIDs env (slice_page (nat limit) (nat offset) ids) db rd pc of
             (Inl e, rd', pc') \<Rightarrow> (Inl e, rd', pc')
           | (Inr found, rd', pc') \<Rightarrow> (Inr (found, length ids, hasMore), rd', pc')))"

section \<open>Facts\<close>

lemma slice_page_simp: "slice_page limit offset xs = take limit (drop offset xs)"
  by (cases "offset > length xs") (auto simp: slice_page_def Let_def min_def)

lemma promo_order_sorted:
  "sorted_wrt (\<lambda>p q. discountOf q \<le> discountOf p) (promo_order ps)"
proof -
  have "sorted (map (\<lambda>p. (- discountOf p, p_name p)) (promo_order ps))"
    by (simp add: promo_order_def)
  then show ?thesis
    unfolding sorted_map by (rule sorted_wrt_mono_rel [rotated]) auto
qed

text \<open>
  The pages of the promotion catalogue: whatever page is asked for in a given state, it is the
  slice of one list, which is sorted by falling discount and holds only products whose effective
  price is below their base price and whose discount is of the kind asked for; every page states
  the length of that list as the total.
\<close>

theorem promotion_pages_tile:
  assumes "fst (ListProducts env search categoryID kind l off db rd pc) = Inr res"
  shows "\<exists>hits. sorted_wrt (\<lambda>p q. discountOf q \<le> discountOf p) hits \<and>
    (\<forall>p \<in> set hits. (\<exists>e. p_effective_price p = Some e \<and> e < p_price p) \<and>
       (TrimSpace (ToLower kind) = ''product'' \<longrightarrow> p_promotion_type p = ''product'') \<and>
       (TrimSpace (ToLower kind) = ''category'' \<longrightarrow> p_promotion_type p = ''category'')) \<and>
    (\<forall>limit offset. \<exists>res'. fst (ListProducts env search categoryID kind limit offset db rd pc) = Inr res' \<and>
       cr_products res' = take limit (drop offset hits) \<and> cr_total res' = length hits)"
proof -
  have none: ?thesis if "\<forall>limit offset. \<exists>res'.
      fst (ListProducts env search categoryID kind limit offset db rd pc) = Inr res' \<and>
      cr_products res' = [] \<and> cr_total res' = 0"
    using that by (intro exI [of _ "[]"]) auto
  have some: ?thesis if "\<forall>limit offset. \<exists>res'.
      fst (ListProducts env search categoryID kind limit offset db rd pc) = Inr res' \<and>
      cr_products res' = take limit (drop offset hits) \<and> cr_total res' = length hits"
    and "hits = promo_order (filterByPromotionKind (filterProductsWithPromotion found) kind)" for hits found
    using that promo_order_sorted
    by (intro exI [of _ hits])
      (auto simp: promo_order_def filterByPromotionKind_def filterProductsWithPromotion_def Let_def
        split: option.splits if_splits)
  obtain running where run: "promotion_GetActive (pe_active env) (pe_now env) db = Inr running"
    using assms by (auto simp: ListProducts_def split: sum.splits)
  let ?ps = "reservable running (pe_now env)"
  let ?promos = "buildPromoSummaries (pe_links env) ?ps db"
  show ?thesis
  proof (cases "?ps = []")
    case True
    then show ?thesis by (intro none) (simp add: ListProducts_def run empty_result_def)
  next
    case ps: False
    then obtain candidates where cand:
        "resolveCandidateIDs (pe_links env) (pe_trees env) ?ps db = Inr candidates"
      using assms by (auto simp: ListProducts_def run Let_def split: sum.splits if_splits)
    show ?thesis
    proof (cases "candidates = []")
      case True
      with ps show ?thesis by (intro none) (simp add: ListProducts_def run empty_result_def cand Let_def)
    next
      case False
      obtain cats rd1 pc1 where cats:
          "buildCategoriesFromPromos (pe_names env) (pe_calls env) ?promos db rd pc = (cats, rd1, pc1)"
        by (metis prod_cases3)
      obtain ids where ids: "FilterPromotionalIDs (pe_filter env) candidates (TrimSpace search) categoryID db = Inr ids"
        using assms ps False by (auto simp: ListProducts_def run cand cats Let_def split: sum.splits)
      obtain found rd2 pc2 where found: "GetProductsByIDs (pe_listing env) ids db rd1 pc1 = (Inr found, rd2, pc2)"
        using assms ps False by (auto simp: ListProducts_def run cand cats ids Let_def split: sum.splits prod.splits)
      show ?thesis
        by (rule some [of _ found], intro allI)
          (auto simp: ListProducts_def run cand cats ids found Let_def ps False slice_page_simp)
    qed
  qed
qed

definition usual_promo :: promo_env where
  "usual_promo = \<lparr>pe_now = 9 * hour, pe_active = healthy, pe_links = healthy, pe_trees = healthy,
     pe_names = healthy, pe_filter = healthy, pe_listing = (usual_catalog (9 * hour))\<lparr>ce_pricer := True\<rparr>,
     pe_calls = (\<lambda>_. usual_catalog (9 * hour))\<rparr>"

lemma sint_exact:
  "- (2 ^ 63) \<le> k \<Longrightarrow> k < 2 ^ 63 \<Longrightarrow> sint (word_of_int k :: 64 word) = k"
  by (simp add: signed_take_bit_int_eq_self signed_of_int)

lemma feed_slice_exact:
  assumes "1 \<le> sint n" "1 \<le> sint s" "sint s \<le> 60" "sint n * sint s < 2 ^ 63"
  shows "feed_slice n s xs = Inr (take (nat (sint s)) (drop (nat ((sint n - 1) * sint s)) xs),
    sint n * sint s < int (length xs))"
proof -
  have n: "n = word_of_int (sint n)" and s: "s = word_of_int (sint s)" by simp_all
  have le: "0 \<le> (sint n - 1) * sint s" using assms(1,2) by simp
  have step: "(sint n - 1) * sint s + sint s = sint n * sint s" by (simp add: algebra_simps)
  have start: "sint ((n - 1) * s) = (sint n - 1) * sint s"
  proof -
    have "(n - 1) * s = word_of_int ((sint n - 1) * sint s)"
      by (metis n s of_int_1 word_of_int_eq_iff wi_hom_mult wi_hom_sub word_1_wi)
    then show ?thesis using sint_exact [of "(sint n - 1) * sint s"] le step assms by simp
  qed
  have stop: "sint ((n - 1) * s + s) = sint n * sint s"
  proof -
    have "(n - 1) * s + s = n * s" by (simp add: algebra_simps)
    also have "\<dots> = word_of_int (sint n * sint s)" by (metis n s wi_hom_mult)
    finally show ?thesis using sint_exact [of "sint n * sint s"] le step assms by simp
  qed
  let ?L = "int (length xs)" and ?S = "(sint n - 1) * sint s" and ?E = "sint n * sint s"
  have S: "0 \<le> ?S" "?S + sint s = ?E" "1 \<le> sint s" using le step assms(2) by simp_all
  have len: "?E - ?S = sint s" using S(2) by linarith
  have same: "take (nat (min ?E ?L - min ?S ?L)) (drop (nat (min ?S ?L)) xs) = take (nat (sint s)) (drop (nat ?S) xs)"
    using S by (cases "?S > ?L"; cases "?E > ?L") (auto simp: min_def len)
  have "feed_slice n s xs =
      (let a = min ?S ?L; b = min ?E ?L
       in if 0 \<le> a \<and> a \<le> b then Inr (take (nat (b - a)) (drop (nat a) xs), b < ?L)
          else Inl (Panic ''slice bounds out of range''))"
    unfolding feed_slice_def start stop Let_def min_def by (auto simp: not_less)
  moreover have "0 \<le> min ?S ?L \<and> min ?S ?L \<le> min ?E ?L" using S by (auto simp: min_def)
  moreover have "(min ?E ?L < ?L) = (?E < ?L)" by auto
  ultimately show ?thesis unfolding Let_def same by simp
qed

definition feed_sections :: "promotion_card list \<Rightarrow> promotion_card list" where
  "feed_sections cards = sort_key (\<lambda>card. - pr_discount (card_promotion card))
     (filter (\<lambda>card. 0 < card_products card) cards)"

text \<open>
  The pages of the promotion feed in 64-bit arithmetic: while page times page size stays below
  2 to the 63, page \<open>n\<close> holds the sections \<open>(n - 1) * s\<close> up to \<open>n * s\<close> of the sections sorted by
  falling discount, and says whether more follow; but a page number a client is free to send makes
  the product wrap around, and the handler panics, whatever promotions there are.
\<close>

theorem feed_pages:
  assumes "GetActivePromotions c cl now db = Inr cards"
  shows "(1 \<le> sint n \<and> 1 \<le> sint s \<and> sint s \<le> 60 \<and> sint n * sint s < 2 ^ 63 \<longrightarrow>
      GetPromotionsFeed c cl now n s db =
        Inr (take (nat (sint s)) (drop (nat ((sint n - 1) * sint s)) (feed_sections cards)),
          sint n * sint s < int (length (feed_sections cards)), length (feed_sections cards))) \<and>
    GetPromotionsFeed c cl now 461168601842738792 20 db = Inl (Panic ''slice bounds out of range'')"
proof (intro conjI impI)
  assume "1 \<le> sint n \<and> 1 \<le> sint s \<and> sint s \<le> 60 \<and> sint n * sint s < 2 ^ 63"
  then show "GetPromotionsFeed c cl now n s db =
        Inr (take (nat (sint s)) (drop (nat ((sint n - 1) * sint s)) (feed_sections cards)),
          sint n * sint s < int (length (feed_sections cards)), length (feed_sections cards))"
    using feed_slice_exact [of n s "feed_sections cards"]
    by (simp add: GetPromotionsFeed_def feed_parameters_def assms Let_def flip: feed_sections_def)
next
  have "feed_slice 461168601842738792 20 (feed_sections cards) = Inl (Panic ''slice bounds out of range'')"
    by (simp add: feed_slice_def Let_def)
  then show "GetPromotionsFeed c cl now 461168601842738792 20 db = Inl (Panic ''slice bounds out of range'')"
    by (simp add: GetPromotionsFeed_def feed_parameters_def assms Let_def flip: feed_sections_def)
qed

theorem feed_pages_witness:
  "GetPromotionsFeed healthy healthy 0 1 20 empty_shop = Inr ([], False, 0)"
proof -
  have "GetActivePromotions healthy healthy 0 empty_shop = Inr []"
    by (simp add: GetActivePromotions_def promotion_GetActive_def healthy_def empty_shop_def newest_first_def
        reservable_def FilterPromotionsForReservation_def buildCards_def Let_def)
  from feed_pages [OF this, of 1 20] show ?thesis by (simp add: feed_sections_def)
qed

definition promo_listing :: "catalog_result result" where
  "promo_listing = fst (ListProducts usual_promo [] None ''all'' 20 0 promotion_example redis_empty
     (NewPromotionPricer False))"

lemma promo_listing_eval: "map_sum id cr_total promo_listing = Inr 1"
  by code_simp

theorem promotion_pages_tile_witness:
  "\<exists>hits :: product list. length hits = 1 \<and> (\<forall>p \<in> set hits. \<exists>e. p_effective_price p = Some e \<and> e < p_price p)"
proof -
  obtain res where res: "fst (ListProducts usual_promo [] None ''all'' 20 0 promotion_example redis_empty
      (NewPromotionPricer False)) = Inr res" "cr_total res = 1"
    using promo_listing_eval by (cases promo_listing) (auto simp: promo_listing_def)
  show ?thesis
  proof (rule exE [OF promotion_pages_tile [OF res(1)]], elim conjE)
    fix hits :: "product list"
    assume hits: "\<forall>p \<in> set hits. (\<exists>e. p_effective_price p = Some e \<and> e < p_price p) \<and>
         (TrimSpace (ToLower ''all'') = ''product'' \<longrightarrow> p_promotion_type p = ''product'') \<and>
         (TrimSpace (ToLower ''all'') = ''category'' \<longrightarrow> p_promotion_type p = ''category'')"
      and pages: "\<forall>limit offset. \<exists>res'. fst (ListProducts usual_promo [] None ''all'' limit offset
         promotion_example redis_empty (NewPromotionPricer False)) = Inr res' \<and>
         cr_products res' = take limit (drop offset hits) \<and> cr_total res' = length hits"
    from pages res have "length hits = 1" by (metis sum.inject(2))
    with hits show ?thesis by blast
  qed
qed

end
