(* ===== verification/MoyskladSync.thy ===== *)
theory MoyskladSync
  imports Categories StockCache
begin

text \<open>
  internal/services/moysklad_sync.go and webhook_processor.go: bringing the products, stocks and
  categories of Moysklad into the database and the cache. What Moysklad answers is given: the
  fields of its products and folders that the code reads, a stock report as its entries in the
  order Go's map is walked. The diagnostic counters of the service are left out, no other
  session inserts categories during a sync, and the clock stands still inside a call.
\<close>

section \<open>Data\<close>

record ms_product =
  mp_id :: string
  mp_name :: string
  mp_description :: "string option"
  mp_prices :: "money list"
  mp_stock :: "money option"
  mp_images :: "string list"
  mp_folder :: "string option"
  mp_updated :: "time option"

text \<open>\<open>mf_parent\<close> is the href of the parent folder; \<open>mp_updated\<close> the time of the last change when
  the text Moysklad sends parses as one.\<close>

record ms_folder =
  mf_id :: string
  mf_name :: string
  mf_parent :: "string option"

record sync_env =
  sy_now :: time
  sy_client :: bool
  sy_cache :: bool
  sy_stock :: "(string \<times> money) list result"
  sy_products :: "ms_product list result"
  sy_delta :: "time \<Rightarrow> ms_product list result"
  sy_folders :: "ms_folder list result"
  sy_upsert :: "nat \<Rightarrow> conn"
  sy_parent :: "nat \<Rightarrow> conn"
  sy_conn :: "nat \<Rightarrow> conn"
  sy_up :: "nat \<Rightarrow> command_ok"
  sy_last :: command_ok

record sync_state =
  ss_db :: shop_db
  ss_redis :: redis
  ss_folders :: "string \<rightharpoonup> id64"

definition blank_product :: product where
  "blank_product = \<lparr>p_id = 0, p_name = [], p_description = None, p_price = 0, p_image_url = None,
     p_moysklad_id = None, p_category_id = None, p_stock = 0, p_active = False, p_status = [],
     p_last_sync_updated = None, p_created_at = zero_time, p_updated_at = zero_time,
     p_effective_price = None, p_discount_percent = None, p_promotion_type = [],
     p_promotion_title = [], p_promotion_kind = []\<rparr>"

section \<open>Ids in hrefs\<close>

definition last_segment :: "string \<Rightarrow> string" where
  "last_segment s = rev (takeWhile (\<lambda>ch. ch \<noteq> CHR ''/'') (rev s))"

definition extractMoyskladUUID :: "string \<Rightarrow> string" where
  "extractMoyskladUUID href =
     (let h = (if href \<noteq> [] \<and> last href = CHR ''/'' then butlast href else href)
      in if CHR ''/'' \<notin> set h \<or> last_segment h = [] then h else last_segment h)"

definition extractIDFromHref :: "string \<Rightarrow> string" where
  "extractIDFromHref href = (if CHR ''/'' \<in> set href then last_segment href else [])"

section \<open>Categories\<close>

fun upsert_folders ::
  "(nat \<Rightarrow> conn) \<Rightarrow> nat \<Rightarrow> ms_folder list \<Rightarrow> (string \<rightharpoonup> id64) \<Rightarrow> shop_db \<Rightarrow> (string \<rightharpoonup> id64) \<times> shop_db" where
  "upsert_folders cs i [] m db = (m, db)"
| "upsert_folders cs i (f # fs) m db =
     (if mf_name f = [] then upsert_folders cs (Suc i) fs m db
      else case UpsertByName (cs i) (\<lambda>_ db. db) (mf_name f) db of
        (Inl e, db') \<Rightarrow> upsert_folders cs (Suc i) fs m db'
      | (Inr k, db') \<Rightarrow> upsert_folders cs (Suc i) fs (m(mf_id f \<mapsto> k)) db')"

fun set_parents :: "(nat \<Rightarrow> conn) \<Rightarrow> nat \<Rightarrow> ms_folder list \<Rightarrow> (string \<rightharpoonup> id64) \<Rightarrow> shop_db \<Rightarrow> shop_db" where
  "set_parents cs i [] m db = db"
| "set_parents cs i (f # fs) m db =
     (case mf_parent f of
        None \<Rightarrow> set_parents cs (Suc i) fs m db
      | Some href \<Rightarrow>
          if href = [] then set_parents cs (Suc i) fs m db
          else (case (m (mf_id f), m (extractMoyskladUUID href)) of
              (Some k, Some q) \<Rightarrow> set_parents cs (Suc i) fs m (snd (SetParent (cs i) k (Some q) db))
            | _ \<Rightarrow> set_parents cs (Suc i) fs m db))"

definition syncCategoriesFromMoysklad :: "sync_env \<Rightarrow> sync_state \<Rightarrow> sync_state" where
  "syncCategoriesFromMoysklad env st =
     (case sy_folders env of
        Inl e \<Rightarrow> st
      | Inr fs \<Rightarrow>
          let (m, db1) = upsert_folders (sy_upsert env) 0 fs Map.empty (ss_db st)
          in st\<lparr>ss_db := set_parents (sy_parent env) 0 fs m db1, ss_folders := m\<rparr>)"

text \<open>What the caller of \<open>syncCategoriesFromMoysklad\<close> gets: nothing when the folders cannot be had.\<close>

definition synced_folders :: "sync_env \<Rightarrow> sync_state \<Rightarrow> (string \<rightharpoonup> id64)" where
  "synced_folders env st =
     (case sy_folders env of Inl e \<Rightarrow> Map.empty | Inr fs \<Rightarrow> ss_folders (syncCategoriesFromMoysklad env st))"

definition RefreshCategories :: "sync_env \<Rightarrow> sync_state \<Rightarrow> sync_state" where
  "RefreshCategories env st = syncCategoriesFromMoysklad env st"

definition lookupCategoryIDByFolderHref :: "sync_state \<Rightarrow> string \<Rightarrow> id64 option" where
  "lookupCategoryIDByFolderHref st href =
     (if href = [] then None else ss_folders st (extractMoyskladUUID href))"

section \<open>Products of a full or delta sync\<close>

definition stock_status :: "int \<Rightarrow> string" where
  "stock_status n = (if 0 < n then ''active'' else ''out_of_stock'')"

definition sync_price :: "ms_product \<Rightarrow> money" where
  "sync_price mp = (case mp_prices mp of v # _ \<Rightarrow> if 0 < v then v / 100 else 0 | [] \<Rightarrow> 0)"

definition sync_stock :: "(string \<rightharpoonup> money) option \<Rightarrow> product option \<Rightarrow> ms_product \<Rightarrow> int" where
  "sync_stock report existing mp =
     (case report of
        Some m \<Rightarrow> (case m (mp_id mp) of Some s \<Rightarrow> if 0 < s then trunc s else 0 | None \<Rightarrow> 0)
      | None \<Rightarrow> (case existing of Some e \<Rightarrow> p_stock e | None \<Rightarrow> 0))"

definition folder_category :: "(string \<rightharpoonup> id64) \<Rightarrow> ms_product \<Rightarrow> id64 option" where
  "folder_category folders mp =
     (case mp_folder mp of
        Some href \<Rightarrow> if href = [] then None else folders (extractMoyskladUUID href)
      | None \<Rightarrow> None)"

definition or_else :: "'a option \<Rightarrow> 'a option \<Rightarrow> 'a option" where
  "or_else a b = (case a of Some x \<Rightarrow> Some x | None \<Rightarrow> b)"

definition first_image :: "ms_product \<Rightarrow> string option" where
  "first_image mp = (case mp_images mp of href # _ \<Rightarrow> Some href | [] \<Rightarrow> None)"

definition synced_product ::
  "(string \<rightharpoonup> money) option \<Rightarrow> (string \<rightharpoonup> id64) \<Rightarrow> product option \<Rightarrow> ms_product \<Rightarrow> time \<Rightarrow> product" where
  "synced_product report folders existing mp now =
     (let stock = sync_stock report existing mp
      in blank_product\<lparr>p_name := mp_name mp, p_description := mp_description mp,
           p_moysklad_id := Some (mp_id mp), p_active := True, p_created_at := now, p_updated_at := now,
           p_price := sync_price mp, p_stock := stock, p_status := stock_status stock,
           p_category_id := or_else (folder_category folders mp) (Option.bind existing p_category_id),
           p_last_sync_updated := mp_updated mp,
           p_image_url := or_else (Option.bind existing p_image_url) (first_image mp)\<rparr>)"

datatype sync_outcome = Created | Updated | Failed

definition sync_product ::
  "sync_env \<Rightarrow> nat \<Rightarrow> (string \<rightharpoonup> money) option \<Rightarrow> (string \<rightharpoonup> id64) \<Rightarrow> ms_product \<Rightarrow> sync_state
    \<Rightarrow> sync_outcome \<times> sync_state" where
  "sync_product env i report folders mp st =
     (let c = sy_conn env i; now = sy_now env;
          cache = (\<lambda>row rd. if sy_cache env
                    then snd (SetStock (sy_up env i) 0 now (p_id row) (mp_id mp) (p_stock row) rd) else rd)
      in case product_GetByMoyskladID c 0 (mp_id mp) (ss_db st) of
        Inl e \<Rightarrow> (Failed, st)
      | Inr existing \<Rightarrow>
          let p = synced_product report folders existing mp now
          in case existing of
            None \<Rightarrow>
              (case product_Insert c 1 now p (ss_db st) of
                 (Inl e, db') \<Rightarrow> (Failed, st)
               | (Inr row, db') \<Rightarrow> (Created, st\<lparr>ss_db := db', ss_redis := cache row (ss_redis st)\<rparr>))
          | Some e \<Rightarrow>
              (case product_Update c 1 now (p\<lparr>p_id := p_id e\<rparr>) (p_id e) (ss_db st) of
                 (Inl err, db') \<Rightarrow> (Failed, st)
               | (Inr row, db') \<Rightarrow> (Updated, st\<lparr>ss_db := db', ss_redis := cache row (ss_redis st)\<rparr>)))"

fun sync_all ::
  "sync_env \<Rightarrow> nat \<Rightarrow> (string \<rightharpoonup> money) option \<Rightarrow> (string \<rightharpoonup> id64) \<Rightarrow> ms_product list \<Rightarrow> sync_state
    \<Rightarrow> sync_outcome list \<times> sync_state" where
  "sync_all env i report folders [] st = ([], st)"
| "sync_all env i report folders (mp # mps) st =
     (let (o1, st1) = sync_product env i report folders mp st;
          (os, st2) = sync_all env (Suc i) report folders mps st1
      in (o1 # os, st2))"

text \<open>The answer for the products; a delta that Moysklad rejects is asked for again in full.\<close>

definition ErrResyncRequired :: error where
  "ErrResyncRequired = Upstream ''resync required''"

definition products_for_sync :: "sync_env \<Rightarrow> time option \<Rightarrow> ms_product list result" where
  "products_for_sync env since =
     (case since of
        None \<Rightarrow> sy_products env
      | Some t \<Rightarrow> if sy_delta env t = Inl ErrResyncRequired then sy_products env else sy_delta env t)"

record sync_result =
  sr_created :: nat
  sr_updated :: nat
  sr_errors :: nat

definition tally :: "sync_outcome list \<Rightarrow> sync_result" where
  "tally os = \<lparr>sr_created = count_list os Created, sr_updated = count_list os Updated,
     sr_errors = count_list os Failed\<rparr>"

definition syncProducts ::
  "sync_env \<Rightarrow> time option \<Rightarrow> sync_state \<Rightarrow> sync_result result \<times> sync_state" where
  "syncProducts env since st =
     (if \<not> sy_client env then (Inl (Rejected ''moysklad client not initialized''), st)
      else case (if since = None then map_sum id (\<lambda>rows. Some (map_of rows)) (sy_stock env) else Inr None) of
        Inl e \<Rightarrow> (Inl e, st)
      | Inr report \<Rightarrow>
          (case products_for_sync env since of
             Inl e \<Rightarrow> (Inl e, st)
           | Inr mps \<Rightarrow>
               let st1 = syncCategoriesFromMoysklad env st;
                   (os, st2) = sync_all env 0 report (synced_folders env st) mps st1;
                   st3 = (if sy_cache env
                          then st2\<lparr>ss_redis := snd (SetLastSyncTime (sy_last env) (sy_now env) (ss_redis st2))\<rparr>
                          else st2)
               in (Inr (tally os), st3)))"

definition SyncProducts :: "sync_env \<Rightarrow> sync_state \<Rightarrow> sync_result result \<times> sync_state" where
  "SyncProducts env st = syncProducts env None st"

definition SyncProductsDelta :: "sync_env \<Rightarrow> sync_state \<Rightarrow> sync_result result \<times> sync_state" where
  "SyncProductsDelta env st =
     (if \<not> sy_cache env then SyncProducts env st
      else case GetLastSyncTime (sy_last env) (ss_redis st) of
        Inl e \<Rightarrow> SyncProducts env st
      | Inr None \<Rightarrow> syncProducts env (Some (sy_now env - hour)) st
      | Inr (Some t) \<Rightarrow> syncProducts env (Some t) st)"

section \<open>One product, and stocks only\<close>

definition getPrice :: "ms_product \<Rightarrow> money" where
  "getPrice mp = (case mp_prices mp of v # _ \<Rightarrow> v / 100 | [] \<Rightarrow> 0)"

definition getStock :: "ms_product \<Rightarrow> int" where
  "getStock mp = (case mp_stock mp of Some s \<Rightarrow> trunc s | None \<Rightarrow> 0)"

definition SyncSingleProduct :: "sync_env \<Rightarrow> ms_product \<Rightarrow> sync_state \<Rightarrow> unit result \<times> sync_state" where
  "SyncSingleProduct env mp st =
     (let c = sy_conn env 0; now = sy_now env; stock = getStock mp;
          found = (case mp_folder mp of Some href \<Rightarrow> lookupCategoryIDByFolderHref st href | None \<Rightarrow> None);
          cache = (\<lambda>pid rd. if sy_cache env
                    then snd (SetStock (sy_up env 0) 0 now pid (mp_id mp) stock rd) else rd);
          p = blank_product\<lparr>p_moysklad_id := Some (mp_id mp), p_name := mp_name mp,
                p_description := mp_description mp, p_price := getPrice mp, p_stock := stock,
                p_status := stock_status stock, p_active := True, p_updated_at := now\<rparr>
      in case product_GetByMoyskladID c 0 (mp_id mp) (ss_db st) of
        Inl e \<Rightarrow> (Inl e, st)
      | Inr (Some e) \<Rightarrow>
          (case product_Update c 1 now (p\<lparr>p_id := p_id e, p_image_url := p_image_url e,
                  p_category_id := or_else found (p_category_id e)\<rparr>) (p_id e) (ss_db st) of
             (Inl err, db') \<Rightarrow> (Inl err, st)
           | (Inr row, db') \<Rightarrow> (Inr (), st\<lparr>ss_db := db', ss_redis := cache (p_id e) (ss_redis st)\<rparr>))
      | Inr None \<Rightarrow>
          (case product_Insert c 1 now (p\<lparr>p_created_at := now, p_category_id := found\<rparr>) (ss_db st) of
             (Inl err, db') \<Rightarrow> (Inl err, st)
           | (Inr row, db') \<Rightarrow> (Inr (), st\<lparr>ss_db := db', ss_redis := cache (p_id row) (ss_redis st)\<rparr>)))"

text \<open>
  The loop over a stock report, which \<open>SyncStockOnly\<close> and the stock webhook have in common: the
  stock of each product that is known is written to the database and to the cache.
\<close>

fun apply_stock_report ::
  "sync_env \<Rightarrow> nat \<Rightarrow> (string \<times> money) list \<Rightarrow> sync_state \<Rightarrow> sync_state" where
  "apply_stock_report env i [] st = st"
| "apply_stock_report env i ((ms, stock) # rows) st =
     (let c = sy_conn env i; n = trunc stock
      in case product_GetByMoyskladID c 0 ms (ss_db st) of
        Inr (Some p) \<Rightarrow>
          (case product_Update c 1 (sy_now env) (p\<lparr>p_stock := n, p_status := stock_status n\<rparr>) (p_id p) (ss_db st) of
             (Inl e, db') \<Rightarrow> apply_stock_report env (Suc i) rows st
           | (Inr row, db') \<Rightarrow>
               apply_stock_report env (Suc i) rows (st\<lparr>ss_db := db',
                 ss_redis := (if sy_cache env
                   then snd (SetStock (sy_up env i) 0 (sy_now env) (p_id p) ms n (ss_redis st))
                   else ss_redis st)\<rparr>))
      | _ \<Rightarrow> apply_stock_report env (Suc i) rows st)"

definition SyncStockOnly :: "sync_env \<Rightarrow> sync_state \<Rightarrow> unit result \<times> sync_state" where
  "SyncStockOnly env st =
     (if \<not> sy_client env then (Inl (Rejected ''moysklad client not initialized''), st)
      else if \<not> sy_cache env then (Inl (Rejected ''stock cache not initialized''), st)
      else case sy_stock env of
        Inl e \<Rightarrow> (Inl e, st)
      | Inr rows \<Rightarrow>
          let st1 = apply_stock_report env 0 rows st
          in (Inr (), st1\<lparr>ss_redis := snd (SetLastSyncTime (sy_last env) (sy_now env) (ss_redis st1))\<rparr>))"

section \<open>The table of products during a sync\<close>

definition products_inv :: "shop_db \<Rightarrow> bool" where
  "products_inv db =
     (distinct (map p_id (products db)) \<and> (\<forall>p \<in> set (products db). p_id p < next_product db) \<and>
      (\<forall>p \<in> set (products db). \<forall>q \<in> set (products db).
         p_moysklad_id p \<noteq> None \<and> p_moysklad_id p = p_moysklad_id q \<longrightarrow> p_id p = p_id q) \<and>
      (\<forall>p \<in> set (products db). \<forall>k. p_category_id p = Some k \<longrightarrow> k \<in> c_id ` set (categories db)))"

definition row_by_ms :: "shop_db \<Rightarrow> string \<Rightarrow> product option" where
  "row_by_ms db ms = find (\<lambda>p. p_moysklad_id p = Some ms) (products db)"

lemma row_by_ms_None: "row_by_ms db ms = None \<longleftrightarrow> (\<forall>p \<in> set (products db). p_moysklad_id p \<noteq> Some ms)"
  by (auto simp: row_by_ms_def find_None_iff)

lemma row_by_ms_Some:
  "row_by_ms db ms = Some p \<Longrightarrow> p \<in> set (products db) \<and> p_moysklad_id p = Some ms"
  by (auto simp: row_by_ms_def find_Some_iff)

lemma row_by_ms_unique:
  assumes "products_inv db" "p \<in> set (products db)" "p_moysklad_id p = Some ms"
  shows "row_by_ms db ms = Some p"
proof -
  obtain q where q: "row_by_ms db ms = Some q"
    using assms(2,3) by (cases "row_by_ms db ms") (auto simp: row_by_ms_None)
  then have "q \<in> set (products db)" "p_moysklad_id q = Some ms" by (simp_all add: row_by_ms_Some)
  moreover from this have "p_id q = p_id p"
    using assms unfolding products_inv_def by (metis option.distinct(1))
  moreover have "distinct (map p_id (products db))" using assms(1) by (simp add: products_inv_def)
  ultimately have "q = p" using product_rows.row_eq_by_key assms(2) by blast
  with q show ?thesis by simp
qed

lemma find_filter: "find P xs = (case filter P xs of [] \<Rightarrow> None | x # _ \<Rightarrow> Some x)"
  by (induction xs) auto

lemma GetByMoyskladID_row:
  assumes "products_inv db" "c_stmt c k"
  shows "product_GetByMoyskladID c k ms db = Inr (row_by_ms db ms)"
proof -
  let ?hits = "filter (\<lambda>p. p_moysklad_id p = Some ms) (products db)"
  have "length ?hits \<le> 1"
  proof (rule ccontr)
    assume "\<not> length ?hits \<le> 1"
    then obtain a b xs where ab: "?hits = a # b # xs"
      by (cases ?hits rule: scan_one.cases) auto
    then have "a \<in> set ?hits" "b \<in> set ?hits" by simp_all
    then have "p_id a = p_id b" using assms(1) by (auto simp: products_inv_def)
    moreover have "distinct (map p_id ?hits)"
      using assms(1) by (simp add: products_inv_def distinct_map_filter)
    ultimately show False using ab by simp
  qed
  then show ?thesis
    using assms(2) find_filter [of "\<lambda>p. p_moysklad_id p = Some ms" "products db"]
    by (cases ?hits rule: scan_one.cases) (auto simp: product_GetByMoyskladID_def row_by_ms_def)
qed

text \<open>
  A statement that leaves one row for the Moysklad id \<open>ms\<close> and every other row alone.
\<close>

lemma one_row_written:
  assumes "products_inv db" "categories db' = categories db"
    "set (products db') = insert e' {r \<in> set (products db). p_moysklad_id r \<noteq> Some ms}"
    "distinct (map p_id (products db'))" "\<forall>p \<in> set (products db'). p_id p < next_product db'"
    "p_moysklad_id e' = Some ms" "\<forall>k. p_category_id e' = Some k \<longrightarrow> k \<in> c_id ` set (categories db)"
  shows "products_inv db'" "row_by_ms db' ms = Some e'" "m \<noteq> ms \<Longrightarrow> row_by_ms db' m = row_by_ms db m"
proof -
  have inv: "\<And>p q. p \<in> set (products db) \<Longrightarrow> q \<in> set (products db) \<Longrightarrow> p_moysklad_id p \<noteq> None \<Longrightarrow>
      p_moysklad_id p = p_moysklad_id q \<Longrightarrow> p_id p = p_id q"
    "\<And>p k. p \<in> set (products db) \<Longrightarrow> p_category_id p = Some k \<Longrightarrow> k \<in> c_id ` set (categories db)"
    using assms(1) unfolding products_inv_def by metis+
  show inv': "products_inv db'"
    unfolding products_inv_def
  proof (intro conjI ballI allI impI)
    fix p q assume p: "p \<in> set (products db')" and q: "q \<in> set (products db')"
      and ms: "p_moysklad_id p \<noteq> None \<and> p_moysklad_id p = p_moysklad_id q"
    have "p = e' \<or> p \<in> set (products db) \<and> p_moysklad_id p \<noteq> Some ms"
      "q = e' \<or> q \<in> set (products db) \<and> p_moysklad_id q \<noteq> Some ms"
      using p q unfolding assms(3) by simp_all
    with ms show "p_id p = p_id q" using assms(6) inv(1) [of p q] by metis
  next
    fix p k assume "p \<in> set (products db')" "p_category_id p = Some k"
    then show "k \<in> c_id ` set (categories db')" using assms(2,3,7) inv(2) by auto
  qed (use assms(4,5) in auto)
  show "row_by_ms db' ms = Some e'"
    using row_by_ms_unique [OF inv', of e' ms] assms(3,6) by simp
  show "row_by_ms db' m = row_by_ms db m" if "m \<noteq> ms"
  proof (cases "row_by_ms db m")
    case None
    then have "row_by_ms db' m = None" using assms(3,6) that by (auto simp: row_by_ms_None)
    with None show ?thesis by simp
  next
    case (Some q)
    then have "q \<in> set (products db')" "p_moysklad_id q = Some m"
      using row_by_ms_Some [OF Some] assms(3) that by auto
    with Some show ?thesis using row_by_ms_unique [OF inv'] by simp
  qed
qed

lemma Insert_row:
  assumes "products_inv db" "row_by_ms db ms = None" "p_moysklad_id p = Some ms" "c_stmt c k"
    "p_status p \<in> product_statuses" "\<forall>q. p_category_id p = Some q \<longrightarrow> q \<in> c_id ` set (categories db)"
  obtains row db' where "product_Insert c k now p db = (Inr row, db')" "products_inv db'"
    "categories db' = categories db" "row_by_ms db' ms = Some (blank_transient row)"
    "\<And>m. m \<noteq> ms \<Longrightarrow> row_by_ms db' m = row_by_ms db m"
    "row = p\<lparr>p_id := next_product db,
        p_created_at := (if p_created_at p = zero_time then now else p_created_at p),
        p_updated_at := (if p_updated_at p = zero_time then now else p_updated_at p)\<rparr>"
proof -
  let ?row = "p\<lparr>p_id := next_product db,
        p_created_at := (if p_created_at p = zero_time then now else p_created_at p),
        p_updated_at := (if p_updated_at p = zero_time then now else p_updated_at p)\<rparr>"
  let ?db = "db\<lparr>products := products db @ [blank_transient ?row], next_product := next_product db + 1\<rparr>"
  have none: "\<forall>r \<in> set (products db). p_moysklad_id r \<noteq> Some ms" using assms(2) by (simp add: row_by_ms_None)
  have run: "product_Insert c k now p db = (Inr ?row, ?db)"
    unfolding product_Insert_def Let_def using assms none by (simp add: product_constraints_def)
  note written = one_row_written [OF assms(1), of ?db "blank_transient ?row" ms]
  have "products_inv ?db" "row_by_ms ?db ms = Some (blank_transient ?row)"
    "\<And>m. m \<noteq> ms \<Longrightarrow> row_by_ms ?db m = row_by_ms db m"
    by (rule written; use assms none in \<open>auto simp: products_inv_def blank_transient_def\<close>; fail)+
  then show thesis using that [OF run] by simp
qed

lemma Update_row:
  assumes "products_inv db" "row_by_ms db ms = Some e" "p_moysklad_id p = Some ms" "c_stmt c k"
    "p_status p \<in> product_statuses" "\<forall>q. p_category_id p = Some q \<longrightarrow> q \<in> c_id ` set (categories db)"
  obtains row db' where "product_Update c k now p (p_id e) db = (Inr row, db')" "products_inv db'"
    "categories db' = categories db" "row_by_ms db' ms = Some (product_columns (p\<lparr>p_updated_at := now\<rparr>) e)"
    "\<And>m. m \<noteq> ms \<Longrightarrow> row_by_ms db' m = row_by_ms db m" "p_stock row = p_stock p" "p_id row = p_id e"
proof -
  let ?p = "p\<lparr>p_updated_at := now\<rparr>" and ?hit = "\<lambda>r. p_id r = p_id e"
  let ?db = "db\<lparr>products := sql_update ?hit (product_columns ?p) (products db)\<rparr>"
  have e: "e \<in> set (products db)" "p_moysklad_id e = Some ms" using row_by_ms_Some [OF assms(2)] by auto
  have keys: "distinct (map p_id (products db))" using assms(1) by (simp add: products_inv_def)
  have same: "p_id r = p_id e \<longleftrightarrow> r = e" if "r \<in> set (products db)" for r
    using product_rows.row_eq_by_key [OF keys] that e(1) by blast
  have only: "p_moysklad_id r = Some ms \<longleftrightarrow> r = e" if "r \<in> set (products db)" for r
    using same [OF that] that e assms(1) unfolding products_inv_def by (metis option.distinct(1))
  have found: "find_row p_id (products db) (p_id e) = Some e"
    by (rule product_rows.find_row_unique [OF keys e(1)])
  have ok: "product_constraints db (p_id e) ?p"
    using assms(3,5,6) only same by (auto simp: product_constraints_def)
  have "scan_one (sql_returning ?hit (product_columns ?p) (products db)) = OneRow (product_columns ?p e)"
    using product_update.scan_update [OF keys, of "p_id e" "\<lambda>_. True" ?p] found by simp
  then obtain row where run: "product_Update c k now p (p_id e) db = (Inr row, ?db)"
      and row: "p_stock row = p_stock p" "p_id row = p_id e"
    using assms(4) ok by (simp add: product_Update_def product_columns_def)
  have set: "set (products ?db) = insert (product_columns ?p e) {r \<in> set (products db). p_moysklad_id r \<noteq> Some ms}"
    using e(1) same only by (auto simp: set_sql_update)
  note written = one_row_written [OF assms(1), of ?db "product_columns ?p e" ms]
  have "\<forall>r \<in> set (products ?db). p_id r < next_product ?db"
    unfolding set using assms(1) e(1) by (auto simp: products_inv_def product_columns_def)
  then have "products_inv ?db" "row_by_ms ?db ms = Some (product_columns ?p e)"
    "\<And>m. m \<noteq> ms \<Longrightarrow> row_by_ms ?db m = row_by_ms db m"
    by - (rule written; use assms set keys in \<open>simp add: product_update.update_keys product_columns_def\<close>; fail)+
  then show thesis using that [OF run] row by simp
qed

definition synced_row ::
  "(string \<rightharpoonup> money) option \<Rightarrow> (string \<rightharpoonup> id64) \<Rightarrow> product option \<Rightarrow> ms_product \<Rightarrow> product \<Rightarrow> bool" where
  "synced_row report folders existing mp row =
     (p_name row = mp_name mp \<and> p_description row = mp_description mp \<and> p_price row = sync_price mp \<and>
      p_stock row = sync_stock report existing mp \<and> p_active row \<and>
      p_status row = stock_status (p_stock row) \<and>
      p_category_id row = or_else (folder_category folders mp) (Option.bind existing p_category_id) \<and>
      p_image_url row = or_else (Option.bind existing p_image_url) (first_image mp) \<and>
      (\<forall>e. existing = Some e \<longrightarrow> p_id row = p_id e))"

lemma stock_status_ok: "stock_status n \<in> product_statuses"
  by (simp add: stock_status_def product_statuses_def)

lemma synced_product_fields [simp]:
  "p_moysklad_id (synced_product report folders existing mp now) = Some (mp_id mp)"
  "p_status (synced_product report folders existing mp now) =
    stock_status (p_stock (synced_product report folders existing mp now))"
  "p_category_id (synced_product report folders existing mp now) =
    or_else (folder_category folders mp) (Option.bind existing p_category_id)"
  by (simp_all add: synced_product_def Let_def)

lemma synced_product_row:
  "synced_row report folders existing mp row" if
  "p_name row = p_name (synced_product report folders existing mp now)"
  "p_description row = p_description (synced_product report folders existing mp now)"
  "p_price row = p_price (synced_product report folders existing mp now)"
  "p_stock row = p_stock (synced_product report folders existing mp now)"
  "p_active row = p_active (synced_product report folders existing mp now)"
  "p_status row = p_status (synced_product report folders existing mp now)"
  "p_category_id row = p_category_id (synced_product report folders existing mp now)"
  "p_image_url row = p_image_url (synced_product report folders existing mp now)"
  "\<forall>e. existing = Some e \<longrightarrow> p_id row = p_id e"
  using that unfolding synced_row_def by (simp add: synced_product_def Let_def)

lemma sync_product_ok:
  assumes inv: "products_inv (ss_db st)" and conn: "c_stmt (sy_conn env i) = (\<lambda>_. True)"
    and folders: "\<forall>u k. folders u = Some k \<longrightarrow> k \<in> c_id ` set (categories (ss_db st))"
  obtains oc st' row where "sync_product env i report folders mp st = (oc, st')" "oc \<noteq> Failed"
    "products_inv (ss_db st')" "categories (ss_db st') = categories (ss_db st)"
    "row_by_ms (ss_db st') (mp_id mp) = Some row"
    "synced_row report folders (row_by_ms (ss_db st) (mp_id mp)) mp row"
    "\<And>m. m \<noteq> mp_id mp \<Longrightarrow> row_by_ms (ss_db st') m = row_by_ms (ss_db st) m"
proof -
  let ?db = "ss_db st" and ?now = "sy_now env" and ?c = "sy_conn env i"
  let ?p = "\<lambda>ex. synced_product report folders ex mp ?now"
  have get: "product_GetByMoyskladID ?c 0 (mp_id mp) ?db = Inr (row_by_ms ?db (mp_id mp))"
    by (rule GetByMoyskladID_row [OF inv]) (simp add: conn)
  have cat: "\<forall>q. p_category_id (?p ex) = Some q \<longrightarrow> q \<in> c_id ` set (categories ?db)"
    if "ex = row_by_ms ?db (mp_id mp)" for ex
  proof -
    have "folder_category folders mp = Some q \<Longrightarrow> q \<in> c_id ` set (categories ?db)" for q
      using folders by (auto simp: folder_category_def split: option.splits if_splits)
    moreover have "Option.bind ex p_category_id = Some q \<Longrightarrow> q \<in> c_id ` set (categories ?db)" for q
      using inv row_by_ms_Some [of ?db "mp_id mp"] that
      by (auto simp: bind_eq_Some_conv products_inv_def)
    ultimately show ?thesis by (simp add: or_else_def split: option.splits)
  qed
  show thesis
  proof (cases "row_by_ms ?db (mp_id mp)")
    case None
    obtain row db' where ins: "product_Insert ?c 1 ?now (?p None) ?db = (Inr row, db')"
      and db': "products_inv db'" "categories db' = categories ?db"
        "row_by_ms db' (mp_id mp) = Some (blank_transient row)"
        "\<And>m. m \<noteq> mp_id mp \<Longrightarrow> row_by_ms db' m = row_by_ms ?db m"
      and row: "row = (?p None)\<lparr>p_id := next_product ?db,
        p_created_at := (if p_created_at (?p None) = zero_time then ?now else p_created_at (?p None)),
        p_updated_at := (if p_updated_at (?p None) = zero_time then ?now else p_updated_at (?p None))\<rparr>"
      using Insert_row [OF inv None, of "?p None" ?c 1 ?now] conn cat [of None] None
        stock_status_ok synced_product_fields by metis
    have "sync_product env i report folders mp st = (Created, st\<lparr>ss_db := db',
        ss_redis := if sy_cache env then snd (SetStock (sy_up env i) 0 ?now (p_id row) (mp_id mp) (p_stock row)
          (ss_redis st)) else ss_redis st\<rparr>)"
      using ins by (simp add: sync_product_def get None Let_def)
    moreover have "synced_row report folders None mp (blank_transient row)"
      by (rule synced_product_row [where now = ?now]) (simp_all add: row blank_transient_def)
    ultimately show thesis using that db' None by simp
  next
    case (Some e)
    obtain row db' where upd: "product_Update ?c 1 ?now ((?p (Some e))\<lparr>p_id := p_id e\<rparr>) (p_id e) ?db = (Inr row, db')"
      and db': "products_inv db'" "categories db' = categories ?db"
        "row_by_ms db' (mp_id mp) = Some (product_columns ((?p (Some e))\<lparr>p_id := p_id e, p_updated_at := ?now\<rparr>) e)"
        "\<And>m. m \<noteq> mp_id mp \<Longrightarrow> row_by_ms db' m = row_by_ms ?db m"
      using Update_row [OF inv Some, of "(?p (Some e))\<lparr>p_id := p_id e\<rparr>" ?c 1 ?now] conn cat [of "Some e"] Some
        stock_status_ok by (simp add: product_columns_def) metis
    have "sync_product env i report folders mp st = (Updated, st\<lparr>ss_db := db',
        ss_redis := if sy_cache env then snd (SetStock (sy_up env i) 0 ?now (p_id row) (mp_id mp) (p_stock row)
          (ss_redis st)) else ss_redis st\<rparr>)"
      using upd by (simp add: sync_product_def get Some Let_def)
    moreover have "synced_row report folders (Some e) mp
        (product_columns ((?p (Some e))\<lparr>p_id := p_id e, p_updated_at := ?now\<rparr>) e)"
      by (rule synced_product_row [where now = ?now]) (simp_all add: product_columns_def)
    ultimately show thesis using that db' Some by simp
  qed
qed

lemma sync_all_ok:
  assumes "products_inv (ss_db st)" "\<forall>i. c_stmt (sy_conn env i) = (\<lambda>_. True)" "distinct (map mp_id mps)"
    "\<forall>u k. folders u = Some k \<longrightarrow> k \<in> c_id ` set (categories (ss_db st))"
  obtains os st' where "sync_all env i report folders mps st = (os, st')" "length os = length mps"
    "Failed \<notin> set os" "products_inv (ss_db st')"
    "\<forall>mp \<in> set mps. \<exists>row. row_by_ms (ss_db st') (mp_id mp) = Some row \<and>
       synced_row report folders (row_by_ms (ss_db st) (mp_id mp)) mp row"
    "\<forall>m. m \<notin> mp_id ` set mps \<longrightarrow> row_by_ms (ss_db st') m = row_by_ms (ss_db st) m"
proof -
  have "\<exists>os st'. sync_all env i report folders mps st = (os, st') \<and> length os = length mps \<and>
    Failed \<notin> set os \<and> products_inv (ss_db st') \<and>
    (\<forall>mp \<in> set mps. \<exists>row. row_by_ms (ss_db st') (mp_id mp) = Some row \<and>
       synced_row report folders (row_by_ms (ss_db st) (mp_id mp)) mp row) \<and>
    (\<forall>m. m \<notin> mp_id ` set mps \<longrightarrow> row_by_ms (ss_db st') m = row_by_ms (ss_db st) m)"
    using assms
  proof (induction mps arbitrary: i st)
    case (Cons mp mps)
    obtain oc st1 row where step: "sync_product env i report folders mp st = (oc, st1)" "oc \<noteq> Failed"
        "products_inv (ss_db st1)" "categories (ss_db st1) = categories (ss_db st)"
        "row_by_ms (ss_db st1) (mp_id mp) = Some row"
        "synced_row report folders (row_by_ms (ss_db st) (mp_id mp)) mp row"
      and other: "\<And>m. m \<noteq> mp_id mp \<Longrightarrow> row_by_ms (ss_db st1) m = row_by_ms (ss_db st) m"
      using sync_product_ok [OF Cons.prems(1) _ Cons.prems(4), of env i report mp] Cons.prems(2) by metis
    obtain os st' where rest: "sync_all env (Suc i) report folders mps st1 = (os, st')" "length os = length mps"
        "Failed \<notin> set os" "products_inv (ss_db st')"
        "\<forall>mp \<in> set mps. \<exists>row. row_by_ms (ss_db st') (mp_id mp) = Some row \<and>
           synced_row report folders (row_by_ms (ss_db st1) (mp_id mp)) mp row"
        "\<forall>m. m \<notin> mp_id ` set mps \<longrightarrow> row_by_ms (ss_db st') m = row_by_ms (ss_db st1) m"
      using Cons.IH [OF step(3) Cons.prems(2), of "Suc i"] Cons.prems(3,4) step(4) by auto
    have new: "mp_id q \<noteq> mp_id mp" if "q \<in> set mps" for q
      using Cons.prems(3) imageI [OF that, of mp_id] by auto
    show ?case
    proof (intro exI conjI)
      show "sync_all env i report folders (mp # mps) st = (oc # os, st')" by (simp add: step(1) rest(1))
      show "\<forall>q \<in> set (mp # mps). \<exists>row. row_by_ms (ss_db st') (mp_id q) = Some row \<and>
          synced_row report folders (row_by_ms (ss_db st) (mp_id q)) q row"
      proof
        fix q assume "q \<in> set (mp # mps)"
        then consider "q = mp" | "q \<in> set mps" by auto
        then show "\<exists>row. row_by_ms (ss_db st') (mp_id q) = Some row \<and>
            synced_row report folders (row_by_ms (ss_db st) (mp_id q)) q row"
        proof cases
          case 1
          have "mp_id mp \<notin> mp_id ` set mps" using Cons.prems(3) by simp
          with 1 rest(6) step(5,6) show ?thesis by auto
        next
          case 2
          with rest(5) other [OF new [OF 2]] show ?thesis by auto
        qed
      qed
      show "\<forall>m. m \<notin> mp_id ` set (mp # mps) \<longrightarrow> row_by_ms (ss_db st') m = row_by_ms (ss_db st) m"
        using rest(6) other by simp
    qed (use step rest in auto)
  qed simp
  then show thesis using that by blast
qed

section \<open>A whole sync\<close>

lemma UpsertByName_ok:
  assumes "UpsertByName c (\<lambda>_ db. db) name db = (r, db')"
  shows "products db' = products db" "next_product db' = next_product db"
    "c_id ` set (categories db) \<subseteq> c_id ` set (categories db')"
    "r = Inr k \<Longrightarrow> k \<in> c_id ` set (categories db')"
proof -
  have hit: "c_id a \<in> c_id ` set (categories db)" if "filter (\<lambda>r. c_name r = name) (categories db) = a # as" for a as
  proof -
    have "a \<in> set (filter (\<lambda>r. c_name r = name) (categories db))" unfolding that by simp
    then show ?thesis by simp
  qed
  show "products db' = products db" "next_product db' = next_product db"
    "c_id ` set (categories db) \<subseteq> c_id ` set (categories db')"
    "r = Inr k \<Longrightarrow> k \<in> c_id ` set (categories db')"
    using assms hit by (auto simp: UpsertByName_def Let_def split: if_splits list.splits)
qed

lemma upsert_folders_ok:
  assumes "upsert_folders cs i fs m db = (m', db')"
    "\<forall>u k. m u = Some k \<longrightarrow> k \<in> c_id ` set (categories db)"
  shows "products db' = products db \<and> next_product db' = next_product db \<and>
    c_id ` set (categories db) \<subseteq> c_id ` set (categories db') \<and>
    (\<forall>u k. m' u = Some k \<longrightarrow> k \<in> c_id ` set (categories db'))"
  using assms
proof (induction fs arbitrary: i m db)
  case (Cons f fs)
  obtain r db1 where up: "UpsertByName (cs i) (\<lambda>_ db. db) (mf_name f) db = (r, db1)"
    by (cases "UpsertByName (cs i) (\<lambda>_ db. db) (mf_name f) db")
  note ok = UpsertByName_ok [OF up]
  let ?m = "case r of Inl e \<Rightarrow> m | Inr k \<Rightarrow> m(mf_id f \<mapsto> k)"
  show ?case
  proof (cases "mf_name f = []")
    case True
    with Cons.IH [of "Suc i" m db] Cons.prems show ?thesis by simp
  next
    case False
    have "upsert_folders cs (Suc i) fs ?m db1 = (m', db')"
      using Cons.prems(1) False up by (simp split: sum.splits)
    moreover have "\<forall>u k. ?m u = Some k \<longrightarrow> k \<in> c_id ` set (categories db1)"
      using Cons.prems(2) ok(3,4) by (auto split: sum.splits if_splits)
    ultimately have "products db' = products db1 \<and> next_product db' = next_product db1 \<and>
        c_id ` set (categories db1) \<subseteq> c_id ` set (categories db') \<and>
        (\<forall>u k. m' u = Some k \<longrightarrow> k \<in> c_id ` set (categories db'))"
      by (rule Cons.IH)
    then show ?thesis using ok(1,2) subset_trans [OF ok(3)] by simp
  qed
qed simp

lemma set_parents_ok:
  "products (set_parents cs i fs m db) = products db \<and>
   next_product (set_parents cs i fs m db) = next_product db \<and>
   c_id ` set (categories (set_parents cs i fs m db)) = c_id ` set (categories db)"
proof (induction fs arbitrary: i db)
  case (Cons f fs)
  have "products (snd (SetParent c k q db)) = products db \<and>
      next_product (snd (SetParent c k q db)) = next_product db \<and>
      c_id ` set (categories (snd (SetParent c k q db))) = c_id ` set (categories db)" for c k q
    by (simp add: SetParent_def set_parent.update_key_set)
  with Cons show ?case by (auto split: option.split)
qed simp

lemma products_inv_mono:
  assumes "products_inv db" "products db' = products db" "next_product db' = next_product db"
    "c_id ` set (categories db) \<subseteq> c_id ` set (categories db')"
  shows "products_inv db'"
proof -
  have "\<forall>p \<in> set (products db). \<forall>k. p_category_id p = Some k \<longrightarrow> k \<in> c_id ` set (categories db')"
    using assms(1) subsetD [OF assms(4)] unfolding products_inv_def by blast
  then show ?thesis using assms(1) unfolding products_inv_def assms(2,3) by blast
qed

lemma sync_categories_ok:
  assumes "products_inv (ss_db st)"
  shows "products_inv (ss_db (syncCategoriesFromMoysklad env st))"
    "row_by_ms (ss_db (syncCategoriesFromMoysklad env st)) = row_by_ms (ss_db st)"
    "\<forall>u k. synced_folders env st u = Some k \<longrightarrow>
       k \<in> c_id ` set (categories (ss_db (syncCategoriesFromMoysklad env st)))"
proof -
  have "products_inv (ss_db (syncCategoriesFromMoysklad env st)) \<and>
    products (ss_db (syncCategoriesFromMoysklad env st)) = products (ss_db st) \<and>
    (\<forall>u k. synced_folders env st u = Some k \<longrightarrow>
       k \<in> c_id ` set (categories (ss_db (syncCategoriesFromMoysklad env st))))"
  proof (cases "sy_folders env")
    case (Inl e)
    then show ?thesis using assms by (simp add: syncCategoriesFromMoysklad_def synced_folders_def)
  next
    case (Inr fs)
    obtain m db1 where up: "upsert_folders (sy_upsert env) 0 fs Map.empty (ss_db st) = (m, db1)"
      by (cases "upsert_folders (sy_upsert env) 0 fs Map.empty (ss_db st)")
    let ?db = "set_parents (sy_parent env) 0 fs m db1"
    have st: "syncCategoriesFromMoysklad env st = st\<lparr>ss_db := ?db, ss_folders := m\<rparr>"
      by (simp add: syncCategoriesFromMoysklad_def Inr up)
    note ok = upsert_folders_ok [OF up, simplified] set_parents_ok [of "sy_parent env" 0 fs m db1]
    have "products_inv ?db"
      by (rule products_inv_mono [OF assms]) (use ok in auto)
    with ok show ?thesis by (simp add: st synced_folders_def Inr)
  qed
  then show "products_inv (ss_db (syncCategoriesFromMoysklad env st))"
    "row_by_ms (ss_db (syncCategoriesFromMoysklad env st)) = row_by_ms (ss_db st)"
    "\<forall>u k. synced_folders env st u = Some k \<longrightarrow>
       k \<in> c_id ` set (categories (ss_db (syncCategoriesFromMoysklad env st)))"
    by (auto simp: row_by_ms_def fun_eq_iff)
qed

lemma outcomes_count:
  "Failed \<notin> set os \<Longrightarrow> count_list os Created + count_list os Updated = length os"
proof (induction os)
  case (Cons a os)
  then show ?case by (cases a) auto
qed simp

text \<open>
  A full sync with the database up: every product Moysklad lists ends as one active row under
  its Moysklad id, with the name, the first sale price in roubles, the stock of the report cut to
  a whole number (nothing when the report does not have it), the status that goes with the stock,
  and the category of its folder, or the one it had; every product not listed keeps its row,
  and nothing is counted as an error.
\<close>

theorem full_sync_effect:
  assumes "products_inv (ss_db st)" "sy_client env" "sy_stock env = Inr report"
    "sy_products env = Inr mps" "distinct (map mp_id mps)" "\<forall>i. sy_conn env i = healthy"
  shows "\<exists>res st'. SyncProducts env st = (Inr res, st') \<and>
    sr_created res + sr_updated res = length mps \<and> sr_errors res = 0 \<and> products_inv (ss_db st') \<and>
    (\<forall>mp \<in> set mps. \<exists>row. row_by_ms (ss_db st') (mp_id mp) = Some row \<and>
       p_name row = mp_name mp \<and> p_price row = sync_price mp \<and>
       p_stock row = (case map_of report (mp_id mp) of Some s \<Rightarrow> if 0 < s then trunc s else 0 | None \<Rightarrow> 0) \<and>
       0 \<le> p_stock row \<and> (on_sale row \<longleftrightarrow> 0 < p_stock row) \<and>
       p_category_id row = or_else (folder_category (synced_folders env st) mp)
         (Option.bind (row_by_ms (ss_db st) (mp_id mp)) p_category_id)) \<and>
    (\<forall>m. m \<notin> mp_id ` set mps \<longrightarrow> row_by_ms (ss_db st') m = row_by_ms (ss_db st) m)"
proof -
  let ?st1 = "syncCategoriesFromMoysklad env st" and ?report = "Some (map_of report)"
  note cats = sync_categories_ok [OF assms(1), of env]
  obtain os st2 where run: "sync_all env 0 ?report (synced_folders env st) mps ?st1 = (os, st2)"
      "length os = length mps" "Failed \<notin> set os" "products_inv (ss_db st2)"
    and rows: "\<forall>mp \<in> set mps. \<exists>row. row_by_ms (ss_db st2) (mp_id mp) = Some row \<and>
       synced_row ?report (synced_folders env st) (row_by_ms (ss_db ?st1) (mp_id mp)) mp row"
    and other: "\<forall>m. m \<notin> mp_id ` set mps \<longrightarrow> row_by_ms (ss_db st2) m = row_by_ms (ss_db ?st1) m"
    by (rule sync_all_ok [OF cats(1) _ assms(5) cats(3), of env 0 ?report])
      (use assms(6) in \<open>auto simp: healthy_def\<close>)
  let ?st3 = "if sy_cache env
    then st2\<lparr>ss_redis := snd (SetLastSyncTime (sy_last env) (sy_now env) (ss_redis st2))\<rparr> else st2"
  have sync: "SyncProducts env st = (Inr (tally os), ?st3)"
    using assms(2-4) run(1) by (simp add: SyncProducts_def syncProducts_def products_for_sync_def Let_def)
  have db3: "ss_db ?st3 = ss_db st2" by simp
  have fields: "p_name row = mp_name mp \<and> p_price row = sync_price mp \<and>
       p_stock row = (case map_of report (mp_id mp) of Some s \<Rightarrow> if 0 < s then trunc s else 0 | None \<Rightarrow> 0) \<and>
       0 \<le> p_stock row \<and> (on_sale row \<longleftrightarrow> 0 < p_stock row) \<and>
       p_category_id row = or_else (folder_category (synced_folders env st) mp)
         (Option.bind (row_by_ms (ss_db st) (mp_id mp)) p_category_id)"
    if "synced_row ?report (synced_folders env st) (row_by_ms (ss_db ?st1) (mp_id mp)) mp row" for mp row
  proof -
    let ?s = "sync_stock ?report (row_by_ms (ss_db ?st1) (mp_id mp)) mp"
    have s: "?s = (case map_of report (mp_id mp) of Some s \<Rightarrow> if 0 < s then trunc s else 0 | None \<Rightarrow> 0)"
      by (simp add: sync_stock_def)
    have "0 \<le> ?s" unfolding s by (auto simp: trunc_def split: option.splits)
    moreover have "on_sale row \<longleftrightarrow> 0 < ?s"
      using that by (auto simp: synced_row_def on_sale_def stock_status_def)
    ultimately show ?thesis
      using that unfolding synced_row_def cats(2) s [symmetric] by simp
  qed
  have whole: "sr_created (tally os) + sr_updated (tally os) = length mps" "sr_errors (tally os) = 0"
    using outcomes_count [OF run(3)] run(2,3) by (simp_all add: tally_def count_list_0_iff)
  show ?thesis
    unfolding sync
  proof (rule exI [of _ "tally os"], rule exI [of _ ?st3], unfold db3, intro conjI ballI)
    fix mp assume "mp \<in> set mps"
    with rows obtain row where row: "row_by_ms (ss_db st2) (mp_id mp) = Some row"
      "synced_row ?report (synced_folders env st) (row_by_ms (ss_db ?st1) (mp_id mp)) mp row" by blast
    show "\<exists>row. row_by_ms (ss_db st2) (mp_id mp) = Some row \<and>
       p_name row = mp_name mp \<and> p_price row = sync_price mp \<and>
       p_stock row = (case map_of report (mp_id mp) of Some s \<Rightarrow> if 0 < s then trunc s else 0 | None \<Rightarrow> 0) \<and>
       0 \<le> p_stock row \<and> (on_sale row \<longleftrightarrow> 0 < p_stock row) \<and>
       p_category_id row = or_else (folder_category (synced_folders env st) mp)
         (Option.bind (row_by_ms (ss_db st) (mp_id mp)) p_category_id)"
      by (intro exI [of _ row] conjI row(1) fields [OF row(2), THEN conjunct1]
          fields [OF row(2), THEN conjunct2, THEN conjunct1]) (use fields [OF row(2)] in blast)+
  next
    show "\<forall>m. m \<notin> mp_id ` set mps \<longrightarrow> row_by_ms (ss_db st2) m = row_by_ms (ss_db st) m"
      using other cats(2) by simp
  qed (rule refl whole run(4))+
qed

definition ms_example :: ms_product where
  "ms_example = \<lparr>mp_id = ''a'', mp_name = ''n'', mp_description = None, mp_prices = [1000],
     mp_stock = None, mp_images = [], mp_folder = None, mp_updated = None\<rparr>"

definition sync_example :: sync_env where
  "sync_example = \<lparr>sy_now = 5, sy_client = True, sy_cache = True, sy_stock = Inr [(''a'', 7 / 2)],
     sy_products = Inr [ms_example], sy_delta = (\<lambda>_. Inr []), sy_folders = Inr [],
     sy_upsert = (\<lambda>_. healthy), sy_parent = (\<lambda>_. healthy), sy_conn = (\<lambda>_. healthy),
     sy_up = (\<lambda>_ _. True), sy_last = (\<lambda>_. True)\<rparr>"

definition sync_start :: sync_state where
  "sync_start = \<lparr>ss_db = empty_shop, ss_redis = redis_empty, ss_folders = Map.empty\<rparr>"

lemma sync_example_simps [simp]:
  "sy_client sync_example" "sy_stock sync_example = Inr [(''a'', 7 / 2)]"
  "sy_products sync_example = Inr [ms_example]" "sy_conn sync_example = (\<lambda>_. healthy)"
  by (simp_all add: sync_example_def)

theorem full_sync_effect_witness:
  "\<exists>row. row_by_ms (ss_db (snd (SyncProducts sync_example sync_start))) ''a'' = Some row \<and>
     p_stock row = 3 \<and> p_price row = 10"
proof -
  have "products_inv (ss_db sync_start)" by (simp add: sync_start_def empty_shop_def products_inv_def)
  from full_sync_effect [OF this, of sync_example "[(''a'', 7 / 2)]" "[ms_example]"]
  obtain res st' row where "SyncProducts sync_example sync_start = (Inr res, st')"
      "row_by_ms (ss_db st') ''a'' = Some row" "p_stock row = trunc (7 / 2)" "p_price row = sync_price ms_example"
    by (auto simp: ms_example_def)
  moreover have "trunc (7 / 2) = 3" by (simp add: trunc_def floor_eq_iff)
  ultimately show ?thesis by (simp add: sync_price_def ms_example_def)
qed

text \<open>
  A folder with the name of its parent folder breaks the catalogue: categories are kept by name,
  so the sync makes the category of the two its own parent, and from then on every request for the
  products of that category runs the recursive query into its timeout and fails.
\<close>

theorem same_name_folders_cycle:
  assumes "name \<noteq> []" "href \<noteq> []" "extractMoyskladUUID href = u1" "u1 \<noteq> u2"
    "sy_folders env = Inr [\<lparr>mf_id = u1, mf_name = name, mf_parent = None\<rparr>,
       \<lparr>mf_id = u2, mf_name = name, mf_parent = Some href\<rparr>]"
    "sy_upsert env = (\<lambda>_. healthy)" "sy_parent env = (\<lambda>_. healthy)"
    "distinct (map c_id (categories (ss_db st)))" "\<forall>r \<in> set (categories (ss_db st)). c_id r < next_category (ss_db st)"
  shows "\<exists>k. ss_folders (syncCategoriesFromMoysklad env st) u2 = Some k \<and>
    category_tree (categories (ss_db (syncCategoriesFromMoysklad env st))) [k] = None \<and>
    GetByCategory c k limit offset (ss_db (syncCategoriesFromMoysklad env st)) = Inl DbError"
proof -
  obtain k db1 where first: "UpsertByName healthy (\<lambda>_ db. db) name (ss_db st) = (Inr k, db1)"
    and again: "UpsertByName healthy (\<lambda>_ db. db) name db1 = (Inr k, db1)"
    and keys: "distinct (map c_id (categories db1))"
  proof (cases "filter (\<lambda>r. c_name r = name) (categories (ss_db st))")
    case (Cons r rs)
    then show ?thesis using that [of "c_id r" "ss_db st"] assms(8) by (simp add: UpsertByName_def healthy_def)
  next
    case Nil
    then have "name \<notin> c_name ` set (categories (ss_db st))" by (auto simp: filter_empty_conv)
    then show ?thesis
      using that [of "next_category (ss_db st)"] assms(8,9) Nil
      by (force simp: UpsertByName_def healthy_def Let_def)
  qed
  have k: "k \<in> c_id ` set (categories db1)" using UpsertByName_ok(4) [OF first] by simp
  have st: "syncCategoriesFromMoysklad env st =
      st\<lparr>ss_db := snd (SetParent healthy k (Some k) db1), ss_folders := [u1 \<mapsto> k, u2 \<mapsto> k]\<rparr>"
    using assms(1-7) first again by (simp add: syncCategoriesFromMoysklad_def)
  note own_parent_cycle [OF keys k]
  then show ?thesis by (simp add: st GetByCategory_def category_products_def)
qed

theorem same_name_folders_cycle_witness:
  "\<exists>k. GetByCategory healthy k 20 0 (ss_db (syncCategoriesFromMoysklad (sync_example\<lparr>sy_folders :=
      Inr [\<lparr>mf_id = ''u'', mf_name = ''n'', mf_parent = None\<rparr>,
           \<lparr>mf_id = ''v'', mf_name = ''n'', mf_parent = Some ''x/u''\<rparr>]\<rparr>) sync_start)) = Inl DbError"
proof -
  have "extractMoyskladUUID ''x/u'' = ''u''" by (simp add: extractMoyskladUUID_def last_segment_def)
  from same_name_folders_cycle [OF _ _ this, of "''n''" "''v''" "sync_example\<lparr>sy_folders :=
      Inr [\<lparr>mf_id = ''u'', mf_name = ''n'', mf_parent = None\<rparr>,
           \<lparr>mf_id = ''v'', mf_name = ''n'', mf_parent = Some ''x/u''\<rparr>]\<rparr>" sync_start healthy 20 0]
  show ?thesis by (auto simp: sync_example_def sync_start_def empty_shop_def)
qed

end
