(* ===== verification/WebhookInbox.thy ===== *)
theory WebhookInbox
  imports MoyskladSync Resilience
begin

text \<open>
  The webhooks of Moysklad: internal/handlers/webhook.go takes a signed request and puts it in
  the inbox table (internal/db/webhook_inbox.go), the worker (services/webhook_inbox_worker.go)
  claims jobs and gives them to the processor (services/webhook_processor.go), which brings the
  products and stocks up to date. The decoding of JSON, SHA-256 and HMAC are parameters, as are
  the answers of Moysklad. The last error of a job is kept as the error itself.
\<close>

section \<open>The inbox table\<close>

record inbox_job =
  ib_id :: id64
  ib_key :: string
  ib_kind :: string
  ib_payload :: string
  ib_status :: string
  ib_attempts :: int
  ib_max_attempts :: int
  ib_next_attempt_at :: time
  ib_last_error :: "error option"
  ib_created_at :: time
  ib_updated_at :: time
  ib_processed_at :: "time option"

record inbox =
  in_jobs :: "inbox_job list"
  in_next :: id64

interpretation inbox_rows: keyed_table ib_id .

definition find_job :: "inbox \<Rightarrow> id64 \<Rightarrow> inbox_job option" where
  "find_job ib k = find_row ib_id (in_jobs ib) k"

text \<open>\<open>ON CONFLICT (idempotency_key) DO NOTHING\<close>: \<open>False\<close> when the key is there already.\<close>

definition Enqueue ::
  "conn \<Rightarrow> time \<Rightarrow> (string \<Rightarrow> bool) \<Rightarrow> string \<Rightarrow> string \<Rightarrow> string \<Rightarrow> int \<Rightarrow> inbox \<Rightarrow> bool result \<times> inbox" where
  "Enqueue c now valid_json kind key payload maxAttempts ib =
     (let maxAttempts = (if maxAttempts < 1 then 15 else maxAttempts)
      in if \<not> c_stmt c 0 \<or> kind \<notin> {''entity'', ''stock''} \<or> \<not> valid_json payload then (Inl DbError, ib)
         else if key \<in> ib_key ` set (in_jobs ib) then (Inr False, ib)
         else (Inr True, ib\<lparr>in_jobs := in_jobs ib @ [\<lparr>ib_id = in_next ib, ib_key = key, ib_kind = kind,
                  ib_payload = payload, ib_status = ''pending'', ib_attempts = 0,
                  ib_max_attempts = maxAttempts, ib_next_attempt_at = now, ib_last_error = None,
                  ib_created_at = now, ib_updated_at = now, ib_processed_at = None\<rparr>],
                in_next := in_next ib + 1\<rparr>))"

definition claimable :: "time \<Rightarrow> (id64 \<Rightarrow> bool) \<Rightarrow> inbox_job \<Rightarrow> bool" where
  "claimable now locked j = (ib_status j = ''pending'' \<and> ib_next_attempt_at j \<le> now \<and> \<not> locked (ib_id j))"

definition start_job :: "time \<Rightarrow> inbox_job \<Rightarrow> inbox_job" where
  "start_job now j = j\<lparr>ib_status := ''processing'', ib_updated_at := now\<rparr>"

definition picked :: "time \<Rightarrow> (id64 \<Rightarrow> bool) \<Rightarrow> int \<Rightarrow> inbox_job list \<Rightarrow> inbox_job list" where
  "picked now locked limit jobs =
     take (nat (if limit < 1 then 10 else limit)) (sort_key ib_id (filter (claimable now locked) jobs))"

text \<open>\<open>locked\<close> are the rows another transaction holds, which SKIP LOCKED passes over.\<close>

definition ClaimBatch ::
  "conn \<Rightarrow> time \<Rightarrow> (id64 \<Rightarrow> bool) \<Rightarrow> int \<Rightarrow> inbox \<Rightarrow> inbox_job list result \<times> inbox" where
  "ClaimBatch c now locked limit ib =
     run_tx (c_begin c) (c_commit c) (\<lambda>ib.
       if \<not> c_stmt c 0 then Inl DbError
       else
         let ids = map ib_id (picked now locked limit (in_jobs ib))
         in Inr (map (start_job now) (picked now locked limit (in_jobs ib)),
                 ib\<lparr>in_jobs := sql_update (\<lambda>j. ib_id j \<in> set ids) (start_job now) (in_jobs ib)\<rparr>)) ib"

definition mark :: "conn \<Rightarrow> (inbox_job \<Rightarrow> inbox_job) \<Rightarrow> id64 \<Rightarrow> inbox \<Rightarrow> unit result \<times> inbox" where
  "mark c f k ib =
     (if c_stmt c 0 then (Inr (), ib\<lparr>in_jobs := sql_update (\<lambda>j. ib_id j = k) f (in_jobs ib)\<rparr>)
      else (Inl DbError, ib))"

definition completed_set :: "time \<Rightarrow> inbox_job \<Rightarrow> inbox_job" where
  "completed_set now j = j\<lparr>ib_status := ''completed'', ib_processed_at := Some now,
     ib_updated_at := now, ib_last_error := None\<rparr>"

definition retry_set :: "time \<Rightarrow> int \<Rightarrow> error \<Rightarrow> time \<Rightarrow> inbox_job \<Rightarrow> inbox_job" where
  "retry_set now attempts lastErr nextAt j = j\<lparr>ib_status := ''pending'', ib_attempts := attempts,
     ib_last_error := Some lastErr, ib_next_attempt_at := nextAt, ib_updated_at := now\<rparr>"

definition dead_set :: "time \<Rightarrow> error \<Rightarrow> inbox_job \<Rightarrow> inbox_job" where
  "dead_set now lastErr j = j\<lparr>ib_status := ''dead_letter'', ib_last_error := Some lastErr,
     ib_updated_at := now\<rparr>"

definition MarkCompleted :: "conn \<Rightarrow> time \<Rightarrow> id64 \<Rightarrow> inbox \<Rightarrow> unit result \<times> inbox" where
  "MarkCompleted c now k ib = mark c (completed_set now) k ib"

definition MarkRetry ::
  "conn \<Rightarrow> time \<Rightarrow> id64 \<Rightarrow> int \<Rightarrow> error \<Rightarrow> time \<Rightarrow> inbox \<Rightarrow> unit result \<times> inbox" where
  "MarkRetry c now k attempts lastErr nextAt ib = mark c (retry_set now attempts lastErr nextAt) k ib"

definition MarkDeadLetter :: "conn \<Rightarrow> time \<Rightarrow> id64 \<Rightarrow> error \<Rightarrow> inbox \<Rightarrow> unit result \<times> inbox" where
  "MarkDeadLetter c now k lastErr ib = mark c (dead_set now lastErr) k ib"

definition ListDeadLetter :: "conn \<Rightarrow> int \<Rightarrow> inbox \<Rightarrow> inbox_job list result" where
  "ListDeadLetter c limit ib =
     (let limit = (if limit < 1 \<or> limit > 500 then 100 else limit)
      in if c_stmt c 0 then
           Inr (take (nat limit) (rev (sort_key ib_updated_at
             (filter (\<lambda>j. ib_status j = ''dead_letter'') (in_jobs ib)))))
         else Inl DbError)"

definition replay_set :: "time \<Rightarrow> inbox_job \<Rightarrow> inbox_job" where
  "replay_set now j = j\<lparr>ib_status := ''pending'', ib_next_attempt_at := now, ib_updated_at := now,
     ib_last_error := None, ib_processed_at := None\<rparr>"

definition Replay :: "conn \<Rightarrow> time \<Rightarrow> id64 \<Rightarrow> inbox \<Rightarrow> unit result \<times> inbox" where
  "Replay c now k ib =
     (let hit = (\<lambda>j. ib_id j = k \<and> ib_status j = ''dead_letter'')
      in if \<not> c_stmt c 0 then (Inl DbError, ib)
         else if filter hit (in_jobs ib) = [] then (Inl (RejectedItem ''no dead_letter row'' k), ib)
         else (Inr (), ib\<lparr>in_jobs := sql_update hit (replay_set now) (in_jobs ib)\<rparr>))"

section \<open>Processing an event\<close>

record entity_event =
  ee_type :: string
  ee_href :: string
  ee_action :: string

record webhook_env =
  we_sync :: sync_env
  we_key :: "id64 \<Rightarrow> bool"
  we_product :: "string \<Rightarrow> ms_product list result"
  we_report :: "string \<Rightarrow> (string \<times> money) list result"

definition webhook_product :: "string \<Rightarrow> ms_product \<Rightarrow> product" where
  "webhook_product msID mp =
     (let stock = (case mp_stock mp of Some s \<Rightarrow> if 0 < s then trunc s else 0 | None \<Rightarrow> 0)
      in blank_product\<lparr>p_name := mp_name mp, p_description := mp_description mp,
           p_moysklad_id := Some msID, p_active := True, p_price := sync_price mp, p_stock := stock,
           p_status := stock_status stock, p_image_url := first_image mp\<rparr>)"

definition syncProduct :: "webhook_env \<Rightarrow> string \<Rightarrow> sync_state \<Rightarrow> unit result \<times> sync_state" where
  "syncProduct env msID st =
     (let se = we_sync env; c = sy_conn se 0; now = sy_now se; up = sy_up se 0
      in case we_product env msID of
        Inl e \<Rightarrow> (Inl e, st)
      | Inr [] \<Rightarrow> (Inr (), st)
      | Inr (mp # _) \<Rightarrow>
          (case product_GetByMoyskladID c 0 msID (ss_db st) of
             Inl e \<Rightarrow> (Inl e, st)
           | Inr None \<Rightarrow>
               (case product_Insert c 1 now (webhook_product msID mp) (ss_db st) of
                  (Inl e, db') \<Rightarrow> (Inl e, st)
                | (Inr row, db') \<Rightarrow> (Inr (), st\<lparr>ss_db := db', ss_redis :=
                    (if sy_cache se then snd (SetStock up 0 now (p_id row) msID (p_stock row) (ss_redis st))
                     else ss_redis st)\<rparr>))
           | Inr (Some e) \<Rightarrow>
               (case product_Update c 1 now ((webhook_product msID mp)\<lparr>p_id := p_id e\<rparr>) (p_id e) (ss_db st) of
                  (Inl err, db') \<Rightarrow> (Inl err, st)
                | (Inr row, db') \<Rightarrow> (Inr (), st\<lparr>ss_db := db', ss_redis :=
                    (if sy_cache se then
                       snd (InvalidateByMoyskladID (up 1) (we_key env) now msID
                         (snd (SetStock up 0 now (p_id row) msID (p_stock row) (ss_redis st))))
                     else ss_redis st)\<rparr>))))"

definition deactivateProduct :: "webhook_env \<Rightarrow> string \<Rightarrow> sync_state \<Rightarrow> unit result \<times> sync_state" where
  "deactivateProduct env msID st =
     (let se = we_sync env; c = sy_conn se 0
      in case product_GetByMoyskladID c 0 msID (ss_db st) of
        Inl e \<Rightarrow> (Inl e, st)
      | Inr None \<Rightarrow> (Inr (), st)
      | Inr (Some p) \<Rightarrow>
          (case product_Update c 1 (sy_now se) (p\<lparr>p_active := False, p_status := ''deleted'', p_stock := 0\<rparr>)
                 (p_id p) (ss_db st) of
             (Inl e, db') \<Rightarrow> (Inl e, st)
           | (Inr row, db') \<Rightarrow> (Inr (), st\<lparr>ss_db := db', ss_redis :=
               (if sy_cache se then snd (InvalidateStock (sy_up se 0) 0 (p_id p) (ss_redis st))
                else ss_redis st)\<rparr>)))"

definition processEntityEvent ::
  "webhook_env \<Rightarrow> entity_event \<Rightarrow> sync_state \<Rightarrow> unit result \<times> sync_state" where
  "processEntityEvent env ev st =
     (if ee_type ev \<noteq> ''product'' then (Inr (), st)
      else
        let msID = extractIDFromHref (ee_href ev)
        in if msID = [] then (Inr (), st)
           else if ee_action ev = ''CREATE'' \<or> ee_action ev = ''UPDATE'' then syncProduct env msID st
           else if ee_action ev = ''DELETE'' then deactivateProduct env msID st
           else (Inr (), st))"

fun process_events ::
  "(nat \<Rightarrow> webhook_env) \<Rightarrow> nat \<Rightarrow> entity_event list \<Rightarrow> sync_state \<Rightarrow> unit result \<times> sync_state" where
  "process_events envs i [] st = (Inr (), st)"
| "process_events envs i (ev # evs) st =
     (case processEntityEvent (envs i) ev st of
        (Inl e, st') \<Rightarrow> (Inl e, st')
      | (Inr _, st') \<Rightarrow> process_events envs (Suc i) evs st')"

definition ProcessEntityPayload ::
  "(nat \<Rightarrow> webhook_env) \<Rightarrow> (string \<Rightarrow> entity_event list option) \<Rightarrow> string \<Rightarrow> sync_state
    \<Rightarrow> unit result \<times> sync_state" where
  "ProcessEntityPayload envs decode payload st =
     (case decode payload of
        None \<Rightarrow> (Inl (Rejected ''decode entity webhook''), st)
      | Some evs \<Rightarrow> process_events envs 0 evs st)"

text \<open>The URL of the report is what the code uses of a stock payload.\<close>

definition ProcessStockPayload ::
  "(nat \<Rightarrow> webhook_env) \<Rightarrow> (string \<Rightarrow> string option) \<Rightarrow> string \<Rightarrow> sync_state \<Rightarrow> unit result \<times> sync_state" where
  "ProcessStockPayload envs decode payload st =
     (case decode payload of
        None \<Rightarrow> (Inl (Rejected ''decode stock webhook''), st)
      | Some url \<Rightarrow>
          (case we_report (envs 0) url of
             Inl e \<Rightarrow> (Inl e, st)
           | Inr rows \<Rightarrow> (Inr (), apply_stock_report (we_sync (envs 0)) 0 rows st)))"

section \<open>The worker\<close>

record worker_env =
  wk_now :: time
  wk_claim :: conn
  wk_locked :: "id64 \<Rightarrow> bool"
  wk_mark :: "id64 \<Rightarrow> conn"
  wk_events :: "id64 \<Rightarrow> nat \<Rightarrow> webhook_env"
  wk_entity :: "string \<Rightarrow> entity_event list option"
  wk_stock :: "string \<Rightarrow> string option"

definition NewWebhookInboxWorker :: "duration \<Rightarrow> int \<Rightarrow> duration \<times> int" where
  "NewWebhookInboxWorker interval batch =
     (if interval < second then 2 * second else interval, if batch < 1 then 10 else batch)"

definition process_job :: "worker_env \<Rightarrow> inbox_job \<Rightarrow> sync_state \<Rightarrow> unit result \<times> sync_state" where
  "process_job env job st =
     (if ib_kind job = ''entity'' then ProcessEntityPayload (wk_events env (ib_id job)) (wk_entity env) (ib_payload job) st
      else if ib_kind job = ''stock'' then ProcessStockPayload (wk_events env (ib_id job)) (wk_stock env) (ib_payload job) st
      else (Inl (Rejected ''unknown webhook_kind''), st))"

text \<open>
  What \<open>handleOne\<close> writes once the processor is through. The statement runs in the context of the
  three minutes the processing had, so \<open>c\<close> fails when they are used up.
\<close>

definition settle :: "conn \<Rightarrow> time \<Rightarrow> inbox_job \<Rightarrow> unit result \<Rightarrow> inbox \<Rightarrow> inbox" where
  "settle c now job res ib =
     (let nextAttempts = ib_attempts job + 1
      in case res of
        Inr _ \<Rightarrow> snd (MarkCompleted c now (ib_id job) ib)
      | Inl e \<Rightarrow>
          if nextAttempts \<ge> ib_max_attempts job then snd (MarkDeadLetter c now (ib_id job) e ib)
          else snd (MarkRetry c now (ib_id job) nextAttempts e (now + WebhookRetryDelay now nextAttempts) ib))"

definition handleOne :: "worker_env \<Rightarrow> inbox_job \<Rightarrow> inbox \<times> sync_state \<Rightarrow> inbox \<times> sync_state" where
  "handleOne env job s =
     (let (res, st') = process_job env job (snd s)
      in (settle (wk_mark env (ib_id job)) (wk_now env) job res (fst s), st'))"

definition processBatch :: "worker_env \<Rightarrow> int \<Rightarrow> inbox \<times> sync_state \<Rightarrow> inbox \<times> sync_state" where
  "processBatch env batch s =
     (case ClaimBatch (wk_claim env) (wk_now env) (wk_locked env) batch (fst s) of
        (Inl e, ib') \<Rightarrow> (ib', snd s)
      | (Inr jobs, ib') \<Rightarrow> fold (handleOne env) jobs (ib', snd s))"

section \<open>Taking a webhook\<close>

definition hex_digit :: "nat \<Rightarrow> char" where
  "hex_digit n = ''0123456789abcdef'' ! n"

definition hex_encode :: "string \<Rightarrow> string" where
  "hex_encode s = concat (map (\<lambda>ch. [hex_digit (of_char ch div 16), hex_digit (of_char ch mod 16)]) s)"

text \<open>A request: the two headers, empty when missing, and the body, \<open>None\<close> when it cannot be read.\<close>

record delivery =
  dv_signature :: string
  dv_request_id :: string
  dv_body :: "string option"

definition idempotencyKey :: "(string \<Rightarrow> string) \<Rightarrow> string \<Rightarrow> delivery \<Rightarrow> string \<Rightarrow> string" where
  "idempotencyKey sha256 kind d body =
     (if dv_request_id d \<noteq> [] then kind @ '':'' @ dv_request_id d
      else kind @ '':'' @ hex_encode (sha256 (kind @ '':'' @ body)))"

definition verifySignature :: "(string \<Rightarrow> string \<Rightarrow> string) \<Rightarrow> string \<Rightarrow> string \<Rightarrow> string \<Rightarrow> bool" where
  "verifySignature hmac secret body signature =
     (secret \<noteq> [] \<and> hex_encode (hmac secret body) = signature)"

text \<open>The status of a refusal, or the verified body.\<close>

definition readVerifiedBody ::
  "(string \<Rightarrow> string \<Rightarrow> string) \<Rightarrow> string \<Rightarrow> delivery \<Rightarrow> int + string" where
  "readVerifiedBody hmac secret d =
     (if secret = [] then Inl 503
      else if dv_signature d = [] then Inl 401
      else case dv_body d of
        None \<Rightarrow> Inl 400
      | Some body \<Rightarrow> if verifySignature hmac secret body (dv_signature d) then Inr body else Inl 401)"

record webhook_handler =
  hd_hmac :: "string \<Rightarrow> string \<Rightarrow> string"
  hd_sha256 :: "string \<Rightarrow> string"
  hd_valid_json :: "string \<Rightarrow> bool"
  hd_secret :: string
  hd_max_attempts :: int

definition take_webhook ::
  "webhook_handler \<Rightarrow> conn \<Rightarrow> time \<Rightarrow> string \<Rightarrow> delivery \<Rightarrow> inbox \<Rightarrow> int \<times> inbox" where
  "take_webhook h c now kind d ib =
     (case readVerifiedBody (hd_hmac h) (hd_secret h) d of
        Inl code \<Rightarrow> (code, ib)
      | Inr body \<Rightarrow>
          (case Enqueue c now (hd_valid_json h) kind (idempotencyKey (hd_sha256 h) kind d body) body
                  (hd_max_attempts h) ib of
             (Inl e, ib') \<Rightarrow> (503, ib')
           | (Inr inserted, ib') \<Rightarrow> (204, ib')))"

definition HandleWebhook :: "webhook_handler \<Rightarrow> conn \<Rightarrow> time \<Rightarrow> delivery \<Rightarrow> inbox \<Rightarrow> int \<times> inbox" where
  "HandleWebhook h c now d ib = take_webhook h c now ''entity'' d ib"

definition HandleStockWebhook :: "webhook_handler \<Rightarrow> conn \<Rightarrow> time \<Rightarrow> delivery \<Rightarrow> inbox \<Rightarrow> int \<times> inbox" where
  "HandleStockWebhook h c now d ib = take_webhook h c now ''stock'' d ib"

definition ReplayDeadLetter :: "conn \<Rightarrow> time \<Rightarrow> int option \<Rightarrow> inbox \<Rightarrow> int \<times> inbox" where
  "ReplayDeadLetter c now k ib =
     (case k of
        None \<Rightarrow> (400, ib)
      | Some k \<Rightarrow> if k < 1 then (400, ib)
          else (case Replay c now k ib of (Inl e, ib') \<Rightarrow> (400, ib') | (Inr _, ib') \<Rightarrow> (200, ib')))"

section \<open>The life of a job\<close>

text \<open>
  What may happen to the table: a request, a claim by some worker, a manual replay, and the end of
  the processing of a job whose worker is \<open>live\<close>.
\<close>

inductive inbox_step :: "(id64 \<Rightarrow> bool) \<Rightarrow> inbox \<Rightarrow> inbox \<Rightarrow> bool" for live where
  enqueue: "Enqueue c now valid kind key payload m ib = (r, ib') \<Longrightarrow> inbox_step live ib ib'"
| claim: "ClaimBatch c now locked limit ib = (jobs, ib') \<Longrightarrow> inbox_step live ib ib'"
| replay: "Replay c now k ib = (r', ib') \<Longrightarrow> inbox_step live ib ib'"
| settle: "live (ib_id job) \<Longrightarrow> find_job ib (ib_id job) = Some job \<Longrightarrow> ib_status job = ''processing'' \<Longrightarrow>
    inbox_step live ib (settle c now job res ib)"

inductive_cases inbox_stepE: "inbox_step live ib ib'"

definition job_ok :: "inbox_job \<Rightarrow> bool" where
  "job_ok j = (ib_kind j \<in> {''entity'', ''stock''} \<and>
     ib_status j \<in> {''pending'', ''processing'', ''completed'', ''dead_letter''} \<and>
     0 \<le> ib_attempts j \<and> ib_attempts j < ib_max_attempts j)"

definition inbox_inv :: "inbox \<Rightarrow> bool" where
  "inbox_inv ib = (distinct (map ib_id (in_jobs ib)) \<and> distinct (map ib_key (in_jobs ib)) \<and>
     (\<forall>j \<in> set (in_jobs ib). ib_id j < in_next ib \<and> job_ok j))"

text \<open>An update that leaves the identity of the rows alone and keeps each row in order.\<close>

lemma inbox_inv_update:
  assumes "inbox_inv ib" "\<And>j. ib_id (f j) = ib_id j \<and> ib_key (f j) = ib_key j"
    "\<And>j. j \<in> set (in_jobs ib) \<Longrightarrow> P j \<Longrightarrow> job_ok j \<Longrightarrow> job_ok (f j)"
  shows "inbox_inv (ib\<lparr>in_jobs := sql_update P f (in_jobs ib)\<rparr>)"
proof -
  have "map ib_id (sql_update P f js) = map ib_id js" "map ib_key (sql_update P f js) = map ib_key js" for js
    by (induction js) (auto simp: assms(2))
  moreover have "\<forall>j \<in> set (sql_update P f (in_jobs ib)). ib_id j < in_next ib \<and> job_ok j"
    using assms by (auto simp: inbox_inv_def set_sql_update)
  ultimately show ?thesis using assms(1) by (simp add: inbox_inv_def)
qed

lemma enqueue_inv: "inbox_inv ib \<Longrightarrow> Enqueue c now valid kind key payload m ib = (r, ib') \<Longrightarrow> inbox_inv ib'"
proof -
  assume inv: "inbox_inv ib" and run: "Enqueue c now valid kind key payload m ib = (r, ib')"
  have fresh: "in_next ib \<notin> ib_id ` set (in_jobs ib)" using inv by (auto simp: inbox_inv_def)
  have append: "inbox_inv (ib\<lparr>in_jobs := in_jobs ib @ [j], in_next := in_next ib + 1\<rparr>)"
    if "job_ok j" "ib_id j = in_next ib" "ib_key j \<notin> ib_key ` set (in_jobs ib)" for j
    using inv fresh that by (auto simp: inbox_inv_def intro: less_trans)
  show "inbox_inv ib'"
    using run inv append by (auto simp: Enqueue_def job_ok_def Let_def split: if_splits)
qed

lemma claim_inv: "inbox_inv ib \<Longrightarrow> ClaimBatch c now locked limit ib = (jobs, ib') \<Longrightarrow> inbox_inv ib'"
  by (auto simp: ClaimBatch_def run_tx_def Let_def start_job_def job_ok_def split: if_splits intro: inbox_inv_update)

lemma replay_inv: "inbox_inv ib \<Longrightarrow> Replay c now k ib = (r, ib') \<Longrightarrow> inbox_inv ib'"
  by (auto simp: Replay_def Let_def replay_set_def job_ok_def split: if_splits intro: inbox_inv_update)

lemma settle_inv:
  assumes "inbox_inv ib" "find_job ib (ib_id job) = Some job"
  shows "inbox_inv (settle c now job res ib)"
proof -
  have job: "job \<in> set (in_jobs ib)" using assms(2) by (simp add: find_job_def inbox_rows.find_row_Some)
  have keys: "distinct (map ib_id (in_jobs ib))" using assms(1) by (simp add: inbox_inv_def)
  have only: "j = job" if "j \<in> set (in_jobs ib)" "ib_id j = ib_id job" for j
    using inbox_rows.row_eq_by_key [OF keys that(1) job that(2)] .
  have marks: "inbox_inv (snd (mark c f (ib_id job) ib))"
    if "\<And>j. ib_id (f j) = ib_id j \<and> ib_key (f j) = ib_key j" "job_ok job \<Longrightarrow> job_ok (f job)" for f
    using inbox_inv_update [OF assms(1), of f "\<lambda>j. ib_id j = ib_id job"] that only assms(1)
    by (auto simp: mark_def)
  show ?thesis
    unfolding settle_def Let_def MarkCompleted_def MarkRetry_def MarkDeadLetter_def
    by (auto split: sum.split
        intro!: marks simp: completed_set_def retry_set_def dead_set_def job_ok_def)
qed

text \<open>
  C13. The inbox stays well formed whatever requests, workers and replays do: ids and idempotency keys
  are unique, every job has one of the two kinds and one of the four statuses, and the attempts it
  has used never reach its limit, so a job is tried at most that many times before it becomes a
  dead letter.
\<close>

theorem inbox_well_formed:
  assumes "(inbox_step live)\<^sup>*\<^sup>* ib ib'" "inbox_inv ib"
  shows "distinct (map ib_id (in_jobs ib')) \<and> distinct (map ib_key (in_jobs ib')) \<and>
    (\<forall>j \<in> set (in_jobs ib'). ib_kind j \<in> {''entity'', ''stock''} \<and>
       ib_status j \<in> {''pending'', ''processing'', ''completed'', ''dead_letter''} \<and>
       0 \<le> ib_attempts j \<and> ib_attempts j < ib_max_attempts j)"
proof -
  have "inbox_inv ib'"
    using assms by (induction rule: rtranclp_induct)
      (auto elim!: inbox_stepE intro: enqueue_inv claim_inv replay_inv settle_inv)
  then show ?thesis by (simp add: inbox_inv_def job_ok_def)
qed

definition inbox_example :: inbox where
  "inbox_example = \<lparr>in_jobs = [\<lparr>ib_id = 1, ib_key = ''entity:r'', ib_kind = ''entity'', ib_payload = [],
     ib_status = ''processing'', ib_attempts = 0, ib_max_attempts = 2, ib_next_attempt_at = 0,
     ib_last_error = None, ib_created_at = 0, ib_updated_at = 0, ib_processed_at = None\<rparr>], in_next = 2\<rparr>"

lemma inbox_example_inv: "inbox_inv inbox_example"
  by (simp add: inbox_example_def inbox_inv_def job_ok_def)

theorem inbox_well_formed_witness:
  "distinct (map ib_key (in_jobs (snd (ClaimBatch healthy 5 (\<lambda>_. False) 3 inbox_example)))) \<and>
   list_all (\<lambda>j. ib_attempts j < ib_max_attempts j)
     (in_jobs (snd (ClaimBatch healthy 5 (\<lambda>_. False) 3 inbox_example)))"
proof -
  have "inbox_step (\<lambda>_. True) inbox_example (snd (ClaimBatch healthy 5 (\<lambda>_. False) 3 inbox_example))"
    by (rule inbox_step.claim) (rule prod.collapse [symmetric])
  from inbox_well_formed [OF r_into_rtranclp [of "inbox_step (\<lambda>_. True)", OF this] inbox_example_inv]
  show ?thesis by (simp add: list_all_iff)
qed

section \<open>Jobs whose processing fails, and jobs whose worker is gone\<close>

interpretation job_start: row_update ib_id "start_job now" for now
  by unfold_locales (simp add: start_job_def)
interpretation job_completed: row_update ib_id "completed_set now" for now
  by unfold_locales (simp add: completed_set_def)
interpretation job_retry: row_update ib_id "retry_set now attempts e t" for now attempts e t
  by unfold_locales (simp add: retry_set_def)
interpretation job_dead: row_update ib_id "dead_set now e" for now e
  by unfold_locales (simp add: dead_set_def)
interpretation job_replay: row_update ib_id "replay_set now" for now
  by unfold_locales (simp add: replay_set_def)

lemmas job_lookups = job_start.lookup_update job_completed.lookup_update job_retry.lookup_update
  job_dead.lookup_update job_replay.lookup_update

lemma find_job_id: "find_job ib k = Some job \<Longrightarrow> job \<in> set (in_jobs ib) \<and> ib_id job = k"
  unfolding find_job_def by (rule inbox_rows.find_row_Some)

lemma settle_other: "ib_id job \<noteq> k \<Longrightarrow> find_job (settle c now job res ib) k = find_job ib k"
  by (cases "find_job ib k")
    (auto simp: settle_def Let_def MarkCompleted_def MarkRetry_def MarkDeadLetter_def mark_def find_job_def
      job_lookups dest: inbox_rows.find_row_Some split: sum.split)

lemma settle_failed:
  assumes "find_job ib (ib_id job) = Some j" "c_stmt c 0"
  shows "find_job (settle c now job (Inl e) ib) (ib_id job) =
    Some (if ib_attempts job + 1 \<ge> ib_max_attempts job then dead_set now e j
      else retry_set now (ib_attempts job + 1) e (now + WebhookRetryDelay now (ib_attempts job + 1)) j)"
proof -
  have "ib_id j = ib_id job" using find_job_id [OF assms(1)] by simp
  then show ?thesis
    using assms by (simp add: settle_def Let_def MarkRetry_def MarkDeadLetter_def mark_def find_job_def job_lookups)
qed

lemma picked_only:
  assumes "inbox_inv ib" "find_job ib k = Some job" "claimable now (\<lambda>i. i \<noteq> k) job"
  shows "picked now (\<lambda>i. i \<noteq> k) 1 (in_jobs ib) = [job]"
proof -
  have keys: "distinct (map ib_id (in_jobs ib))" using assms(1) by (simp add: inbox_inv_def)
  have "filter (claimable now (\<lambda>i. i \<noteq> k)) (in_jobs ib) =
      filter (claimable now (\<lambda>i. i \<noteq> k)) (filter (\<lambda>j. ib_id j = k) (in_jobs ib))"
    by (auto simp: claimable_def intro!: filter_cong)
  also have "\<dots> = [job]"
    using inbox_rows.filter_key [OF keys, of k] assms(2,3) by (simp add: find_job_def)
  finally show ?thesis by (simp add: picked_def)
qed

lemma claim_only:
  assumes "inbox_inv ib" "find_job ib k = Some job" "ib_status job = ''pending''" "ib_next_attempt_at job \<le> now"
  shows "\<exists>ib1. ClaimBatch healthy now (\<lambda>i. i \<noteq> k) 1 ib = (Inr [start_job now job], ib1) \<and>
    find_job ib1 k = Some (start_job now job)"
proof -
  have id: "ib_id job = k" using find_job_id [OF assms(2)] by simp
  have "picked now (\<lambda>i. i \<noteq> k) 1 (in_jobs ib) = [job]"
    by (rule picked_only [OF assms(1,2)]) (simp add: claimable_def assms id)
  then show ?thesis
    using assms(2) id by (simp add: ClaimBatch_def run_tx_def healthy_def find_job_def job_lookups)
qed

text \<open>A worker that gets hold of job \<open>k\<close> alone, with a working database, and cannot process it.\<close>

definition failing_worker :: "id64 \<Rightarrow> worker_env \<Rightarrow> bool" where
  "failing_worker k env = (wk_claim env = healthy \<and> wk_mark env k = healthy \<and>
     wk_locked env = (\<lambda>i. i \<noteq> k) \<and> (\<forall>job st. \<exists>e st'. process_job env job st = (Inl e, st')))"

lemma failing_round:
  assumes "inbox_inv ib" "find_job ib k = Some job" "ib_status job = ''pending''"
    "ib_next_attempt_at job \<le> wk_now env" "failing_worker k env"
  obtains e ib' st' where "processBatch env 1 (ib, st) = (ib', st')" "inbox_inv ib'"
    "find_job ib' k = Some (if ib_attempts job + 1 \<ge> ib_max_attempts job
       then dead_set (wk_now env) e (start_job (wk_now env) job)
       else retry_set (wk_now env) (ib_attempts job + 1) e
         (wk_now env + WebhookRetryDelay (wk_now env) (ib_attempts job + 1)) (start_job (wk_now env) job))"
proof -
  let ?now = "wk_now env" and ?job = "start_job (wk_now env) job"
  obtain ib1 where claim: "ClaimBatch healthy ?now (\<lambda>i. i \<noteq> k) 1 ib = (Inr [?job], ib1)"
    and found: "find_job ib1 k = Some ?job"
    using claim_only [OF assms(1-4)] by blast
  have id: "ib_id ?job = k" using find_job_id [OF found] by simp
  obtain e st' where fails: "process_job env ?job st = (Inl e, st')"
    using assms(5) unfolding failing_worker_def by blast
  have run: "processBatch env 1 (ib, st) = (settle healthy ?now ?job (Inl e) ib1, st')"
    using assms(5) claim fails id by (simp add: processBatch_def failing_worker_def handleOne_def)
  have "inbox_inv (settle healthy ?now ?job (Inl e) ib1)"
    using settle_inv claim_inv [OF assms(1) claim] found id by simp
  moreover have "ib_attempts ?job = ib_attempts job" "ib_max_attempts ?job = ib_max_attempts job"
    by (simp_all add: start_job_def)
  moreover have "c_stmt healthy 0" by (simp add: healthy_def)
  moreover have "find_job ib1 (ib_id ?job) = Some ?job" using found id by simp
  ultimately show thesis
    using settle_failed [of ib1 ?job ?job healthy ?now e] id by (intro that [OF run, of e]) simp_all
qed

text \<open>Rounds whose times are far enough apart for every retry to be due; a delay is at most 72 minutes.\<close>

fun spaced :: "time \<Rightarrow> worker_env list \<Rightarrow> bool" where
  "spaced t [] = True"
| "spaced t (env # envs) = (t \<le> wk_now env \<and> spaced (wk_now env + 73 * minute) envs)"

lemma retry_delay_le: "WebhookRetryDelay u k \<le> 73 * minute"
  using webhook_delay_range(2) [of u k] webhook_delay_range(4) [of k] by linarith

lemma failing_round_job:
  assumes "inbox_inv ib" "find_job ib k = Some job" "ib_status job = ''pending''"
    "spaced (ib_next_attempt_at job) (env # envs)" "failing_worker k env"
  obtains ib' st' job' where "processBatch env 1 (ib, st) = (ib', st')" "inbox_inv ib'"
    "find_job ib' k = Some job'" "ib_max_attempts job' = ib_max_attempts job"
    "if ib_attempts job + 1 \<ge> ib_max_attempts job
     then ib_status job' = ''dead_letter'' \<and> ib_attempts job' = ib_attempts job
     else ib_status job' = ''pending'' \<and> ib_attempts job' = ib_attempts job + 1 \<and>
       spaced (ib_next_attempt_at job') envs"
proof -
  let ?now = "wk_now env"
  have due: "ib_next_attempt_at job \<le> ?now" using assms(4) by simp
  obtain e ib' st' where run: "processBatch env 1 (ib, st) = (ib', st')" "inbox_inv ib'"
    "find_job ib' k = Some (if ib_attempts job + 1 \<ge> ib_max_attempts job
       then dead_set ?now e (start_job ?now job)
       else retry_set ?now (ib_attempts job + 1) e
         (?now + WebhookRetryDelay ?now (ib_attempts job + 1)) (start_job ?now job))"
    by (rule failing_round [OF assms(1-3) due assms(5)])
  moreover have "spaced (?now + WebhookRetryDelay ?now (ib_attempts job + 1)) envs"
    using assms(4) retry_delay_le [of ?now "ib_attempts job + 1"] by (cases envs) simp_all
  ultimately show thesis
    by (intro that [OF run]) (simp_all add: dead_set_def retry_set_def start_job_def)
qed

text \<open>
  C14. A job that cannot be processed does not stay in the queue: while it has attempts left it goes
  back to pending, and after as many failures as it has attempts left it is a dead letter, with
  its attempts one below the limit; so a replay from there gives it a single further try.
\<close>

theorem failing_job_dead_letter:
  assumes "inbox_inv ib" "find_job ib k = Some job" "ib_status job = ''pending''"
    "spaced (ib_next_attempt_at job) envs" "\<forall>env \<in> set envs. failing_worker k env"
    "length envs \<le> nat (ib_max_attempts job - ib_attempts job)"
  shows "\<exists>job'. find_job (fst (fold (\<lambda>env. processBatch env 1) envs (ib, st))) k = Some job' \<and>
    (if length envs = nat (ib_max_attempts job - ib_attempts job)
     then ib_status job' = ''dead_letter'' \<and> ib_attempts job' = ib_max_attempts job - 1
     else ib_status job' = ''pending'' \<and> ib_attempts job' = ib_attempts job + int (length envs)) \<and>
    ib_max_attempts job' = ib_max_attempts job"
  using assms
proof (induction envs arbitrary: ib job st)
  case Nil
  have "ib_attempts job < ib_max_attempts job"
    using Nil.prems(1) find_job_id [OF Nil.prems(2)] by (auto simp: inbox_inv_def job_ok_def)
  with Nil.prems show ?case by simp
next
  case (Cons env envs)
  have fw: "failing_worker k env" "\<forall>env \<in> set envs. failing_worker k env" using Cons.prems(5) by simp_all
  obtain ib' st' job1 where run: "processBatch env 1 (ib, st) = (ib', st')" and inv: "inbox_inv ib'"
    and found: "find_job ib' k = Some job1" and max: "ib_max_attempts job1 = ib_max_attempts job"
    and fields: "if ib_attempts job + 1 \<ge> ib_max_attempts job
     then ib_status job1 = ''dead_letter'' \<and> ib_attempts job1 = ib_attempts job
     else ib_status job1 = ''pending'' \<and> ib_attempts job1 = ib_attempts job + 1 \<and>
       spaced (ib_next_attempt_at job1) envs"
    by (rule failing_round_job [OF Cons.prems(1-4) fw(1)])
  have left: "ib_attempts job < ib_max_attempts job"
    using Cons.prems(1) find_job_id [OF Cons.prems(2)] by (auto simp: inbox_inv_def job_ok_def)
  show ?case
  proof (cases "ib_attempts job + 1 \<ge> ib_max_attempts job")
    case True
    then have "nat (ib_max_attempts job - ib_attempts job) = 1" using left by simp
    with Cons.prems(6) have "envs = []" by simp
    with True left fields found max show ?thesis by (simp add: run)
  next
    case False
    then have pending: "ib_status job1 = ''pending''" "spaced (ib_next_attempt_at job1) envs"
      "ib_attempts job1 = ib_attempts job + 1" using fields by simp_all
    have len: "Suc (length envs) \<le> nat (ib_max_attempts job - ib_attempts job)"
      using Cons.prems(6) by simp
    then have "length envs \<le> nat (ib_max_attempts job1 - ib_attempts job1)"
      unfolding max pending(3) by linarith
    from Cons.IH [OF inv found pending(1,2) fw(2) this, of st'] show ?thesis
      using len by (auto simp: run max pending(3) split: if_splits)
  qed
qed

definition pending_example :: inbox where
  "pending_example = \<lparr>in_jobs = [\<lparr>ib_id = 1, ib_key = ''entity:r'', ib_kind = ''entity'', ib_payload = [],
     ib_status = ''pending'', ib_attempts = 0, ib_max_attempts = 2, ib_next_attempt_at = 0,
     ib_last_error = None, ib_created_at = 0, ib_updated_at = 0, ib_processed_at = None\<rparr>], in_next = 2\<rparr>"

definition broken_worker :: "time \<Rightarrow> worker_env" where
  "broken_worker now = \<lparr>wk_now = now, wk_claim = healthy, wk_locked = (\<lambda>i. i \<noteq> 1), wk_mark = (\<lambda>_. healthy),
     wk_events = (\<lambda>_ _. \<lparr>we_sync = sync_example, we_key = (\<lambda>_. True), we_product = (\<lambda>_. Inr []),
       we_report = (\<lambda>_. Inr [])\<rparr>), wk_entity = (\<lambda>_. None), wk_stock = (\<lambda>_. None)\<rparr>"

lemma broken_worker_fails: "failing_worker 1 (broken_worker now)"
  by (simp add: failing_worker_def broken_worker_def process_job_def ProcessEntityPayload_def
      ProcessStockPayload_def)

theorem failing_job_dead_letter_witness:
  "map_option ib_status (find_job (fst (fold (\<lambda>env. processBatch env 1)
     [broken_worker 0, broken_worker (73 * minute)] (pending_example, sync_start))) 1) = Some ''dead_letter''"
proof -
  have "inbox_inv pending_example" by (simp add: pending_example_def inbox_inv_def job_ok_def)
  from failing_job_dead_letter [OF this, of 1 "hd (in_jobs pending_example)"
      "[broken_worker 0, broken_worker (73 * minute)]" sync_start]
  show ?thesis
    by (auto simp: pending_example_def find_job_def broken_worker_fails) (auto simp: broken_worker_def)
qed

text \<open>
  A job whose worker is gone stays in processing for ever: the worker's last statement runs in the
  context the processing may have used up, nothing claims a job that is not pending, and a replay
  only takes dead letters; whatever else happens to the inbox, the row does not change again.
\<close>

theorem processing_job_stuck:
  assumes "(inbox_step live)\<^sup>*\<^sup>* ib ib'" "inbox_inv ib" "find_job ib k = Some job"
    "ib_status job = ''processing''" "\<not> live k"
  shows "find_job ib' k = Some job"
proof -
  have keep: "find_job ib2 k = Some job"
    if "inbox_step live ib1 ib2" "find_job ib1 k = Some job" "inbox_inv ib1" for ib1 ib2
    using that
  proof (cases rule: inbox_step.cases)
    case (enqueue c now valid kind key payload m r)
    with that show ?thesis
      by (auto simp: Enqueue_def find_job_def find_row_append Let_def split: if_splits)
  next
    case (claim c now locked limit jobs)
    have keys: "distinct (map ib_id (in_jobs ib1))" using that(3) by (simp add: inbox_inv_def)
    have "k \<notin> ib_id ` set (picked now locked limit (in_jobs ib1))"
    proof
      assume "k \<in> ib_id ` set (picked now locked limit (in_jobs ib1))"
      then obtain j where "j \<in> set (in_jobs ib1)" "ib_id j = k" "ib_status j = ''pending''"
        by (auto simp: picked_def claimable_def dest!: in_set_takeD)
      moreover have "find_job ib1 (ib_id j) = Some j" if "j \<in> set (in_jobs ib1)" for j
        unfolding find_job_def by (rule inbox_rows.find_row_unique [OF keys that])
      ultimately show False using that(2) assms(4) by fastforce
    qed
    then show ?thesis
      using claim that(2) find_job_id [OF that(2)]
      by (auto simp: ClaimBatch_def run_tx_def find_job_def job_lookups Let_def split: if_splits)
  next
    case (replay c now j r)
    with that(2) assms(4) show ?thesis
      by (auto simp: Replay_def find_job_def job_lookups Let_def split: if_splits)
  next
    case (settle j c now res)
    then have "ib_id j \<noteq> k" using assms(5) by auto
    with settle that(2) show ?thesis by (simp add: settle_other)
  qed
  have "find_job ib' k = Some job \<and> inbox_inv ib'"
    using assms(1-3)
  proof (induction rule: rtranclp_induct)
    case (step ib1 ib2)
    then have "inbox_inv ib2"
      by (auto elim!: inbox_stepE intro: enqueue_inv claim_inv replay_inv settle_inv)
    with step keep show ?case by blast
  qed simp
  then show ?thesis by simp
qed

theorem processing_job_stuck_witness:
  "find_job (snd (Replay healthy 9 1 (snd (ClaimBatch healthy 8 (\<lambda>_. False) 10 inbox_example)))) 1 =
    find_job inbox_example 1"
proof -
  let ?ib = "snd (ClaimBatch healthy 8 (\<lambda>_. False) 10 inbox_example)"
  have "inbox_step (\<lambda>_. False) inbox_example ?ib"
    by (rule inbox_step.claim) (rule prod.collapse [symmetric])
  moreover have "inbox_step (\<lambda>_. False) ?ib (snd (Replay healthy 9 1 ?ib))"
    by (rule inbox_step.replay) (rule prod.collapse [symmetric])
  ultimately have "(inbox_step (\<lambda>_. False))\<^sup>*\<^sup>* inbox_example (snd (Replay healthy 9 1 ?ib))" by auto
  from processing_job_stuck [OF this inbox_example_inv, of 1 "hd (in_jobs inbox_example)"] show ?thesis
    by (simp add: inbox_example_def find_job_def)
qed


definition handler_example :: webhook_handler where
  "handler_example = \<lparr>hd_hmac = (\<lambda>k m. k @ m), hd_sha256 = id, hd_valid_json = (\<lambda>_. True),
     hd_secret = ''k'', hd_max_attempts = 3\<rparr>"


text \<open>
  A product webhook loses the category: an update that comes through the queue writes the product
  as built from the answer of Moysklad alone, so a product that was in a category is in none
  afterwards (a full sync keeps the category), and a product without images loses its picture.
\<close>

theorem webhook_update_loses_category:
  assumes "products_inv (ss_db st)" "row_by_ms (ss_db st) msID = Some e"
    "we_product env msID = Inr (mp # mps)" "sy_conn (we_sync env) 0 = healthy"
  shows "\<exists>st' row. syncProduct env msID st = (Inr (), st') \<and> row_by_ms (ss_db st') msID = Some row \<and>
    p_id row = p_id e \<and> p_name row = mp_name mp \<and> p_price row = sync_price mp \<and>
    p_category_id row = None \<and> p_image_url row = first_image mp \<and> products_inv (ss_db st')"
proof -
  let ?p = "(webhook_product msID mp)\<lparr>p_id := p_id e\<rparr>" and ?now = "sy_now (we_sync env)"
  have p: "p_moysklad_id ?p = Some msID" "p_status ?p \<in> product_statuses" "p_category_id ?p = None"
      "p_name ?p = mp_name mp" "p_price ?p = sync_price mp" "p_image_url ?p = first_image mp"
    using stock_status_ok by (simp_all add: webhook_product_def Let_def blank_product_def)
  have c: "c_stmt healthy 0" "c_stmt healthy 1" by (simp_all add: healthy_def)
  obtain row db' where upd: "product_Update healthy 1 ?now ?p (p_id e) (ss_db st) = (Inr row, db')"
    and inv: "products_inv db'" and found: "row_by_ms db' msID = Some (product_columns (?p\<lparr>p_updated_at := ?now\<rparr>) e)"
    by (rule Update_row [OF assms(1,2) p(1) c(2) p(2), of ?now]) (use p(3) in auto)
  have get: "product_GetByMoyskladID healthy 0 msID (ss_db st) = Inr (Some e)"
    using GetByMoyskladID_row [OF assms(1) c(1)] assms(2) by simp
  obtain rd where run: "syncProduct env msID st = (Inr (), st\<lparr>ss_db := db', ss_redis := rd\<rparr>)"
    using assms(3,4) get upd by (auto simp: syncProduct_def Let_def)
  show ?thesis
    using run inv found p
    by (intro exI [of _ "st\<lparr>ss_db := db', ss_redis := rd\<rparr>"]
        exI [of _ "product_columns (?p\<lparr>p_updated_at := ?now\<rparr>) e"] conjI) (simp_all add: product_columns_def)
qed

theorem webhook_update_loses_category_witness:
  "\<exists>row. row_by_ms (ss_db (snd (syncProduct \<lparr>we_sync = sync_example, we_key = (\<lambda>_. True),
      we_product = (\<lambda>_. Inr [ms_example]), we_report = (\<lambda>_. Inr [])\<rparr> ''a'' (sync_start\<lparr>ss_db :=
        empty_shop\<lparr>products := [(mk_product 1 5 2)\<lparr>p_moysklad_id := Some ''a'', p_category_id := Some 4\<rparr>],
          next_product := 2, categories := [\<lparr>c_id = 4, c_name = ''c'', c_description = None,
          c_parent_id = None, c_created_at = None\<rparr>]\<rparr>\<rparr>)))) ''a'' = Some row \<and> p_category_id row = None"
proof -
  let ?db = "empty_shop\<lparr>products := [(mk_product 1 5 2)\<lparr>p_moysklad_id := Some ''a'', p_category_id := Some 4\<rparr>],
    next_product := 2, categories := [\<lparr>c_id = 4, c_name = ''c'', c_description = None,
    c_parent_id = None, c_created_at = None\<rparr>]\<rparr>"
  have "products_inv (ss_db (sync_start\<lparr>ss_db := ?db\<rparr>))"
    by (simp add: products_inv_def empty_shop_def mk_product_def)
  from webhook_update_loses_category [OF this, of "''a''" "hd (products ?db)" "\<lparr>we_sync = sync_example,
      we_key = (\<lambda>_. True), we_product = (\<lambda>_. Inr [ms_example]), we_report = (\<lambda>_. Inr [])\<rparr>" ms_example "[]"]
  show ?thesis by (auto simp: row_by_ms_def)
qed

end
