(* ===== verification/Users.thy ===== *)
theory Users
  imports Schema Text
begin

text \<open>
  internal/db/users.go and internal/usecase/user.go: the table of users with its statements, and
  what the use case does with it: registration, verification codes, login, profile and password.
  Usernames and e-mails are unique; e-mails are compared without regard to case. Random numbers
  and the password hash are arguments. The length limits of the columns count
  characters, some of those of the code bytes.
\<close>

section \<open>The table\<close>

record user =
  us_id :: id64
  us_username :: string
  us_password :: string
  us_email :: string
  us_role_id :: id64
  us_access_token_secret :: "string option"
  us_refresh_token_secret :: "string option"
  us_access_token_jti :: "string option"
  us_refresh_token_jti :: "string option"
  us_auth_time :: "time option"
  us_created_at :: "time option"
  us_updated_at :: "time option"
  us_email_verified :: bool
  us_email_verification_token :: "string option"
  us_email_verification_code :: "string option"
  us_verification_expires_at :: "time option"
  us_website :: "string option"
  us_full_name :: "string option"
  us_phone :: "string option"

record users_db =
  users :: "user list"
  next_user :: id64

definition blank_user :: user where
  "blank_user = \<lparr>us_id = 0, us_username = [], us_password = [], us_email = [], us_role_id = 0,
     us_access_token_secret = None, us_refresh_token_secret = None, us_access_token_jti = None,
     us_refresh_token_jti = None, us_auth_time = None, us_created_at = None, us_updated_at = None,
     us_email_verified = False, us_email_verification_token = None, us_email_verification_code = None,
     us_verification_expires_at = None, us_website = None, us_full_name = None, us_phone = None\<rparr>"

interpretation user_rows: keyed_table us_id .

definition same_email :: "string \<Rightarrow> user \<Rightarrow> bool" where
  "same_email email u = (ToLower (us_email u) = ToLower email)"

section \<open>Reading\<close>

definition scan_user :: "conn \<Rightarrow> nat \<Rightarrow> (user \<Rightarrow> bool) \<Rightarrow> users_db \<Rightarrow> user option result" where
  "scan_user c k P ub =
     (if \<not> c_stmt c k then Inl DbError
      else case scan_one (filter P (users ub)) of
        NoRows \<Rightarrow> Inr None
      | OneRow u \<Rightarrow> Inr (Some u)
      | ManyRows \<Rightarrow> Inl DbError)"

lemma scan_user_Some: "scan_user c k P ub = Inr (Some u) \<Longrightarrow> u \<in> set (users ub) \<and> P u"
  by (auto simp: scan_user_def scan_one_eqs filter_eq_Cons_iff split: if_splits scan.splits)

definition user_GetByID :: "conn \<Rightarrow> nat \<Rightarrow> id64 \<Rightarrow> users_db \<Rightarrow> user option result" where
  "user_GetByID c k uid ub = scan_user c k (\<lambda>u. us_id u = uid) ub"

definition GetByUsername :: "conn \<Rightarrow> nat \<Rightarrow> string \<Rightarrow> users_db \<Rightarrow> user option result" where
  "GetByUsername c k username ub = scan_user c k (\<lambda>u. us_username u = username) ub"

definition GetByEmail :: "conn \<Rightarrow> nat \<Rightarrow> string \<Rightarrow> users_db \<Rightarrow> user option result" where
  "GetByEmail c k email ub = scan_user c k (same_email email) ub"

definition ExistsByUsernameOrEmail :: "conn \<Rightarrow> nat \<Rightarrow> string \<Rightarrow> string \<Rightarrow> users_db \<Rightarrow> bool result" where
  "ExistsByUsernameOrEmail c k username email ub =
     (if \<not> c_stmt c k then Inl DbError
      else Inr (0 < length (filter (\<lambda>u. us_username u = username \<or> same_email email u) (users ub))))"

text \<open>Only some columns are read; the others keep Go's zero values.\<close>

definition GetByEmailVerificationToken :: "conn \<Rightarrow> nat \<Rightarrow> string \<Rightarrow> users_db \<Rightarrow> user result" where
  "GetByEmailVerificationToken c k token ub =
     (case scan_user c k (\<lambda>u. us_email_verification_token u = Some token) ub of
        Inl e \<Rightarrow> Inl e
      | Inr None \<Rightarrow> Inl DbError
      | Inr (Some u) \<Rightarrow> Inr (blank_user\<lparr>us_id := us_id u, us_username := us_username u,
          us_email := us_email u, us_email_verified := us_email_verified u,
          us_email_verification_token := us_email_verification_token u\<rparr>))"

definition code_live :: "time \<Rightarrow> string \<Rightarrow> user \<Rightarrow> bool" where
  "code_live now code u = (us_email_verification_code u = Some code \<and>
     (case us_verification_expires_at u of Some t \<Rightarrow> now < t | None \<Rightarrow> False))"

definition GetByEmailAndCode :: "conn \<Rightarrow> nat \<Rightarrow> time \<Rightarrow> string \<Rightarrow> string \<Rightarrow> users_db \<Rightarrow> user result" where
  "GetByEmailAndCode c k now email code ub =
     (case scan_user c k (\<lambda>u. same_email email u \<and> code_live now code u) ub of
        Inl e \<Rightarrow> Inl e
      | Inr None \<Rightarrow> Inl (Rejected ''invalid or expired verification code'')
      | Inr (Some u) \<Rightarrow> Inr u)"

section \<open>Writing\<close>

definition fits :: "nat \<Rightarrow> string option \<Rightarrow> bool" where
  "fits n s = (case s of Some x \<Rightarrow> runes x \<le> n | None \<Rightarrow> True)"

text \<open>NOT NULL, the lengths of the VARCHAR columns and the two UNIQUE constraints.\<close>

definition row_admitted :: "user list \<Rightarrow> user \<Rightarrow> bool" where
  "row_admitted rest u = (runes (us_username u) \<le> 100 \<and> runes (us_email u) \<le> 255 \<and>
     runes (us_password u) \<le> 255 \<and> us_full_name u \<noteq> None \<and> us_phone u \<noteq> None \<and>
     fits 255 (us_full_name u) \<and> fits 50 (us_phone u) \<and> fits 6 (us_email_verification_code u) \<and>
     us_username u \<notin> us_username ` set rest \<and> us_email u \<notin> us_email ` set rest)"

text \<open>The columns of the INSERT; the identifier, the times and the token ids have defaults.\<close>

definition inserted_user :: "time \<Rightarrow> user \<Rightarrow> users_db \<Rightarrow> user" where
  "inserted_user now u ub = u\<lparr>us_id := next_user ub, us_access_token_jti := None,
     us_refresh_token_jti := None, us_created_at := Some now, us_updated_at := Some now\<rparr>"

definition insert_user :: "conn \<Rightarrow> nat \<Rightarrow> time \<Rightarrow> user \<Rightarrow> users_db \<Rightarrow> (user \<times> users_db) result" where
  "insert_user c k now u ub =
     (let row = inserted_user now u ub
      in if c_stmt c k \<and> row_admitted (users ub) row
         then Inr (row, ub\<lparr>users := users ub @ [row], next_user := next_user ub + 1\<rparr>)
         else Inl DbError)"

definition user_Insert :: "conn \<Rightarrow> nat \<Rightarrow> time \<Rightarrow> user \<Rightarrow> users_db \<Rightarrow> user result \<times> users_db" where
  "user_Insert c k now u ub =
     (case insert_user c k now u ub of Inl e \<Rightarrow> (Inl e, ub) | Inr (row, ub') \<Rightarrow> (Inr row, ub'))"

text \<open>The same INSERT on the tables of a transaction.\<close>

definition InsertWithTx :: "conn \<Rightarrow> nat \<Rightarrow> time \<Rightarrow> user \<Rightarrow> users_db \<Rightarrow> (user \<times> users_db) result" where
  "InsertWithTx c k now u ub = insert_user c k now u ub"

text \<open>An UPDATE of the row with a key; with RETURNING, no row is an error.\<close>

definition user_update :: "conn \<Rightarrow> nat \<Rightarrow> (user \<Rightarrow> user) \<Rightarrow> id64 \<Rightarrow> users_db \<Rightarrow> unit result \<times> users_db" where
  "user_update c k f uid ub =
     (if c_stmt c k then (Inr (), ub\<lparr>users := sql_update (\<lambda>u. us_id u = uid) f (users ub)\<rparr>)
      else (Inl DbError, ub))"

definition user_update_returning ::
  "conn \<Rightarrow> nat \<Rightarrow> (user \<Rightarrow> user) \<Rightarrow> id64 \<Rightarrow> users_db \<Rightarrow> user result \<times> users_db" where
  "user_update_returning c k f uid ub =
     (let hit = (\<lambda>u. us_id u = uid)
      in if \<not> c_stmt c k \<or> \<not> list_all (\<lambda>u. row_admitted (sql_delete hit (users ub)) (f u)) (filter hit (users ub))
         then (Inl DbError, ub)
         else case scan_one (sql_returning hit f (users ub)) of
           OneRow row \<Rightarrow> (Inr row, ub\<lparr>users := sql_update hit f (users ub)\<rparr>)
         | _ \<Rightarrow> (Inl DbError, ub))"

definition user_columns :: "user \<Rightarrow> user \<Rightarrow> user" where
  "user_columns v u = u\<lparr>us_username := us_username v, us_password := us_password v,
     us_updated_at := us_updated_at v, us_full_name := us_full_name v, us_phone := us_phone v\<rparr>"

definition user_Update :: "conn \<Rightarrow> nat \<Rightarrow> user \<Rightarrow> id64 \<Rightarrow> users_db \<Rightarrow> user result \<times> users_db" where
  "user_Update c k v uid ub = user_update_returning c k (user_columns v) uid ub"

definition UpdateLoginOrLogout :: "conn \<Rightarrow> nat \<Rightarrow> user \<Rightarrow> id64 \<Rightarrow> users_db \<Rightarrow> user result \<times> users_db" where
  "UpdateLoginOrLogout c k v uid ub = user_update_returning c k
     (\<lambda>u. u\<lparr>us_access_token_jti := us_access_token_jti v, us_refresh_token_jti := us_refresh_token_jti v,
        us_updated_at := us_updated_at v\<rparr>) uid ub"

definition UpdateAuthTime :: "conn \<Rightarrow> nat \<Rightarrow> time \<Rightarrow> id64 \<Rightarrow> users_db \<Rightarrow> user result \<times> users_db" where
  "UpdateAuthTime c k now uid ub = user_update_returning c k (\<lambda>u. u\<lparr>us_auth_time := Some now\<rparr>) uid ub"

definition code_set :: "string \<Rightarrow> time \<Rightarrow> user \<Rightarrow> user" where
  "code_set code expiresAt u = u\<lparr>us_email_verification_code := Some code,
     us_verification_expires_at := Some expiresAt\<rparr>"

definition UpdateVerificationCode ::
  "conn \<Rightarrow> nat \<Rightarrow> id64 \<Rightarrow> string \<Rightarrow> time \<Rightarrow> users_db \<Rightarrow> unit result \<times> users_db" where
  "UpdateVerificationCode c k uid code expiresAt ub =
     (if fits 6 (Some code) then user_update c k (code_set code expiresAt) uid ub else (Inl DbError, ub))"

definition verified_set :: "user \<Rightarrow> user" where
  "verified_set u = u\<lparr>us_email_verified := True, us_email_verification_code := None,
     us_verification_expires_at := None\<rparr>"

definition VerifyEmailByCode :: "conn \<Rightarrow> nat \<Rightarrow> id64 \<Rightarrow> users_db \<Rightarrow> unit result \<times> users_db" where
  "VerifyEmailByCode c k uid ub = user_update c k verified_set uid ub"

text \<open>Without a value to set the statement cannot be built.\<close>

definition UpdateEmailVerification ::
  "conn \<Rightarrow> nat \<Rightarrow> id64 \<Rightarrow> bool \<Rightarrow> string option \<Rightarrow> users_db \<Rightarrow> unit result \<times> users_db" where
  "UpdateEmailVerification c k uid verified token ub =
     (if verified then user_update c k (\<lambda>u. u\<lparr>us_email_verified := True,
          us_email_verification_token := (if token = None then us_email_verification_token u else None)\<rparr>) uid ub
      else case token of
        Some t \<Rightarrow> user_update c k (\<lambda>u. u\<lparr>us_email_verification_token := Some t\<rparr>) uid ub
      | None \<Rightarrow> (Inl (Rejected ''failed to build query''), ub))"

definition user_Delete :: "conn \<Rightarrow> nat \<Rightarrow> id64 \<Rightarrow> users_db \<Rightarrow> unit result \<times> users_db" where
  "user_Delete c k uid ub =
     (if \<not> c_stmt c k then (Inl DbError, ub)
      else if filter (\<lambda>u. us_id u = uid) (users ub) = [] then (Inl (RejectedItem ''no user found'' uid), ub)
      else (Inr (), ub\<lparr>users := sql_delete (\<lambda>u. us_id u = uid) (users ub)\<rparr>))"

definition DeleteUnverifiedUsers :: "conn \<Rightarrow> nat \<Rightarrow> time \<Rightarrow> users_db \<Rightarrow> nat result \<times> users_db" where
  "DeleteUnverifiedUsers c k cutoff ub =
     (let old = (\<lambda>u. \<not> us_email_verified u \<and>
            (case us_created_at u of Some t \<Rightarrow> t < cutoff | None \<Rightarrow> False))
      in if c_stmt c k then (Inr (length (filter old (users ub))), ub\<lparr>users := sql_delete old (users ub)\<rparr>)
         else (Inl DbError, ub))"

section \<open>The use case\<close>

record register_request =
  rg_username :: string
  rg_email :: string
  rg_phone :: string
  rg_name :: string
  rg_website :: string

definition normalizeEmail :: "string \<Rightarrow> string" where
  "normalizeEmail email = ToLower (TrimSpace email)"

text \<open>The random number \<open>n\<close> is below 900000; \<open>%06d\<close> pads with zeros.\<close>

definition GenerateVerificationCode :: "nat \<Rightarrow> string" where
  "GenerateVerificationCode n =
     (let s = decimal (100000 + n) in replicate (6 - length s) (CHR ''0'') @ s)"

text \<open>The name a user gets who gave none: the local part of the e-mail and a random number.\<close>

definition username_for :: "nat \<Rightarrow> string \<Rightarrow> register_request \<Rightarrow> string" where
  "username_for n email req =
     (if rg_username req = [] then ToLower (takeWhile (\<lambda>ch. ch \<noteq> CHR ''@'') email) @ decimal n
      else rg_username req)"

definition new_user :: "string \<Rightarrow> string \<Rightarrow> register_request \<Rightarrow> time \<Rightarrow> user" where
  "new_user username email req now = blank_user\<lparr>us_username := username, us_email := email,
     us_password := [], us_role_id := 2, us_email_verified := False, us_full_name := Some (rg_name req),
     us_phone := Some (rg_phone req), us_created_at := Some now, us_updated_at := Some now\<rparr>"

text \<open>What both ways to register do before they write: the row to insert, or why not.\<close>

definition admit_registration ::
  "conn \<Rightarrow> nat \<Rightarrow> time \<Rightarrow> register_request \<Rightarrow> users_db \<Rightarrow> user result" where
  "admit_registration c n now req ub =
     (let email = normalizeEmail (rg_email req); username = username_for n email req
      in if email = [] \<or> rg_name req = [] \<or> rg_phone req = [] then Inl (Rejected ''email, name and phone are required'')
         else if TrimSpace (rg_website req) \<noteq> [] then Inl (Rejected ''bot'')
         else case ExistsByUsernameOrEmail c 0 username email ub of
           Inl e \<Rightarrow> Inl e
         | Inr True \<Rightarrow> Inl (Rejected ''user exists'')
         | Inr False \<Rightarrow> Inr (new_user username email req now))"

text \<open>\<open>others\<close> is what other requests do to the table between the check and the INSERT.\<close>

definition Register ::
  "conn \<Rightarrow> nat \<Rightarrow> time \<Rightarrow> (users_db \<Rightarrow> users_db) \<Rightarrow> register_request \<Rightarrow> users_db \<Rightarrow> user result \<times> users_db" where
  "Register c n now others req ub =
     (case admit_registration c n now req ub of
        Inl e \<Rightarrow> (Inl e, ub)
      | Inr u \<Rightarrow> user_Insert c 1 now u (others ub))"

definition RegisterWithTransaction ::
  "conn \<Rightarrow> nat \<Rightarrow> time \<Rightarrow> (users_db \<Rightarrow> users_db) \<Rightarrow> register_request \<Rightarrow> users_db \<Rightarrow> user result \<times> users_db" where
  "RegisterWithTransaction c n now others req ub =
     (case admit_registration c n now req ub of
        Inl e \<Rightarrow> (Inl e, ub)
      | Inr u \<Rightarrow> run_tx (c_begin c) (c_commit c) (InsertWithTx c 1 now u) (others ub))"

definition SaveVerificationCode ::
  "conn \<Rightarrow> nat \<Rightarrow> time \<Rightarrow> id64 \<Rightarrow> string \<Rightarrow> users_db \<Rightarrow> unit result \<times> users_db" where
  "SaveVerificationCode c k now uid code ub = UpdateVerificationCode c k uid code (now + 10 * minute) ub"

definition uc_VerifyEmailByCode ::
  "conn \<Rightarrow> time \<Rightarrow> string \<Rightarrow> string \<Rightarrow> users_db \<Rightarrow> user result \<times> users_db" where
  "uc_VerifyEmailByCode c now email code ub =
     (case GetByEmailAndCode c 0 now (normalizeEmail email) code ub of
        Inl e \<Rightarrow> (Inl (Rejected ''invalid or expired code''), ub)
      | Inr u \<Rightarrow>
          (case VerifyEmailByCode c 1 (us_id u) ub of
             (Inl e, ub') \<Rightarrow> (Inl e, ub')
           | (Inr _, ub') \<Rightarrow> (Inr (verified_set u), ub')))"

definition uc_Login :: "conn \<Rightarrow> nat \<Rightarrow> string \<Rightarrow> users_db \<Rightarrow> user result" where
  "uc_Login c k email ub =
     (let email = normalizeEmail email
      in if email = [] then Inl (Rejected ''email is required'')
         else case GetByEmail c k email ub of
           Inl e \<Rightarrow> Inl e
         | Inr None \<Rightarrow> Inl (Rejected ''user not found'')
         | Inr (Some u) \<Rightarrow> Inr u)"

definition GetUserByEmail :: "conn \<Rightarrow> nat \<Rightarrow> string \<Rightarrow> users_db \<Rightarrow> user result" where
  "GetUserByEmail c k email ub =
     (case GetByEmail c k (normalizeEmail email) ub of
        Inl e \<Rightarrow> Inl e
      | Inr None \<Rightarrow> Inl (Rejected ''user not found'')
      | Inr (Some u) \<Rightarrow> Inr u)"

definition GetProfile :: "conn \<Rightarrow> id64 \<Rightarrow> users_db \<Rightarrow> user result" where
  "GetProfile c uid ub =
     (case user_GetByID c 0 uid ub of
        Inl e \<Rightarrow> Inl e
      | Inr None \<Rightarrow> Inl (Rejected ''user not found'')
      | Inr (Some u) \<Rightarrow> Inr (u\<lparr>us_password := [], us_access_token_secret := None,
          us_refresh_token_secret := None\<rparr>))"

definition phone_ok :: "string \<Rightarrow> bool" where
  "phone_ok phone = (let digits = filter is_digit phone
     in length digits = 11 \<and> (hd digits = CHR ''7'' \<or> hd digits = CHR ''8''))"

text \<open>The two fields of the request map that the code reads, when they are strings.\<close>

definition UpdateProfile ::
  "conn \<Rightarrow> id64 \<Rightarrow> string option \<Rightarrow> string option \<Rightarrow> users_db \<Rightarrow> user result \<times> users_db" where
  "UpdateProfile c uid fullName phone ub =
     (case user_GetByID c 0 uid ub of
        Inl e \<Rightarrow> (Inl e, ub)
      | Inr None \<Rightarrow> (Inl (Rejected ''user not found''), ub)
      | Inr (Some u) \<Rightarrow>
          if case fullName of Some s \<Rightarrow> 32 < length s | None \<Rightarrow> False then (Inl (Rejected ''name is too long''), ub)
          else if case phone of Some p \<Rightarrow> \<not> phone_ok p | None \<Rightarrow> False then (Inl (Rejected ''invalid phone''), ub)
          else user_Update c 1 (u\<lparr>us_full_name := (if fullName = None then us_full_name u else fullName),
                 us_phone := (if phone = None then us_phone u else phone)\<rparr>) uid ub)"

definition between :: "nat \<Rightarrow> nat \<Rightarrow> char \<Rightarrow> bool" where
  "between a b ch = (a \<le> of_char ch \<and> of_char ch \<le> b)"

definition isPasswordStrong :: "string \<Rightarrow> bool" where
  "isPasswordStrong password =
     (8 \<le> length password \<and>
      3 \<le> length (filter id
        [list_ex (between 65 90) password, list_ex (between 97 122) password,
         list_ex (between 48 57) password, list_ex (\<lambda>ch. ch \<in> set ''!@#$%^&*'') password]))"

text \<open>\<open>hash\<close> is bcrypt. A user that is gone is dereferenced all the same.\<close>

definition uc_ResetPassword ::
  "(string \<Rightarrow> string result) \<Rightarrow> conn \<Rightarrow> nat \<Rightarrow> time \<Rightarrow> id64 \<Rightarrow> string \<Rightarrow> users_db \<Rightarrow> unit result \<times> users_db" where
  "uc_ResetPassword hash c k now uid newPassword ub =
     (if \<not> isPasswordStrong newPassword then (Inl (Rejected ''password is too simple''), ub)
      else case hash newPassword of
        Inl e \<Rightarrow> (Inl e, ub)
      | Inr hashed \<Rightarrow>
          (case user_GetByID c k uid ub of
             Inl e \<Rightarrow> (Inl e, ub)
           | Inr None \<Rightarrow> (Inl (Panic ''nil pointer dereference''), ub)
           | Inr (Some u) \<Rightarrow>
               (case user_Update c (k + 1) (u\<lparr>us_password := hashed, us_updated_at := Some now\<rparr>) uid ub of
                  (Inl e, ub') \<Rightarrow> (Inl e, ub')
                | (Inr _, ub') \<Rightarrow> (Inr (), ub'))))"

definition ClearVerificationCode :: "conn \<Rightarrow> nat \<Rightarrow> id64 \<Rightarrow> users_db \<Rightarrow> unit result \<times> users_db" where
  "ClearVerificationCode c k uid ub = VerifyEmailByCode c k uid ub"

section \<open>Codes\<close>

definition code_shape :: "string \<Rightarrow> bool" where
  "code_shape code = (length code = 6 \<and> list_all is_digit code)"

lemma GenerateVerificationCode_shape: "n < 900000 \<Longrightarrow> code_shape (GenerateVerificationCode n)"
  using length_decimal [of 5 "100000 + n"] decimal_digits [of "100000 + n"]
  by (simp add: code_shape_def GenerateVerificationCode_def Let_def)

section \<open>What keeps the accounts\<close>

abbreviation find_user :: "users_db \<Rightarrow> id64 \<Rightarrow> user option" where
  "find_user ub \<equiv> find_row us_id (users ub)"

definition user_ok :: "user \<Rightarrow> bool" where
  "user_ok u = (ToLower (us_email u) = us_email u \<and>
     (us_email_verification_code u = None \<longleftrightarrow> us_verification_expires_at u = None) \<and>
     (case us_email_verification_code u of Some code \<Rightarrow> code_shape code | None \<Rightarrow> True))"

definition users_inv :: "users_db \<Rightarrow> bool" where
  "users_inv ub = (distinct (map us_id (users ub)) \<and> distinct (map us_username (users ub)) \<and>
     distinct (map us_email (users ub)) \<and> (\<forall>u \<in> set (users ub). us_id u < next_user ub \<and> user_ok u))"

text \<open>
  What every operation of the accounts does at most: it keeps the invariant, the role and the e-mail
  of each user, and the users it adds are ordinary ones.
\<close>

definition carried :: "user option \<Rightarrow> user option \<Rightarrow> bool" where
  "carried a b = (case a of
     Some u \<Rightarrow> (\<exists>u'. b = Some u' \<and> us_role_id u' = us_role_id u \<and> us_email u' = us_email u)
   | None \<Rightarrow> (\<forall>u'. b = Some u' \<longrightarrow> us_role_id u' = 2))"

definition keeps_accounts :: "users_db \<Rightarrow> users_db \<Rightarrow> bool" where
  "keeps_accounts ub ub' =
     (users_inv ub \<longrightarrow> users_inv ub' \<and> (\<forall>k. carried (find_user ub k) (find_user ub' k)))"

lemma carried_trans: "carried a b \<Longrightarrow> carried b c \<Longrightarrow> carried a c"
  by (cases a; cases b; cases c) (auto simp: carried_def)

lemma keeps_refl [invar_intros]: "keeps_accounts ub ub"
  by (auto simp: keeps_accounts_def carried_def split: option.splits)

lemma keeps_trans [trans]: "keeps_accounts a b \<Longrightarrow> keeps_accounts b c \<Longrightarrow> keeps_accounts a c"
  unfolding keeps_accounts_def using carried_trans by blast

lemma distinct_map_update:
  assumes "distinct (map key rows)" "distinct (map h rows)"
    "\<And>r. r \<in> set rows \<Longrightarrow> key r = k \<Longrightarrow> h (f r) \<notin> h ` set (sql_delete (\<lambda>r. key r = k) rows)"
  shows "distinct (map h (sql_update (\<lambda>r. key r = k) f rows))"
  using assms
proof (induction rows)
  case (Cons r rows)
  show ?case
  proof (cases "key r = k")
    case True
    then have "sql_update (\<lambda>r. key r = k) f rows = rows" "sql_delete (\<lambda>r. key r = k) rows = rows"
      using Cons.prems(1) by (auto simp: sql_delete_def filter_id_conv image_iff intro!: sql_update_none)
    then show ?thesis using Cons.prems True by fastforce
  next
    case False
    have "h r \<notin> h ` set (sql_update (\<lambda>r. key r = k) f rows)"
      using Cons.prems(2,3) False by (fastforce simp: set_sql_update)
    moreover have "h (f q) \<notin> h ` set (sql_delete (\<lambda>r. key r = k) rows)" if "q \<in> set rows" "key q = k" for q
      using Cons.prems(3) [of q] that False by simp
    then have "distinct (map h (sql_update (\<lambda>r. key r = k) f rows))"
      using Cons.IH Cons.prems(1,2) by simp
    ultimately show ?thesis using False by simp
  qed
qed simp

lemma sql_update_map: "(\<And>r. h (f r) = h r) \<Longrightarrow> map h (sql_update P f rows) = map h rows"
  by (induction rows) auto

text \<open>An UPDATE of one row: what its assignment may change, and a new username must be free.\<close>

lemma keeps_update:
  assumes f: "\<And>u. us_id (f u) = us_id u \<and> us_role_id (f u) = us_role_id u \<and> us_email (f u) = us_email u"
    and ok: "\<And>u. user_ok u \<Longrightarrow> user_ok (f u)"
    and free: "\<And>u. u \<in> set (users ub) \<Longrightarrow> us_id u = uid \<Longrightarrow> us_username (f u) \<noteq> us_username u \<Longrightarrow>
      us_username (f u) \<notin> us_username ` set (sql_delete (\<lambda>u. us_id u = uid) (users ub))"
  shows "keeps_accounts ub (ub\<lparr>users := sql_update (\<lambda>u. us_id u = uid) f (users ub)\<rparr>)"
  unfolding keeps_accounts_def
proof (intro impI conjI allI)
  let ?us = "sql_update (\<lambda>u. us_id u = uid) f (users ub)"
  assume inv: "users_inv ub"
  have ids: "distinct (map us_id (users ub))" and names: "distinct (map us_username (users ub))"
    using inv by (auto simp: users_inv_def)
  have "us_username (f u) \<notin> us_username ` set (sql_delete (\<lambda>u. us_id u = uid) (users ub))"
    if u: "u \<in> set (users ub)" "us_id u = uid" for u
  proof (cases "us_username (f u) = us_username u")
    case True
    show ?thesis
    proof
      assume "us_username (f u) \<in> us_username ` set (sql_delete (\<lambda>u. us_id u = uid) (users ub))"
      then obtain q where q: "q \<in> set (users ub)" "us_id q \<noteq> uid" "us_username q = us_username u"
        unfolding True by auto
      with names u(1) have "q = u" unfolding distinct_map inj_on_def by blast
      with q(2) u(2) show False by simp
    qed
  next
    case False
    then show ?thesis by (rule free [OF u])
  qed
  then have "distinct (map us_username ?us)" by (rule distinct_map_update [OF ids names])
  moreover have "map us_id ?us = map us_id (users ub)" "map us_email ?us = map us_email (users ub)"
    by (rule sql_update_map, simp add: f)+
  moreover have "us_id u < next_user ub \<and> user_ok u" if "u \<in> set ?us" for u
  proof -
    from that consider "u \<in> set (users ub)" | q where "q \<in> set (users ub)" "u = f q"
      by (auto simp: set_sql_update)
    then show ?thesis using inv by cases (simp_all add: users_inv_def f ok)
  qed
  ultimately show "users_inv (ub\<lparr>users := ?us\<rparr>)"
    using inv by (simp add: users_inv_def)
  fix k show "carried (find_user ub k) (find_user (ub\<lparr>users := ?us\<rparr>) k)"
    using f by (auto simp: carried_def row_update.lookup_update [OF row_update.intro [of us_id f]] split: option.splits)
qed

lemma keeps_user_update:
  assumes "\<And>u. us_id (f u) = us_id u \<and> us_role_id (f u) = us_role_id u \<and> us_email (f u) = us_email u \<and>
      us_username (f u) = us_username u"
    "\<And>u. user_ok u \<Longrightarrow> user_ok (f u)"
  shows "keeps_accounts ub (snd (user_update c k f uid ub))"
  using keeps_update [of f ub uid] assms keeps_refl by (auto simp: user_update_def)

lemma keeps_VerifyEmailByCode [invar_intros]: "keeps_accounts ub (snd (VerifyEmailByCode c k uid ub))"
  unfolding VerifyEmailByCode_def
  by (rule keeps_user_update) (auto simp: verified_set_def user_ok_def)

lemma keeps_SaveVerificationCode [invar_intros]:
  "code_shape code \<Longrightarrow> keeps_accounts ub (snd (SaveVerificationCode c k now uid code ub))"
  unfolding SaveVerificationCode_def UpdateVerificationCode_def
  by (auto intro!: keeps_user_update keeps_refl simp: code_set_def user_ok_def)

lemma keeps_returning:
  assumes "\<And>u. us_id (f u) = us_id u \<and> us_role_id (f u) = us_role_id u \<and> us_email (f u) = us_email u"
    "\<And>u. user_ok u \<Longrightarrow> user_ok (f u)"
  shows "keeps_accounts ub (snd (user_update_returning c k f uid ub))"
proof -
  have "keeps_accounts ub (ub\<lparr>users := sql_update (\<lambda>u. us_id u = uid) f (users ub)\<rparr>)"
    if "list_all (\<lambda>u. row_admitted (sql_delete (\<lambda>u. us_id u = uid) (users ub)) (f u))
      (filter (\<lambda>u. us_id u = uid) (users ub))"
    using that assms by (intro keeps_update) (auto simp: list_all_iff row_admitted_def)
  then show ?thesis
    using keeps_refl by (auto simp: user_update_returning_def Let_def split: scan.split)
qed

lemma keeps_UpdateAuthTime [invar_intros]: "keeps_accounts ub (snd (UpdateAuthTime c k now uid ub))"
  unfolding UpdateAuthTime_def by (rule keeps_returning) (auto simp: user_ok_def)

lemma keeps_user_Update [invar_intros]: "keeps_accounts ub (snd (user_Update c k v uid ub))"
  unfolding user_Update_def by (rule keeps_returning) (auto simp: user_ok_def user_columns_def)

lemma keeps_insert:
  assumes "insert_user c k now u ub = Inr (row, ub')" "user_ok u" "us_role_id u = 2"
  shows "keeps_accounts ub ub'"
proof -
  have row: "row = inserted_user now u ub"
    and ub': "ub' = ub\<lparr>users := users ub @ [row], next_user := next_user ub + 1\<rparr>"
    and free: "row_admitted (users ub) row"
    using assms(1) by (auto simp: insert_user_def Let_def split: if_splits)
  have new: "us_id row = next_user ub" "us_role_id row = 2" "user_ok row"
    using assms(2,3) by (simp_all add: row inserted_user_def user_ok_def)
  have "users_inv ub'" if inv: "users_inv ub"
    using inv free new(1,3) by (force simp: users_inv_def ub' row_admitted_def)
  moreover have "carried (find_user ub k) (find_user ub' k)" for k
    using new(2) by (auto simp: carried_def ub' find_row_append split: option.splits)
  ultimately show ?thesis by (simp add: keeps_accounts_def)
qed

lemma new_user_simps [simp]:
  "user_ok (new_user username (normalizeEmail email) req now)"
  "us_role_id (new_user username e req now) = 2"
  by (simp_all add: new_user_def user_ok_def normalizeEmail_def blank_user_def)

lemma admit_registration_user:
  "admit_registration c n now req ub = Inr u \<Longrightarrow> user_ok u \<and> us_role_id u = 2"
  by (auto simp: admit_registration_def Let_def split: if_splits sum.splits bool.splits)

lemma keeps_RegisterWithTransaction [invar_intros]:
  assumes "keeps_accounts ub (others ub)"
  shows "keeps_accounts ub (snd (RegisterWithTransaction c n now others req ub))"
proof (cases "admit_registration c n now req ub")
  case (Inr u)
  note u = admit_registration_user [OF Inr]
  have "keeps_accounts (others ub) (snd (run_tx (c_begin c) (c_commit c) (InsertWithTx c 1 now u) (others ub)))"
    using keeps_insert [of c 1 now u "others ub"] u
    by (auto simp: run_tx_def InsertWithTx_def keeps_refl split: sum.split prod.split)
  with assms show ?thesis by (simp add: RegisterWithTransaction_def Inr keeps_trans)
qed (simp add: RegisterWithTransaction_def keeps_refl)

lemma keeps_Register [invar_intros]:
  assumes "keeps_accounts ub (others ub)"
  shows "keeps_accounts ub (snd (Register c n now others req ub))"
proof (cases "admit_registration c n now req ub")
  case (Inr u)
  note u = admit_registration_user [OF Inr]
  have "keeps_accounts (others ub) (snd (user_Insert c 1 now u (others ub)))"
    using keeps_insert [of c 1 now u "others ub"] u
    by (auto simp: user_Insert_def keeps_refl split: sum.split prod.split)
  with assms show ?thesis by (simp add: Register_def Inr keeps_trans)
qed (simp add: Register_def keeps_refl)

lemma keeps_uc_VerifyEmailByCode [invar_intros]:
  "keeps_accounts ub (snd (uc_VerifyEmailByCode c now email code ub))"
  using keeps_VerifyEmailByCode [of ub c 1]
  by (auto simp: uc_VerifyEmailByCode_def keeps_refl split: sum.split prod.split) (metis snd_conv)+

lemma keeps_UpdateProfile [invar_intros]: "keeps_accounts ub (snd (UpdateProfile c uid fullName phone ub))"
  by (auto simp: UpdateProfile_def intro!: invar_intros split: sum.split option.split)

lemma keeps_uc_ResetPassword [invar_intros]:
  "keeps_accounts ub (snd (uc_ResetPassword hash c k now uid newPassword ub))"
proof -
  have "keeps_accounts ub ub'" if "user_Update c (k + 1) v uid ub = (r, ub')" for v r ub'
    using keeps_user_Update [of ub c "k + 1" v uid] that by simp
  then show ?thesis
    by (auto simp: uc_ResetPassword_def keeps_refl split: sum.split option.split prod.split)
qed

lemma keeps_ClearVerificationCode [invar_intros]:
  "keeps_accounts ub (snd (ClearVerificationCode c k uid ub))"
  unfolding ClearVerificationCode_def by (rule keeps_VerifyEmailByCode)

section \<open>Looking up by e-mail\<close>

text \<open>In a table that keeps the invariant one user at most has an e-mail, whatever its case.\<close>

lemma scan_email:
  assumes "users_inv ub"
  shows "filter (\<lambda>u. same_email email u \<and> P u) (users ub) =
    (case find (same_email email) (users ub) of Some u \<Rightarrow> if P u then [u] else [] | None \<Rightarrow> [])"
proof -
  have dist: "distinct (map us_email (users ub))" and low: "\<forall>u \<in> set (users ub). ToLower (us_email u) = us_email u"
    using assms by (auto simp: users_inv_def user_ok_def)
  have "filter (\<lambda>u. same_email email u \<and> P u) us =
      (case find (same_email email) us of Some u \<Rightarrow> if P u then [u] else [] | None \<Rightarrow> [])"
    if "distinct (map us_email us)" "\<forall>u \<in> set us. ToLower (us_email u) = us_email u" for us
    using that
  proof (induction us)
    case (Cons u us)
    have "same_email email u \<Longrightarrow> filter (\<lambda>u. same_email email u \<and> P u) us = []"
      using Cons.prems by (auto simp: filter_empty_conv same_email_def image_iff)
    with Cons show ?case by auto
  qed simp
  from this [OF dist low] show ?thesis .
qed

definition user_with_email :: "users_db \<Rightarrow> string \<Rightarrow> user option" where
  "user_with_email ub email = find (same_email email) (users ub)"

lemma GetByEmail_inv:
  "users_inv ub \<Longrightarrow> c_stmt c k \<Longrightarrow> GetByEmail c k email ub = Inr (user_with_email ub email)"
  using scan_email [of ub email "\<lambda>_. True"]
  by (simp add: GetByEmail_def scan_user_def user_with_email_def split: option.split)

lemma GetByEmailAndCode_inv:
  "users_inv ub \<Longrightarrow> c_stmt c k \<Longrightarrow> GetByEmailAndCode c k now email code ub =
    (case user_with_email ub email of
       Some u \<Rightarrow> if code_live now code u then Inr u else Inl (Rejected ''invalid or expired verification code'')
     | None \<Rightarrow> Inl (Rejected ''invalid or expired verification code''))"
  using scan_email [of ub email "code_live now code"]
  by (simp add: GetByEmailAndCode_def scan_user_def user_with_email_def split: option.split)

lemma user_with_email_Some:
  "user_with_email ub email = Some u \<Longrightarrow> u \<in> set (users ub) \<and> same_email email u"
  by (auto simp: user_with_email_def find_Some_iff)

lemma user_with_email_update:
  assumes "\<And>u. us_email (f u) = us_email u" "user_with_email ub email = Some u"
  shows "user_with_email (ub\<lparr>users := sql_update (\<lambda>u. us_id u = us_id v) f (users ub)\<rparr>) email =
    Some (if us_id u = us_id v then f u else u)"
proof -
  have "find (same_email email) (sql_update P f us) =
      map_option (\<lambda>u. if P u then f u else u) (find (same_email email) us)" for P us
    using assms(1) by (induction us) (auto simp: same_email_def)
  with assms(2) show ?thesis by (simp add: user_with_email_def)
qed

end
