(* ===== verification/Tokens.thy ===== *)
theory Tokens
  imports Users
begin

text \<open>
  Who a request comes from: the tokens of internal/usecase/user.go and internal/services/auth.go,
  the list of revoked tokens in Redis (internal/services/blacklist.go) and the middleware of
  internal/middleware/auth.go that reads a token and guards the routes. The jwt package is two
  arguments: \<open>sign\<close>, which makes a token of claims with the secret of the server, and \<open>parse\<close>,
  which gives the claims of a token that is signed with it and valid at the time.
\<close>

section \<open>Claims\<close>

record jwt_claims =
  cl_user_id :: "id64 option"
  cl_role_id :: "id64 option"
  cl_username :: "string option"
  cl_email :: "string option"
  cl_role :: "string option"
  cl_jti :: "string option"
  cl_exp :: "int option"
  cl_iat :: "int option"

text \<open>\<open>time.Unix\<close>: the whole seconds.\<close>

definition unix :: "time \<Rightarrow> int" where
  "unix t = t div second"

text \<open>The claims of the two kinds of token; \<open>jti\<close> is what \<open>generateJTI\<close> draws.\<close>

definition user_claims :: "string \<Rightarrow> time \<Rightarrow> id64 \<Rightarrow> string \<Rightarrow> string \<Rightarrow> string \<Rightarrow> jwt_claims" where
  "user_claims jti now uid username email role =
     \<lparr>cl_user_id = Some uid, cl_role_id = None, cl_username = Some username, cl_email = Some email,
       cl_role = Some role, cl_jti = Some jti, cl_exp = Some (unix (now + 24 * hour)), cl_iat = Some (unix now)\<rparr>"

definition staff_claims :: "time \<Rightarrow> id64 \<Rightarrow> id64 \<Rightarrow> jwt_claims" where
  "staff_claims now uid roleID =
     \<lparr>cl_user_id = Some uid, cl_role_id = Some roleID, cl_username = None, cl_email = None,
       cl_role = Some (if roleID = 1 then ''admin'' else ''user''), cl_jti = None,
       cl_exp = Some (unix (now + 24 * hour)), cl_iat = Some (unix now)\<rparr>"

definition generateJWTTokenWithRole ::
  "(jwt_claims \<Rightarrow> string) \<Rightarrow> string \<Rightarrow> time \<Rightarrow> id64 \<Rightarrow> string \<Rightarrow> string \<Rightarrow> string \<Rightarrow> string" where
  "generateJWTTokenWithRole sign jti now uid username email role = sign (user_claims jti now uid username email role)"

definition GenerateJWTToken ::
  "(jwt_claims \<Rightarrow> string) \<Rightarrow> string \<Rightarrow> time \<Rightarrow> id64 \<Rightarrow> string \<Rightarrow> string \<Rightarrow> string" where
  "GenerateJWTToken sign jti now uid username email =
     generateJWTTokenWithRole sign jti now uid username email ''user''"

definition generateToken :: "(jwt_claims \<Rightarrow> string) \<Rightarrow> time \<Rightarrow> id64 \<Rightarrow> id64 \<Rightarrow> string" where
  "generateToken sign now uid roleID = sign (staff_claims now uid roleID)"

lemma user_claims_simps [simp]:
  "cl_user_id (user_claims jti now uid username email role) = Some uid"
  "cl_role (user_claims jti now uid username email role) = Some role"
  "cl_jti (user_claims jti now uid username email role) = Some jti"
  "cl_exp (user_claims jti now uid username email role) = Some (unix (now + day))"
  "cl_iat (user_claims jti now uid username email role) = Some (unix now)"
  by (simp_all add: user_claims_def)

lemma staff_claims_simps [simp]:
  "cl_user_id (staff_claims now uid roleID) = Some uid"
  "cl_role (staff_claims now uid roleID) = Some (if roleID = 1 then ''admin'' else ''user'')"
  "cl_jti (staff_claims now uid roleID) = None"
  "cl_exp (staff_claims now uid roleID) = Some (unix (now + day))"
  "cl_iat (staff_claims now uid roleID) = Some (unix now)"
  by (simp_all add: staff_claims_def)

section \<open>Revoked tokens\<close>

text \<open>
  The keys blacklist:jti:... and blacklist:user:... with the time each expires at. A command fails
  when its flag is false.
\<close>

record revocations =
  rv_jti :: "string \<rightharpoonup> time"
  rv_user :: "id64 \<rightharpoonup> int \<times> time"

definition no_revocations :: revocations where
  "no_revocations = \<lparr>rv_jti = Map.empty, rv_user = Map.empty\<rparr>"

definition AddToBlacklist :: "bool \<Rightarrow> time \<Rightarrow> string \<Rightarrow> duration \<Rightarrow> revocations \<Rightarrow> unit result \<times> revocations" where
  "AddToBlacklist up now jti ttl rv =
     (if up then (Inr (), rv\<lparr>rv_jti := (rv_jti rv)(jti \<mapsto> now + ttl)\<rparr>) else (Inl DbError, rv))"

definition IsBlacklisted :: "bool \<Rightarrow> time \<Rightarrow> string \<Rightarrow> revocations \<Rightarrow> bool result" where
  "IsBlacklisted up now jti rv =
     (if up then Inr (case rv_jti rv jti of Some e \<Rightarrow> now < e | None \<Rightarrow> False) else Inl DbError)"

definition BlacklistAllUserTokens ::
  "bool \<Rightarrow> time \<Rightarrow> id64 \<Rightarrow> duration \<Rightarrow> revocations \<Rightarrow> unit result \<times> revocations" where
  "BlacklistAllUserTokens up now uid expiration rv =
     (if up then (Inr (), rv\<lparr>rv_user := (rv_user rv)(uid \<mapsto> (unix now, now + expiration))\<rparr>)
      else (Inl DbError, rv))"

definition IsUserBlacklisted :: "bool \<Rightarrow> time \<Rightarrow> id64 \<Rightarrow> int \<Rightarrow> revocations \<Rightarrow> bool result" where
  "IsUserBlacklisted up now uid issued rv =
     (if up then Inr (case rv_user rv uid of Some (t, e) \<Rightarrow> now < e \<and> issued < t | None \<Rightarrow> False)
      else Inl DbError)"

section \<open>The middleware\<close>

text \<open>
  What \<open>AuthMiddleware\<close> leaves in the context of the request: the claims, or nothing. The request
  goes on either way. \<open>checker\<close> says whether the server has the list of revoked tokens, \<open>up\<close> whether
  its two commands succeed.
\<close>

definition AuthMiddleware ::
  "(time \<Rightarrow> string \<Rightarrow> jwt_claims option) \<Rightarrow> bool \<Rightarrow> (nat \<Rightarrow> bool) \<Rightarrow> time \<Rightarrow> string \<Rightarrow> revocations
    \<Rightarrow> jwt_claims option" where
  "AuthMiddleware parse checker up now authHeader rv =
     (if authHeader = [] then None
      else if take 7 authHeader \<noteq> ''Bearer '' then None
      else case parse now (drop 7 authHeader) of
        None \<Rightarrow> None
      | Some cl \<Rightarrow>
          (case cl_user_id cl of
             None \<Rightarrow> None
           | Some uid \<Rightarrow>
               if case cl_exp cl of Some e \<Rightarrow> unix now > e | None \<Rightarrow> False then None
               else if case cl_jti cl of
                   Some jti \<Rightarrow> checker \<and> IsBlacklisted (up 0) now jti rv \<noteq> Inr False
                 | None \<Rightarrow> False then None
               else if case cl_iat cl of
                   Some iat \<Rightarrow> checker \<and> IsUserBlacklisted (up 1) now uid iat rv \<noteq> Inr False
                 | None \<Rightarrow> False then None
               else Some cl))"

text \<open>The guards answer with a status, or let the request on.\<close>

definition RequireAuth :: "jwt_claims option \<Rightarrow> int option" where
  "RequireAuth who = (if who = None then Some 401 else None)"

definition RequireAdmin :: "jwt_claims option \<Rightarrow> int option" where
  "RequireAdmin who =
     (case who of None \<Rightarrow> Some 403 | Some cl \<Rightarrow> if cl_role cl = Some ''admin'' then None else Some 403)"

section \<open>The login of the shop's staff\<close>

definition name_char :: "char \<Rightarrow> bool" where
  "name_char ch = (between 65 90 ch \<or> between 97 122 ch \<or> is_digit ch \<or> ch \<in> set ''._-'')"

text \<open>The checks see the name without the spaces around it; the login gets the name as it came.\<close>

definition ValidateLoginRequest :: "string \<Rightarrow> string \<Rightarrow> unit result" where
  "ValidateLoginRequest username password =
     (let name = TrimSpace username
      in if name = [] then Inl (Rejected ''username is required'')
         else if 100 < runes name then Inl (Rejected ''username is too long'')
         else if \<not> list_all name_char name then Inl (Rejected ''username contains invalid characters'')
         else if password = [] then Inl (Rejected ''password is required'')
         else if 128 < length password then Inl (Rejected ''password is too long'')
         else Inr ())"

record login_response =
  lr_token :: string
  lr_user_id :: id64
  lr_role_id :: id64
  lr_username :: string

text \<open>\<open>compare\<close> is \<open>bcrypt.CompareHashAndPassword\<close> on the stored hash and the password given.\<close>

definition auth_Login ::
  "(jwt_claims \<Rightarrow> string) \<Rightarrow> (string \<Rightarrow> string \<Rightarrow> bool) \<Rightarrow> conn \<Rightarrow> time \<Rightarrow> string \<Rightarrow> string \<Rightarrow> users_db
    \<Rightarrow> login_response result \<times> users_db" where
  "auth_Login sign compare c now username password ub =
     (case GetByUsername c 0 username ub of
        Inl e \<Rightarrow> (Inl e, ub)
      | Inr None \<Rightarrow> (Inl (Rejected ''invalid credentials''), ub)
      | Inr (Some u) \<Rightarrow>
          if \<not> compare (us_password u) password then (Inl (Rejected ''invalid credentials''), ub)
          else (Inr \<lparr>lr_token = generateToken sign now (us_id u) (us_role_id u), lr_user_id = us_id u,
                   lr_role_id = us_role_id u, lr_username = us_username u\<rparr>,
                snd (UpdateAuthTime c 1 now (us_id u) ub)))"

text \<open>The handler's status and answer.\<close>

definition handle_AdminLogin ::
  "(jwt_claims \<Rightarrow> string) \<Rightarrow> (string \<Rightarrow> string \<Rightarrow> bool) \<Rightarrow> conn \<Rightarrow> time \<Rightarrow> string \<Rightarrow> string \<Rightarrow> users_db
    \<Rightarrow> (int \<times> login_response option) \<times> users_db" where
  "handle_AdminLogin sign compare c now username password ub =
     (if username = [] \<or> password = [] then ((400, None), ub)
      else case ValidateLoginRequest username password of
        Inl e \<Rightarrow> ((400, None), ub)
      | Inr _ \<Rightarrow>
          (case auth_Login sign compare c now username password ub of
             (Inl e, ub') \<Rightarrow> ((401, None), ub')
           | (Inr resp, ub') \<Rightarrow> ((200, Some resp), ub')))"

lemma keeps_auth_Login [invar_intros]:
  "keeps_accounts ub (snd (auth_Login sign compare c now username password ub))"
  by (auto simp: auth_Login_def intro!: invar_intros split: sum.split option.split)

lemma keeps_handle_AdminLogin [invar_intros]:
  "keeps_accounts ub (snd (handle_AdminLogin sign compare c now username password ub))"
  using keeps_auth_Login [of ub sign compare c now username password]
  by (auto simp: handle_AdminLogin_def keeps_refl split: sum.split prod.split)

end
