(* ===== verification/Accounts.thy ===== *)
theory Accounts
  imports Tokens RateLimit
begin

text \<open>
  internal/handlers/user.go: the requests on an account with their limits and counters of wrong
  codes, over the table of users, the rate store, the list of revoked tokens and the mail that is
  handed to the mail service. Requests are served one after the other, except that others may
  write between a registration's check and its INSERT. A request answers a status; gin's binding of the JSON body is the
  first check of each handler, with the validator's idea of an e-mail as an argument.
\<close>

section \<open>State and environment\<close>

record accounts =
  ac_users :: users_db
  ac_rate :: rate_store
  ac_revoked :: revocations
  ac_mail :: "(string \<times> string) list"

text \<open>
  A request: its time and client, the outcome of the statements of each call (\<open>re_conn\<close>) and of
  the commands to the rate store (\<open>re_rate\<close>), what other requests do meanwhile, the two random
  numbers, the id of the token it may get, and whether the mail goes out.
\<close>

record request_env =
  re_now :: time
  re_ip :: string
  re_conn :: "nat \<Rightarrow> conn"
  re_rate :: "nat \<Rightarrow> bool"
  re_others :: "users_db \<Rightarrow> users_db"
  re_name :: nat
  re_code :: nat
  re_jti :: string
  re_mail :: bool
  re_redis :: bool

definition calm_request :: "time \<Rightarrow> request_env" where
  "calm_request now = \<lparr>re_now = now, re_ip = ''ip'', re_conn = (\<lambda>_. healthy), re_rate = (\<lambda>_. True),
     re_others = (\<lambda>ub. ub), re_name = 0, re_code = 0, re_jti = ''j'', re_mail = True, re_redis = True\<rparr>"

text \<open>Requests that nothing goes wrong for.\<close>

definition calm :: "request_env \<Rightarrow> bool" where
  "calm env = (re_conn env = (\<lambda>_. healthy) \<and> re_rate env = (\<lambda>_. True))"

section \<open>Codes by mail\<close>

text \<open>A fresh code for a user: it is saved and then sent; nothing is sent when it cannot be saved.\<close>

definition issue_code :: "request_env \<Rightarrow> conn \<Rightarrow> user \<Rightarrow> accounts \<Rightarrow> unit result \<times> accounts" where
  "issue_code env c u st =
     (let code = GenerateVerificationCode (re_code env)
      in case SaveVerificationCode c 0 (re_now env) (us_id u) code (ac_users st) of
        (Inl e, ub) \<Rightarrow> (Inl e, st\<lparr>ac_users := ub\<rparr>)
      | (Inr _, ub) \<Rightarrow> (Inr (), st\<lparr>ac_users := ub, ac_mail := ac_mail st @ [(us_email u, code)]\<rparr>))"

definition binds_register :: "(string \<Rightarrow> bool) \<Rightarrow> register_request \<Rightarrow> bool" where
  "binds_register is_email req = ((rg_username req = [] \<or> 3 \<le> runes (rg_username req) \<and> runes (rg_username req) \<le> 50) \<and>
     rg_email req \<noteq> [] \<and> is_email (rg_email req) \<and> rg_phone req \<noteq> [] \<and> rg_name req \<noteq> [] \<and> runes (rg_name req) \<le> 32)"

text \<open>The two limits of registrations from one address.\<close>

definition register_limits :: "request_env \<Rightarrow> rate_store \<Rightarrow> bool \<times> rate_store" where
  "register_limits env rs =
     (let (ok1, rs1) = rs_Allow (re_rate env 0) (re_rate env 1) (re_now env) (''reg:min:'' @ re_ip env) 1 minute rs
      in if \<not> ok1 then (False, rs1)
         else rs_Allow (re_rate env 2) (re_rate env 3) (re_now env) (''reg:hour:'' @ re_ip env) 3 hour rs1)"

definition handle_Register ::
  "(string \<Rightarrow> bool) \<Rightarrow> request_env \<Rightarrow> register_request \<Rightarrow> accounts \<Rightarrow> int \<times> accounts" where
  "handle_Register is_email env req st =
     (if \<not> binds_register is_email req then (400, st)
      else
        let (ok, rs) = register_limits env (ac_rate st); st1 = st\<lparr>ac_rate := rs\<rparr>
        in if \<not> ok then (429, st1)
           else if length (rg_email req) < 3 \<or> CHR ''@'' \<notin> set (rg_email req) then (400, st1)
           else case GetUserByEmail (re_conn env 0) 0 (rg_email req) (ac_users st1) of
             Inr u \<Rightarrow>
               if us_email_verified u then (400, st1)
               else (case issue_code env (re_conn env 1) u st1 of
                   (Inl e, st2) \<Rightarrow> (500, st2)
                 | (Inr _, st2) \<Rightarrow> (202, st2))
           | Inl _ \<Rightarrow>
               (case RegisterWithTransaction (re_conn env 2) (re_name env) (re_now env) (re_others env) req (ac_users st1) of
                  (Inl e, ub) \<Rightarrow> (400, st1\<lparr>ac_users := ub\<rparr>)
                | (Inr u, ub) \<Rightarrow>
                    (case issue_code env (re_conn env 3) u (st1\<lparr>ac_users := ub\<rparr>) of
                       (Inl e, st2) \<Rightarrow> (500, st2)
                     | (Inr _, st2) \<Rightarrow> (201, st2))))"

text \<open>An unknown address gets the same answer as a known one.\<close>

definition handle_Login :: "(string \<Rightarrow> bool) \<Rightarrow> request_env \<Rightarrow> string \<Rightarrow> accounts \<Rightarrow> int \<times> accounts" where
  "handle_Login is_email env email st =
     (if email = [] \<or> \<not> is_email email then (400, st)
      else
        let (ok, rs) = rs_Allow (re_rate env 0) (re_rate env 1) (re_now env) (''login:throttle:'' @ re_ip env) 1 (5 * second) (ac_rate st);
            st1 = st\<lparr>ac_rate := rs\<rparr>
        in if \<not> ok then (429, st1)
           else case uc_Login (re_conn env 0) 0 email (ac_users st1) of
             Inl e \<Rightarrow> (200, st1)
           | Inr u \<Rightarrow>
               (case issue_code env (re_conn env 1) u st1 of
                  (Inl e, st2) \<Rightarrow> (500, st2)
                | (Inr _, st2) \<Rightarrow> (200, st2)))"

definition handle_ResendVerificationCode ::
  "(string \<Rightarrow> bool) \<Rightarrow> request_env \<Rightarrow> string \<Rightarrow> accounts \<Rightarrow> int \<times> accounts" where
  "handle_ResendVerificationCode is_email env email st =
     (if email = [] \<or> \<not> is_email email then (400, st)
      else case GetUserByEmail (re_conn env 0) 0 email (ac_users st) of
        Inl e \<Rightarrow> (400, st)
      | Inr u \<Rightarrow>
          if us_email_verified u then (400, st)
          else (case issue_code env (re_conn env 1) u st of
              (Inl e, st1) \<Rightarrow> (500, st1)
            | (Inr _, st1) \<Rightarrow> (200, st1)))"

text \<open>The reset code is the same column; here the mail is sent before the answer.\<close>

definition handle_ForgotPassword ::
  "(string \<Rightarrow> bool) \<Rightarrow> request_env \<Rightarrow> string \<Rightarrow> accounts \<Rightarrow> int \<times> accounts" where
  "handle_ForgotPassword is_email env email st =
     (if email = [] \<or> \<not> is_email email then (400, st)
      else case GetUserByEmail (re_conn env 0) 0 email (ac_users st) of
        Inl e \<Rightarrow> (200, st)
      | Inr u \<Rightarrow>
          (case issue_code env (re_conn env 1) u st of
             (Inl e, st1) \<Rightarrow> (500, st1)
           | (Inr _, st1) \<Rightarrow> (if re_mail env then 200 else 500, st1)))"

section \<open>Wrong codes\<close>

definition maxCodeAttempts :: int where "maxCodeAttempts = 5"
definition codeAttemptsTTL :: duration where "codeAttemptsTTL = 15 * minute"

definition attempt_key :: "string \<Rightarrow> string" where
  "attempt_key email = ''code_attempts:'' @ normalizeEmail email"

definition invalidateCode :: "request_env \<Rightarrow> string \<Rightarrow> accounts \<Rightarrow> accounts" where
  "invalidateCode env email st =
     (case GetUserByEmail (re_conn env 4) 0 email (ac_users st) of
        Inl e \<Rightarrow> st
      | Inr u \<Rightarrow> st\<lparr>ac_users := snd (ClearVerificationCode (re_conn env 4) 1 (us_id u) (ac_users st))\<rparr>)"

text \<open>What both users of a code do when it is wrong: count, and from the fifth time on spoil the code.\<close>

definition wrong_code :: "request_env \<Rightarrow> string \<Rightarrow> accounts \<Rightarrow> accounts" where
  "wrong_code env email st =
     (let (n, rs) = rs_Incr (re_rate env 1) (re_rate env 2) (re_now env) (attempt_key email) codeAttemptsTTL (ac_rate st);
          st1 = st\<lparr>ac_rate := rs\<rparr>
      in if maxCodeAttempts \<le> n then invalidateCode env email st1 else st1)"

text \<open>The token of a successful request is the second component.\<close>

definition handle_VerifyEmail ::
  "(string \<Rightarrow> bool) \<Rightarrow> (jwt_claims \<Rightarrow> string) \<Rightarrow> request_env \<Rightarrow> string \<Rightarrow> string \<Rightarrow> string \<Rightarrow> accounts
    \<Rightarrow> (int \<times> string option) \<times> accounts" where
  "handle_VerifyEmail is_email sign env email code0 token0 st =
     (if email \<noteq> [] \<and> \<not> is_email email \<or> code0 \<noteq> [] \<and> runes code0 \<noteq> 6 \<or> token0 \<noteq> [] \<and> runes token0 \<noteq> 6
      then ((400, None), st)
      else
        let code = (if code0 = [] \<and> token0 \<noteq> [] then token0 else code0)
        in if code = [] \<or> email = [] then ((400, None), st)
           else if maxCodeAttempts \<le> rs_Get (re_rate env 0) (re_now env) (attempt_key email) (ac_rate st)
           then ((429, None), invalidateCode env email st)
           else case uc_VerifyEmailByCode (re_conn env 0) (re_now env) email code (ac_users st) of
             (Inl e, ub) \<Rightarrow> ((400, None), wrong_code env email (st\<lparr>ac_users := ub\<rparr>))
           | (Inr u, ub) \<Rightarrow>
               ((200, Some (GenerateJWTToken sign (re_jti env) (re_now env) (us_id u) (us_username u) (us_email u))),
                st\<lparr>ac_users := ub, ac_rate := rs_Reset (re_rate env 3) (attempt_key email) (ac_rate st)\<rparr>))"

text \<open>
  A capital letter, Latin or Cyrillic; the Cyrillic ones are the two bytes D0 and 81 or 90 to AF
  in UTF-8.
\<close>

fun has_capital :: "string \<Rightarrow> bool" where
  "has_capital [] = False"
| "has_capital [a] = between 65 90 a"
| "has_capital (a # b # s) = (between 65 90 a \<or>
     of_char a = (208::nat) \<and> (of_char b = (129::nat) \<or> between 144 175 b) \<or> has_capital (b # s))"

definition handle_ResetPassword ::
  "(string \<Rightarrow> bool) \<Rightarrow> (string \<Rightarrow> string result) \<Rightarrow> request_env \<Rightarrow> string \<Rightarrow> string \<Rightarrow> string \<Rightarrow> accounts
    \<Rightarrow> int \<times> accounts" where
  "handle_ResetPassword is_email hash env email code newPassword st =
     (if email = [] \<or> \<not> is_email email \<or> runes code \<noteq> 6 \<or> runes newPassword < 8 then (400, st)
      else if maxCodeAttempts \<le> rs_Get (re_rate env 0) (re_now env) (attempt_key email) (ac_rate st)
      then (429, invalidateCode env email st)
      else case GetByEmailAndCode (re_conn env 0) 0 (re_now env) email code (ac_users st) of
        Inl e \<Rightarrow> (400, wrong_code env email st)
      | Inr u \<Rightarrow>
          let st1 = st\<lparr>ac_rate := rs_Reset (re_rate env 3) (attempt_key email) (ac_rate st)\<rparr>
          in if \<not> has_capital newPassword then (400, st1)
             else (case uc_ResetPassword hash (re_conn env 1) 0 (re_now env) (us_id u) newPassword (ac_users st1) of
                 (Inl e, ub) \<Rightarrow> (500, st1\<lparr>ac_users := ub\<rparr>)
               | (Inr _, ub) \<Rightarrow>
                   (200, st1\<lparr>ac_users := snd (ClearVerificationCode (re_conn env 2) 0 (us_id u) ub)\<rparr>)))"

section \<open>Requests with a token\<close>

definition handle_GetProfile :: "request_env \<Rightarrow> jwt_claims option \<Rightarrow> accounts \<Rightarrow> int \<times> user option" where
  "handle_GetProfile env who st =
     (case Option.bind who cl_user_id of
        None \<Rightarrow> (401, None)
      | Some uid \<Rightarrow> (case GetProfile (re_conn env 0) uid (ac_users st) of Inl e \<Rightarrow> (500, None) | Inr u \<Rightarrow> (200, Some u)))"

definition handle_UpdateProfile ::
  "request_env \<Rightarrow> jwt_claims option \<Rightarrow> string option \<Rightarrow> string option \<Rightarrow> accounts \<Rightarrow> int \<times> accounts" where
  "handle_UpdateProfile env who fullName phone st =
     (case Option.bind who cl_user_id of
        None \<Rightarrow> (401, st)
      | Some uid \<Rightarrow>
          (case UpdateProfile (re_conn env 0) uid fullName phone (ac_users st) of
             (Inl e, ub) \<Rightarrow> (400, st\<lparr>ac_users := ub\<rparr>)
           | (Inr _, ub) \<Rightarrow> (200, st\<lparr>ac_users := ub\<rparr>)))"

definition VerifyToken :: "jwt_claims option \<Rightarrow> int \<times> id64 option" where
  "VerifyToken who = (case Option.bind who cl_user_id of None \<Rightarrow> (401, None) | Some uid \<Rightarrow> (200, Some uid))"

text \<open>
  The token of the request is revoked for the rest of its life. A token without jti, which is what
  the staff's tokens are, leaves a nil that the type assertion panics on: the answer is gin's 500.
\<close>

definition Logout :: "bool \<Rightarrow> request_env \<Rightarrow> jwt_claims option \<Rightarrow> accounts \<Rightarrow> int \<times> accounts" where
  "Logout checker env who st =
     (case who of
        None \<Rightarrow> (400, st)
      | Some cl \<Rightarrow>
          let ttl = (case cl_exp cl of
                Some e \<Rightarrow> if e * second - re_now env \<le> 0 then second else e * second - re_now env
              | None \<Rightarrow> 24 * hour)
          in (case cl_jti cl of
                None \<Rightarrow> (500, st)
              | Some jti \<Rightarrow>
                  (200, if checker
                    then st\<lparr>ac_revoked := snd (AddToBlacklist (re_redis env) (re_now env) jti ttl (ac_revoked st))\<rparr>
                    else st)))"

section \<open>The requests on accounts\<close>

datatype account_request =
    RegisterRequest register_request
  | LoginRequest string
  | ResendRequest string
  | ForgotRequest string
  | VerifyRequest string string string
  | ResetRequest string string string
  | ProfileRequest "jwt_claims option" "string option" "string option"
  | LogoutRequest "jwt_claims option"
  | StaffLoginRequest string string

record services =
  sv_is_email :: "string \<Rightarrow> bool"
  sv_sign :: "jwt_claims \<Rightarrow> string"
  sv_hash :: "string \<Rightarrow> string result"
  sv_compare :: "string \<Rightarrow> string \<Rightarrow> bool"
  sv_checker :: bool

fun serve_account :: "services \<Rightarrow> request_env \<Rightarrow> account_request \<Rightarrow> accounts \<Rightarrow> accounts" where
  "serve_account sv env (RegisterRequest req) st = snd (handle_Register (sv_is_email sv) env req st)"
| "serve_account sv env (LoginRequest email) st = snd (handle_Login (sv_is_email sv) env email st)"
| "serve_account sv env (ResendRequest email) st =
     snd (handle_ResendVerificationCode (sv_is_email sv) env email st)"
| "serve_account sv env (ForgotRequest email) st = snd (handle_ForgotPassword (sv_is_email sv) env email st)"
| "serve_account sv env (VerifyRequest email code token) st =
     snd (handle_VerifyEmail (sv_is_email sv) (sv_sign sv) env email code token st)"
| "serve_account sv env (ResetRequest email code password) st =
     snd (handle_ResetPassword (sv_is_email sv) (sv_hash sv) env email code password st)"
| "serve_account sv env (ProfileRequest who fullName phone) st =
     snd (handle_UpdateProfile env who fullName phone st)"
| "serve_account sv env (LogoutRequest who) st = snd (Logout (sv_checker sv) env who st)"
| "serve_account sv env (StaffLoginRequest username password) st =
     st\<lparr>ac_users := snd (handle_AdminLogin (sv_sign sv) (sv_compare sv) (re_conn env 0) (re_now env)
       username password (ac_users st))\<rparr>"

fun serve_accounts :: "services \<Rightarrow> (request_env \<times> account_request) list \<Rightarrow> accounts \<Rightarrow> accounts" where
  "serve_accounts sv [] st = st"
| "serve_accounts sv ((env, rq) # rqs) st = serve_accounts sv rqs (serve_account sv env rq st)"

abbreviation keeps :: "accounts \<Rightarrow> accounts \<Rightarrow> bool" where
  "keeps st st' \<equiv> keeps_accounts (ac_users st) (ac_users st')"

definition usual_request :: "request_env \<Rightarrow> bool" where
  "usual_request env = (re_code env < 900000 \<and> (\<forall>ub. keeps_accounts ub (re_others env ub)))"

lemma keeps_issue_code:
  assumes "re_code env < 900000"
  shows "keeps st (snd (issue_code env c u st))"
  using keeps_SaveVerificationCode [OF GenerateVerificationCode_shape [OF assms], of "ac_users st" c 0 "re_now env" "us_id u"]
  by (auto simp: issue_code_def Let_def split: sum.split prod.split)

lemma keeps_invalidateCode: "keeps st (snd (r, invalidateCode env email st))"
  by (auto simp: invalidateCode_def intro!: invar_intros split: sum.split)

lemma keeps_wrong_code: "keeps st (wrong_code env email st)"
  using keeps_invalidateCode [of "st\<lparr>ac_rate := rs\<rparr>" r env email for rs r]
  by (auto simp: wrong_code_def Let_def keeps_refl split: prod.split)

lemma keeps_handle_Register:
  assumes "usual_request env"
  shows "keeps st (snd (handle_Register is_email env req st))"
proof -
  have code: "re_code env < 900000" and others: "keeps_accounts ub (re_others env ub)" for ub
    using assms by (auto simp: usual_request_def)
  have issued: "keeps_accounts (ac_users st1) (ac_users st2)" if "issue_code env c u st1 = (r, st2)" for c u st1 r st2
    using keeps_issue_code [OF code, of st1 c u] that by simp
  have registered: "keeps_accounts ub ub'"
    if "RegisterWithTransaction c n now (re_others env) rq ub = (r, ub')" for c n now rq ub r ub'
    using keeps_RegisterWithTransaction [of ub "re_others env", OF others] that by (metis snd_conv)
  show ?thesis
    unfolding handle_Register_def
    by (auto simp: Let_def keeps_refl dest!: issued registered intro: keeps_trans
        split: prod.split sum.split)
qed

lemma keeps_code_requests:
  assumes "re_code env < 900000"
  shows "keeps st (snd (handle_Login is_email env email st))"
    "keeps st (snd (handle_ResendVerificationCode is_email env email st))"
    "keeps st (snd (handle_ForgotPassword is_email env email st))"
proof -
  have issued: "keeps_accounts (ac_users st1) (ac_users st2)" if "issue_code env c u st1 = (r, st2)" for c u st1 r st2
    using keeps_issue_code [OF assms, of st1 c u] that by simp
  show "keeps st (snd (handle_Login is_email env email st))"
    "keeps st (snd (handle_ResendVerificationCode is_email env email st))"
    "keeps st (snd (handle_ForgotPassword is_email env email st))"
    unfolding handle_Login_def handle_ResendVerificationCode_def handle_ForgotPassword_def
    by (auto simp: Let_def keeps_refl dest!: issued split: prod.split sum.split)
qed

lemma keeps_handle_VerifyEmail:
  "keeps st (snd (handle_VerifyEmail is_email sign env email code token st))"
proof -
  have verified: "keeps_accounts ub ub'" if "uc_VerifyEmailByCode c now e d ub = (r, ub')" for c now e d ub r ub'
    using keeps_uc_VerifyEmailByCode [of ub c now e d] that by simp
  have "keeps_accounts (ac_users st) (ac_users (wrong_code env email (st\<lparr>ac_users := ub\<rparr>)))"
    if "keeps_accounts (ac_users st) ub" for ub
    using keeps_trans [OF that] keeps_wrong_code [of "st\<lparr>ac_users := ub\<rparr>" env email] by simp
  then show ?thesis
    using keeps_invalidateCode [of st _ env email]
    by (auto simp: handle_VerifyEmail_def Let_def keeps_refl dest!: verified split: prod.split sum.split)
qed

lemma keeps_handle_ResetPassword:
  "keeps st (snd (handle_ResetPassword is_email hash env email code password st))"
proof -
  have reset: "keeps_accounts ub ub'" if "uc_ResetPassword hash c k now uid pw ub = (r, ub')" for c k now uid pw ub r ub'
    using keeps_uc_ResetPassword [of ub hash c k now uid pw] that by simp
  show ?thesis
    using keeps_invalidateCode [of st _ env email] keeps_wrong_code [of st env email]
    by (auto simp: handle_ResetPassword_def Let_def keeps_refl dest!: reset
        intro: keeps_trans keeps_ClearVerificationCode split: prod.split sum.split)
qed

lemma keeps_serve_account:
  assumes "usual_request env"
  shows "keeps st (serve_account sv env rq st)"
proof (cases rq)
  case (ProfileRequest who fullName phone)
  have "keeps_accounts ub ub'" if "UpdateProfile c uid fullName phone ub = (r, ub')" for c uid ub r ub'
    using keeps_UpdateProfile [of ub c uid fullName phone] that by simp
  then show ?thesis unfolding ProfileRequest
    by (auto simp: handle_UpdateProfile_def keeps_refl split: option.split sum.split prod.split)
next
  case (LogoutRequest who)
  then show ?thesis by (auto simp: Logout_def Let_def keeps_refl split: option.split)
qed (use assms keeps_handle_Register keeps_code_requests keeps_handle_VerifyEmail keeps_handle_ResetPassword
      keeps_handle_AdminLogin in \<open>auto simp: usual_request_def\<close>)

lemma keeps_serve_accounts:
  "list_all (\<lambda>(env, rq). usual_request env) rqs \<Longrightarrow> keeps st (serve_accounts sv rqs st)"
proof (induction rqs arbitrary: st)
  case (Cons r rqs)
  obtain env rq where r: "r = (env, rq)" by (cases r)
  from Cons.prems r have "keeps st (serve_account sv env rq st)" by (simp add: keeps_serve_account)
  also have "keeps (serve_account sv env rq st) (serve_accounts sv rqs (serve_account sv env rq st))"
    using Cons r by simp
  finally show ?case by (simp add: r)
qed (simp add: keeps_refl)

definition staff :: "users_db \<Rightarrow> id64 set" where
  "staff ub = us_id ` {u \<in> set (users ub). us_role_id u = 1}"

text \<open>
  C17. Whatever requests come in, whatever fails and whoever else writes: usernames and e-mails stay
  unique (e-mails whatever their case), every stored code has six digits and a time it expires, no
  account is lost or changes its e-mail, and nobody becomes or stops being one of the staff.
\<close>

theorem accounts_kept:
  assumes "users_inv (ac_users st)" "list_all (\<lambda>(env, rq). usual_request env) rqs"
    "ub = ac_users st" "ub' = ac_users (serve_accounts sv rqs st)"
  shows "distinct (map us_id (users ub')) \<and> distinct (map us_username (users ub')) \<and>
    distinct (map (ToLower \<circ> us_email) (users ub')) \<and>
    (\<forall>u \<in> set (users ub'). \<forall>code. us_email_verification_code u = Some code \<longrightarrow>
       code_shape code \<and> us_verification_expires_at u \<noteq> None) \<and>
    (\<forall>u \<in> set (users ub). \<exists>u' \<in> set (users ub'). us_id u' = us_id u \<and> us_email u' = us_email u) \<and>
    staff ub' = staff ub"
proof -
  have inv: "users_inv ub" and inv': "users_inv ub'" and carry: "carried (find_user ub k) (find_user ub' k)" for k
    using keeps_serve_accounts [OF assms(2), of st sv] assms(1,3,4) by (auto simp: keeps_accounts_def)
  have ids: "distinct (map us_id (users ub))" "distinct (map us_id (users ub'))"
    using inv inv' by (auto simp: users_inv_def)
  have low: "map (ToLower \<circ> us_email) (users ub') = map us_email (users ub')"
    using inv' by (auto simp: users_inv_def user_ok_def)
  have here: "find_user ub (us_id u) = Some u" if "u \<in> set (users ub)" for u
    by (rule user_rows.find_row_unique [OF ids(1) that])
  have there: "find_user ub' (us_id u) = Some u" if "u \<in> set (users ub')" for u
    by (rule user_rows.find_row_unique [OF ids(2) that])
  have kept: "\<exists>u' \<in> set (users ub'). us_id u' = us_id u \<and> us_email u' = us_email u \<and> us_role_id u' = us_role_id u"
    if "u \<in> set (users ub)" for u
    using carry [of "us_id u"] here [OF that] by (auto simp: carried_def dest: user_rows.find_row_Some)
  have "us_id u \<in> staff ub" if "u \<in> set (users ub')" "us_role_id u = 1" for u
    using carry [of "us_id u"] there [OF that(1)] that(2)
    by (auto simp: carried_def staff_def dest!: user_rows.find_row_Some split: option.splits
        intro: rev_image_eqI [OF _ sym])
  then have staff: "staff ub' = staff ub"
    using kept by (fastforce simp: staff_def image_iff)
  have shapes: "code_shape code \<and> us_verification_expires_at u \<noteq> None"
    if "u \<in> set (users ub')" "us_email_verification_code u = Some code" for u code
    using inv' that by (auto simp: users_inv_def user_ok_def)
  have emails: "distinct (map (ToLower \<circ> us_email) (users ub'))"
    unfolding low using inv' by (simp add: users_inv_def)
  have "\<forall>u \<in> set (users ub). \<exists>u' \<in> set (users ub'). us_id u' = us_id u \<and> us_email u' = us_email u"
    using kept by blast
  with emails shapes staff inv' show ?thesis by (simp add: users_inv_def)
qed

definition shop_user :: user where
  "shop_user = blank_user\<lparr>us_id := 1, us_username := ''anna'', us_email := ''a@b.ru'', us_role_id := 2,
     us_email_verification_code := Some ''123456'', us_verification_expires_at := Some (10 * minute),
     us_full_name := Some ''A'', us_phone := Some ''7''\<rparr>"

definition accounts_example :: accounts where
  "accounts_example = \<lparr>ac_users = \<lparr>users = [shop_user], next_user = 2\<rparr>, ac_rate = MemStore Map.empty,
     ac_revoked = no_revocations, ac_mail = []\<rparr>"

lemma accounts_example_inv: "users_inv (ac_users accounts_example)"
  by (simp add: users_inv_def accounts_example_def shop_user_def user_ok_def code_shape_def is_digit_def
      ToLower_def lower_char_def blank_user_def)

lemma calm_request_usual: "usual_request (calm_request t)"
  by (simp add: usual_request_def calm_request_def keeps_refl)

definition services_example :: services where
  "services_example = \<lparr>sv_is_email = (\<lambda>s. CHR ''@'' \<in> set s),
     sv_sign = (\<lambda>cl. case cl_jti cl of Some jti \<Rightarrow> ''user '' @ jti | None \<Rightarrow> ''staff''), sv_hash = Inr,
     sv_compare = (\<lambda>hashed password. hashed = password), sv_checker = True\<rparr>"

theorem accounts_kept_witness:
  "staff (ac_users (serve_accounts services_example [(calm_request 1, ForgotRequest ''a@b.ru'')] accounts_example)) = {}"
proof -
  have "list_all (\<lambda>(env, rq). usual_request env) [(calm_request 1, ForgotRequest ''a@b.ru'')]"
    by (simp add: calm_request_usual)
  from accounts_kept [OF accounts_example_inv this refl refl, of services_example]
  show ?thesis by (auto simp: staff_def accounts_example_def shop_user_def blank_user_def)
qed

section \<open>What a code is good for\<close>

lemma no_code_no_user:
  assumes "users_inv ub" "user_with_email ub email = Some u" "us_email_verification_code u = None"
  shows "\<exists>e. GetByEmailAndCode c k now email code ub = Inl e"
proof (cases "c_stmt c k")
  case True
  with assms show ?thesis by (simp add: GetByEmailAndCode_inv code_live_def)
next
  case False
  then show ?thesis by (simp add: GetByEmailAndCode_def scan_user_def)
qed

lemma no_code_no_entry:
  assumes "users_inv (ac_users st)" "user_with_email (ac_users st) (normalizeEmail email) = Some u"
    "us_email_verification_code u = None"
  shows "fst (fst (handle_VerifyEmail is_email sign env email code token st)) \<noteq> 200"
proof -
  have "\<exists>e. uc_VerifyEmailByCode c now email code ub = (Inl e, ub)" if "ub = ac_users st" for c now code ub
    using no_code_no_user [OF assms, of c 0 now code] that by (auto simp: uc_VerifyEmailByCode_def)
  then show ?thesis
    by (auto simp: handle_VerifyEmail_def Let_def split: sum.split prod.split)
       (metis Inl_Inr_False fst_conv prod.inject)+
qed

lemma user_with_email_verified:
  "users_inv ub \<Longrightarrow> user_with_email ub email = Some u \<Longrightarrow>
    user_with_email (ub\<lparr>users := sql_update (\<lambda>v. us_id v = us_id u) verified_set (users ub)\<rparr>) email =
      Some (verified_set u)"
  using user_with_email_update [of verified_set ub email u u] by (simp add: verified_set_def)

lemma code_live_iff:
  "code_live now code u \<longleftrightarrow>
    us_email_verification_code u = Some code \<and> (\<exists>t. us_verification_expires_at u = Some t \<and> now < t)"
  by (auto simp: code_live_def split: option.splits)

lemma uc_VerifyEmailByCode_healthy:
  "users_inv ub \<Longrightarrow> uc_VerifyEmailByCode healthy now email code ub =
    (case user_with_email ub (normalizeEmail email) of
       Some u \<Rightarrow> if code_live now code u
         then (Inr (verified_set u), ub\<lparr>users := sql_update (\<lambda>v. us_id v = us_id u) verified_set (users ub)\<rparr>)
         else (Inl (Rejected ''invalid or expired code''), ub)
     | None \<Rightarrow> (Inl (Rejected ''invalid or expired code''), ub))"
  by (simp add: uc_VerifyEmailByCode_def GetByEmailAndCode_inv healthy_def VerifyEmailByCode_def
      user_update_def split: option.split)

text \<open>
  C18. When nothing fails, a verification code (which is also how one logs in) is accepted exactly
  when the account with that e-mail, whatever its case, holds it and it has not expired, and fewer
  than five wrong codes were tried within the last quarter of an hour. The answer is then a token
  for that account, its e-mail is verified and the code is used up: no later request of any kind,
  with any code, gets in again until a new code is issued.
\<close>

theorem verify_needs_code:
  assumes inv: "users_inv (ac_users st)" and calm: "calm env"
    and binds: "email \<noteq> []" "is_email email" "runes code = 6"
    and run: "handle_VerifyEmail is_email sign env email code [] st = ((status, tok), st')"
  shows "(status = 200 \<longleftrightarrow> rs_Get True (re_now env) (attempt_key email) (ac_rate st) < 5 \<and>
      (\<exists>u t. user_with_email (ac_users st) (normalizeEmail email) = Some u \<and>
         us_email_verification_code u = Some code \<and> us_verification_expires_at u = Some t \<and> re_now env < t)) \<and>
    (status = 200 \<longrightarrow> (\<exists>u. user_with_email (ac_users st) (normalizeEmail email) = Some u \<and>
      tok = Some (GenerateJWTToken sign (re_jti env) (re_now env) (us_id u) (us_username u) (us_email u)) \<and>
      user_with_email (ac_users st') (normalizeEmail email) = Some (verified_set u) \<and>
      (\<forall>env' code' token'. fst (fst (handle_VerifyEmail is_email sign env' email code' token' st')) \<noteq> 200)))"
proof -
  let ?e = "normalizeEmail email" and ?ub = "ac_users st" and ?now = "re_now env"
  have conns: "re_conn env k = healthy" "re_rate env k = True" for k using calm by (simp_all add: calm_def)
  have code: "code \<noteq> []" using binds(3) by (auto simp: runes_def)
  note live = code_live_iff [of ?now code] and uc = uc_VerifyEmailByCode_healthy [OF inv]
  have inv': "users_inv (ac_users st')"
    using keeps_handle_VerifyEmail [of st is_email sign env email code "[]"] inv run
    by (simp add: keeps_accounts_def)
  show ?thesis
  proof (cases "rs_Get True ?now (attempt_key email) (ac_rate st) < 5")
    case False
    then show ?thesis using run binds code conns by (auto simp: handle_VerifyEmail_def maxCodeAttempts_def)
  next
    case True
    note start = run binds code True conns
    show ?thesis
    proof (cases "\<exists>u. user_with_email ?ub ?e = Some u \<and> code_live ?now code u")
      case False
      then have "uc_VerifyEmailByCode healthy ?now email code ?ub = (Inl (Rejected ''invalid or expired code''), ?ub)"
        unfolding uc by (auto split: option.split)
      then have "status \<noteq> 200" using start by (auto simp: handle_VerifyEmail_def maxCodeAttempts_def)
      with False live show ?thesis by blast
    next
      case hit: True
      then obtain u where u: "user_with_email ?ub ?e = Some u" "code_live ?now code u" by blast
      have st': "status = 200" "tok = Some (GenerateJWTToken sign (re_jti env) ?now (us_id u) (us_username u) (us_email u))"
        "ac_users st' = ?ub\<lparr>users := sql_update (\<lambda>v. us_id v = us_id u) verified_set (users ?ub)\<rparr>"
        using start u by (auto simp: handle_VerifyEmail_def maxCodeAttempts_def uc verified_set_def)
      have after: "user_with_email (ac_users st') ?e = Some (verified_set u)"
        unfolding st'(3) by (rule user_with_email_verified [OF inv u(1)])
      have "fst (fst (handle_VerifyEmail is_email sign env' email code' token' st')) \<noteq> 200" for env' code' token'
        by (rule no_code_no_entry [OF inv' after]) (simp add: verified_set_def)
      with after st' u True live show ?thesis by blast
    qed
  qed
qed

theorem verify_needs_code_witness:
  "fst (fst (handle_VerifyEmail (\<lambda>_. True) (\<lambda>_. ''token'') (calm_request 1) ''A@b.ru'' ''123456'' [] accounts_example)) = 200"
proof -
  let ?run = "handle_VerifyEmail (\<lambda>_. True) (\<lambda>_. ''token'') (calm_request 1) ''A@b.ru'' ''123456'' [] accounts_example"
  have calm: "calm (calm_request 1)" by (simp add: calm_def calm_request_def)
  have bind: "''A@b.ru'' \<noteq> []" "(\<lambda>_. True) ''A@b.ru''" "runes ''123456'' = 6" by (simp_all add: runes_def)
  have email: "normalizeEmail ''A@b.ru'' = ''a@b.ru''" by code_simp
  have user: "user_with_email (ac_users accounts_example) ''a@b.ru'' = Some shop_user"
    by (simp add: user_with_email_def accounts_example_def same_email_def shop_user_def blank_user_def)
  have "fst (fst ?run) = 200 \<longleftrightarrow> rs_Get True 1 (attempt_key ''A@b.ru'') (ac_rate accounts_example) < 5 \<and>
      (\<exists>u t. user_with_email (ac_users accounts_example) (normalizeEmail ''A@b.ru'') = Some u \<and>
         us_email_verification_code u = Some ''123456'' \<and> us_verification_expires_at u = Some t \<and> 1 < t)"
    using verify_needs_code [OF accounts_example_inv calm bind, of "\<lambda>_. ''token''" "fst (fst ?run)" "snd (fst ?run)" "snd ?run"]
    by (simp add: calm_request_def)
  then show ?thesis
    by (simp add: email user) (simp add: accounts_example_def mem_get_def shop_user_def)
qed

end
