(* ===== verification/AccountGuarantees.thy ===== *)
theory AccountGuarantees
  imports Accounts
begin

text \<open>
  What the counters of wrong codes and the tokens achieve over runs of requests: the fifth wrong
  code spoils the code it guesses at (and marks the e-mail as verified), a user's token lives until
  it expires or is revoked, and a staff token cannot be revoked.
\<close>

section \<open>Counting wrong codes\<close>

definition counted :: "int \<Rightarrow> time \<Rightarrow> time \<Rightarrow> string \<Rightarrow> rate_store \<Rightarrow> bool" where
  "counted m a b k rs = (rs_inv rs \<and> 0 \<le> m \<and> (\<forall>t. a \<le> t \<and> t < b \<longrightarrow> rs_Get True t k rs = m))"

lemma counted_incr:
  assumes "counted m a b k rs" "a \<le> now" "now < b" "m = 0 \<Longrightarrow> b \<le> now + ttl"
  shows "fst (rs_Incr True True now k ttl rs) = m + 1 \<and> counted (m + 1) now b k (snd (rs_Incr True True now k ttl rs))"
proof -
  have inv: "rs_inv rs" and m: "0 \<le> m" and get: "rs_Get True t k rs = m" if "now \<le> t" "t < b" for t
    using assms(1,2) that by (auto simp: counted_def)
  have "rs_Get True now k rs = m" by (rule get) (use assms(3) in auto)
  note now = this inv [OF order.refl assms(3)] m [OF order.refl assms(3)]
  have "rs_Get True t k (snd (rs_Incr True True now k ttl rs)) = m + 1" if "now \<le> t" "t < b" for t
    using rate.incr_fresh [OF now(2), of now k t ttl] rate.incr_live [OF now(2), of now k t ttl]
      get [OF that] now(1,3) assms(4) that by (cases "m = 0") auto
  then show ?thesis
    using rate.incr_value [OF now(2)] rate.incr_inv [OF now(2)] now(1,3) by (simp add: counted_def)
qed

fun try_codes ::
  "(string \<Rightarrow> bool) \<Rightarrow> (jwt_claims \<Rightarrow> string) \<Rightarrow> string \<Rightarrow> (request_env \<times> string) list \<Rightarrow> accounts \<Rightarrow> int list \<times> accounts" where
  "try_codes is_email sign email [] st = ([], st)"
| "try_codes is_email sign email ((env, code) # tries) st =
     (let ((status, tok), st1) = handle_VerifyEmail is_email sign env email code [] st;
          (statuses, st2) = try_codes is_email sign email tries st1
      in (status # statuses, st2))"

text \<open>One wrong code: the count goes up, and at five the account is spoiled.\<close>

lemma wrong_try:
  assumes inv: "users_inv (ac_users st)" and u: "user_with_email (ac_users st) (normalizeEmail email) = Some u"
    and calm: "calm env" and binds: "email \<noteq> []" "is_email email" "runes code = 6"
    and wrong: "us_email_verification_code u \<noteq> Some code"
    and cnt: "counted m a b (attempt_key email) (ac_rate st)" "a \<le> re_now env" "re_now env < b" "m < 5"
      "m = 0 \<Longrightarrow> b \<le> re_now env + codeAttemptsTTL"
  obtains st' where "handle_VerifyEmail is_email sign env email code [] st = ((400, None), st')"
    "counted (m + 1) (re_now env) b (attempt_key email) (ac_rate st')"
    "ac_users st' = (if 5 \<le> m + 1
       then (ac_users st)\<lparr>users := sql_update (\<lambda>v. us_id v = us_id u) verified_set (users (ac_users st))\<rparr>
       else ac_users st)"
proof -
  let ?e = "normalizeEmail email" and ?ub = "ac_users st" and ?k = "attempt_key email" and ?now = "re_now env"
  have conns: "re_conn env k = healthy" "re_rate env k = True" for k using calm by (simp_all add: calm_def)
  have code: "code \<noteq> []" using binds(3) by (auto simp: runes_def)
  have get: "rs_Get True ?now ?k (ac_rate st) = m" using cnt by (simp add: counted_def)
  have uc: "uc_VerifyEmailByCode healthy ?now email code ?ub = (Inl (Rejected ''invalid or expired code''), ?ub)"
    using u wrong by (simp add: uc_VerifyEmailByCode_def GetByEmailAndCode_inv [OF inv] healthy_def code_live_def)
  obtain n rs where incr: "rs_Incr True True ?now ?k codeAttemptsTTL (ac_rate st) = (n, rs)" by fastforce
  have n: "n = m + 1" "counted (m + 1) ?now b ?k rs"
    using counted_incr [OF cnt(1-3,5)] by (simp_all add: incr)
  have run: "handle_VerifyEmail is_email sign env email code [] st = ((400, None), wrong_code env email st)"
    using binds code get cnt(4) by (simp add: handle_VerifyEmail_def conns maxCodeAttempts_def uc)
  have found: "GetUserByEmail healthy 0 email ?ub = Inr u"
    using u by (simp add: GetUserByEmail_def GetByEmail_inv [OF inv] healthy_def)
  have up: "c_stmt healthy k" for k by (simp add: healthy_def)
  have spoiled: "ac_users (wrong_code env email st) = (if 5 \<le> m + 1
       then ?ub\<lparr>users := sql_update (\<lambda>v. us_id v = us_id u) verified_set (users ?ub)\<rparr> else ?ub)"
    "ac_rate (wrong_code env email st) = rs"
    by (simp_all add: wrong_code_def conns incr n(1) invalidateCode_def maxCodeAttempts_def found up
        ClearVerificationCode_def VerifyEmailByCode_def user_update_def Let_def)
  show thesis by (rule that [OF run]) (use spoiled n in auto)
qed

lemma wrong_tries:
  assumes "tries \<noteq> []" "users_inv (ac_users st)" "user_with_email (ac_users st) (normalizeEmail email) = Some u"
    "email \<noteq> []" "is_email email"
    "\<forall>(env, code) \<in> set tries. calm env \<and> runes code = 6 \<and> us_email_verification_code u \<noteq> Some code \<and>
       a \<le> re_now env \<and> re_now env < b \<and> b \<le> re_now env + codeAttemptsTTL"
    "sorted (map (re_now \<circ> fst) tries)"
    "counted m a b (attempt_key email) (ac_rate st)" "m + int (length tries) = 5"
  shows "fst (try_codes is_email sign email tries st) = replicate (length tries) 400 \<and>
    counted 5 (re_now (fst (last tries))) b (attempt_key email) (ac_rate (snd (try_codes is_email sign email tries st))) \<and>
    user_with_email (ac_users (snd (try_codes is_email sign email tries st))) (normalizeEmail email) = Some (verified_set u)"
  using assms
proof (induction tries arbitrary: st a m)
  case (Cons t tries)
  obtain env code where t: "t = (env, code)" by (cases t)
  have att: "calm env" "runes code = 6" "us_email_verification_code u \<noteq> Some code" "a \<le> re_now env"
      "re_now env < b" "b \<le> re_now env + codeAttemptsTTL"
    and m: "m < 5" using Cons.prems(6,9) by (auto simp: t)
  obtain st' where st': "handle_VerifyEmail is_email sign env email code [] st = ((400, None), st')"
      "counted (m + 1) (re_now env) b (attempt_key email) (ac_rate st')"
      "ac_users st' = (if 5 \<le> m + 1
         then (ac_users st)\<lparr>users := sql_update (\<lambda>v. us_id v = us_id u) verified_set (users (ac_users st))\<rparr>
         else ac_users st)"
    using wrong_try [OF Cons.prems(2,3) att(1) Cons.prems(4) _ att(2,3) Cons.prems(8) att(4,5) m, of is_email sign]
      Cons.prems(5) att(6) by blast
  show ?case
  proof (cases "tries = []")
    case True
    then have five: "m = 4" using Cons.prems(9) by simp
    show ?thesis
      using st' user_with_email_verified [OF Cons.prems(2,3)] by (simp add: t True five)
  next
    case False
    then have "\<not> 5 \<le> m + 1" using Cons.prems(9) by (cases tries) auto
    with st'(3) have same: "ac_users st' = ac_users st" by simp
    have later: "\<forall>(env', code) \<in> set tries. calm env' \<and> runes code = 6 \<and> us_email_verification_code u \<noteq> Some code \<and>
        re_now env \<le> re_now env' \<and> re_now env' < b \<and> b \<le> re_now env' + codeAttemptsTTL"
      using Cons.prems(6,7) by (fastforce simp: t)
    have rest: "fst (try_codes is_email sign email tries st') = replicate (length tries) 400 \<and>
        counted 5 (re_now (fst (last tries))) b (attempt_key email) (ac_rate (snd (try_codes is_email sign email tries st'))) \<and>
        user_with_email (ac_users (snd (try_codes is_email sign email tries st'))) (normalizeEmail email) = Some (verified_set u)"
      by (rule Cons.IH [OF False _ _ Cons.prems(4,5) later _ st'(2)])
        (use Cons.prems(2,3,7,9) same in \<open>auto simp: t\<close>)
    then show ?thesis using False st'(1) by (simp add: t case_prod_beta Let_def)
  qed
qed simp

text \<open>
  C19. Guessing a code: with a fresh counter, five wrong codes within a quarter of an hour are all
  refused and leave the account without a code, and until that quarter of an hour is over every
  further code is answered 429, even the right one of a new mail, whatever has become of the table.
  The fifth wrong code also marks the e-mail as verified, although nobody showed that it is theirs:
  \<open>invalidateCode\<close> clears the code with the statement that confirms the e-mail.
\<close>

theorem wrong_codes_verify_email:
  assumes "users_inv (ac_users st)" "user_with_email (ac_users st) (normalizeEmail email) = Some u"
    "email \<noteq> []" "is_email email" "length tries = 5"
    "list_all (\<lambda>(env, code). calm env \<and> runes code = 6 \<and> us_email_verification_code u \<noteq> Some code \<and>
       t0 \<le> re_now env \<and> re_now env < t0 + 15 * minute) tries"
    "sorted (map (re_now \<circ> fst) tries)" "rs_inv (ac_rate st)"
    "\<And>t. rs_Get True t (attempt_key email) (ac_rate st) = 0"
    "try_codes is_email sign email tries st = (statuses, st')"
  shows "statuses = replicate 5 400 \<and>
    (\<exists>v. user_with_email (ac_users st') (normalizeEmail email) = Some v \<and> us_id v = us_id u \<and>
       us_email_verified v \<and> us_email_verification_code v = None) \<and>
    (\<forall>env code ub. calm env \<and> runes code = 6 \<and> re_now (fst (last tries)) \<le> re_now env \<and>
       re_now env < t0 + 15 * minute \<longrightarrow>
       fst (handle_VerifyEmail is_email sign env email code [] (st'\<lparr>ac_users := ub\<rparr>)) = (429, None))"
proof -
  have tries: "tries \<noteq> []" using assms(5) by auto
  have "\<forall>(env, code) \<in> set tries. calm env \<and> runes code = 6 \<and> us_email_verification_code u \<noteq> Some code \<and>
      t0 \<le> re_now env \<and> re_now env < t0 + 15 * minute \<and> t0 + 15 * minute \<le> re_now env + codeAttemptsTTL"
    using assms(6) by (auto simp: list_all_iff codeAttemptsTTL_def)
  moreover have "counted 0 t0 (t0 + 15 * minute) (attempt_key email) (ac_rate st)"
    using assms(8,9) by (simp add: counted_def)
  ultimately have run: "statuses = replicate 5 400"
      "counted 5 (re_now (fst (last tries))) (t0 + 15 * minute) (attempt_key email) (ac_rate st')"
      "user_with_email (ac_users st') (normalizeEmail email) = Some (verified_set u)"
    using wrong_tries [where is_email = is_email and sign = sign and m = 0, OF tries assms(1-4) _ assms(7)] assms(5,10) by auto
  have "fst (handle_VerifyEmail is_email sign env email code [] (st'\<lparr>ac_users := ub\<rparr>)) = (429, None)"
    if "calm env" "runes code = 6" "re_now (fst (last tries)) \<le> re_now env" "re_now env < t0 + 15 * minute" for env code ub
  proof -
    have "code \<noteq> []" using that(2) by (auto simp: runes_def)
    moreover have "rs_Get True (re_now env) (attempt_key email) (ac_rate st') = 5"
      using run(2) that(3,4) by (simp add: counted_def)
    ultimately show ?thesis
      using that(1,2) assms(3,4) by (simp add: handle_VerifyEmail_def calm_def maxCodeAttempts_def)
  qed
  with run show ?thesis by (auto simp: verified_set_def)
qed

definition five_guesses :: "(request_env \<times> string) list" where
  "five_guesses = map (\<lambda>t. (calm_request t, ''000000'')) [1, 2, 3, 4, 5]"

theorem wrong_codes_verify_email_witness:
  "map_option us_email_verified (user_with_email (ac_users accounts_example) ''a@b.ru'') = Some False \<and>
   map_option us_email_verified (user_with_email (ac_users (snd (try_codes (\<lambda>_. True) (\<lambda>_. ''token'')
     ''a@b.ru'' five_guesses accounts_example))) ''a@b.ru'') = Some True"
proof -
  let ?run = "try_codes (\<lambda>_. True) (\<lambda>_. ''token'') ''a@b.ru'' five_guesses accounts_example"
  have email: "normalizeEmail ''a@b.ru'' = ''a@b.ru''" by code_simp
  have user: "user_with_email (ac_users accounts_example) (normalizeEmail ''a@b.ru'') = Some shop_user"
    unfolding email
    by (simp add: user_with_email_def accounts_example_def same_email_def shop_user_def blank_user_def)
  have guesses: "length five_guesses = 5" "sorted (map (re_now \<circ> fst) five_guesses)"
    "list_all (\<lambda>(env, code). calm env \<and> runes code = 6 \<and> us_email_verification_code shop_user \<noteq> Some code \<and>
       1 \<le> re_now env \<and> re_now env < 1 + 15 * minute) five_guesses"
    by (simp_all add: five_guesses_def calm_request_def calm_def runes_def shop_user_def)
  have store: "rs_inv (ac_rate accounts_example)"
    "rs_Get True t (attempt_key ''a@b.ru'') (ac_rate accounts_example) = 0" for t
    by (simp_all add: accounts_example_def mem_inv_def mem_get_def)
  from wrong_codes_verify_email [where is_email = "\<lambda>_. True", OF accounts_example_inv user _ _ guesses(1,3,2) store
      prod.collapse [symmetric], of "\<lambda>_. ''token''"]
  show ?thesis using user by (auto simp: email shop_user_def blank_user_def)
qed

section \<open>The life of a token\<close>

text \<open>
  What the development relies on of the jwt package, for a token made of some claims: it is parsed
  back to them as long as it has not expired, and is not valid from the time its claims expire.
\<close>

definition jwt_works :: "(time \<Rightarrow> string \<Rightarrow> jwt_claims option) \<Rightarrow> (jwt_claims \<Rightarrow> string) \<Rightarrow> jwt_claims \<Rightarrow> bool" where
  "jwt_works parse sign cl = (\<forall>e t. cl_exp cl = Some e \<longrightarrow> parse t (sign cl) = (if t < e * second then Some cl else None))"

definition bearer :: "string \<Rightarrow> string" where
  "bearer token = ''Bearer '' @ token"

lemma AuthMiddleware_bearer:
  assumes "jwt_works parse sign cl" "cl_user_id cl = Some uid" "cl_exp cl = Some e" "cl_iat cl = Some iat"
  shows "AuthMiddleware parse checker up t (bearer (sign cl)) rv =
    (if t < e * second \<and>
        (checker \<longrightarrow> (\<forall>jti. cl_jti cl = Some jti \<longrightarrow> IsBlacklisted (up 0) t jti rv = Inr False) \<and>
           IsUserBlacklisted (up 1) t uid iat rv = Inr False)
     then Some cl else None)"
proof -
  have "\<not> unix t > e" if "t < e * second"
  proof -
    have "t div second < e" using that by (simp add: div_less_iff_less_mult)
    then show ?thesis by (simp add: unix_def)
  qed
  moreover have "take 7 (bearer s) = ''Bearer ''" "drop 7 (bearer s) = s" "bearer s \<noteq> []" for s
    by (simp_all add: bearer_def)
  moreover have "parse t (sign cl) = (if t < e * second then Some cl else None)"
    using assms(1,3) by (simp add: jwt_works_def)
  ultimately show ?thesis
    using assms(2-4) by (auto simp: AuthMiddleware_def split: option.split)
qed

lemma clean_revocations:
  "rv_jti rv jti = None \<Longrightarrow> IsBlacklisted True t jti rv = Inr False"
  "rv_user rv uid = None \<Longrightarrow> IsUserBlacklisted True t uid iat rv = Inr False"
  by (simp_all add: IsBlacklisted_def IsUserBlacklisted_def)

text \<open>
  C20. The life of the token a user gets: with Redis up and nothing revoked, it lets its owner in,
  as an ordinary user whom the routes of the staff refuse, until a day after it was made, in whole
  seconds. When the owner logs out, it never lets anybody in again, whatever Redis does then: the
  entry in the list of revoked tokens lives until the token has expired.
\<close>

theorem token_lifetime:
  assumes "jwt_works parse sign (user_claims jti t0 uid username email ''user'')"
    "tok = GenerateJWTToken sign jti t0 uid username email"
    "rv_jti (ac_revoked st) jti = None" "rv_user (ac_revoked st) uid = None" "re_redis env"
    "who = AuthMiddleware parse True (\<lambda>_. True) (re_now env) (bearer tok) (ac_revoked st)"
    "t < unix (t0 + day) * second" "re_now env < unix (t0 + day) * second"
  shows "VerifyToken (AuthMiddleware parse True (\<lambda>_. True) t (bearer tok) (ac_revoked st)) = (200, Some uid) \<and>
    RequireAuth (AuthMiddleware parse True (\<lambda>_. True) t (bearer tok) (ac_revoked st)) = None \<and>
    RequireAdmin (AuthMiddleware parse True (\<lambda>_. True) t (bearer tok) (ac_revoked st)) = Some 403 \<and>
    fst (Logout True env who st) = 200 \<and>
    (\<forall>up t'. AuthMiddleware parse True up t' (bearer tok) (ac_revoked (snd (Logout True env who st))) = None)"
proof -
  let ?cl = "user_claims jti t0 uid username email ''user''" and ?fin = "unix (t0 + day) * second"
  have tok: "tok = sign ?cl" by (simp add: assms(2) GenerateJWTToken_def generateJWTTokenWithRole_def)
  note read = AuthMiddleware_bearer [OF assms(1) user_claims_simps(1,4,5)]
  have seen: "AuthMiddleware parse True (\<lambda>_. True) u (bearer tok) (ac_revoked st) = Some ?cl" if "u < ?fin" for u
    using that clean_revocations assms(3,4) by (simp add: tok read)
  have who: "who = Some ?cl" unfolding assms(6) by (rule seen [OF assms(8)])
  have out: "fst (Logout True env who st) = 200"
    "rv_jti (ac_revoked (snd (Logout True env who st))) jti = Some ?fin"
    using assms(5,8) by (simp_all add: who Logout_def AddToBlacklist_def)
  have "AuthMiddleware parse True up u (bearer tok) (ac_revoked (snd (Logout True env who st))) = None" for up u
    using out(2) by (auto simp: tok read IsBlacklisted_def)
  with seen [OF assms(7)] out(1) show ?thesis
    by (simp add: VerifyToken_def RequireAuth_def RequireAdmin_def)
qed

text \<open>The jwt package on one token.\<close>

definition sign_one :: "jwt_claims \<Rightarrow> string" where
  "sign_one cl = ''token''"

definition parse_one :: "jwt_claims \<Rightarrow> time \<Rightarrow> string \<Rightarrow> jwt_claims option" where
  "parse_one cl t tok =
     (if tok = ''token'' \<and> (case cl_exp cl of Some e \<Rightarrow> t < e * second | None \<Rightarrow> True) then Some cl else None)"

lemma parse_one_works: "jwt_works (parse_one cl) sign_one cl"
  by (auto simp: jwt_works_def parse_one_def sign_one_def)

theorem token_lifetime_witness:
  "let cl = user_claims ''j'' 0 1 ''anna'' ''a@b.ru'' ''user'';
       who = AuthMiddleware (parse_one cl) True (\<lambda>_. True) 7 (bearer ''token'') no_revocations
   in VerifyToken who = (200, Some 1) \<and>
      AuthMiddleware (parse_one cl) True (\<lambda>_. True) 8 (bearer ''token'')
        (ac_revoked (snd (Logout True (calm_request 7) who accounts_example))) = None"
proof -
  let ?cl = "user_claims ''j'' 0 1 ''anna'' ''a@b.ru'' ''user''"
  have tok: "''token'' = GenerateJWTToken sign_one ''j'' 0 1 ''anna'' ''a@b.ru''"
    by (simp add: GenerateJWTToken_def generateJWTTokenWithRole_def sign_one_def)
  have st: "rv_jti (ac_revoked accounts_example) ''j'' = None" "rv_user (ac_revoked accounts_example) 1 = None"
    "ac_revoked accounts_example = no_revocations" "re_redis (calm_request 7)" "re_now (calm_request 7) = 7"
    by (simp_all add: accounts_example_def no_revocations_def calm_request_def)
  from token_lifetime [OF parse_one_works tok st(1,2,4) refl, of 7]
  show ?thesis by (simp add: st(3,5) unix_def Let_def)
qed

text \<open>
  A token of the staff's login: it lets its owner through to the routes of the staff exactly when
  the account has role 1, for a day, and nothing the owner can do ends it before: it carries no id
  to revoke, so logging out answers 500 (the type assertion on the missing id panics) and changes
  nothing.
\<close>

theorem staff_token_irrevocable:
  assumes "auth_Login sign compare c t0 name password ub = (Inr resp, ub')"
    "jwt_works parse sign (staff_claims t0 (lr_user_id resp) (lr_role_id resp))"
    "rv_user (ac_revoked st) (lr_user_id resp) = None"
    "\<And>t. who t = AuthMiddleware parse True (\<lambda>_. True) t (bearer (lr_token resp)) (ac_revoked st)"
    "t < unix (t0 + day) * second"
  shows "(RequireAdmin (who t) = None \<longleftrightarrow> lr_role_id resp = 1) \<and>
    (\<exists>u \<in> set (users ub). us_username u = name \<and> compare (us_password u) password \<and>
       us_id u = lr_user_id resp \<and> us_role_id u = lr_role_id resp) \<and>
    Logout True env (who t) st = (500, st) \<and>
    (\<forall>t' \<ge> unix (t0 + day) * second. who t' = None)"
proof -
  let ?cl = "staff_claims t0 (lr_user_id resp) (lr_role_id resp)"
  obtain u where found: "GetByUsername c 0 name ub = Inr (Some u)" and pw: "compare (us_password u) password"
    and resp: "resp = \<lparr>lr_token = generateToken sign t0 (us_id u) (us_role_id u), lr_user_id = us_id u,
      lr_role_id = us_role_id u, lr_username = us_username u\<rparr>"
    using assms(1) by (auto simp: auth_Login_def split: if_splits sum.splits option.splits)
  have u: "u \<in> set (users ub)" "us_username u = name"
    using scan_user_Some [OF found [unfolded GetByUsername_def]] by auto
  have tok: "lr_token resp = sign ?cl" by (simp add: resp generateToken_def)
  note read = AuthMiddleware_bearer [OF assms(2) staff_claims_simps(1,4,5)]
  have seen: "who s = (if s < unix (t0 + day) * second then Some ?cl else None)" for s
    using clean_revocations(2) [OF assms(3)] by (simp add: assms(4) tok read)
  show ?thesis
    using u pw resp seen assms(5) by (auto simp: RequireAdmin_def Logout_def)
qed

definition staff_example :: users_db where
  "staff_example = \<lparr>users = [shop_user\<lparr>us_role_id := 1, us_password := ''hash''\<rparr>], next_user = 2\<rparr>"

theorem staff_token_irrevocable_witness:
  "let who = AuthMiddleware (parse_one (staff_claims 0 1 1)) True (\<lambda>_. True) 7 (bearer ''token'') no_revocations
   in RequireAdmin who = None \<and> Logout True (calm_request 7) who accounts_example = (500, accounts_example)"
proof -
  let ?run = "auth_Login sign_one (\<lambda>h p. h = ''hash'' \<and> p = ''secret'') healthy 0 ''anna'' ''secret'' staff_example"
  let ?resp = "\<lparr>lr_token = ''token'', lr_user_id = 1, lr_role_id = 1, lr_username = ''anna''\<rparr>"
  have login: "?run = (Inr ?resp, snd ?run)"
    by (simp add: auth_Login_def GetByUsername_def scan_user_def healthy_def staff_example_def shop_user_def
        blank_user_def generateToken_def sign_one_def)
  have clean: "rv_user (ac_revoked accounts_example) (lr_user_id ?resp) = None"
    "ac_revoked accounts_example = no_revocations"
    by (simp_all add: accounts_example_def no_revocations_def)
  from staff_token_irrevocable [OF login _ clean(1) refl, of "parse_one (staff_claims 0 1 1)" 7 "calm_request 7"]
  show ?thesis using parse_one_works [of "staff_claims 0 1 1"] by (simp add: clean(2) unix_def Let_def)
qed

end
