(* ===== verification/MoyskladClient.thy ===== *)
theory MoyskladClient
  imports Resilience MoyskladSync ProductStore Text
begin

text \<open>
  internal/moysklad/client.go and order.go: the HTTP client of Moysklad. A request waits for the
  rate limiter, takes a slot of the outbound semaphore and is sent; temporary failures are tried
  again; the circuit breaker counts requests, not attempts. On it stand the readers of the API,
  page by page, and the customer orders. What the network answers is the record \<open>http_env\<close>: the
  answer to attempt \<open>k\<close> of a request, whether a failed attempt had read the body, how long things
  take and the random numbers of the delays. Other goroutines do not use the client meanwhile.
  The body of an answer is what the JSON decoder gives for it, \<open>None\<close> when it fails.
\<close>

section \<open>The client\<close>

record ms_client =
  mc_base_url :: string
  mc_min_interval :: duration
  mc_last_request :: time
  mc_max_retries :: int
  mc_breaker :: "circuit_breaker option"
  mc_slots :: int
  mc_in_flight :: int
  mc_organization :: string
  mc_agent :: string

text \<open>\<open>newRateLimiter\<close>: whole milliseconds; the conversion of the quotient cuts off.\<close>

definition newRateLimiter :: "rat \<Rightarrow> duration" where
  "newRateLimiter requestsPerSecond = \<lfloor>1000 / requestsPerSecond\<rfloor> * millisecond"

definition WithOutboundConcurrency :: "int \<Rightarrow> ms_client \<Rightarrow> ms_client" where
  "WithOutboundConcurrency n c = c\<lparr>mc_slots := (if n < 1 then 8 else n)\<rparr>"

definition WithCircuitBreaker :: "circuit_breaker \<Rightarrow> ms_client \<Rightarrow> ms_client" where
  "WithCircuitBreaker b c = c\<lparr>mc_breaker := Some b\<rparr>"

definition WithOrderDefaults :: "string \<Rightarrow> string \<Rightarrow> ms_client \<Rightarrow> ms_client" where
  "WithOrderDefaults organization agent c = c\<lparr>mc_organization := organization, mc_agent := agent\<rparr>"

definition NewClient :: "string \<Rightarrow> rat \<Rightarrow> int \<Rightarrow> (ms_client \<Rightarrow> ms_client) list \<Rightarrow> ms_client" where
  "NewClient base rps retries opts =
     (let c = foldl (\<lambda>c opt. opt c)
            \<lparr>mc_base_url = base, mc_min_interval = newRateLimiter rps, mc_last_request = zero_time,
             mc_max_retries = retries, mc_breaker = None, mc_slots = 0, mc_in_flight = 0,
             mc_organization = [], mc_agent = []\<rparr> opts
      in if mc_slots c = 0 then c\<lparr>mc_slots := 8\<rparr> else c)"

definition HasOrderDefaults :: "ms_client \<Rightarrow> bool" where
  "HasOrderDefaults c = (mc_organization c \<noteq> [] \<and> mc_agent c \<noteq> [])"

definition acquireOutbound :: "ms_client \<Rightarrow> ms_client" where
  "acquireOutbound c = c\<lparr>mc_in_flight := mc_in_flight c + 1\<rparr>"

definition releaseOutbound :: "ms_client \<Rightarrow> ms_client" where
  "releaseOutbound c = c\<lparr>mc_in_flight := mc_in_flight c - 1\<rparr>"

text \<open>\<open>wait\<close>: sleeps to the end of the interval, plus \<open>late\<close>, and gives the time it returns.\<close>

definition rl_wait :: "duration \<Rightarrow> time \<Rightarrow> ms_client \<Rightarrow> time \<times> ms_client" where
  "rl_wait late now c =
     (let elapsed = now - mc_last_request c;
          after = now + (if elapsed < mc_min_interval c then mc_min_interval c - elapsed else 0) + late
      in (after, c\<lparr>mc_last_request := after\<rparr>))"

definition Allow :: "time \<Rightarrow> ms_client \<Rightarrow> bool \<times> ms_client" where
  "Allow now c =
     (case mc_breaker c of
        None \<Rightarrow> (True, c)
      | Some b \<Rightarrow> let (ok, b') = cb_allow now b in (ok, c\<lparr>mc_breaker := Some b'\<rparr>))"

definition OnSuccess :: "ms_client \<Rightarrow> ms_client" where
  "OnSuccess c = c\<lparr>mc_breaker := map_option cb_on_success (mc_breaker c)\<rparr>"

definition OnFailure :: "time \<Rightarrow> ms_client \<Rightarrow> ms_client" where
  "OnFailure now c = c\<lparr>mc_breaker := map_option (cb_on_failure now) (mc_breaker c)\<rparr>"

section \<open>One request\<close>

datatype http_error =
    CircuitOpen
  | SendFailed
  | RateLimited
  | ServerDown int
  | ApiStatus int
  | BadBody
  | BadUrl
  | ResyncRequired
  | EmptyOrderId
  | NoOrderDefaults
  | NoPositions
  | NoDownloadUrl

record 'b http_response =
  hr_status :: int
  hr_retry_after :: string
  hr_type :: string
  hr_body :: "'b option"

record 'b http_env =
  he_do :: "nat \<Rightarrow> 'b http_response option"
  he_drained :: "nat \<Rightarrow> bool"
  he_late :: "nat \<Rightarrow> duration"
  he_took :: "nat \<Rightarrow> duration"
  he_slept :: "nat \<Rightarrow> duration \<Rightarrow> duration"
  he_rand :: "nat \<Rightarrow> int \<Rightarrow> int"
  he_until :: "nat \<Rightarrow> string \<Rightarrow> duration option"

record call =
  ca_client :: ms_client
  ca_clock :: time
  ca_drained :: bool
  ca_sends :: "time list"

text \<open>A number of seconds as a \<open>time.Duration\<close>, which wraps around.\<close>

definition as_seconds :: "int \<Rightarrow> duration" where
  "as_seconds n = (n * second + 2 ^ 63) mod 2 ^ 64 - 2 ^ 63"

definition parseRetryAfterSeconds ::
  "(string \<Rightarrow> duration option) \<Rightarrow> (int \<Rightarrow> int) \<Rightarrow> string \<Rightarrow> int \<Rightarrow> duration" where
  "parseRetryAfterSeconds until rnd h attempt =
     (if h = [] then 0
      else case Atoi (TrimSpace h) of
        Some sec \<Rightarrow>
          if 0 < sec then as_seconds sec
          else (case until h of
              Some d \<Rightarrow> if 0 < d then d else MoyskladHTTPRetrySleepDuration rnd attempt
            | None \<Rightarrow> MoyskladHTTPRetrySleepDuration rnd attempt)
      | None \<Rightarrow>
          (case until h of
              Some d \<Rightarrow> if 0 < d then d else MoyskladHTTPRetrySleepDuration rnd attempt
            | None \<Rightarrow> MoyskladHTTPRetrySleepDuration rnd attempt))"

datatype 'b attempt = Refused | Answered "'b http_response" | Temporary http_error duration

text \<open>
  How the loop takes the answer of \<open>client.Do\<close> to attempt \<open>k\<close>: a response to return, or a
  failure to try again after a delay.
\<close>

definition judge :: "'b http_env \<Rightarrow> nat \<Rightarrow> 'b http_response option \<Rightarrow> 'b attempt" where
  "judge env k answer =
     (let sleep = MoyskladHTTPRetrySleepDuration (he_rand env k) (int k) in
      case answer of
        None \<Rightarrow> Temporary SendFailed sleep
      | Some r \<Rightarrow>
          if hr_status r = 429 then
            let ra = parseRetryAfterSeconds (he_until env k) (he_rand env k) (hr_retry_after r) (int k)
            in Temporary RateLimited (if 0 < ra then ra else sleep)
          else if hr_status r \<in> {503, 502, 504} then Temporary (ServerDown (hr_status r)) sleep
          else Answered r)"

text \<open>
  One round of the loop up to the answer. The transport reads the body of a request while it
  sends it; \<open>req.Clone\<close> shares the reader, so a later attempt finds it empty, and a request that is
  shorter than its Content-Length fails in the transport.
\<close>

definition send_once :: "'b http_env \<Rightarrow> bool \<Rightarrow> nat \<Rightarrow> call \<Rightarrow> 'b attempt \<times> call" where
  "send_once env has_body k s =
     (let (ok, c1) = Allow (ca_clock s) (ca_client s) in
      if \<not> ok then (Refused, s\<lparr>ca_client := c1\<rparr>)
      else
        let (sent, c2) = rl_wait (he_late env k) (ca_clock s) c1;
            c3 = acquireOutbound c2;
            answer = (if has_body \<and> ca_drained s then None else he_do env k)
        in (judge env k answer,
            s\<lparr>ca_client := releaseOutbound c3, ca_clock := sent + he_took env k,
              ca_drained := ca_drained s \<or> has_body \<and> (answer \<noteq> None \<or> he_drained env k),
              ca_sends := ca_sends s @ [sent]\<rparr>))"

definition settle_breaker :: "int \<Rightarrow> time \<Rightarrow> ms_client \<Rightarrow> ms_client" where
  "settle_breaker status now c =
     (if 200 \<le> status \<and> status < 300 then OnSuccess c
      else if status \<ge> 500 then OnFailure now c
      else OnSuccess c)"

text \<open>The loop from attempt \<open>k\<close> on, with \<open>n\<close> retries left.\<close>

fun attempts ::
  "'b http_env \<Rightarrow> bool \<Rightarrow> nat \<Rightarrow> nat \<Rightarrow> call \<Rightarrow> (http_error + 'b http_response) \<times> call" where
  "attempts env has_body 0 k s =
     (case send_once env has_body k s of
        (Refused, s') \<Rightarrow> (Inl CircuitOpen, s')
      | (Answered r, s') \<Rightarrow>
          (Inr r, s'\<lparr>ca_client := settle_breaker (hr_status r) (ca_clock s') (ca_client s')\<rparr>)
      | (Temporary e d, s') \<Rightarrow> (Inl e, s'\<lparr>ca_client := OnFailure (ca_clock s') (ca_client s')\<rparr>))"
| "attempts env has_body (Suc n) k s =
     (case send_once env has_body k s of
        (Refused, s') \<Rightarrow> (Inl CircuitOpen, s')
      | (Answered r, s') \<Rightarrow>
          (Inr r, s'\<lparr>ca_client := settle_breaker (hr_status r) (ca_clock s') (ca_client s')\<rparr>)
      | (Temporary e d, s') \<Rightarrow>
          attempts env has_body n (Suc k) (s'\<lparr>ca_clock := ca_clock s' + he_slept env k d\<rparr>))"

definition doRequestWithRetry ::
  "'b http_env \<Rightarrow> bool \<Rightarrow> call \<Rightarrow> (http_error + 'b http_response) \<times> call" where
  "doRequestWithRetry env has_body s =
     attempts env has_body (nat (max 0 (mc_max_retries (ca_client s)))) 0 (s\<lparr>ca_drained := False\<rparr>)"

section \<open>Reading answers\<close>

text \<open>A GET whose answer is JSON: \<open>wanted\<close> statuses are decoded, others are the error \<open>bad\<close>.\<close>

definition decoded ::
  "(int \<Rightarrow> bool) \<Rightarrow> (int \<Rightarrow> http_error) \<Rightarrow> (http_error + 'b http_response) \<times> call \<Rightarrow> (http_error + 'b) \<times> call" where
  "decoded wanted bad answer =
     (case answer of
        (Inl e, s) \<Rightarrow> (Inl e, s)
      | (Inr r, s) \<Rightarrow>
          (if \<not> wanted (hr_status r) then Inl (bad (hr_status r))
           else case hr_body r of None \<Rightarrow> Inl BadBody | Some b \<Rightarrow> Inr b, s))"

definition get_json :: "'b http_env \<Rightarrow> call \<Rightarrow> (http_error + 'b) \<times> call" where
  "get_json env s = decoded (\<lambda>n. n = 200) ApiStatus (doRequestWithRetry env False s)"

definition GetProductsByID :: "ms_product http_env \<Rightarrow> call \<Rightarrow> (http_error + ms_product list) \<times> call" where
  "GetProductsByID env s = (case get_json env s of (Inl e, s') \<Rightarrow> (Inl e, s') | (Inr p, s') \<Rightarrow> (Inr [p], s'))"

definition GetOrganizations :: "'r http_env \<Rightarrow> call \<Rightarrow> (http_error + 'r) \<times> call" where
  "GetOrganizations env s = get_json env s"

definition GetCounterparties :: "'r http_env \<Rightarrow> call \<Rightarrow> (http_error + 'r) \<times> call" where
  "GetCounterparties env s = get_json env s"

section \<open>Ids in hrefs\<close>

text \<open>
  The path \<open>url.Parse\<close> finds in an http address or a relative one, for hrefs without percent
  escapes: the fragment and the query are cut off, the host is skipped.
\<close>

definition after_host :: "string \<Rightarrow> string" where
  "after_host s =
     (if take 7 s = ''http://'' then dropWhile (\<lambda>ch. ch \<noteq> CHR ''/'') (drop 7 s)
      else if take 8 s = ''https://'' then dropWhile (\<lambda>ch. ch \<noteq> CHR ''/'') (drop 8 s)
      else s)"

definition url_path :: "string \<Rightarrow> string" where
  "url_path href =
     after_host (takeWhile (\<lambda>ch. ch \<noteq> CHR ''?'') (takeWhile (\<lambda>ch. ch \<noteq> CHR ''#'') href))"

definition trim_slash :: "string \<Rightarrow> string" where
  "trim_slash s = (if s \<noteq> [] \<and> last s = CHR ''/'' then butlast s else s)"

definition after_last_slash :: "string \<Rightarrow> string option" where
  "after_last_slash p =
     (if CHR ''/'' \<in> set p \<and> last_segment p \<noteq> [] then Some (last_segment p) else None)"

definition client_extractIDFromHref :: "string \<Rightarrow> string" where
  "client_extractIDFromHref href =
     (if href = [] then []
      else case (if url_path href = [] then None else after_last_slash (trim_slash (url_path href))) of
        Some x \<Rightarrow> x
      | None \<Rightarrow>
          (case after_last_slash (trim_slash (takeWhile (\<lambda>ch. ch \<noteq> CHR ''?'') href)) of
             Some x \<Rightarrow> x
           | None \<Rightarrow> []))"

definition ExtractUUIDFromHref :: "string \<Rightarrow> string" where
  "ExtractUUIDFromHref href = client_extractIDFromHref href"

section \<open>Lists, page by page\<close>

record 'r page_body =
  pb_rows :: "'r list"
  pb_next :: string

text \<open>
  The loop over the offsets of the pages; \<open>add\<close> puts the rows of a page to what is there, \<open>done\<close>
  says that a page is the last one. The offsets are those up to the cap at which the loop stops.
\<close>

fun fetch_pages ::
  "(int \<Rightarrow> call \<Rightarrow> (http_error + 'r page_body) \<times> call) \<Rightarrow> ('r page_body \<Rightarrow> bool) \<Rightarrow> ('a \<Rightarrow> 'r list \<Rightarrow> 'a)
    \<Rightarrow> int list \<Rightarrow> 'a \<Rightarrow> call \<Rightarrow> (http_error + 'a) \<times> call" where
  "fetch_pages get is_last add [] acc s = (Inr acc, s)"
| "fetch_pages get is_last add (offset # offsets) acc s =
     (case get offset s of
        (Inl e, s') \<Rightarrow> (Inl e, s')
      | (Inr p, s') \<Rightarrow>
          if is_last p then (Inr (add acc (pb_rows p)), s')
          else fetch_pages get is_last add offsets (add acc (pb_rows p)) s')"

definition page_offsets :: "nat \<Rightarrow> nat \<Rightarrow> int list" where
  "page_offsets limit cap = map (\<lambda>i. int (i * limit)) [0..<Suc (cap div limit)]"

definition last_or_unlinked :: "nat \<Rightarrow> 'r page_body \<Rightarrow> bool" where
  "last_or_unlinked limit p = (length (pb_rows p) < limit \<or> pb_next p = [])"

definition GetProducts ::
  "(int \<Rightarrow> ms_product page_body http_env) \<Rightarrow> call \<Rightarrow> (http_error + ms_product list) \<times> call" where
  "GetProducts pages s =
     fetch_pages (\<lambda>offset. get_json (pages offset)) (last_or_unlinked 100) (@) (page_offsets 100 100000) [] s"

text \<open>The filter has the time in whole seconds.\<close>

definition GetProductsDelta ::
  "(int \<Rightarrow> int \<Rightarrow> ms_product page_body http_env) \<Rightarrow> time \<Rightarrow> call \<Rightarrow> (http_error + ms_product list) \<times> call" where
  "GetProductsDelta pages since s =
     fetch_pages
       (\<lambda>offset s. decoded (\<lambda>n. n = 200) (\<lambda>n. if n = 410 then ResyncRequired else ApiStatus n)
          (doRequestWithRetry (pages (since div second) offset) False s))
       (last_or_unlinked 100) (@) (page_offsets 100 100000) [] s"

definition add_stock_row :: "(string \<rightharpoonup> money) \<Rightarrow> string \<times> money \<Rightarrow> (string \<rightharpoonup> money)" where
  "add_stock_row m row =
     (let k = client_extractIDFromHref (fst row) in if k \<noteq> [] then m(k \<mapsto> snd row) else m)"

definition GetStockReport ::
  "(int \<Rightarrow> (string \<times> money) page_body http_env) \<Rightarrow> call \<Rightarrow> (http_error + (string \<rightharpoonup> money)) \<times> call" where
  "GetStockReport pages s =
     fetch_pages (\<lambda>offset. get_json (pages offset)) (last_or_unlinked 1000) (foldl add_stock_row)
       (page_offsets 1000 500000) Map.empty s"

definition GetStockReportFromURL ::
  "bool \<Rightarrow> (string \<times> money) list http_env \<Rightarrow> call \<Rightarrow> (http_error + (string \<rightharpoonup> money)) \<times> call" where
  "GetStockReportFromURL url_ok env s =
     (if \<not> url_ok then (Inl BadUrl, s)
      else case get_json env s of
        (Inl e, s') \<Rightarrow> (Inl e, s')
      | (Inr rows, s') \<Rightarrow> (Inr (foldl (\<lambda>m row. m(last_segment (fst row) \<mapsto> snd row)) Map.empty rows), s'))"

definition GetProductFolders ::
  "(int \<Rightarrow> ms_folder page_body http_env) \<Rightarrow> call \<Rightarrow> (http_error + ms_folder list) \<times> call" where
  "GetProductFolders pages s =
     fetch_pages (\<lambda>offset. get_json (pages offset)) (\<lambda>p. length (pb_rows p) < 100) (@)
       (page_offsets 100 10000) [] s"

record ms_discount =
  md_id :: string
  md_name :: string
  md_active :: bool
  md_discount :: money
  md_assortment :: "string list"
  md_folders :: "string list"

definition GetSpecialPriceDiscounts ::
  "(int \<Rightarrow> ms_discount page_body http_env) \<Rightarrow> call \<Rightarrow> (http_error + ms_discount list) \<times> call" where
  "GetSpecialPriceDiscounts pages s =
     fetch_pages (\<lambda>offset. get_json (pages offset)) (\<lambda>p. length (pb_rows p) < 100) (@)
       (page_offsets 100 10000) [] s"

section \<open>Images\<close>

text \<open>The rows are the download address and the address of an image.\<close>

definition GetProductFirstDownloadURL ::
  "(string \<times> string) list http_env \<Rightarrow> call \<Rightarrow> (http_error + string) \<times> call" where
  "GetProductFirstDownloadURL env s =
     (case doRequestWithRetry env False s of
        (Inl e, s') \<Rightarrow> (Inl e, s')
      | (Inr r, s') \<Rightarrow>
          (if hr_status r = 404 then Inr []
           else if hr_status r \<noteq> 200 then Inl (ApiStatus (hr_status r))
           else case hr_body r of
             None \<Rightarrow> Inl BadBody
           | Some [] \<Rightarrow> Inr []
           | Some ((download, href) # _) \<Rightarrow> Inr (if download \<noteq> [] then download else href), s'))"

definition DownloadRawFile ::
  "bool \<Rightarrow> string http_env \<Rightarrow> call \<Rightarrow> (http_error + string \<times> string) \<times> call" where
  "DownloadRawFile url_ok env s =
     (if \<not> url_ok then (Inl BadUrl, s)
      else case doRequestWithRetry env False s of
        (Inl e, s') \<Rightarrow> (Inl e, s')
      | (Inr r, s') \<Rightarrow>
          (if hr_status r \<noteq> 200 then Inl (ApiStatus (hr_status r))
           else case hr_body r of
             None \<Rightarrow> Inl BadBody
           | Some d \<Rightarrow> Inr (d, if hr_type r = [] then ''image/jpeg'' else hr_type r), s'))"

text \<open>The metadata of an image are the addresses of its miniature and of its tiny version.\<close>

definition DownloadImage ::
  "bool \<Rightarrow> (string \<times> string) http_env \<Rightarrow> (string \<Rightarrow> bool) \<Rightarrow> (string \<Rightarrow> string http_env) \<Rightarrow> call
    \<Rightarrow> (http_error + string \<times> string) \<times> call" where
  "DownloadImage url_ok meta address_ok img s =
     (if \<not> url_ok then (Inl BadUrl, s)
      else case get_json meta s of
        (Inl e, s') \<Rightarrow> (Inl e, s')
      | (Inr (miniature, tiny), s') \<Rightarrow>
          let address = (if miniature = [] then tiny else miniature)
          in if address = [] then (Inl NoDownloadUrl, s')
             else DownloadRawFile (address_ok address) (img address) s')"

section \<open>Customer orders\<close>

record ms_position =
  po_quantity :: int
  po_href :: string
  po_price :: money
  po_reserve :: int

text \<open>\<open>or_description\<close> are the texts that the description is formatted from: the number of a stored
  order, the name and phone of the customer, the comment.\<close>

record ms_order_request =
  or_name :: string
  or_description :: "id64 option \<times> string \<times> string \<times> string option"
  or_positions :: "ms_position list"
  or_organization :: string
  or_agent :: string

definition CreateCustomerOrder ::
  "(ms_order_request \<Rightarrow> string http_env) \<Rightarrow> ms_order_request \<Rightarrow> call \<Rightarrow> (http_error + string) \<times> call" where
  "CreateCustomerOrder env order s =
     decoded (\<lambda>n. n = 200 \<or> n = 201) ApiStatus (doRequestWithRetry (env order) True s)"

definition DeleteCustomerOrder :: "string \<Rightarrow> unit http_env \<Rightarrow> call \<Rightarrow> (http_error + unit) \<times> call" where
  "DeleteCustomerOrder moyskladID env s =
     (if moyskladID = [] then (Inl EmptyOrderId, s)
      else case doRequestWithRetry env False s of
        (Inl e, s') \<Rightarrow> (Inl e, s')
      | (Inr r, s') \<Rightarrow>
          (if hr_status r \<in> {200, 204, 404} then Inr () else Inl (ApiStatus (hr_status r)), s'))"

definition name_body :: "string \<Rightarrow> string" where
  "name_body name = ''{\"name\":\"'' @ name @ ''\"}''"

definition UpdateOrderName :: "(string \<Rightarrow> unit http_env) \<Rightarrow> string \<Rightarrow> call \<Rightarrow> (http_error + unit) \<times> call" where
  "UpdateOrderName env name s =
     (case doRequestWithRetry (env (name_body name)) True s of
        (Inl e, s') \<Rightarrow> (Inl e, s')
      | (Inr r, s') \<Rightarrow> (if hr_status r \<ge> 300 then Inl (ApiStatus (hr_status r)) else Inr (), s'))"

text \<open>The loop over the lines; the query of a product is statement \<open>k\<close>, \<open>k + 1\<close>, ...\<close>

fun order_positions :: "string \<Rightarrow> conn \<Rightarrow> nat \<Rightarrow> shop_db \<Rightarrow> order_item list \<Rightarrow> ms_position list" where
  "order_positions base c k db [] = []"
| "order_positions base c k db (it # its) =
     (case product_GetByID c k (oi_product_id it) db of
        Inr (Some p) \<Rightarrow>
          (case p_moysklad_id p of
             Some m \<Rightarrow>
               if m = [] then order_positions base c (Suc k) db its
               else \<lparr>po_quantity = oi_quantity it, po_href = base @ ''/entity/product/'' @ m,
                      po_price = oi_price it * 100, po_reserve = oi_quantity it\<rparr>
                    # order_positions base c (Suc k) db its
           | None \<Rightarrow> order_positions base c (Suc k) db its)
      | _ \<Rightarrow> order_positions base c (Suc k) db its)"

definition order_request ::
  "ms_client \<Rightarrow> string \<Rightarrow> (id64 option \<times> string \<times> string \<times> string option) \<Rightarrow> ms_position list
    \<Rightarrow> ms_order_request" where
  "order_request cl name description ps =
     \<lparr>or_name = name, or_description = description, or_positions = ps,
      or_organization = mc_base_url cl @ ''/entity/organization/'' @ mc_organization cl,
      or_agent = mc_base_url cl @ ''/entity/counterparty/'' @ mc_agent cl\<rparr>"

definition said :: "string option \<Rightarrow> string option" where
  "said comment = (if comment = Some [] then None else comment)"

definition place_order ::
  "(ms_order_request \<Rightarrow> string http_env) \<Rightarrow> ms_order_request \<Rightarrow> call \<Rightarrow> (http_error + string) \<times> call" where
  "place_order env order s =
     (if or_positions order = [] then (Inl NoPositions, s)
      else case CreateCustomerOrder env order s of
        (Inl e, s') \<Rightarrow> (Inl e, s')
      | (Inr oid, s') \<Rightarrow> (if oid = [] then Inl EmptyOrderId else Inr oid, s'))"

definition CreateOrderFromRequest ::
  "(ms_order_request \<Rightarrow> string http_env) \<Rightarrow> conn \<Rightarrow> shop_db \<Rightarrow> string \<Rightarrow> string \<Rightarrow> string \<Rightarrow> string option
    \<Rightarrow> order_item list \<Rightarrow> call \<Rightarrow> (http_error + string) \<times> call" where
  "CreateOrderFromRequest env c db name customer phone comment items s =
     (let cl = ca_client s in
      if \<not> HasOrderDefaults cl then (Inl NoOrderDefaults, s)
      else place_order env (order_request cl name (None, customer, phone, said comment)
             (order_positions (mc_base_url cl) c 0 db items)) s)"

definition CreateOrderFromDB ::
  "(ms_order_request \<Rightarrow> string http_env) \<Rightarrow> conn \<Rightarrow> shop_db \<Rightarrow> order \<Rightarrow> call \<Rightarrow> (http_error + string) \<times> call" where
  "CreateOrderFromDB env c db ord s =
     (let cl = ca_client s in
      if \<not> HasOrderDefaults cl then (Inl NoOrderDefaults, s)
      else place_order env (order_request cl (''Online-'' @ show_int (o_id ord))
             (Some (o_id ord), o_customer_name ord, o_phone ord, said (o_comment ord))
             (order_positions (mc_base_url cl) c 0 db (o_items ord))) s)"

end
