(* ===== verification/ClientGuarantees.thy ===== *)
theory ClientGuarantees
  imports MoyskladClient
begin

text \<open>
  The properties of the Moysklad client: what a request with its retries comes to, how often and
  how fast requests are sent, lists that are complete up to the cap of their pages, ids in hrefs,
  and the customer order a request places.
\<close>

section \<open>An example\<close>

definition quick :: "(nat \<Rightarrow> 'b http_response option) \<Rightarrow> 'b http_env" where
  "quick answers = \<lparr>he_do = answers, he_drained = (\<lambda>_. False), he_late = (\<lambda>_. 0), he_took = (\<lambda>_. 0),
     he_slept = (\<lambda>_ d. d), he_rand = (\<lambda>_ _. 0), he_until = (\<lambda>_ _. None)\<rparr>"

definition status_only :: "int \<Rightarrow> 'b http_response" where
  "status_only n = \<lparr>hr_status = n, hr_retry_after = [], hr_type = [], hr_body = None\<rparr>"

definition with_body :: "'b \<Rightarrow> 'b http_response" where
  "with_body b = \<lparr>hr_status = 200, hr_retry_after = [], hr_type = [], hr_body = Some b\<rparr>"

definition idle_call :: call where
  "idle_call = \<lparr>ca_client = NewClient ''https://api'' 10 2
       [WithCircuitBreaker (NewCircuitBreaker 5 minute), WithOrderDefaults ''org'' ''agent''],
     ca_clock = 0, ca_drained = False, ca_sends = []\<rparr>"

lemma quick_simps [simp]: "he_do (quick f) = f" "he_late (quick f) k = 0"
  by (simp_all add: quick_def)

lemma idle_call_simps [simp]:
  "ca_sends idle_call = []" "mc_max_retries (ca_client idle_call) = 2"
  "mc_breaker (ca_client idle_call) = Some (NewCircuitBreaker 5 minute)"
  "cbstate (NewCircuitBreaker n d) = CbClosed" "HasOrderDefaults (ca_client idle_call)"
  "mc_min_interval (ca_client idle_call) = 100 * millisecond"
  by (simp_all add: idle_call_def NewClient_def Let_def WithCircuitBreaker_def WithOrderDefaults_def
    NewCircuitBreaker_def HasOrderDefaults_def newRateLimiter_def)

section \<open>Attempts\<close>

definition temporary :: "'b http_response option \<Rightarrow> bool" where
  "temporary answer = (case answer of None \<Rightarrow> True | Some r \<Rightarrow> hr_status r \<in> {429, 502, 503, 504})"

definition failure :: "'b http_response option \<Rightarrow> http_error" where
  "failure answer =
     (case answer of
        None \<Rightarrow> SendFailed
      | Some r \<Rightarrow> if hr_status r = 429 then RateLimited else ServerDown (hr_status r))"

definition lets_through :: "ms_client \<Rightarrow> bool" where
  "lets_through c = (case mc_breaker c of None \<Rightarrow> True | Some b \<Rightarrow> cbstate b = CbClosed)"

lemma judge_temporary: "temporary a \<Longrightarrow> \<exists>d. judge env k a = Temporary (failure a) d"
  by (auto simp: judge_def temporary_def failure_def Let_def split: option.splits)

lemma judge_final: "\<not> temporary a \<Longrightarrow> judge env k a = Answered (the a)"
  by (auto simp: judge_def temporary_def Let_def split: option.splits)

lemma judge_not_refused [simp]: "judge env k a \<noteq> Refused"
  by (simp add: judge_def Let_def split: option.split)

lemma judge_cases:
  obtains d where "temporary a" "judge env k a = Temporary (failure a) d"
  | r where "a = Some r" "\<not> temporary a" "judge env k a = Answered r"
  using judge_temporary [of a env k] judge_final [of a env k]
  by (cases a) (auto simp: temporary_def split: if_splits)

text \<open>The answer an attempt gets, given that its body may be used up.\<close>

definition answer_to :: "'b http_env \<Rightarrow> bool \<Rightarrow> nat \<Rightarrow> call \<Rightarrow> 'b http_response option" where
  "answer_to env has_body k s = (if has_body \<and> ca_drained s then None else he_do env k)"

definition sent_at :: "'b http_env \<Rightarrow> nat \<Rightarrow> call \<Rightarrow> time" where
  "sent_at env k s = fst (rl_wait (he_late env k) (ca_clock s) (ca_client s))"

lemma Allow_closed: "lets_through c \<Longrightarrow> Allow now c = (True, c)"
  by (cases c) (auto simp: lets_through_def Allow_def cb_allow_def split: option.splits)

lemma Allow_frame: "Allow now c = (ok, c') \<Longrightarrow> \<exists>b. c' = c\<lparr>mc_breaker := b\<rparr>"
proof (cases "mc_breaker c")
  case None
  moreover assume "Allow now c = (ok, c')"
  ultimately show ?thesis by (intro exI [of _ "mc_breaker c"]) (simp add: Allow_def)
qed (auto simp: Allow_def split: prod.splits)

text \<open>What one round does to the call, whatever the breaker says.\<close>

lemma send_once_cases:
  obtains c where "send_once env hb k s = (Refused, s\<lparr>ca_client := c\<rparr>)"
      "Allow (ca_clock s) (ca_client s) = (False, c)"
  | b where "send_once env hb k s =
        (judge env k (answer_to env hb k s),
         s\<lparr>ca_client := (ca_client s)\<lparr>mc_last_request := sent_at env k s, mc_breaker := b\<rparr>,
           ca_clock := sent_at env k s + he_took env k,
           ca_drained := ca_drained s \<or> hb \<and> (answer_to env hb k s \<noteq> None \<or> he_drained env k),
           ca_sends := ca_sends s @ [sent_at env k s]\<rparr>)"
      "lets_through (ca_client s) \<longrightarrow> b = mc_breaker (ca_client s)"
proof (cases "Allow (ca_clock s) (ca_client s)")
  case (Pair ok c1)
  obtain b where c1: "c1 = (ca_client s)\<lparr>mc_breaker := b\<rparr>" using Allow_frame [OF Pair] by blast
  show thesis
  proof (cases ok)
    case True
    have "lets_through (ca_client s) \<longrightarrow> b = mc_breaker (ca_client s)"
    proof
      assume "lets_through (ca_client s)"
      then have "(ca_client s)\<lparr>mc_breaker := b\<rparr> = ca_client s"
        using Pair Allow_closed c1 by force
      then have "mc_breaker ((ca_client s)\<lparr>mc_breaker := b\<rparr>) = mc_breaker (ca_client s)" by (rule arg_cong)
      then show "b = mc_breaker (ca_client s)" by simp
    qed
    then show thesis
      by (intro that(2) [of b])
        (simp_all add: send_once_def Pair True c1 rl_wait_def sent_at_def answer_to_def Let_def
          acquireOutbound_def releaseOutbound_def)
  next
    case False
    then show thesis using that(1) [of c1] by (simp add: send_once_def Pair)
  qed
qed

section \<open>How often and how fast\<close>

definition spaced :: "duration \<Rightarrow> time list \<Rightarrow> bool" where
  "spaced gap ts = successively (\<lambda>a b. a + gap \<le> b) ts"

definition limited :: "call \<Rightarrow> bool" where
  "limited s =
     (spaced (mc_min_interval (ca_client s)) (ca_sends s) \<and>
      (ca_sends s \<noteq> [] \<longrightarrow> mc_last_request (ca_client s) = last (ca_sends s)))"

definition same_setup :: "ms_client \<Rightarrow> ms_client \<Rightarrow> bool" where
  "same_setup c c' =
     (mc_base_url c' = mc_base_url c \<and> mc_min_interval c' = mc_min_interval c \<and>
      mc_max_retries c' = mc_max_retries c \<and> mc_slots c' = mc_slots c \<and> mc_in_flight c' = mc_in_flight c \<and>
      mc_organization c' = mc_organization c \<and> mc_agent c' = mc_agent c)"

lemma same_setup_refl [simp]: "same_setup c c"
  by (simp add: same_setup_def)

lemma same_setup_trans: "same_setup a b \<Longrightarrow> same_setup b c \<Longrightarrow> same_setup a c"
  by (simp add: same_setup_def)

lemma same_setup_update [simp]:
  "same_setup c (c'\<lparr>mc_breaker := b\<rparr>) = same_setup c c'"
  "same_setup c (c'\<lparr>mc_last_request := t\<rparr>) = same_setup c c'"
  by (simp_all add: same_setup_def)

lemma breaker_events_frame [simp]:
  "same_setup c (OnSuccess c') = same_setup c c'" "same_setup c (OnFailure t c') = same_setup c c'"
  "same_setup c (settle_breaker st t c') = same_setup c c'"
  "mc_min_interval (OnSuccess c') = mc_min_interval c'" "mc_min_interval (OnFailure t c') = mc_min_interval c'"
  "mc_min_interval (settle_breaker st t c') = mc_min_interval c'"
  "mc_last_request (OnSuccess c') = mc_last_request c'" "mc_last_request (OnFailure t c') = mc_last_request c'"
  "mc_last_request (settle_breaker st t c') = mc_last_request c'"
  by (simp_all add: OnSuccess_def OnFailure_def settle_breaker_def)

definition patient :: "'b http_env \<Rightarrow> bool" where
  "patient env = (\<forall>k. 0 \<le> he_late env k)"

lemma sent_at_ge: "patient env \<Longrightarrow> mc_last_request (ca_client s) + mc_min_interval (ca_client s) \<le> sent_at env k s"
proof -
  assume "patient env"
  then have "0 \<le> he_late env k" by (simp add: patient_def)
  then show ?thesis by (simp add: sent_at_def rl_wait_def Let_def)
qed

lemma limited_send:
  assumes "limited s" "patient env"
    and "ca_sends s' = ca_sends s @ [sent_at env k s]" "mc_last_request (ca_client s') = sent_at env k s"
    and "mc_min_interval (ca_client s') = mc_min_interval (ca_client s)"
  shows "limited s'"
  using assms sent_at_ge [OF assms(2), of s k]
  by (auto simp: limited_def spaced_def successively_append_iff)

lemma limited_cong:
  "ca_sends s' = ca_sends s \<Longrightarrow> mc_last_request (ca_client s') = mc_last_request (ca_client s) \<Longrightarrow>
    mc_min_interval (ca_client s') = mc_min_interval (ca_client s) \<Longrightarrow> limited s' = limited s"
  by (simp add: limited_def)

lemma send_once_setup: "send_once env hb k s = (a, t) \<Longrightarrow> same_setup (ca_client s) (ca_client t)"
proof (rule send_once_cases [of env hb k s])
  fix c assume send: "send_once env hb k s = (a, t)" "send_once env hb k s = (Refused, s\<lparr>ca_client := c\<rparr>)"
    and "Allow (ca_clock s) (ca_client s) = (False, c)"
  then obtain b where "c = (ca_client s)\<lparr>mc_breaker := b\<rparr>" using Allow_frame by blast
  with send show ?thesis by auto
qed auto

lemma send_once_limited:
  assumes "limited s" "patient env" "send_once env hb k s = (a, s')"
  shows "limited s' \<and> same_setup (ca_client s) (ca_client s') \<and>
    length (ca_sends s') = length (ca_sends s) + (if a = Refused then 0 else 1)"
proof (rule send_once_cases [of env hb k s])
  fix c assume send: "send_once env hb k s = (Refused, s\<lparr>ca_client := c\<rparr>)"
    and "Allow (ca_clock s) (ca_client s) = (False, c)"
  then obtain b where "c = (ca_client s)\<lparr>mc_breaker := b\<rparr>" using Allow_frame by blast
  with send assms(1,3) show ?thesis by (auto simp: limited_def)
next
  fix b assume send: "send_once env hb k s =
        (judge env k (answer_to env hb k s),
         s\<lparr>ca_client := (ca_client s)\<lparr>mc_last_request := sent_at env k s, mc_breaker := b\<rparr>,
           ca_clock := sent_at env k s + he_took env k,
           ca_drained := ca_drained s \<or> hb \<and> (answer_to env hb k s \<noteq> None \<or> he_drained env k),
           ca_sends := ca_sends s @ [sent_at env k s]\<rparr>)"
  have "a \<noteq> Refused"
    using send assms(3) judge_not_refused by auto
  moreover have "limited s'"
    by (rule limited_send [OF assms(1,2), of s' k]) (use send assms(3) in auto)
  ultimately show ?thesis using send assms(3) by auto
qed

lemma attempts_limited:
  assumes "limited s" "patient env" "attempts env hb n k s = (r, s')"
  shows "limited s' \<and> same_setup (ca_client s) (ca_client s') \<and>
    length (ca_sends s') \<le> length (ca_sends s) + Suc n"
  using assms
proof (induction n arbitrary: k s)
  case 0
  obtain a t where send: "send_once env hb k s = (a, t)" by fastforce
  from send_once_limited [OF 0(1,2) send] 0(3) send show ?case
    by (cases a) (auto simp: limited_def)
next
  case (Suc n)
  obtain a t where send: "send_once env hb k s = (a, t)" by fastforce
  note one = send_once_limited [OF Suc.prems(1,2) send]
  show ?case
  proof (cases a)
    case (Temporary e d)
    define u where "u = t\<lparr>ca_clock := ca_clock t + he_slept env k d\<rparr>"
    have rest: "attempts env hb n (Suc k) u = (r, s')"
      using Suc.prems(3) send Temporary by (simp add: u_def)
    have u: "limited u" "ca_client u = ca_client t" "ca_sends u = ca_sends t"
      using one by (auto simp: u_def limited_def)
    have "limited s'" "same_setup (ca_client t) (ca_client s')" "length (ca_sends s') \<le> length (ca_sends t) + Suc n"
      using Suc.IH [OF u(1) Suc.prems(2) rest] by (simp_all add: u(2,3))
    moreover have "same_setup (ca_client s) (ca_client s')"
      using one same_setup_trans calculation(2) by blast
    ultimately show ?thesis using one Temporary by simp
  qed (use one Suc.prems(3) send in \<open>auto simp: limited_def\<close>)
qed

lemma attempts_setup:
  assumes "attempts env hb n k s = (r, s')"
  shows "same_setup (ca_client s) (ca_client s')"
  using assms
proof (induction n arbitrary: k s)
  case 0
  then show ?case
    using send_once_setup [of env hb k s] by (auto split: attempt.splits prod.splits)
next
  case (Suc n)
  obtain a t where send: "send_once env hb k s = (a, t)" by fastforce
  note one = send_once_setup [OF send]
  show ?case
  proof (cases a)
    case (Temporary e d)
    then have "attempts env hb n (Suc k) (t\<lparr>ca_clock := ca_clock t + he_slept env k d\<rparr>) = (r, s')"
      using Suc.prems send by simp
    from Suc.IH [OF this] one show ?thesis using same_setup_trans by fastforce
  qed (use Suc.prems send one in auto)
qed

fun run_requests :: "('b http_env \<times> bool \<times> duration) list \<Rightarrow> call \<Rightarrow> call" where
  "run_requests [] s = s"
| "run_requests ((env, has_body, pause) # rs) s =
     run_requests rs (snd (doRequestWithRetry env has_body (s\<lparr>ca_clock := ca_clock s + pause\<rparr>)))"

lemma run_requests_limited:
  assumes "list_all (\<lambda>(env, has_body, pause). patient env) rs" "limited s"
  shows "limited (run_requests rs s) \<and> same_setup (ca_client s) (ca_client (run_requests rs s)) \<and>
      length (ca_sends (run_requests rs s))
        \<le> length (ca_sends s) + length rs * Suc (nat (max 0 (mc_max_retries (ca_client s))))"
  using assms
proof (induction rs arbitrary: s)
  case (Cons r rs)
  obtain env hb pause where r: "r = (env, hb, pause)" by (cases r) auto
  define t where "t = s\<lparr>ca_clock := ca_clock s + pause, ca_drained := False\<rparr>"
  obtain res u where u: "attempts env hb (nat (max 0 (mc_max_retries (ca_client s)))) 0 t = (res, u)"
    by fastforce
  have "limited t" "ca_client t = ca_client s" "ca_sends t = ca_sends s"
    using Cons.prems by (simp_all add: t_def limited_def)
  with attempts_limited [OF _ _ u] Cons.prems r
  have one: "limited u" "same_setup (ca_client s) (ca_client u)"
    "length (ca_sends u) \<le> length (ca_sends s) + Suc (nat (max 0 (mc_max_retries (ca_client s))))"
    by auto
  have run: "run_requests (r # rs) s = run_requests rs u"
    using u by (simp add: r doRequestWithRetry_def t_def)
  have "mc_max_retries (ca_client u) = mc_max_retries (ca_client s)"
    using one(2) by (simp add: same_setup_def)
  with Cons.IH [of u] Cons.prems one show ?case
    unfolding run by (auto intro: same_setup_trans)
qed simp

text \<open>
  C22. However requests follow one another and whatever the network answers: any two of the sends
  that follow each other are the minimal interval apart, retries included; a request is sent at
  most as often as the retries allow and once more; no slot of the outbound semaphore is lost.
\<close>

theorem sends_spaced_and_bounded:
  assumes "list_all (\<lambda>(env, has_body, pause). patient env) rs" "ca_sends s = []"
  defines "s' \<equiv> run_requests rs s"
  shows "spaced (mc_min_interval (ca_client s)) (ca_sends s') \<and>
    length (ca_sends s') \<le> length rs * Suc (nat (max 0 (mc_max_retries (ca_client s)))) \<and>
    mc_in_flight (ca_client s') = mc_in_flight (ca_client s)"
proof -
  have "limited s" using assms(2) by (simp add: limited_def spaced_def)
  from run_requests_limited [OF assms(1) this]
  have "limited s'" "same_setup (ca_client s) (ca_client s')"
    "length (ca_sends s') \<le> length rs * Suc (nat (max 0 (mc_max_retries (ca_client s))))"
    using assms(2) by (simp_all add: s'_def)
  then show ?thesis unfolding limited_def same_setup_def by metis
qed


theorem sends_spaced_and_bounded_witness:
  "spaced (100 * millisecond)
    (ca_sends (run_requests [(quick (\<lambda>k. None :: unit http_response option), False, 0), (quick (\<lambda>k. Some (status_only 200)), True, 5)] idle_call))"
  using sends_spaced_and_bounded [of "[(quick (\<lambda>k. None :: unit http_response option), False, 0), (quick (\<lambda>k. Some (status_only 200)), True, 5)]" idle_call]
  by (simp add: patient_def)

section \<open>What a request comes to\<close>

text \<open>The outcome the retries are to have: the first answer that is not a temporary failure.\<close>

definition first_final :: "'b http_env \<Rightarrow> nat \<Rightarrow> nat \<Rightarrow> nat option" where
  "first_final env k n = find (\<lambda>i. \<not> temporary (he_do env i)) [k..<Suc (k + n)]"

lemma first_final_0: "first_final env k 0 = (if temporary (he_do env k) then None else Some k)"
  by (simp add: first_final_def)

lemma first_final_Suc:
  "first_final env k (Suc n) = (if temporary (he_do env k) then first_final env (Suc k) n else Some k)"
proof -
  have "[k..<Suc (k + Suc n)] = k # [Suc k..<Suc (Suc k + n)]" by (simp add: upt_conv_Cons)
  then show ?thesis unfolding first_final_def by (simp only: find.simps) simp
qed

lemma first_final_ge: "first_final env k n = Some i \<Longrightarrow> k \<le> i"
  by (induction n arbitrary: k) (force simp: first_final_0 first_final_Suc split: if_splits)+

definition outcome :: "'b http_env \<Rightarrow> nat \<Rightarrow> nat \<Rightarrow> http_error + 'b http_response" where
  "outcome env k n =
     (case first_final env k n of
        Some i \<Rightarrow> Inr (the (he_do env i))
      | None \<Rightarrow> Inl (failure (he_do env (k + n))))"

definition breaker_after ::
  "time \<Rightarrow> http_error + 'b http_response \<Rightarrow> circuit_breaker option \<Rightarrow> circuit_breaker option" where
  "breaker_after now r b =
     (case r of
        Inr resp \<Rightarrow> if hr_status resp < 500 then map_option cb_on_success b
                    else map_option (cb_on_failure now) b
      | Inl e \<Rightarrow> map_option (cb_on_failure now) b)"

lemma settle_breaker_after:
  "mc_breaker (settle_breaker st t c) =
     (if st < 500 then map_option cb_on_success (mc_breaker c) else map_option (cb_on_failure t) (mc_breaker c))"
  by (auto simp: settle_breaker_def OnSuccess_def OnFailure_def)

lemma send_once_closed:
  assumes "lets_through (ca_client s)"
  shows "\<exists>t. send_once env hb k s = (judge env k (answer_to env hb k s), t) \<and>
    mc_breaker (ca_client t) = mc_breaker (ca_client s) \<and> lets_through (ca_client t) \<and>
    length (ca_sends t) = Suc (length (ca_sends s)) \<and>
    ca_drained t = (ca_drained s \<or> hb \<and> (answer_to env hb k s \<noteq> None \<or> he_drained env k))"
proof (rule send_once_cases [of env hb k s])
  fix c assume "Allow (ca_clock s) (ca_client s) = (False, c)"
  with Allow_closed [OF assms] show ?thesis by simp
qed (use assms in \<open>auto simp: lets_through_def\<close>)

lemma attempts_closed:
  assumes "lets_through (ca_client s)" "attempts env False n k s = (r, s')"
  shows "r = outcome env k n \<and>
    length (ca_sends s') =
      length (ca_sends s) + (case first_final env k n of Some i \<Rightarrow> Suc (i - k) | None \<Rightarrow> Suc n) \<and>
    (\<exists>t. mc_breaker (ca_client s') = breaker_after t r (mc_breaker (ca_client s)))"
  using assms
proof (induction n arbitrary: k s)
  case 0
  from send_once_closed [OF 0(1), of env False k] obtain t where
    t: "send_once env False k s = (judge env k (he_do env k), t)"
      "mc_breaker (ca_client t) = mc_breaker (ca_client s)"
      "length (ca_sends t) = Suc (length (ca_sends s))"
    by (auto simp: answer_to_def)
  show ?case
    by (rule judge_cases [of "he_do env k" env k])
      (use 0(2) t in \<open>auto simp: first_final_0 outcome_def breaker_after_def settle_breaker_after OnFailure_def\<close>)
next
  case (Suc n)
  from send_once_closed [OF Suc.prems(1), of env False k] obtain t where
    t: "send_once env False k s = (judge env k (he_do env k), t)"
      "mc_breaker (ca_client t) = mc_breaker (ca_client s)" "lets_through (ca_client t)"
      "length (ca_sends t) = Suc (length (ca_sends s))"
    by (auto simp: answer_to_def)
  show ?case
  proof (rule judge_cases [of "he_do env k" env k])
    fix d assume 1: "temporary (he_do env k)" "judge env k (he_do env k) = Temporary (failure (he_do env k)) d"
    define u where "u = t\<lparr>ca_clock := ca_clock t + he_slept env k d\<rparr>"
    have rest: "attempts env False n (Suc k) u = (r, s')" using Suc.prems(2) t(1) 1 by (simp add: u_def)
    have u: "lets_through (ca_client u)" "mc_breaker (ca_client u) = mc_breaker (ca_client s)"
      "length (ca_sends u) = Suc (length (ca_sends s))"
      using t by (simp_all add: u_def)
    have "outcome env k (Suc n) = outcome env (Suc k) n"
      using 1(1) by (simp add: outcome_def first_final_Suc split: option.split)
    with Suc.IH [OF u(1) rest] 1(1) show ?thesis
      by (auto simp: u(2,3) first_final_Suc split: option.splits dest: first_final_ge)
  next
    fix resp
    assume "he_do env k = Some resp" "\<not> temporary (he_do env k)" "judge env k (he_do env k) = Answered resp"
    then show ?thesis
      using Suc.prems(2) t by (auto simp: first_final_Suc outcome_def breaker_after_def settle_breaker_after)
  qed
qed

text \<open>
  C21. While the breaker is closed, a request without a body comes to the first answer that is not
  a temporary failure (no answer, 429, 502, 503, 504) among the attempts the retries allow, or, if
  there is none, to the error of the last attempt; it is sent exactly until then; and the breaker
  counts the request once, as a success below status 500 and as a failure else.
\<close>

theorem request_outcome:
  assumes "lets_through (ca_client s)" "doRequestWithRetry env False s = (r, s')"
  defines "n \<equiv> nat (max 0 (mc_max_retries (ca_client s)))"
  shows "r = outcome env 0 n \<and>
    length (ca_sends s') = length (ca_sends s) + (case first_final env 0 n of Some i \<Rightarrow> Suc i | None \<Rightarrow> Suc n) \<and>
    (\<exists>t. mc_breaker (ca_client s') = breaker_after t r (mc_breaker (ca_client s)))"
  using attempts_closed [of "s\<lparr>ca_drained := False\<rparr>" env n 0 r s'] assms(1,2)
  by (auto simp: doRequestWithRetry_def n_def split: option.splits)


theorem request_outcome_witness:
  "fst (doRequestWithRetry (quick (\<lambda>k. if k = 0 then None else Some (with_body ()))) False idle_call) =
    Inr (with_body ())"
proof -
  let ?env = "quick (\<lambda>k. if k = 0 then None else Some (with_body ()))"
  obtain r s' where req: "doRequestWithRetry ?env False idle_call = (r, s')" by fastforce
  have "r = outcome ?env 0 2"
    using request_outcome [OF _ req] by (simp add: lets_through_def)
  moreover have "first_final ?env 0 2 = Some 1"
    by (simp add: numeral_2_eq_2 first_final_Suc first_final_0 temporary_def with_body_def)
  ultimately show ?thesis using req by (simp add: outcome_def)
qed

text \<open>After an answer the body of a request is used up, and no attempt after it can succeed.\<close>

lemma attempts_drained:
  assumes "lets_through (ca_client s)" "ca_drained s" "attempts env True n k s = (r, s')"
  shows "r = Inl SendFailed \<and> length (ca_sends s') = length (ca_sends s) + Suc n"
  using assms
proof (induction n arbitrary: k s)
  case 0
  from send_once_closed [OF 0(1), of env True k] 0(2) obtain t d where
    "send_once env True k s = (Temporary SendFailed d, t)" "length (ca_sends t) = Suc (length (ca_sends s))"
    by (auto simp: answer_to_def judge_def Let_def)
  with 0(3) show ?case by auto
next
  case (Suc n)
  from send_once_closed [OF Suc.prems(1), of env True k] Suc.prems(2) obtain t d where
    t: "send_once env True k s = (Temporary SendFailed d, t)" "lets_through (ca_client t)" "ca_drained t"
      "length (ca_sends t) = Suc (length (ca_sends s))"
    by (auto simp: answer_to_def judge_def Let_def)
  from t(1) Suc.prems(3)
  have "attempts env True n (Suc k) (t\<lparr>ca_clock := ca_clock t + he_slept env k d\<rparr>) = (r, s')" by simp
  from Suc.IH [OF _ _ this] t show ?case by simp
qed



section \<open>Lists\<close>

text \<open>Moysklad answers the request with this page, perhaps after temporary failures.\<close>

definition serves :: "nat \<Rightarrow> 'b http_env \<Rightarrow> 'b \<Rightarrow> bool" where
  "serves n env body =
     (\<exists>i resp. first_final env 0 n = Some i \<and> he_do env i = Some resp \<and> hr_status resp = 200 \<and>
        hr_body resp = Some body)"

definition page_of :: "nat \<Rightarrow> 'r list \<Rightarrow> nat \<Rightarrow> 'r list" where
  "page_of limit xs i = take limit (drop (i * limit) xs)"

definition ready :: "nat \<Rightarrow> call \<Rightarrow> bool" where
  "ready n s = (lets_through (ca_client s) \<and> nat (max 0 (mc_max_retries (ca_client s))) = n)"

lemma served_request:
  assumes "ready n s" "serves n env body"
  shows "\<exists>resp s'. doRequestWithRetry env False s = (Inr resp, s') \<and> ready n s' \<and>
    hr_status resp = 200 \<and> hr_body resp = Some body"
proof -
  obtain r s' where req: "doRequestWithRetry env False s = (r, s')" by fastforce
  from assms(2) obtain i resp where served: "first_final env 0 n = Some i" "he_do env i = Some resp"
    "hr_status resp = 200" "hr_body resp = Some body"
    by (auto simp: serves_def)
  have n: "nat (max 0 (mc_max_retries (ca_client s))) = n" "lets_through (ca_client s)"
    using assms(1) by (simp_all add: ready_def)
  from attempts_closed [of "s\<lparr>ca_drained := False\<rparr>" env n 0 r s'] n req served
  obtain t where r: "r = Inr resp" "mc_breaker (ca_client s') = breaker_after t r (mc_breaker (ca_client s))"
    by (auto simp: doRequestWithRetry_def outcome_def)
  have "lets_through (ca_client s')"
    using r served(3) n(2)
    by (auto simp: lets_through_def breaker_after_def cb_on_success_def split: option.splits)
  moreover have "mc_max_retries (ca_client s') = mc_max_retries (ca_client s)"
    using attempts_setup [of env False n 0 "s\<lparr>ca_drained := False\<rparr>" r s'] req n(1)
    by (simp add: doRequestWithRetry_def same_setup_def)
  ultimately show ?thesis using req r(1) served(3,4) n(1) by (auto simp: ready_def)
qed

lemma take_drop_page:
  "take (Suc n * limit) (drop (i * limit) xs) = page_of limit xs i @ take (n * limit) (drop (Suc i * limit) xs)"
  by (simp add: page_of_def take_add add.commute)

lemma fetch_pages_served:
  assumes "\<And>i s. i < m \<Longrightarrow> ready n s \<Longrightarrow> \<exists>nx s'. get (int (i * limit)) s =
      (Inr \<lparr>pb_rows = page_of limit xs i, pb_next = nx\<rparr>, s') \<and> ready n s' \<and>
      (is_last \<lparr>pb_rows = page_of limit xs i, pb_next = nx\<rparr> \<longrightarrow> length xs \<le> Suc i * limit)"
    and "\<And>acc. add acc [] = acc" "\<And>acc ys zs. add acc (ys @ zs) = add (add acc ys) zs"
    and "ready n s" "j + k = m"
  shows "\<exists>s'. fetch_pages get is_last add (map (\<lambda>i. int (i * limit)) [j..<j + k]) acc s =
    (Inr (add acc (take (k * limit) (drop (j * limit) xs))), s') \<and> ready n s'"
  using assms(4,5)
proof (induction k arbitrary: j acc s)
  case 0
  then show ?case using assms(2) by simp
next
  case (Suc k)
  from assms(1) [of j s] Suc.prems obtain nx t where
    t: "get (int (j * limit)) s = (Inr \<lparr>pb_rows = page_of limit xs j, pb_next = nx\<rparr>, t)" "ready n t"
      "is_last \<lparr>pb_rows = page_of limit xs j, pb_next = nx\<rparr> \<longrightarrow> length xs \<le> Suc j * limit"
    by auto
  have upt: "[j..<j + Suc k] = j # [Suc j..<Suc j + k]" by (simp add: upt_conv_Cons)
  show ?case
  proof (cases "is_last \<lparr>pb_rows = page_of limit xs j, pb_next = nx\<rparr>")
    case True
    then have "drop (Suc j * limit) xs = []" using t(3) by simp
    with True t assms(2) show ?thesis unfolding upt take_drop_page assms(3) by simp
  next
    case False
    have "Suc j + k = m" using Suc.prems(2) by simp
    from Suc.IH [OF t(2) this, of "add acc (page_of limit xs j)"] t(1) False
    show ?thesis unfolding upt take_drop_page assms(3) by (simp del: upt_Suc of_nat_mult)
  qed
qed

text \<open>
  Moysklad has the rows \<open>xs\<close> and serves every page of them, with the address of the next page where
  there is one.
\<close>

definition serves_list :: "nat \<Rightarrow> nat \<Rightarrow> (int \<Rightarrow> 'r page_body http_env) \<Rightarrow> 'r list \<Rightarrow> bool" where
  "serves_list n limit pages xs =
     (\<forall>i. \<exists>nx. serves n (pages (int (i * limit))) \<lparr>pb_rows = page_of limit xs i, pb_next = nx\<rparr> \<and>
        (nx = [] \<longrightarrow> length xs \<le> Suc i * limit))"

lemma served_page:
  assumes "serves_list n limit pages xs" "ready n s"
  shows "\<exists>nx s'. decoded (\<lambda>k. k = 200) bad (doRequestWithRetry (pages (int (i * limit))) False s) =
      (Inr \<lparr>pb_rows = page_of limit xs i, pb_next = nx\<rparr>, s') \<and> ready n s' \<and>
      (nx = [] \<longrightarrow> length xs \<le> Suc i * limit)"
proof -
  from assms(1) obtain nx where "serves n (pages (int (i * limit))) \<lparr>pb_rows = page_of limit xs i, pb_next = nx\<rparr>"
    and nx: "nx = [] \<longrightarrow> length xs \<le> Suc i * limit"
    unfolding serves_list_def by blast
  from served_request [OF assms(2) this(1)] nx show ?thesis by (auto simp: decoded_def)
qed

lemma short_page: "length (page_of limit xs i) < limit \<Longrightarrow> length xs \<le> Suc i * limit"
  by (simp add: page_of_def min_def split: if_splits)

lemma fetched_list_ready:
  assumes "serves_list n limit pages xs" "ready n s" "is_last = last_or_unlinked limit \<or> is_last = (\<lambda>p. length (pb_rows p) < limit)"
    and "\<And>acc. add acc [] = acc" "\<And>acc ys zs. add acc (ys @ zs) = add (add acc ys) zs"
  shows "\<exists>s'. fetch_pages (\<lambda>offset s. decoded (\<lambda>k. k = 200) bad (doRequestWithRetry (pages offset) False s)) is_last add
    (page_offsets limit cap) acc s = (Inr (add acc (take (Suc (cap div limit) * limit) xs)), s') \<and> ready n s'"
proof -
  have "\<exists>s'. fetch_pages (\<lambda>offset s. decoded (\<lambda>k. k = 200) bad (doRequestWithRetry (pages offset) False s)) is_last add
    (map (\<lambda>i. int (i * limit)) [0..<0 + Suc (cap div limit)]) acc s =
      (Inr (add acc (take (Suc (cap div limit) * limit) (drop (0 * limit) xs))), s') \<and> ready n s'"
  proof (rule fetch_pages_served [where m = "Suc (cap div limit)"])
    fix i s assume "ready n s"
    from served_page [OF assms(1) this, of bad i] assms(3) short_page [of limit xs i]
    show "\<exists>nx s'. decoded (\<lambda>k. k = 200) bad (doRequestWithRetry (pages (int (i * limit))) False s) =
        (Inr \<lparr>pb_rows = page_of limit xs i, pb_next = nx\<rparr>, s') \<and> ready n s' \<and>
        (is_last \<lparr>pb_rows = page_of limit xs i, pb_next = nx\<rparr> \<longrightarrow> length xs \<le> Suc i * limit)"
      by (auto simp: last_or_unlinked_def)
  qed (use assms(2,4,5) in auto)
  then show ?thesis unfolding page_offsets_def by (auto simp del: upt_Suc)
qed

lemma fetched_list:
  assumes "serves_list n limit pages xs" "ready n s" "is_last = last_or_unlinked limit \<or> is_last = (\<lambda>p. length (pb_rows p) < limit)"
    and "\<And>acc. add acc [] = acc" "\<And>acc ys zs. add acc (ys @ zs) = add (add acc ys) zs"
  shows "fst (fetch_pages (\<lambda>offset s. decoded (\<lambda>k. k = 200) bad (doRequestWithRetry (pages offset) False s)) is_last add
    (page_offsets limit cap) acc s) = Inr (add acc (take (Suc (cap div limit) * limit) xs))"
  using fetched_list_ready [OF assms, of bad cap acc] by auto

text \<open>
  C24. While the breaker is closed and Moysklad serves every page of a list, if only after
  temporary failures that the retries cover, the client gets the whole list, in order and without
  a gap, up to a cap: 100100 products_pages (of a full or a delta request), 10100 folders_pages or discounts,
  501000 rows of the stock report; what is behind the cap is left out and no error says so.
\<close>

theorem lists_complete:
  assumes "lets_through (ca_client s)" "nat (max 0 (mc_max_retries (ca_client s))) = n"
    and "serves_list n 100 products_pages xs" "serves_list n 100 (delta_pages (since div second)) ds"
    and "serves_list n 100 folders_pages fs" "serves_list n 100 discounts_pages cs" "serves_list n 1000 stock_pages rows"
  shows "fst (GetProducts products_pages s) = Inr (take 100100 xs) \<and>
    fst (GetProductsDelta delta_pages since s) = Inr (take 100100 ds) \<and>
    fst (GetProductFolders folders_pages s) = Inr (take 10100 fs) \<and>
    fst (GetSpecialPriceDiscounts discounts_pages s) = Inr (take 10100 cs) \<and>
    fst (GetStockReport stock_pages s) = Inr (foldl add_stock_row Map.empty (take 501000 rows))"
proof -
  have r: "ready n s" using assms(1,2) by (simp add: ready_def)
  note get = get_json_def [abs_def]
  have "fst (GetProducts products_pages s) = Inr (take 100100 xs)"
    using fetched_list [OF assms(3) r, of "last_or_unlinked 100" "(@)" ApiStatus 100000 "[]"]
    by (simp add: GetProducts_def get)
  moreover have "fst (GetProductsDelta delta_pages since s) = Inr (take 100100 ds)"
    using fetched_list [OF assms(4) r, of "last_or_unlinked 100" "(@)" _ 100000 "[]"]
    by (simp add: GetProductsDelta_def)
  moreover have "fst (GetProductFolders folders_pages s) = Inr (take 10100 fs)"
    using fetched_list [OF assms(5) r, of "\<lambda>p. length (pb_rows p) < 100" "(@)" ApiStatus 10000 "[]"]
    by (simp add: GetProductFolders_def get)
  moreover have "fst (GetSpecialPriceDiscounts discounts_pages s) = Inr (take 10100 cs)"
    using fetched_list [OF assms(6) r, of "\<lambda>p. length (pb_rows p) < 100" "(@)" ApiStatus 10000 "[]"]
    by (simp add: GetSpecialPriceDiscounts_def get)
  moreover have "fst (GetStockReport stock_pages s) = Inr (foldl add_stock_row Map.empty (take 501000 rows))"
    using fetched_list [OF assms(7) r, of "last_or_unlinked 1000" "foldl add_stock_row" ApiStatus 500000 Map.empty]
    by (simp add: GetStockReport_def get)
  ultimately show ?thesis by blast
qed

definition one_page :: "nat \<Rightarrow> 'r list \<Rightarrow> int \<Rightarrow> 'r page_body http_env" where
  "one_page limit xs offset =
     quick (\<lambda>k. Some (with_body \<lparr>pb_rows = take limit (drop (nat offset) xs), pb_next = []\<rparr>))"

lemma serves_one_page: "length xs \<le> limit \<Longrightarrow> serves_list 2 limit (one_page limit xs) xs"
  unfolding serves_list_def
  by (intro allI exI [of _ "[]"])
    (simp add: serves_def one_page_def page_of_def numeral_2_eq_2 first_final_Suc temporary_def with_body_def
      nat_mult_distrib trans_le_add1)

theorem lists_complete_witness:
  "fst (GetProductFolders (one_page 100 [\<lparr>mf_id = ''f'', mf_name = ''Tools'', mf_parent = None\<rparr>]) idle_call) =
    Inr [\<lparr>mf_id = ''f'', mf_name = ''Tools'', mf_parent = None\<rparr>]"
  using lists_complete [of idle_call 2 "one_page 100 []" "[]" "\<lambda>_. one_page 100 []" 0 "[]"
      "one_page 100 [\<lparr>mf_id = ''f'', mf_name = ''Tools'', mf_parent = None\<rparr>]"
      "[\<lparr>mf_id = ''f'', mf_name = ''Tools'', mf_parent = None\<rparr>]" "one_page 100 []" "[]" "one_page 1000 []" "[]"]
  by (simp add: serves_one_page lets_through_def)

section \<open>Ids in hrefs\<close>

lemma last_segment_append: "CHR ''/'' \<in> set t \<Longrightarrow> last_segment (u @ t) = last_segment t"
  by (simp add: last_segment_def takeWhile_append1)

lemma last_segment_plain: "CHR ''/'' \<notin> set t \<Longrightarrow> last_segment (u @ CHR ''/'' # t) = t"
  unfolding last_segment_def by (simp, subst takeWhile_append2) auto

lemma dropWhile_slash:
  "dropWhile (\<lambda>ch. ch \<noteq> CHR ''/'') t = [] \<or> CHR ''/'' \<in> set (dropWhile (\<lambda>ch. ch \<noteq> CHR ''/'') t)"
  by (induction t) auto

lemma drop_suffix: "\<exists>u. h = u @ dropWhile P (drop n h)"
  by (rule exI [of _ "take n h @ takeWhile P (drop n h)"]) simp

lemma after_host_suffix:
  assumes "CHR ''/'' \<in> set h"
  shows "\<exists>u. h = u @ after_host h \<and> (after_host h = [] \<or> CHR ''/'' \<in> set (after_host h))"
proof -
  have "\<exists>u. h = u @ h" by simp
  then show ?thesis
    using dropWhile_slash [of "drop 7 h"] dropWhile_slash [of "drop 8 h"] assms
      drop_suffix [of h "\<lambda>ch. ch \<noteq> CHR ''/''" 7] drop_suffix [of h "\<lambda>ch. ch \<noteq> CHR ''/''" 8]
    unfolding after_host_def by presburger
qed

lemma after_last_slash_id:
  assumes "CHR ''/'' \<notin> set uuid" "uuid \<noteq> []" "CHR ''/'' \<in> set p" "u @ p = base @ CHR ''/'' # uuid"
  shows "after_last_slash (trim_slash p) = Some uuid"
proof -
  have seg: "last_segment p = uuid"
    using last_segment_append [OF assms(3), of u] last_segment_plain [OF assms(1), of base] assms(4) by simp
  have "last p = last uuid"
    using arg_cong [OF assms(4), of last] assms(2,3) by (cases "p = []") (auto simp: last_append)
  then have "last p \<noteq> CHR ''/''" using assms(1,2) last_in_set by force
  then show ?thesis using assms(2,3) seg by (simp add: after_last_slash_def trim_slash_def)
qed

lemma cut_off:
  assumes "set h \<inter> {CHR ''?'', CHR ''#''} = {}" "href = h \<or> href = h @ CHR ''?'' # query"
  shows "takeWhile (\<lambda>ch. ch \<noteq> CHR ''?'') (takeWhile (\<lambda>ch. ch \<noteq> CHR ''#'') href) = h \<and>
    takeWhile (\<lambda>ch. ch \<noteq> CHR ''?'') href = h"
proof -
  have plain: "x \<noteq> CHR ''?''" "x \<noteq> CHR ''#''" if "x \<in> set h" for x using assms(1) that by auto
  then have eqs: "takeWhile (\<lambda>ch. ch \<noteq> CHR ''?'') h = h" "takeWhile (\<lambda>ch. ch \<noteq> CHR ''#'') h = h"
    "\<And>t. takeWhile (\<lambda>ch. ch \<noteq> CHR ''?'') (h @ t) = h @ takeWhile (\<lambda>ch. ch \<noteq> CHR ''?'') t"
    "\<And>t. takeWhile (\<lambda>ch. ch \<noteq> CHR ''#'') (h @ t) = h @ takeWhile (\<lambda>ch. ch \<noteq> CHR ''#'') t"
    by (auto simp: takeWhile_eq_all_conv)
  from assms(2) show ?thesis by (elim disjE) (simp_all only: eqs takeWhile.simps, simp_all add: eqs)
qed

lemma extract_id:
  assumes "CHR ''/'' \<notin> set uuid" "uuid \<noteq> []" "set (base @ uuid) \<inter> {CHR ''?'', CHR ''#''} = {}"
    and "href = base @ ''/'' @ uuid \<or> href = base @ ''/'' @ uuid @ ''?'' @ query"
  shows "client_extractIDFromHref href = uuid"
proof -
  let ?h = "base @ CHR ''/'' # uuid"
  have plain: "set ?h \<inter> {CHR ''?'', CHR ''#''} = {}" using assms(3) by auto
  have href: "href = ?h \<or> href = ?h @ CHR ''?'' # query" using assms(4) by auto
  have path: "url_path href = after_host ?h"
    unfolding url_path_def using cut_off [OF plain href] by simp
  have cut: "takeWhile (\<lambda>ch. ch \<noteq> CHR ''?'') href = ?h"
    using cut_off [OF plain href] by simp
  have "CHR ''/'' \<in> set ?h" by simp
  from after_host_suffix [OF this] obtain u where
    u: "?h = u @ after_host ?h" "after_host ?h = [] \<or> CHR ''/'' \<in> set (after_host ?h)" by blast
  have "after_last_slash (trim_slash (after_host ?h)) = Some uuid" if "after_host ?h \<noteq> []"
    using after_last_slash_id [OF assms(1,2) _ u(1) [symmetric]] u(2) that by blast
  moreover have "after_last_slash (trim_slash ?h) = Some uuid"
    using after_last_slash_id [OF assms(1,2), of ?h "[]" base] by simp
  ultimately show ?thesis
    using href by (auto simp: client_extractIDFromHref_def path cut)
qed

text \<open>
  The client reads the id at the end of an href back, with or without a query behind it; but the
  report of a stock webhook is read with the query left on, so that its ids are not those of the
  products, and neither of the two readers of the services cuts the query off.
\<close>

theorem ids_of_hrefs:
  assumes "CHR ''/'' \<notin> set uuid" "uuid \<noteq> []" "set (base @ uuid) \<inter> {CHR ''?'', CHR ''#''} = {}"
    and "CHR ''/'' \<notin> set query" "query \<noteq> []"
  defines "href \<equiv> base @ ''/'' @ uuid @ ''?'' @ query"
  shows "client_extractIDFromHref (base @ ''/'' @ uuid) = uuid \<and> client_extractIDFromHref href = uuid \<and>
    extractMoyskladUUID href = uuid @ ''?'' @ query \<and> extractIDFromHref href = uuid @ ''?'' @ query \<and>
    (get_json env s = (Inr [(href, n)], s') \<longrightarrow>
      GetStockReportFromURL True env s = (Inr [uuid @ ''?'' @ query \<mapsto> n], s'))"
proof -
  have "last_segment (base @ CHR ''/'' # (uuid @ ''?'' @ query)) = uuid @ ''?'' @ query"
    using assms(1,4) by (intro last_segment_plain) simp
  then have seg: "last_segment href = uuid @ ''?'' @ query" by (simp add: href_def)
  have "last query \<noteq> CHR ''/''" using assms(4) last_in_set [OF assms(5)] by metis
  then have "last href \<noteq> CHR ''/''" "CHR ''/'' \<in> set href"
    using assms(5) by (simp_all add: href_def)
  with seg extract_id [OF assms(1-3), of "base @ ''/'' @ uuid" query] extract_id [OF assms(1-3), of href query]
  show ?thesis
    by (auto simp: href_def [symmetric] extractMoyskladUUID_def extractIDFromHref_def Let_def GetStockReportFromURL_def)
      (simp_all add: href_def)
qed

theorem ids_of_hrefs_witness:
  "client_extractIDFromHref ''https://api/entity/product/1a?expand=stock'' = ''1a'' \<and>
   extractIDFromHref ''https://api/entity/product/1a?expand=stock'' = ''1a?expand=stock''"
  using ids_of_hrefs [of "''1a''" "''https://api/entity/product''" "''expand=stock''"] by simp

section \<open>Orders\<close>

lemma attempts_answered:
  "send_once env hb k s = (Answered resp, t) \<Longrightarrow> attempts env hb n k s = (r, s') \<Longrightarrow> r = Inr resp"
  by (cases n) auto

definition remote_id :: "shop_db \<Rightarrow> id64 \<Rightarrow> string option" where
  "remote_id db pid =
     (case find_product db pid of
        Some p \<Rightarrow> if p_moysklad_id p = Some [] then None else p_moysklad_id p
      | None \<Rightarrow> None)"

definition known_lines :: "shop_db \<Rightarrow> order_item list \<Rightarrow> order_item list" where
  "known_lines db its = filter (\<lambda>it. remote_id db (oi_product_id it) \<noteq> None) its"

definition position :: "string \<Rightarrow> shop_db \<Rightarrow> order_item \<Rightarrow> ms_position" where
  "position base db it =
     \<lparr>po_quantity = oi_quantity it, po_href = base @ ''/entity/product/'' @ the (remote_id db (oi_product_id it)),
      po_price = oi_price it * 100, po_reserve = oi_quantity it\<rparr>"

lemma order_positions_known:
  assumes "distinct (map p_id (products db))" "\<forall>k. c_stmt c k"
  shows "order_positions base c k db its = map (position base db) (known_lines db its)"
proof (induction its arbitrary: k)
  case (Cons it its)
  have "product_GetByID c k (oi_product_id it) db = Inr (find_product db (oi_product_id it))"
    using product_GetByID_find [OF assms(1)] assms(2) by blast
  with Cons show ?case
    by (auto simp: known_lines_def position_def remote_id_def split: option.splits)
qed (simp add: known_lines_def)

text \<open>
  While the queries and Moysklad answer, an order is placed at Moysklad with exactly the lines
  whose product has an id there, in their order, each reserved in full and priced in kopecks; lines
  of other products are left out without an error, so that the sum of the remote order is the sum of
  the lines Moysklad knows; only an order without any such line is refused.
\<close>

theorem remote_order_lines:
  fixes items :: "order_item list"
  assumes "distinct (map p_id (products db))" "\<forall>k. c_stmt c k"
    and "HasOrderDefaults (ca_client s)" "lets_through (ca_client s)"
    and "\<forall>ord. he_do (env ord) 0 = Some (accept ord)"
    and "\<forall>ord. hr_status (accept ord) \<in> {200, 201} \<and> hr_body (accept ord) = Some (number ord) \<and> number ord \<noteq> []"
  defines "ps \<equiv> map (position (mc_base_url (ca_client s)) db) (known_lines db items)"
  shows "fst (CreateOrderFromRequest env c db name customer phone comment items s) =
      (if known_lines db items = [] then Inl NoPositions
       else Inr (number (order_request (ca_client s) name (None, customer, phone, said comment) ps))) \<and>
    sum_list (map (\<lambda>p. of_int (po_quantity p) * po_price p) ps) =
      100 * sum_list (map (\<lambda>it. of_int (oi_quantity it) * oi_price it) (known_lines db items)) \<and>
    list_all (\<lambda>p. po_reserve p = po_quantity p) ps"
proof -
  let ?ord = "order_request (ca_client s) name (None, customer, phone, said comment) ps"
  obtain r s' where req: "doRequestWithRetry (env ?ord) True s = (r, s')" by fastforce
  have accept: "he_do (env ?ord) 0 = Some (accept ?ord)" "hr_status (accept ?ord) \<in> {200, 201}"
    "hr_body (accept ?ord) = Some (number ?ord)" "number ?ord \<noteq> []"
    using assms(5,6) by blast+
  let ?s = "s\<lparr>ca_drained := False\<rparr>"
  have "answer_to (env ?ord) True 0 ?s = Some (accept ?ord)" using accept by (simp add: answer_to_def)
  moreover have "judge (env ?ord) 0 (Some (accept ?ord)) = Answered (accept ?ord)"
    using judge_final [of "Some (accept ?ord)"] accept(2) by (auto simp: temporary_def)
  ultimately obtain t where "send_once (env ?ord) True 0 ?s = (Answered (accept ?ord), t)"
    using send_once_closed [of ?s "env ?ord" True 0] assms(4) by auto
  then have "r = Inr (accept ?ord)"
    using req attempts_answered unfolding doRequestWithRetry_def by blast
  then have "fst (place_order env ?ord s) = (if ps = [] then Inl NoPositions else Inr (number ?ord))"
    using req accept by (auto simp: place_order_def CreateCustomerOrder_def decoded_def order_request_def)
  moreover have "order_positions (mc_base_url (ca_client s)) c 0 db items = ps"
    unfolding ps_def by (rule order_positions_known [OF assms(1,2)])
  moreover have "sum_list (map (\<lambda>p. of_int (po_quantity p) * po_price p) (map (position b db) its)) =
      100 * sum_list (map (\<lambda>it. of_int (oi_quantity it) * oi_price it) its)" for b its
    by (induction its) (simp_all add: position_def algebra_simps)
  ultimately show ?thesis
    using assms(3) by (simp add: CreateOrderFromRequest_def Let_def ps_def list_all_iff position_def)
qed

definition order_example_db :: shop_db where
  "order_example_db = empty_shop\<lparr>products := [blank_product\<lparr>p_id := 1, p_moysklad_id := Some ''m1''\<rparr>,
     blank_product\<lparr>p_id := 2\<rparr>]\<rparr>"

theorem remote_order_lines_witness:
  "fst (CreateOrderFromRequest (\<lambda>ord. quick (\<lambda>k. Some (with_body ''remote''))) healthy order_example_db
     ''Order-1'' ''Ann'' ''79990000000'' None
     [\<lparr>oi_id = 0, oi_order_id = 0, oi_product_id = 1, oi_quantity = 2, oi_price = 5, oi_product_name = []\<rparr>,
      \<lparr>oi_id = 0, oi_order_id = 0, oi_product_id = 2, oi_quantity = 1, oi_price = 7, oi_product_name = []\<rparr>]
     idle_call) = Inr ''remote''"
proof -
  let ?its = "[\<lparr>oi_id = 0, oi_order_id = 0, oi_product_id = 1, oi_quantity = 2, oi_price = 5, oi_product_name = []\<rparr>,
      \<lparr>oi_id = 0, oi_order_id = 0, oi_product_id = 2, oi_quantity = 1, oi_price = 7, oi_product_name = []\<rparr>]"
  have "known_lines order_example_db ?its \<noteq> []"
    by (simp add: known_lines_def remote_id_def order_example_db_def blank_product_def find_row_def)
  with remote_order_lines [of order_example_db healthy idle_call "\<lambda>ord. quick (\<lambda>k. Some (with_body ''remote''))"
      "\<lambda>ord. with_body ''remote''" "\<lambda>ord. ''remote''" "''Order-1''" "''Ann''" "''79990000000''" None ?its]
  show ?thesis by (simp add: order_example_db_def blank_product_def healthy_def lets_through_def with_body_def)
qed

end
