(* ===== verification/PromotionSync.thy ===== *)
theory PromotionSync
  imports Promotions MoyskladClient
begin

text \<open>
  internal/services/moysklad_promotions_sync.go: bringing the special prices of Moysklad into the
  table of promotions and its links. Discount number \<open>i\<close> has connections of its own for its upsert,
  its product queries and the two replacements of links; the clock stands still inside a call.
\<close>

section \<open>The operations\<close>

record promo_sync_env =
  ps_now :: time
  ps_ready :: bool
  ps_discounts :: "ms_discount list result"
  ps_upsert :: "nat \<Rightarrow> conn"
  ps_lookup :: "nat \<Rightarrow> conn"
  ps_products :: "nat \<Rightarrow> conn"
  ps_categories :: "nat \<Rightarrow> conn"

text \<open>\<open>ps_ready\<close>: there are a client and the two repositories.\<close>

record promo_sync_result =
  pn_fetched :: nat
  pn_created :: nat
  pn_updated :: nat
  pn_skipped :: nat
  pn_product_links :: nat
  pn_category_links :: nat
  pn_errors :: nat

definition no_promo_sync :: promo_sync_result where
  "no_promo_sync = \<lparr>pn_fetched = 0, pn_created = 0, pn_updated = 0, pn_skipped = 0,
     pn_product_links = 0, pn_category_links = 0, pn_errors = 0\<rparr>"

definition discount_row :: "time \<Rightarrow> ms_discount \<Rightarrow> promotion" where
  "discount_row now d = \<lparr>pr_id = 0, pr_title = md_name d, pr_description = None, pr_discount = md_discount d,
     pr_image_url = None, pr_active = md_active d, pr_start_date = None, pr_end_date = None,
     pr_moysklad_id = Some (md_id d), pr_kind = PromotionKindDay, pr_valid_from = Some now,
     pr_valid_until = Some (EndOfMoscowDay (ReservationDate now)), pr_locked = False,
     pr_created_at = now, pr_updated_at = now\<rparr>"

definition upsertPromotion ::
  "conn \<Rightarrow> time \<Rightarrow> ms_discount \<Rightarrow> shop_db \<Rightarrow> (promotion \<times> bool) result \<times> shop_db" where
  "upsertPromotion c now d db =
     (case promotion_GetByMoyskladID c 0 (md_id d) db of
        Inl e \<Rightarrow> (Inl e, db)
      | Inr None \<Rightarrow>
          (case promotion_Insert c 1 now (discount_row now d) db of
             (Inl e, db') \<Rightarrow> (Inl e, db')
           | (Inr row, db') \<Rightarrow> (Inr (row, True), db'))
      | Inr (Some existing) \<Rightarrow>
          (case promotion_Update c 1 (discount_row now d) (pr_id existing) db of
             (Inl e, db') \<Rightarrow> (Inl e, db')
           | (Inr row, db') \<Rightarrow> (Inr (row, False), db')))"

fun resolveProductIDs :: "conn \<Rightarrow> nat \<Rightarrow> string list \<Rightarrow> shop_db \<Rightarrow> id64 list" where
  "resolveProductIDs c k [] db = []"
| "resolveProductIDs c k (ref # refs) db =
     (let uuid = ExtractUUIDFromHref ref in
      if uuid = [] then resolveProductIDs c k refs db
      else case product_GetByMoyskladID c k uuid db of
        Inr (Some p) \<Rightarrow> p_id p # resolveProductIDs c (Suc k) refs db
      | _ \<Rightarrow> resolveProductIDs c (Suc k) refs db)"

fun resolveCategoryIDs :: "(string \<rightharpoonup> id64) \<Rightarrow> string list \<Rightarrow> id64 list" where
  "resolveCategoryIDs folders [] = []"
| "resolveCategoryIDs folders (ref # refs) =
     (let uuid = ExtractUUIDFromHref ref in
      case (if uuid = [] then None else folders uuid) of
        Some k \<Rightarrow> k # resolveCategoryIDs folders refs
      | None \<Rightarrow> resolveCategoryIDs folders refs)"

text \<open>The body of the loop for one discount.\<close>

definition sync_discount ::
  "promo_sync_env \<Rightarrow> nat \<Rightarrow> (string \<rightharpoonup> id64) \<Rightarrow> ms_discount \<Rightarrow> promo_sync_result \<times> shop_db
    \<Rightarrow> promo_sync_result \<times> shop_db" where
  "sync_discount env i folders d s =
     (let (res, db) = s in
      if md_id d = [] \<or> md_name d = [] then (res\<lparr>pn_skipped := pn_skipped res + 1\<rparr>, db)
      else case upsertPromotion (ps_upsert env i) (ps_now env) d db of
        (Inl e, db1) \<Rightarrow> (res\<lparr>pn_errors := pn_errors res + 1\<rparr>, db1)
      | (Inr (promo, created), db1) \<Rightarrow>
          let res1 = (if created then res\<lparr>pn_created := pn_created res + 1\<rparr>
                      else res\<lparr>pn_updated := pn_updated res + 1\<rparr>);
              pids = resolveProductIDs (ps_lookup env i) 0 (md_assortment d) db1;
              (r2, db2) = ReplaceProductLinks (ps_products env i) (pr_id promo) pids db1;
              res2 = (case r2 of
                  Inl e \<Rightarrow> res1\<lparr>pn_errors := pn_errors res1 + 1\<rparr>
                | Inr _ \<Rightarrow> res1\<lparr>pn_product_links := pn_product_links res1 + length pids\<rparr>);
              cids = resolveCategoryIDs folders (md_folders d);
              (r3, db3) = ReplaceCategoryLinks (ps_categories env i) (pr_id promo) cids db2;
              res3 = (case r3 of
                  Inl e \<Rightarrow> res2\<lparr>pn_errors := pn_errors res2 + 1\<rparr>
                | Inr _ \<Rightarrow> res2\<lparr>pn_category_links := pn_category_links res2 + length cids\<rparr>)
          in (res3, db3))"

fun sync_discounts ::
  "promo_sync_env \<Rightarrow> nat \<Rightarrow> (string \<rightharpoonup> id64) \<Rightarrow> ms_discount list \<Rightarrow> promo_sync_result \<times> shop_db
    \<Rightarrow> promo_sync_result \<times> shop_db" where
  "sync_discounts env i folders [] s = s"
| "sync_discounts env i folders (d # ds) s =
     sync_discounts env (Suc i) folders ds (sync_discount env i folders d s)"

definition SyncPromotions ::
  "promo_sync_env \<Rightarrow> (string \<rightharpoonup> id64) \<Rightarrow> shop_db \<Rightarrow> promo_sync_result result \<times> shop_db" where
  "SyncPromotions env folders db =
     (if \<not> ps_ready env then (Inr no_promo_sync, db)
      else case ps_discounts env of
        Inl e \<Rightarrow> (Inl e, db)
      | Inr ds \<Rightarrow>
          let (res, db') = sync_discounts env 0 folders ds (no_promo_sync\<lparr>pn_fetched := length ds\<rparr>, db)
          in (Inr res, db'))"

section \<open>One discount\<close>

definition promo_inv :: "shop_db \<Rightarrow> bool" where
  "promo_inv db =
     (distinct (map pr_id (promotions db)) \<and>
      (\<forall>p \<in> set (promotions db). pr_id p < next_promotion db) \<and>
      (\<forall>p \<in> set (promotions db). \<forall>q \<in> set (promotions db).
         pr_moysklad_id p = pr_moysklad_id q \<longrightarrow> pr_moysklad_id p \<noteq> None \<longrightarrow> p = q))"

text \<open>A row that holds what a synchronisation at \<open>now\<close> writes for a discount.\<close>

definition synced_promotion :: "time \<Rightarrow> ms_discount \<Rightarrow> promotion \<Rightarrow> bool" where
  "synced_promotion now d p =
     (p = (discount_row now d)\<lparr>pr_id := pr_id p, pr_created_at := pr_created_at p\<rparr>)"

lemma synced_key: "synced_promotion now d p \<Longrightarrow> pr_moysklad_id p = Some (md_id d)"
  unfolding synced_promotion_def by (drule arg_cong [of _ _ pr_moysklad_id]) (simp add: discount_row_def)

definition others :: "string \<Rightarrow> shop_db \<Rightarrow> promotion set" where
  "others ms db = {p \<in> set (promotions db). pr_moysklad_id p \<noteq> Some ms}"

lemma discount_row_simps [simp]:
  "pr_moysklad_id (discount_row now d) = Some (md_id d)" "pr_active (discount_row now d) = md_active d"
  "pr_kind (discount_row now d) = PromotionKindDay" "pr_valid_from (discount_row now d) = Some now"
  by (simp_all add: discount_row_def)

lemma insert_discount:
  fixes now :: time
  assumes "promo_inv db" "\<forall>p \<in> set (promotions db). pr_moysklad_id p \<noteq> Some (md_id d)" "c_stmt c 1"
  defines "row \<equiv> (discount_row now d)\<lparr>pr_id := next_promotion db\<rparr>"
  shows "promotion_Insert c 1 now (discount_row now d) db =
    (Inr row, db\<lparr>promotions := promotions db @ [row], next_promotion := next_promotion db + 1\<rparr>)"
proof -
  have "promotion_unique db (next_promotion db) (discount_row now d)"
    using assms(2) by (auto simp: promotion_unique_def)
  then show ?thesis
    using assms(3) by (simp add: promotion_Insert_def row_def discount_row_def Let_def)
qed

lemma update_discount:
  fixes now :: time
  assumes "promo_inv db" "q \<in> set (promotions db)" "pr_moysklad_id q = Some (md_id d)" "c_stmt c 1"
  defines "row \<equiv> promotion_columns (discount_row now d) q"
  shows "promotion_Update c 1 (discount_row now d) (pr_id q) db =
    (Inr row, db\<lparr>promotions := map (\<lambda>p. if p = q then row else p) (promotions db)\<rparr>)"
proof -
  have dist: "distinct (map pr_id (promotions db))" using assms(1) by (simp add: promo_inv_def)
  have uniq: "promotion_unique db (pr_id q) (discount_row now d)"
    using assms(1-3) unfolding promotion_unique_def promo_inv_def by force
  have same: "r \<in> set (promotions db) \<Longrightarrow> pr_id r = pr_id q \<longleftrightarrow> r = q" for r
    using promotion_rows.row_eq_by_key [OF dist _ assms(2)] by blast
  have "filter (\<lambda>r. pr_id r = pr_id q) (promotions db) = [q]"
    using promotion_rows.filter_key [OF dist, of "pr_id q"] promotion_rows.find_row_unique [OF dist assms(2)] by simp
  moreover have "sql_update (\<lambda>r. pr_id r = pr_id q) (promotion_columns (discount_row now d)) (promotions db) =
      map (\<lambda>p. if p = q then row else p) (promotions db)"
    unfolding sql_update_def row_def by (rule map_cong) (auto simp: same)
  ultimately show ?thesis
    using uniq assms(4) by (simp add: promotion_Update_def sql_returning_def row_def)
qed

lemma lookup_discount:
  assumes "promo_inv db" "c_stmt c 0" "md_id d \<noteq> []"
  obtains "promotion_GetByMoyskladID c 0 (md_id d) db = Inr None"
      "\<forall>p \<in> set (promotions db). pr_moysklad_id p \<noteq> Some (md_id d)"
  | q where "promotion_GetByMoyskladID c 0 (md_id d) db = Inr (Some q)" "q \<in> set (promotions db)"
      "pr_moysklad_id q = Some (md_id d)"
proof (cases "filter (\<lambda>p. pr_moysklad_id p = Some (md_id d)) (promotions db)")
  case Nil
  then show thesis using that(1) assms(2,3) by (auto simp: promotion_GetByMoyskladID_def filter_empty_conv)
next
  case (Cons q qs)
  then have "q \<in> set (filter (\<lambda>p. pr_moysklad_id p = Some (md_id d)) (promotions db))"
    by (metis list.set_intros(1))
  then have q: "q \<in> set (promotions db)" "pr_moysklad_id q = Some (md_id d)" by simp_all
  have "promotion_GetByMoyskladID c 0 (md_id d) db = Inr (Some q)"
    using Cons assms(2,3) by (simp add: promotion_GetByMoyskladID_def)
  then show thesis using that(2) q by blast
qed

lemma upsert_discount:
  assumes "promo_inv db" "c_stmt c 0" "c_stmt c 1" "md_id d \<noteq> []"
  shows "\<exists>row created ps n. upsertPromotion c now d db =
      (Inr (row, created), db\<lparr>promotions := ps, next_promotion := n\<rparr>) \<and>
    promo_inv (db\<lparr>promotions := ps, next_promotion := n\<rparr>) \<and> row \<in> set ps \<and> synced_promotion now d row \<and>
    others (md_id d) (db\<lparr>promotions := ps, next_promotion := n\<rparr>) = others (md_id d) db"
proof (rule lookup_discount [OF assms(1,2,4)])
  let ?row = "(discount_row now d)\<lparr>pr_id := next_promotion db\<rparr>"
  assume get: "promotion_GetByMoyskladID c 0 (md_id d) db = Inr None"
    and new: "\<forall>p \<in> set (promotions db). pr_moysklad_id p \<noteq> Some (md_id d)"
  have "upsertPromotion c now d db = (Inr (?row, True),
      db\<lparr>promotions := promotions db @ [?row], next_promotion := next_promotion db + 1\<rparr>)"
    using insert_discount [OF assms(1) new assms(3), of now] get by (simp add: upsertPromotion_def)
  moreover have "promo_inv (db\<lparr>promotions := promotions db @ [?row], next_promotion := next_promotion db + 1\<rparr>)"
    using assms(1) new by (force simp: promo_inv_def)
  moreover have "synced_promotion now d ?row" by (simp add: synced_promotion_def discount_row_def)
  moreover have "?row \<in> set (promotions db @ [?row])" by simp
  moreover have "others (md_id d) (db\<lparr>promotions := promotions db @ [?row], next_promotion := next_promotion db + 1\<rparr>)
      = others (md_id d) db"
    by (auto simp: others_def)
  ultimately show ?thesis by blast
next
  fix q assume get: "promotion_GetByMoyskladID c 0 (md_id d) db = Inr (Some q)"
    and q: "q \<in> set (promotions db)" "pr_moysklad_id q = Some (md_id d)"
  let ?row = "promotion_columns (discount_row now d) q"
  define ps where ps: "ps = map (\<lambda>p. if p = q then ?row else p) (promotions db)"
  have row: "pr_id ?row = pr_id q" "pr_moysklad_id ?row = Some (md_id d)"
    by (simp_all add: promotion_columns_def)
  have only: "p \<in> set (promotions db) \<Longrightarrow> pr_moysklad_id p = Some (md_id d) \<Longrightarrow> p = q" for p
    using assms(1) q unfolding promo_inv_def by force
  have keys: "map pr_id ps = map pr_id (promotions db)" using row(1) by (auto simp: ps intro: map_cong)
  have "upsertPromotion c now d db = (Inr (?row, False),
      db\<lparr>promotions := ps, next_promotion := next_promotion db\<rparr>)"
    using update_discount [OF assms(1) q assms(3), of now] get by (simp add: upsertPromotion_def ps)
  moreover have "promo_inv (db\<lparr>promotions := ps, next_promotion := next_promotion db\<rparr>)"
  proof -
    have mem: "x = ?row \<or> x \<in> set (promotions db) \<and> pr_moysklad_id x \<noteq> Some (md_id d)" if "x \<in> set ps" for x
      using that only by (auto simp: ps)
    have "distinct (map pr_id ps)" using assms(1) unfolding keys by (simp add: promo_inv_def)
    moreover have "pr_id x < next_promotion db" if "x \<in> set ps" for x
      using mem [OF that] row(1) q(1) assms(1) by (auto simp: promo_inv_def)
    moreover have "x = y" if "x \<in> set ps" "y \<in> set ps" "pr_moysklad_id x = pr_moysklad_id y" "pr_moysklad_id x \<noteq> None" for x y
    proof -
      have old: "x \<in> set (promotions db) \<Longrightarrow> y \<in> set (promotions db) \<Longrightarrow> x = y"
        using assms(1) that(3,4) unfolding promo_inv_def by blast
      from mem [OF that(1)] mem [OF that(2)] show ?thesis
        using old that(3) row(2) by (elim disjE) simp_all
    qed
    ultimately show ?thesis unfolding promo_inv_def
      by simp
  qed
  moreover have "synced_promotion now d ?row" by (simp add: synced_promotion_def promotion_columns_def)
  moreover have "?row \<in> set ps" using q(1) by (force simp: ps)
  moreover have "others (md_id d) (db\<lparr>promotions := ps, next_promotion := next_promotion db\<rparr>) = others (md_id d) db"
    using q row by (force simp: others_def ps)
  ultimately show ?thesis by blast
qed

section \<open>A whole synchronisation\<close>

definition linked :: "link list \<Rightarrow> id64 \<Rightarrow> id64 set" where
  "linked table pid = {k. (pid, k) \<in> set table}"

lemma replaceLinks_healthy:
  assumes "promotion_exists pid" "list_all target_exists ids"
  shows "\<exists>table'. replaceLinks healthy promotion_exists target_exists pid ids table = (Inr (), table') \<and>
    linked table' pid = set ids \<and> (\<forall>q. q \<noteq> pid \<longrightarrow> linked table' q = linked table q)"
proof -
  let ?table = "sql_delete (\<lambda>l. fst l = pid) table @
    filter (\<lambda>l. l \<notin> set (sql_delete (\<lambda>l. fst l = pid) table)) (map (Pair pid) (first_seen [] ids))"
  have "replaceLinks healthy promotion_exists target_exists pid ids table = (Inr (), ?table)"
    using assms by (cases "ids = []") (simp_all add: replaceLinks_def run_tx_def healthy_def Let_def)
  moreover have "linked ?table pid = set ids" "\<forall>q. q \<noteq> pid \<longrightarrow> linked ?table q = linked table q"
    by (auto simp: linked_def set_first_seen)
  ultimately show ?thesis by blast
qed

text \<open>The ids of the products, and of the categories, that a list of hrefs stands for.\<close>

definition products_of :: "shop_db \<Rightarrow> string list \<Rightarrow> id64 set" where
  "products_of db refs =
     {p_id p | p ref. ref \<in> set refs \<and> ExtractUUIDFromHref ref \<noteq> [] \<and>
        filter (\<lambda>r. p_moysklad_id r = Some (ExtractUUIDFromHref ref)) (products db) = [p]}"

definition categories_of :: "(string \<rightharpoonup> id64) \<Rightarrow> string list \<Rightarrow> id64 set" where
  "categories_of folders refs =
     {k. \<exists>ref \<in> set refs. ExtractUUIDFromHref ref \<noteq> [] \<and> folders (ExtractUUIDFromHref ref) = Some k}"

lemma lookup_healthy:
  "product_GetByMoyskladID healthy k uuid db =
    (case filter (\<lambda>r. p_moysklad_id r = Some uuid) (products db) of
       [] \<Rightarrow> Inr None | [p] \<Rightarrow> Inr (Some p) | _ \<Rightarrow> Inl DbError)"
  by (cases "filter (\<lambda>r. p_moysklad_id r = Some uuid) (products db)" rule: scan_one.cases)
    (simp_all add: product_GetByMoyskladID_def healthy_def)

lemma products_of_Cons:
  "products_of db (ref # refs) = products_of db refs \<union>
    (if ExtractUUIDFromHref ref = [] then {}
     else case filter (\<lambda>r. p_moysklad_id r = Some (ExtractUUIDFromHref ref)) (products db) of
       [p] \<Rightarrow> {p_id p} | _ \<Rightarrow> {})"
  by (auto simp: products_of_def split: list.splits)

lemma set_resolveProductIDs: "set (resolveProductIDs healthy k refs db) = products_of db refs"
proof (induction refs arbitrary: k)
  case (Cons ref refs)
  then show ?case
    unfolding products_of_Cons by (auto simp: Let_def lookup_healthy split: list.splits)
qed (simp add: products_of_def)

lemma set_resolveCategoryIDs: "set (resolveCategoryIDs folders refs) = categories_of folders refs"
  by (induction refs) (auto simp: categories_of_def Let_def split: option.splits if_splits)

lemma products_of_exist: "products_of db refs \<subseteq> p_id ` set (products db)"
proof
  fix k assume "k \<in> products_of db refs"
  then obtain p uuid where "k = p_id p" "filter (\<lambda>r. p_moysklad_id r = Some uuid) (products db) = [p]"
    by (auto simp: products_of_def)
  then have "p \<in> set (filter (\<lambda>r. p_moysklad_id r = Some uuid) (products db))"
    by (metis list.set_intros(1))
  with \<open>k = p_id p\<close> show "k \<in> p_id ` set (products db)" by auto
qed

lemma products_of_cong: "products db = products db' \<Longrightarrow> products_of db = products_of db'"
  by (intro ext) (simp add: products_of_def)

definition healthy_sync :: "promo_sync_env \<Rightarrow> bool" where
  "healthy_sync env = (ps_ready env \<and> ps_upsert env = (\<lambda>_. healthy) \<and> ps_lookup env = (\<lambda>_. healthy) \<and>
     ps_products env = (\<lambda>_. healthy) \<and> ps_categories env = (\<lambda>_. healthy))"

text \<open>What the tables hold for a discount after its synchronisation.\<close>

definition holds_discount :: "time \<Rightarrow> (string \<rightharpoonup> id64) \<Rightarrow> ms_discount \<Rightarrow> shop_db \<Rightarrow> bool" where
  "holds_discount now folders d db =
     (\<exists>row \<in> set (promotions db). synced_promotion now d row \<and>
        linked (promotion_products db) (pr_id row) = products_of db (md_assortment d) \<and>
        linked (promotion_categories db) (pr_id row) = categories_of folders (md_folders d))"

text \<open>What it leaves: all else, and the promotions with another id and their links.\<close>

definition leaves :: "string set \<Rightarrow> shop_db \<Rightarrow> shop_db \<Rightarrow> bool" where
  "leaves ids db db' =
     (products db' = products db \<and> categories db' = categories db \<and>
      (\<forall>p. pr_moysklad_id p \<notin> Some ` ids \<longrightarrow>
         (p \<in> set (promotions db') \<longleftrightarrow> p \<in> set (promotions db)) \<and>
         (p \<in> set (promotions db) \<longrightarrow>
            linked (promotion_products db') (pr_id p) = linked (promotion_products db) (pr_id p) \<and>
            linked (promotion_categories db') (pr_id p) = linked (promotion_categories db) (pr_id p))))"

lemma replace_both:
  assumes "pid \<in> pr_id ` set (promotions db)" "set pids \<subseteq> p_id ` set (products db)"
    and "set cids \<subseteq> c_id ` set (categories db)"
  shows "\<exists>tp tc. ReplaceProductLinks healthy pid pids db = (Inr (), db\<lparr>promotion_products := tp\<rparr>) \<and>
    ReplaceCategoryLinks healthy pid cids (db\<lparr>promotion_products := tp\<rparr>) =
      (Inr (), db\<lparr>promotion_products := tp, promotion_categories := tc\<rparr>) \<and>
    linked tp pid = set pids \<and> linked tc pid = set cids \<and>
    (\<forall>q. q \<noteq> pid \<longrightarrow> linked tp q = linked (promotion_products db) q \<and>
       linked tc q = linked (promotion_categories db) q)"
proof -
  have "list_all (\<lambda>k. k \<in> p_id ` set (products db)) pids" using assms(2) by (auto simp: list_all_iff)
  from replaceLinks_healthy [of "\<lambda>k. k \<in> pr_id ` set (promotions db)", OF assms(1) this]
  obtain tp where tp: "replaceLinks healthy (\<lambda>k. k \<in> pr_id ` set (promotions db)) (\<lambda>k. k \<in> p_id ` set (products db))
      pid pids (promotion_products db) = (Inr (), tp)"
    "linked tp pid = set pids" "\<forall>q. q \<noteq> pid \<longrightarrow> linked tp q = linked (promotion_products db) q" by blast
  have "list_all (\<lambda>k. k \<in> c_id ` set (categories db)) cids" using assms(3) by (auto simp: list_all_iff)
  from replaceLinks_healthy [of "\<lambda>k. k \<in> pr_id ` set (promotions db)", OF assms(1) this]
  obtain tc where tc: "replaceLinks healthy (\<lambda>k. k \<in> pr_id ` set (promotions db)) (\<lambda>k. k \<in> c_id ` set (categories db))
      pid cids (promotion_categories db) = (Inr (), tc)"
    "linked tc pid = set cids" "\<forall>q. q \<noteq> pid \<longrightarrow> linked tc q = linked (promotion_categories db) q" by blast
  have "ReplaceProductLinks healthy pid pids db = (Inr (), db\<lparr>promotion_products := tp\<rparr>)"
    using tp(1) by (simp add: ReplaceProductLinks_def)
  moreover have "ReplaceCategoryLinks healthy pid cids (db\<lparr>promotion_products := tp\<rparr>) =
      (Inr (), db\<lparr>promotion_products := tp, promotion_categories := tc\<rparr>)"
    using tc(1) by (simp add: ReplaceCategoryLinks_def)
  ultimately show ?thesis using tp(2,3) tc(2,3) by blast
qed

lemma sync_discount_healthy:
  assumes "promo_inv db" "healthy_sync env" "md_id d \<noteq> []" "md_name d \<noteq> []"
    and "ran folders \<subseteq> c_id ` set (categories db)"
  shows "\<exists>res' db'. sync_discount env i folders d (res, db) = (res', db') \<and> promo_inv db' \<and>
    holds_discount (ps_now env) folders d db' \<and> leaves {md_id d} db db' \<and> pn_errors res' = pn_errors res"
proof -
  have stmt: "c_stmt healthy k" for k by (simp add: healthy_def)
  from upsert_discount [OF assms(1) stmt stmt assms(3), of "ps_now env"]
  obtain row created ps n where up: "upsertPromotion healthy (ps_now env) d db =
      (Inr (row, created), db\<lparr>promotions := ps, next_promotion := n\<rparr>)"
    and inv: "promo_inv (db\<lparr>promotions := ps, next_promotion := n\<rparr>)"
    and row: "row \<in> set ps" "synced_promotion (ps_now env) d row"
    and oth: "others (md_id d) (db\<lparr>promotions := ps, next_promotion := n\<rparr>) = others (md_id d) db"
    by blast
  define db1 where "db1 = db\<lparr>promotions := ps, next_promotion := n\<rparr>"
  have fields: "products db1 = products db" "categories db1 = categories db" "promotions db1 = ps"
    "promotion_products db1 = promotion_products db" "promotion_categories db1 = promotion_categories db"
    by (simp_all add: db1_def)
  let ?pids = "resolveProductIDs healthy 0 (md_assortment d) db1" and ?cids = "resolveCategoryIDs folders (md_folders d)"
  have "set ?cids \<subseteq> c_id ` set (categories db1)"
    using assms(5) by (auto simp: set_resolveCategoryIDs categories_of_def ran_def fields)
  moreover have "set ?pids \<subseteq> p_id ` set (products db1)"
    unfolding set_resolveProductIDs by (rule products_of_exist)
  moreover have "pr_id row \<in> pr_id ` set (promotions db1)" using row(1) fields(3) by simp
  ultimately obtain tp tc where links: "ReplaceProductLinks healthy (pr_id row) ?pids db1 = (Inr (), db1\<lparr>promotion_products := tp\<rparr>)"
    "ReplaceCategoryLinks healthy (pr_id row) ?cids (db1\<lparr>promotion_products := tp\<rparr>) =
      (Inr (), db1\<lparr>promotion_products := tp, promotion_categories := tc\<rparr>)"
    and mine: "linked tp (pr_id row) = set ?pids" "linked tc (pr_id row) = set ?cids"
    and rest: "\<forall>q. q \<noteq> pr_id row \<longrightarrow> linked tp q = linked (promotion_products db1) q \<and>
       linked tc q = linked (promotion_categories db1) q"
    using replace_both by blast
  define db3 where "db3 = db1\<lparr>promotion_products := tp, promotion_categories := tc\<rparr>"
  have fields3: "promotions db3 = ps" "products db3 = products db" "categories db3 = categories db"
    "promotion_products db3 = tp" "promotion_categories db3 = tc" "next_promotion db3 = n"
    by (simp_all add: db3_def db1_def)
  have "\<exists>res'. sync_discount env i folders d (res, db) = (res', db3) \<and> pn_errors res' = pn_errors res"
    using assms(2-4) up [folded db1_def] links [folded db3_def]
    by (simp add: sync_discount_def healthy_sync_def)
  moreover have "promo_inv db3"
    using inv by (simp add: promo_inv_def fields3)
  moreover have "holds_discount (ps_now env) folders d db3"
    using row mine products_of_cong [of db3 db1] unfolding holds_discount_def
    by (intro bexI [of _ row]) (simp_all add: fields fields3 set_resolveProductIDs set_resolveCategoryIDs)
  moreover have "leaves {md_id d} db db3"
  proof -
    have "pr_id p \<noteq> pr_id row" if "p \<in> set ps" "pr_moysklad_id p \<noteq> Some (md_id d)" for p
    proof
      assume "pr_id p = pr_id row"
      with inv that(1) row(1) have "p = row"
        by (auto simp: promo_inv_def dest: promotion_rows.row_eq_by_key)
      with that(2) row(2) synced_key show False by blast
    qed
    moreover have "p \<in> set ps \<longleftrightarrow> p \<in> set (promotions db)" if "pr_moysklad_id p \<noteq> Some (md_id d)" for p
      using oth that by (auto simp: others_def)
    ultimately show ?thesis using rest by (auto simp: leaves_def fields fields3)
  qed
  ultimately show ?thesis by blast
qed

lemma leaves_refl: "leaves ids db db"
  by (simp add: leaves_def)

lemma leaves_trans: "leaves a db db1 \<Longrightarrow> leaves b db1 db2 \<Longrightarrow> leaves (a \<union> b) db db2"
  unfolding leaves_def by (simp add: image_Un)

lemma holds_discount_later:
  assumes "holds_discount now folders d db" "leaves ids db db'" "md_id d \<notin> ids"
  shows "holds_discount now folders d db'"
proof -
  from assms(1) obtain row where row: "row \<in> set (promotions db)" "synced_promotion now d row"
    "linked (promotion_products db) (pr_id row) = products_of db (md_assortment d)"
    "linked (promotion_categories db) (pr_id row) = categories_of folders (md_folders d)"
    unfolding holds_discount_def by blast
  have "pr_moysklad_id row \<notin> Some ` ids" using synced_key [OF row(2)] assms(3) by auto
  moreover have "products_of db' = products_of db"
    using assms(2) by (intro products_of_cong) (simp add: leaves_def)
  ultimately show ?thesis
    using row assms(2) unfolding holds_discount_def leaves_def by (intro bexI [of _ row]) simp_all
qed

lemma sync_discounts_healthy:
  assumes "promo_inv db" "healthy_sync env" "list_all (\<lambda>d. md_id d \<noteq> [] \<and> md_name d \<noteq> []) ds"
    and "distinct (map md_id ds)" "ran folders \<subseteq> c_id ` set (categories db)"
  shows "\<exists>res' db'. sync_discounts env i folders ds (res, db) = (res', db') \<and> promo_inv db' \<and>
    list_all (\<lambda>d. holds_discount (ps_now env) folders d db') ds \<and> leaves (md_id ` set ds) db db' \<and>
    pn_errors res' = pn_errors res"
  using assms
proof (induction ds arbitrary: i res db)
  case (Cons d ds)
  from sync_discount_healthy [OF Cons.prems(1,2) _ _ Cons.prems(5), of d i res] Cons.prems(3)
  obtain res1 db1 where one: "sync_discount env i folders d (res, db) = (res1, db1)" "promo_inv db1"
    "holds_discount (ps_now env) folders d db1" "leaves {md_id d} db db1" "pn_errors res1 = pn_errors res"
    by auto
  have "ran folders \<subseteq> c_id ` set (categories db1)" using Cons.prems(5) one(4) by (simp add: leaves_def)
  with Cons.IH [OF one(2) Cons.prems(2), of "Suc i" res1] Cons.prems(3,4)
  obtain res2 db2 where more: "sync_discounts env (Suc i) folders ds (res1, db1) = (res2, db2)" "promo_inv db2"
    "list_all (\<lambda>d. holds_discount (ps_now env) folders d db2) ds" "leaves (md_id ` set ds) db1 db2"
    "pn_errors res2 = pn_errors res1"
    by auto
  have "holds_discount (ps_now env) folders d db2"
    by (rule holds_discount_later [OF one(3) more(4)]) (use Cons.prems(4) in auto)
  moreover have "leaves (md_id ` set (d # ds)) db db2"
    using leaves_trans [OF one(4) more(4)] by simp
  ultimately show ?case using one more by auto
qed (simp add: leaves_refl)

lemma synced_applies:
  assumes "synced_promotion now d p"
  shows "PromotionAppliesForReservation (Some p) now = md_active d"
proof -
  have "pr_active p = md_active d \<and> pr_kind p = PromotionKindDay \<and> pr_valid_from p = Some now"
    by (subst (1 2 3) assms [unfolded synced_promotion_def]) (simp add: discount_row_def)
  then show ?thesis
    by (simp add: PromotionAppliesForReservation_def PromotionReservationDay_def promotion_ref_def sameMoscowDay_def)
qed

lemma sync_discounts_fetched:
  "sync_discounts env i folders ds (res, db) = (res', db') \<Longrightarrow> pn_fetched res' = pn_fetched res"
proof (induction ds arbitrary: i res db)
  case (Cons d ds)
  obtain res1 db1 where one: "sync_discount env i folders d (res, db) = (res1, db1)" by fastforce
  then have "pn_fetched res1 = pn_fetched res"
    by (auto simp: sync_discount_def Let_def split: if_splits sum.splits prod.splits)
  with Cons.IH [of "Suc i" res1 db1] Cons.prems one show ?case by simp
qed simp

text \<open>
  C25. While all goes through, a synchronisation brings every discount of Moysklad, with different
  ids, into the table: one row with its title, percentage and state, which is a promotion of the
  day from now on, linked to exactly the products and categories its hrefs stand for; so that it
  applies at once if it is active, whatever its row was before. What was edited by hand in such a
  row, a lock among it, is gone. Promotions Moysklad does not list keep their rows and links: one
  that was removed there stays.
\<close>

theorem promotions_synced:
  assumes "promo_inv db" "healthy_sync env" "ps_discounts env = Inr ds"
    and "list_all (\<lambda>d. md_id d \<noteq> [] \<and> md_name d \<noteq> []) ds" "distinct (map md_id ds)"
    and "ran folders \<subseteq> c_id ` set (categories db)"
  shows "\<exists>res db'. SyncPromotions env folders db = (Inr res, db') \<and> promo_inv db' \<and>
    pn_fetched res = length ds \<and> pn_errors res = 0 \<and> leaves (md_id ` set ds) db db' \<and>
    list_all (\<lambda>d. \<exists>row \<in> set (promotions db').
      row = (discount_row (ps_now env) d)\<lparr>pr_id := pr_id row, pr_created_at := pr_created_at row\<rparr> \<and>
      linked (promotion_products db') (pr_id row) = products_of db' (md_assortment d) \<and>
      linked (promotion_categories db') (pr_id row) = categories_of folders (md_folders d) \<and>
      PromotionAppliesForReservation (Some row) (ps_now env) = md_active d) ds"
proof -
  let ?start = "no_promo_sync\<lparr>pn_fetched := length ds\<rparr>"
  from sync_discounts_healthy [OF assms(1,2,4,5,6), of 0 ?start]
  obtain res db' where run: "sync_discounts env 0 folders ds (?start, db) = (res, db')" "promo_inv db'"
    "list_all (\<lambda>d. holds_discount (ps_now env) folders d db') ds" "leaves (md_id ` set ds) db db'"
    "pn_errors res = pn_errors ?start" by blast
  have "pn_fetched res = length ds" using sync_discounts_fetched [OF run(1)] by simp
  moreover have "pn_errors res = 0" using run(5) by (simp add: no_promo_sync_def)
  moreover have "SyncPromotions env folders db = (Inr res, db')"
    using assms(2,3) run(1) by (simp add: SyncPromotions_def healthy_sync_def)
  moreover have "list_all (\<lambda>d. \<exists>row \<in> set (promotions db').
      row = (discount_row (ps_now env) d)\<lparr>pr_id := pr_id row, pr_created_at := pr_created_at row\<rparr> \<and>
      linked (promotion_products db') (pr_id row) = products_of db' (md_assortment d) \<and>
      linked (promotion_categories db') (pr_id row) = categories_of folders (md_folders d) \<and>
      PromotionAppliesForReservation (Some row) (ps_now env) = md_active d) ds"
    using run(3) synced_applies unfolding list_all_iff holds_discount_def synced_promotion_def [symmetric] by blast
  ultimately show ?thesis using run(2,4) by blast
qed

text \<open>The discount replaces what the staff had written in its row, unlocks it and unlinks product 1.\<close>

definition promo_sync_example :: promo_sync_env where
  "promo_sync_example = \<lparr>ps_now = 20 * hour, ps_ready = True,
     ps_discounts = Inr [\<lparr>md_id = ''d1'', md_name = ''Sale'', md_active = True, md_discount = 20,
       md_assortment = [], md_folders = []\<rparr>],
     ps_upsert = (\<lambda>_. healthy), ps_lookup = (\<lambda>_. healthy), ps_products = (\<lambda>_. healthy),
     ps_categories = (\<lambda>_. healthy)\<rparr>"

definition promo_sync_db :: shop_db where
  "promo_sync_db = empty_shop\<lparr>promotions := [(mk_promotion 1 ''manual'' 10 0)\<lparr>pr_moysklad_id := Some ''d1'', pr_locked := True\<rparr>],
     promotion_products := [(1, 1)], next_promotion := 2\<rparr>"

theorem promotions_synced_witness:
  "\<exists>res db' row. SyncPromotions promo_sync_example Map.empty promo_sync_db = (Inr res, db') \<and>
    row \<in> set (promotions db') \<and> \<not> pr_locked row \<and> linked (promotion_products db') (pr_id row) = {}"
proof -
  let ?d = "\<lparr>md_id = ''d1'', md_name = ''Sale'', md_active = True, md_discount = 20, md_assortment = [], md_folders = []\<rparr>"
  have "promo_inv promo_sync_db" by (simp add: promo_inv_def promo_sync_db_def mk_promotion_def)
  from promotions_synced [OF this, of promo_sync_example "[?d]" Map.empty]
  obtain res db' row where "SyncPromotions promo_sync_example Map.empty promo_sync_db = (Inr res, db')"
    "row \<in> set (promotions db')" and row: "row = (discount_row (ps_now promo_sync_example) ?d)\<lparr>pr_id := pr_id row, pr_created_at := pr_created_at row\<rparr>"
    and "linked (promotion_products db') (pr_id row) = {}"
    by (auto simp: promo_sync_example_def healthy_sync_def products_of_def)
  moreover have "\<not> pr_locked row" by (subst row) (simp add: discount_row_def)
  ultimately show ?thesis by blast
qed

end
