(* ===== verification/SyncWorker.thy ===== *)
theory SyncWorker
  imports MoyskladSync Reservation Text
begin

text \<open>
  internal/services/scheduler.go and sync_worker.go: the full synchronisation in batches, the pool
  of workers that saves them, and the daily schedule. The goroutines of the pool are the steps of
  \<open>pool_step\<close>: a task is pushed, an idle worker takes the head of the queue, a busy one finishes its
  task, the manager adjusts the number of workers every five seconds; a push is a step while the
  queue has room (else the pusher waits). The semaphore has a slot for each worker, so that taking
  one never waits. Two minutes after its batches are queued a full synchronisation logs the counters
  of SyncSources and runs the promotions sync of PromotionSync, as a run of its own.
\<close>

section \<open>Batches\<close>

record sync_task =
  tk_id :: string
  tk_type :: string
  tk_products :: "ms_product list"
  tk_stock :: "(string \<rightharpoonup> money) option"
  tk_index :: nat
  tk_total :: nat

definition batchSize :: nat where "batchSize = 20"

text \<open>Task \<open>j\<close> of the loop over \<open>i = 0, 20, 40, ...\<close>\<close>

definition batch_task :: "ms_product list \<Rightarrow> (string \<rightharpoonup> money) \<Rightarrow> nat \<Rightarrow> sync_task" where
  "batch_task ps report j =
     \<lparr>tk_id = ''full-sync-'' @ decimal j, tk_type = ''batch'',
      tk_products = take batchSize (drop (j * batchSize) ps), tk_stock = Some report,
      tk_index = j, tk_total = (length ps + batchSize - 1) div batchSize\<rparr>"

definition batch_tasks :: "ms_product list \<Rightarrow> (string \<rightharpoonup> money) \<Rightarrow> sync_task list" where
  "batch_tasks ps report = map (batch_task ps report) [0..<(length ps + batchSize - 1) div batchSize]"

text \<open>
  \<open>FullSync\<close>: the flag of a running synchronisation is free within two minutes or not; the result
  is the tasks that are pushed. \<open>report\<close> is the map of the stock report.
\<close>

definition FullSync ::
  "bool \<Rightarrow> bool \<Rightarrow> sync_env \<Rightarrow> (string \<rightharpoonup> money) result \<Rightarrow> sync_state \<Rightarrow> sync_task list result \<times> sync_state" where
  "FullSync has_service flag_free env report st =
     (if \<not> has_service then (Inl (Rejected ''sync service not initialized''), st)
      else if \<not> flag_free then (Inl (Rejected ''another sync is already running''), st)
      else
        let st1 = RefreshCategories env st in
        case report of
          Inl e \<Rightarrow> (Inl e, st1)
        | Inr m \<Rightarrow>
            (case products_for_sync env None of
               Inl e \<Rightarrow> (Inl e, st1)
             | Inr ps \<Rightarrow> (Inr (batch_tasks ps m), st1)))"

text \<open>\<open>syncOnce\<close>: the periodic delta, unless the flag is taken.\<close>

definition syncOnce :: "bool \<Rightarrow> sync_env \<Rightarrow> sync_state \<Rightarrow> sync_result result option \<times> sync_state" where
  "syncOnce flag_free env st =
     (if \<not> flag_free then (None, st) else let (r, st') = SyncProductsDelta env st in (Some r, st'))"

section \<open>A task\<close>

definition with_stock :: "(string \<rightharpoonup> money) option \<Rightarrow> ms_product \<Rightarrow> ms_product" where
  "with_stock report mp =
     (case report of
        None \<Rightarrow> mp
      | Some m \<Rightarrow> mp\<lparr>mp_stock := Some (case m (mp_id mp) of Some s \<Rightarrow> s | None \<Rightarrow> 0)\<rparr>)"

text \<open>
  The loop of \<open>processTask\<close> over the products; \<open>expired i\<close> says that the context is done before
  product \<open>i\<close>. The result is the flag \<open>success\<close>.
\<close>

fun process_products ::
  "(nat \<Rightarrow> sync_env) \<Rightarrow> (nat \<Rightarrow> bool) \<Rightarrow> nat \<Rightarrow> (string \<rightharpoonup> money) option \<Rightarrow> ms_product list \<Rightarrow> bool \<Rightarrow> sync_state
    \<Rightarrow> bool \<times> sync_state" where
  "process_products env expired i report [] success st = (success, st)"
| "process_products env expired i report (mp # mps) success st =
     (if expired i then (success, st)
      else let (r, st1) = SyncSingleProduct (env i) (with_stock report mp) st
           in process_products env expired (Suc i) report mps (success \<and> is_ok r) st1)"

section \<open>The pool\<close>

record worker_pool =
  wp_queue :: "sync_task list"
  wp_busy :: "sync_task list"
  wp_workers :: int
  wp_max :: int
  wp_total :: int
  wp_processed :: int
  wp_failed :: int
  wp_active :: int
  wp_queued :: int
  wp_closed :: bool

definition queue_capacity :: nat where "queue_capacity = 4096"

definition NewSyncWorkerPool :: "int \<Rightarrow> worker_pool" where
  "NewSyncWorkerPool workers =
     \<lparr>wp_queue = [], wp_busy = [], wp_workers = 0, wp_max = (if workers < 1 then 1 else workers),
      wp_total = 0, wp_processed = 0, wp_failed = 0, wp_active = 0, wp_queued = 0, wp_closed = False\<rparr>"

definition startWorker :: "worker_pool \<Rightarrow> worker_pool" where
  "startWorker wp =
     (if wp_workers wp \<ge> wp_max wp then wp
      else wp\<lparr>wp_workers := wp_workers wp + 1, wp_active := wp_active wp + 1\<rparr>)"

definition stop_task :: sync_task where
  "stop_task = \<lparr>tk_id = ''stop-worker'', tk_type = ''stop'', tk_products = [], tk_stock = None, tk_index = 0, tk_total = 0\<rparr>"

definition stopWorker :: "worker_pool \<Rightarrow> worker_pool" where
  "stopWorker wp =
     (if wp_workers wp \<le> 1 then wp
      else if length (wp_queue wp) < queue_capacity then wp\<lparr>wp_queue := wp_queue wp @ [stop_task]\<rparr>
      else wp)"

definition adjustWorkerCount :: "worker_pool \<Rightarrow> worker_pool" where
  "adjustWorkerCount wp =
     (let queuedTasks = wp_queued wp; activeWorkers = wp_active wp;
          wp1 = (if queuedTasks > 10 \<and> activeWorkers < wp_max wp then startWorker wp else wp)
      in if queuedTasks < 5 \<and> activeWorkers > 1 then stopWorker wp1 else wp1)"

text \<open>
  \<open>PushTask\<close> counts the task and then sends it, which panics on the closed queue of a stopped pool;
  \<open>None\<close> is that panic.
\<close>

definition PushTask :: "sync_task \<Rightarrow> worker_pool \<Rightarrow> worker_pool option" where
  "PushTask t wp =
     (if wp_closed wp then None
      else Some (wp\<lparr>wp_total := wp_total wp + 1, wp_queued := wp_queued wp + 1, wp_queue := wp_queue wp @ [t]\<rparr>))"

definition worker_takes :: "sync_task \<Rightarrow> sync_task list \<Rightarrow> worker_pool \<Rightarrow> worker_pool" where
  "worker_takes t ts wp =
     (if tk_type t = ''stop'' then
        wp\<lparr>wp_queue := ts, wp_workers := wp_workers wp - 1, wp_active := wp_active wp - 1\<rparr>
      else wp\<lparr>wp_queue := ts, wp_busy := t # wp_busy wp\<rparr>)"

definition task_done :: "bool \<Rightarrow> sync_task \<Rightarrow> worker_pool \<Rightarrow> worker_pool" where
  "task_done success t wp =
     (let wp1 = (if success then wp\<lparr>wp_processed := wp_processed wp + 1\<rparr> else wp\<lparr>wp_failed := wp_failed wp + 1\<rparr>)
      in wp1\<lparr>wp_queued := wp_queued wp1 - 1, wp_busy := remove1 t (wp_busy wp1)\<rparr>)"

definition processTask ::
  "(nat \<Rightarrow> sync_env) \<Rightarrow> (nat \<Rightarrow> bool) \<Rightarrow> sync_task \<Rightarrow> worker_pool \<times> sync_state \<Rightarrow> worker_pool \<times> sync_state" where
  "processTask env expired t s =
     (let (wp, st) = s;
          (success, st') = process_products env expired 0 (tk_stock t) (tk_products t) True st
      in (task_done success t wp, st'))"

text \<open>
  \<open>Start\<close> starts one worker; \<open>Stop\<close> closes the queue. The scheduler's \<open>Stop\<close> calls it too, and when
  the context was done first, \<open>Start\<close> has already: the second time closes closed channels.
\<close>

definition StartPool :: "worker_pool \<Rightarrow> worker_pool" where
  "StartPool wp = startWorker wp"

definition StopPool :: "worker_pool \<Rightarrow> worker_pool option" where
  "StopPool wp = (if wp_closed wp then None else Some (wp\<lparr>wp_closed := True\<rparr>))"

inductive pool_step :: "worker_pool \<times> sync_state \<Rightarrow> worker_pool \<times> sync_state \<Rightarrow> bool" where
  push: "tk_type t \<noteq> ''stop'' \<Longrightarrow> length (wp_queue wp) < queue_capacity \<Longrightarrow> PushTask t wp = Some wp' \<Longrightarrow>
    pool_step (wp, st) (wp', st)"
| takes: "int (length (wp_busy wp)) < wp_workers wp \<Longrightarrow> wp_queue wp = t # ts \<Longrightarrow>
    pool_step (wp, st) (worker_takes t ts wp, st)"
| finish: "t \<in> set (wp_busy wp) \<Longrightarrow> pool_step (wp, st) (processTask env expired t (wp, st))"
| adjust: "pool_step (wp, st) (adjustWorkerCount wp, st)"

inductive pool_reachable :: "int \<Rightarrow> worker_pool \<times> sync_state \<Rightarrow> bool" for n where
  pool_start: "pool_reachable n (StartPool (NewSyncWorkerPool n), st)"
| pool_next: "pool_reachable n s \<Longrightarrow> pool_step s s' \<Longrightarrow> pool_reachable n s'"

inductive_cases pool_stepE: "pool_step (wp, st) s'"

definition success_rate :: "worker_pool \<Rightarrow> rat option" where
  "success_rate wp = (if wp_total wp = 0 then None else Some (of_int (wp_processed wp) / of_int (wp_total wp) * 100))"

section \<open>The counters\<close>

definition real_tasks :: "sync_task list \<Rightarrow> sync_task list" where
  "real_tasks ts = filter (\<lambda>t. tk_type t \<noteq> ''stop'') ts"

definition pool_inv :: "int \<Rightarrow> worker_pool \<Rightarrow> bool" where
  "pool_inv n wp =
     (wp_max wp = max 1 n \<and> 0 \<le> wp_workers wp \<and> wp_workers wp \<le> wp_max wp \<and> wp_active wp = wp_workers wp \<and>
      int (length (wp_busy wp)) \<le> wp_workers wp \<and> list_all (\<lambda>t. tk_type t \<noteq> ''stop'') (wp_busy wp) \<and>
      wp_queued wp = int (length (wp_busy wp) + length (real_tasks (wp_queue wp))) \<and>
      wp_total wp = wp_queued wp + wp_processed wp + wp_failed wp \<and> 0 \<le> wp_processed wp \<and> 0 \<le> wp_failed wp)"

lemma real_tasks_simps [simp]:
  "real_tasks [] = []" "real_tasks (t # ts) = (if tk_type t = ''stop'' then real_tasks ts else t # real_tasks ts)"
  "real_tasks (ts @ us) = real_tasks ts @ real_tasks us"
  by (simp_all add: real_tasks_def)

lemma stop_task_type [simp]: "tk_type stop_task = ''stop''"
  by (simp add: stop_task_def)

lemma startWorker_inv: "pool_inv n wp \<Longrightarrow> pool_inv n (startWorker wp)"
  by (auto simp: pool_inv_def startWorker_def)

lemma stopWorker_inv: "pool_inv n wp \<Longrightarrow> pool_inv n (stopWorker wp)"
  by (simp add: pool_inv_def stopWorker_def)

lemma adjust_inv: "pool_inv n wp \<Longrightarrow> pool_inv n (adjustWorkerCount wp)"
  by (simp add: adjustWorkerCount_def Let_def startWorker_inv stopWorker_inv)

lemma push_inv: "pool_inv n wp \<Longrightarrow> tk_type t \<noteq> ''stop'' \<Longrightarrow> PushTask t wp = Some wp' \<Longrightarrow> pool_inv n wp'"
  by (auto simp: pool_inv_def PushTask_def split: if_splits)

lemma takes_inv:
  "pool_inv n wp \<Longrightarrow> int (length (wp_busy wp)) < wp_workers wp \<Longrightarrow> wp_queue wp = t # ts \<Longrightarrow>
    pool_inv n (worker_takes t ts wp)"
  by (auto simp: pool_inv_def worker_takes_def)

lemma task_done_inv: "pool_inv n wp \<Longrightarrow> t \<in> set (wp_busy wp) \<Longrightarrow> pool_inv n (task_done b t wp)"
proof -
  assume inv: "pool_inv n wp" and t: "t \<in> set (wp_busy wp)"
  have "length (wp_busy wp) = Suc (length (remove1 t (wp_busy wp)))"
    using t by (simp add: length_remove1) (metis Suc_pred length_pos_if_in_set)
  moreover have "list_all (\<lambda>t. tk_type t \<noteq> ''stop'') (remove1 t (wp_busy wp))"
    using inv by (auto simp: pool_inv_def list_all_iff dest: notin_set_remove1)
  ultimately show ?thesis using inv by (simp add: pool_inv_def task_done_def Let_def)
qed

lemma pool_step_inv: "pool_step s s' \<Longrightarrow> pool_inv n (fst s) \<Longrightarrow> pool_inv n (fst s')"
  by (induction rule: pool_step.induct)
    (auto intro: push_inv takes_inv adjust_inv simp: processTask_def task_done_inv split: prod.splits)

lemma pool_reachable_inv: "pool_reachable n s \<Longrightarrow> pool_inv n (fst s)"
proof (induction rule: pool_reachable.induct)
  case (pool_start st)
  show ?case by (auto simp: pool_inv_def StartPool_def startWorker_def NewSyncWorkerPool_def)
qed (rule pool_step_inv)



section \<open>Starving\<close>

text \<open>A run of the pool on copies of one task, which fails: its database does not answer.\<close>

datatype pool_act = Push | Take | Finish | Adjust

definition job :: sync_task where
  "job = batch_task [ms_example] Map.empty 0"

definition no_database :: sync_env where
  "no_database = sync_example\<lparr>sy_conn := (\<lambda>_. healthy\<lparr>c_stmt := (\<lambda>_. False)\<rparr>)\<rparr>"

fun act :: "pool_act \<Rightarrow> worker_pool \<Rightarrow> worker_pool option" where
  "act Push wp = (if length (wp_queue wp) < queue_capacity then PushTask job wp else None)"
| "act Take wp =
     (case wp_queue wp of
        [] \<Rightarrow> None
      | t # ts \<Rightarrow> if int (length (wp_busy wp)) < wp_workers wp then Some (worker_takes t ts wp) else None)"
| "act Finish wp = (if job \<in> set (wp_busy wp) then Some (task_done False job wp) else None)"
| "act Adjust wp = Some (adjustWorkerCount wp)"

fun acts :: "pool_act list \<Rightarrow> worker_pool \<Rightarrow> worker_pool option" where
  "acts [] wp = Some wp"
| "acts (a # as) wp = (case act a wp of None \<Rightarrow> None | Some wp' \<Rightarrow> acts as wp')"

lemma job_type [simp]: "tk_type job = ''batch''"
  by (simp add: job_def batch_task_def)

lemma job_fails: "processTask (\<lambda>_. no_database) (\<lambda>_. False) job (wp, st) = (task_done False job wp, st)"
proof -
  have "SyncSingleProduct no_database mp st = (Inl DbError, st)" for mp
    by (simp add: SyncSingleProduct_def no_database_def product_GetByMoyskladID_def healthy_def)
  then show ?thesis by (simp add: processTask_def job_def batch_task_def batchSize_def)
qed

lemma act_step: "act a wp = Some wp' \<Longrightarrow> pool_step (wp, st) (wp', st)"
proof (cases a)
  case Finish
  moreover assume "act a wp = Some wp'"
  ultimately have "job \<in> set (wp_busy wp)" "wp' = task_done False job wp" by (auto split: if_splits)
  with pool_step.finish [of job wp st "\<lambda>_. no_database" "\<lambda>_. False"] show ?thesis by (simp add: job_fails)
qed (auto intro!: pool_step.push pool_step.takes pool_step.adjust split: if_splits list.splits)

lemma acts_reachable: "pool_reachable n (wp, st) \<Longrightarrow> acts as wp = Some wp' \<Longrightarrow> pool_reachable n (wp', st)"
  by (induction as arbitrary: wp) (auto split: option.splits intro: pool_next act_step)

text \<open>
  With two workers busy and fewer than five tasks left, every tick of the manager asks for one
  worker to stop, whether or not the request before was taken.
\<close>

definition starving_run :: "pool_act list" where
  "starving_run = replicate 11 Push @ [Adjust, Take, Take] @ concat (replicate 7 [Finish, Take]) @ [Adjust, Adjust] @
     concat (replicate 2 [Finish, Take]) @ [Finish, Finish, Take, Take, Push]"

lemma starving_run_result:
  "\<exists>wp. acts starving_run (StartPool (NewSyncWorkerPool 2)) = Some wp \<and> wp_workers wp = 0 \<and>
     wp_queue wp = [job] \<and> wp_queued wp = 1"
  by (simp add: starving_run_def StartPool_def NewSyncWorkerPool_def startWorker_def stopWorker_def
    adjustWorkerCount_def queue_capacity_def PushTask_def worker_takes_def task_done_def numeral_eq_Suc Let_def)

lemma no_worker_stuck:
  assumes "pool_inv n wp" "wp_workers wp = 0" "wp_queued wp \<le> 10" "pool_step (wp, st) s'"
  shows "s' = (wp, st) \<or> (\<exists>t wp'. PushTask t wp = Some wp' \<and> s' = (wp', st))"
  using assms(4)
proof (cases rule: pool_step.cases)
  case takes
  with assms(2) show ?thesis by simp
next
  case (finish t env expired)
  with assms(1,2) show ?thesis by (auto simp: pool_inv_def)
next
  case adjust
  moreover have "wp_active wp = 0" using assms(1,2) by (simp add: pool_inv_def)
  ultimately show ?thesis using assms(2,3) by (simp add: adjustWorkerCount_def Let_def)
qed auto

text \<open>
  C27. A pool of two workers can come to have none, with a task in its queue: the manager asks for
  more stops than there are workers to spare. From then on no task is done and no worker is started:
  nothing but a push changes the pool, until more than ten tasks are queued.
\<close>

theorem pool_starves:
  "(\<exists>wp. pool_reachable 2 (wp, st) \<and> wp_workers wp = 0 \<and> wp_queue wp = [job] \<and> wp_queued wp = 1) \<and>
   (pool_reachable n (wp, st') \<and> wp_workers wp = 0 \<and> wp_queued wp \<le> 10 \<and> pool_step (wp, st') s' \<longrightarrow>
      s' = (wp, st') \<or> (\<exists>t wp'. PushTask t wp = Some wp' \<and> s' = (wp', st')))"
proof (intro conjI impI)
  from starving_run_result obtain wp where run: "acts starving_run (StartPool (NewSyncWorkerPool 2)) = Some wp"
    "wp_workers wp = 0" "wp_queue wp = [job]" "wp_queued wp = 1" by blast
  have "pool_reachable 2 (wp, st)" by (rule acts_reachable [OF pool_start run(1)])
  with run(2-) show "\<exists>wp. pool_reachable 2 (wp, st) \<and> wp_workers wp = 0 \<and> wp_queue wp = [job] \<and> wp_queued wp = 1"
    by blast
next
  assume "pool_reachable n (wp, st') \<and> wp_workers wp = 0 \<and> wp_queued wp \<le> 10 \<and> pool_step (wp, st') s'"
  then show "s' = (wp, st') \<or> (\<exists>t wp'. PushTask t wp = Some wp' \<and> s' = (wp', st'))"
    using no_worker_stuck pool_reachable_inv [of n "(wp, st')"] by auto
qed

theorem pool_starves_witness:
  "\<exists>wp. pool_reachable 2 (wp, sync_start) \<and> wp_workers wp = 0 \<and> wp_queue wp \<noteq> [] \<and>
    pool_step (wp, sync_start) (wp, sync_start)"
proof -
  from conjunct1 [OF pool_starves [of sync_start 2 _ sync_start "(_, sync_start)"]]
  obtain wp where wp: "pool_reachable 2 (wp, sync_start)" "wp_workers wp = 0" "wp_queue wp = [job]" "wp_queued wp = 1"
    by blast
  have step: "pool_step (wp, sync_start) (adjustWorkerCount wp, sync_start)" by (rule adjust)
  have "(adjustWorkerCount wp, sync_start) = (wp, sync_start) \<or>
      (\<exists>t wp'. PushTask t wp = Some wp' \<and> (adjustWorkerCount wp, sync_start) = (wp', sync_start))"
    using conjunct2 [OF pool_starves [of sync_start 2 wp sync_start "(adjustWorkerCount wp, sync_start)"]] wp step
    by simp
  moreover have "wp_queued (adjustWorkerCount wp) = 1"
    using wp pool_reachable_inv [OF wp(1)]
    by (simp add: adjustWorkerCount_def pool_inv_def Let_def stopWorker_def)
  moreover have "wp_queued wp' = 2" if "PushTask t wp = Some wp'" for t wp'
    using that wp(4) by (auto simp: PushTask_def split: if_splits)
  ultimately have "adjustWorkerCount wp = wp" by fastforce
  then show ?thesis using wp step by auto
qed

section \<open>All products, in batches\<close>

lemma concat_batches: "concat (map tk_products (batch_tasks ps report)) = ps"
proof -
  have "concat (map (\<lambda>j. take batchSize (drop (j * batchSize) ps)) [0..<n]) = take (n * batchSize) ps" for n
    by (induction n) (simp_all add: take_add add.commute [of batchSize])
  moreover have "length ps \<le> (length ps + batchSize - 1) div batchSize * batchSize"
    unfolding batchSize_def by simp
  ultimately show ?thesis by (simp add: batch_tasks_def batch_task_def comp_def)
qed

lemma process_products_fold:
  "process_products (\<lambda>_. env) (\<lambda>_. False) i report mps success st =
    (success \<and> fst (process_products (\<lambda>_. env) (\<lambda>_. False) 0 report mps True st),
     foldl (\<lambda>st mp. snd (SyncSingleProduct env (with_stock report mp) st)) st mps)"
proof (induction mps arbitrary: i success st)
  case (Cons mp mps)
  obtain r st1 where one: "SyncSingleProduct env (with_stock report mp) st = (r, st1)" by fastforce
  show ?case
    using Cons.IH [of "Suc i" "success \<and> is_ok r" st1] Cons.IH [of "Suc 0" "is_ok r" st1] one
    by (auto simp: Let_def)
qed simp

definition run_task :: "sync_env \<Rightarrow> sync_state \<Rightarrow> sync_task \<Rightarrow> sync_state" where
  "run_task env st t = snd (process_products (\<lambda>_. env) (\<lambda>_. False) 0 (tk_stock t) (tk_products t) True st)"

lemma foldl_concat_map: "foldl f a (concat xss) = foldl (foldl f) a xss"
  by (induction xss arbitrary: a) simp_all

lemma foldl_cong_map: "(\<And>a x. x \<in> set xs \<Longrightarrow> f a x = g a (h x)) \<Longrightarrow> foldl f a xs = foldl g a (map h xs)"
  by (induction xs arbitrary: a) simp_all

text \<open>
  C28. A full synchronisation pushes tasks whose products, one task after the other, are the list of
  Moysklad, nothing lost and nothing twice; each has between one and twenty; and doing the tasks in
  this order comes to saving every product, in order, with its stock of the report, zero if it is not
  there.
\<close>

theorem full_sync_batches:
  assumes "FullSync True True env (Inr report) st = (Inr tasks, st1)" "products_for_sync env None = Inr ps"
  shows "concat (map tk_products tasks) = ps \<and>
    list_all (\<lambda>t. 1 \<le> length (tk_products t) \<and> length (tk_products t) \<le> 20 \<and> tk_total t = length tasks) tasks \<and>
    st1 = RefreshCategories env st \<and>
    foldl (run_task env) st1 tasks =
      foldl (\<lambda>st mp. snd (SyncSingleProduct env (with_stock (Some report) mp) st)) st1 ps"
proof -
  have tasks: "tasks = batch_tasks ps report" "st1 = RefreshCategories env st"
    using assms by (simp_all add: FullSync_def Let_def)
  have "j * 20 < length ps" if "j < (length ps + 19) div 20" for j using that by linarith
  then have "list_all (\<lambda>t. 1 \<le> length (tk_products t) \<and> length (tk_products t) \<le> 20 \<and> tk_total t = length tasks) tasks"
    by (auto simp: tasks(1) batch_tasks_def batch_task_def batchSize_def list_all_iff Suc_le_eq)
  moreover have "foldl (run_task env) st1 tasks =
      foldl (\<lambda>st mp. snd (SyncSingleProduct env (with_stock (Some report) mp) st)) st1 (concat (map tk_products tasks))"
    unfolding foldl_concat_map
  proof (rule foldl_cong_map)
    fix a t assume "t \<in> set tasks"
    then have "tk_stock t = Some report" by (auto simp: tasks(1) batch_tasks_def batch_task_def)
    then show "run_task env a t =
        foldl (\<lambda>st mp. snd (SyncSingleProduct env (with_stock (Some report) mp) st)) a (tk_products t)"
      unfolding run_task_def by (subst process_products_fold) simp
  qed
  ultimately show ?thesis using concat_batches [of ps report] by (simp add: tasks)
qed

theorem full_sync_batches_witness:
  "\<exists>tasks. fst (FullSync True True sync_example (Inr [''a'' \<mapsto> 7 / 2]) sync_start) = Inr tasks \<and>
    concat (map tk_products tasks) = [ms_example]"
proof -
  have ps: "products_for_sync sync_example None = Inr [ms_example]" by (simp add: products_for_sync_def)
  have full: "FullSync True True sync_example (Inr [''a'' \<mapsto> 7 / 2]) sync_start =
      (Inr (batch_tasks [ms_example] [''a'' \<mapsto> 7 / 2]), RefreshCategories sync_example sync_start)"
    by (simp add: FullSync_def Let_def ps)
  from full_sync_batches [OF full ps] full show ?thesis by simp
qed

section \<open>The daily schedule\<close>

text \<open>\<open>fmt.Sscanf\<close> with \<open>%d\<close>: blanks, a sign, digits; the variable keeps its zero if there is no number.\<close>

definition scan_number :: "string \<Rightarrow> int" where
  "scan_number s =
     (let t = dropWhile is_space s;
          neg = (t \<noteq> [] \<and> hd t = CHR ''-'');
          digits = takeWhile is_digit (if t \<noteq> [] \<and> hd t \<in> {CHR ''-'', CHR ''+''} then tl t else t);
          v = foldl (\<lambda>n ch. 10 * n + of_char ch - 48) 0 digits
      in if neg then - v else v)"

definition nextTimeOfDay :: "duration \<Rightarrow> time \<Rightarrow> string \<Rightarrow> time" where
  "nextTimeOfDay loc start timeStr =
     (let hh = scan_number (takeWhile (\<lambda>ch. ch \<noteq> CHR '':'') timeStr);
          mm = scan_number (tl (dropWhile (\<lambda>ch. ch \<noteq> CHR '':'') timeStr));
          t = date_in loc (civil_day loc start) (hh * hour + mm * minute)
      in if t > start then t else t + day)"

lemma civil_day_span: "civil_day loc t * day \<le> t + loc" "t + loc < civil_day loc t * day + day"
  using div_mult_mod_eq [of "t + loc" day] pos_mod_bound [of day "t + loc"] pos_mod_sign [of day "t + loc"]
  unfolding civil_day_def by linarith+

text \<open>
  The next run is after now and at most a day ahead, and at the time of day that was asked for, when
  that is one.
\<close>

theorem next_run_within_a_day:
  assumes "clock = scan_number (takeWhile (\<lambda>ch. ch \<noteq> CHR '':'') s) * hour +
      scan_number (tl (dropWhile (\<lambda>ch. ch \<noteq> CHR '':'') s)) * minute"
    and "0 \<le> clock" "clock < day"
  shows "start < nextTimeOfDay loc start s \<and> nextTimeOfDay loc start s \<le> start + day \<and>
    (nextTimeOfDay loc start s + loc) mod day = clock"
proof -
  let ?t = "date_in loc (civil_day loc start) clock"
  have t: "?t + loc = civil_day loc start * day + clock" by (simp add: date_in_def)
  have nx: "nextTimeOfDay loc start s = (if ?t > start then ?t else ?t + day)"
    by (simp add: nextTimeOfDay_def Let_def assms(1))
  have at: "(clock + k * day) mod day = clock" for k using assms(2,3) by simp
  have "(?t + loc) mod day = clock" "(?t + day + loc) mod day = clock"
    using assms(2,3) at [of "civil_day loc start"] at [of "civil_day loc start + 1"]
    unfolding date_in_def by (simp_all add: algebra_simps)
  then show ?thesis using civil_day_span [where loc = loc and t = start] t assms(2,3) unfolding nx by (auto split: if_splits)
qed

end
