(* ===== verification/SyncRequests.thy ===== *)
theory SyncRequests
  imports SyncWorker
begin

text \<open>
  internal/handlers/moysklad_sync.go, and which synchronisations of the products can run at the same time:
  those of the scheduler (the periodic delta and the full one, which share the flag \<open>syncRunning\<close>), those
  the staff asks for (a full one at a time, by the flag \<open>fullSyncRunning\<close>, deltas without a flag), and the
  batches that a full one of the scheduler leaves to the pool when it returns.
\<close>

section \<open>Requests\<close>

definition handle_SyncProducts :: "sync_env \<Rightarrow> sync_state \<Rightarrow> (int \<times> sync_result option) \<times> sync_state" where
  "handle_SyncProducts env st =
     (case SyncProductsDelta env st of
        (Inl e, st') \<Rightarrow> ((500, None), st')
      | (Inr res, st') \<Rightarrow> ((200, Some res), st'))"

text \<open>The status, the flag, and whether a run is started in the background.\<close>

definition handle_SyncProductsFull :: "bool \<Rightarrow> int \<times> bool \<times> bool" where
  "handle_SyncProductsFull fullSyncRunning = (if fullSyncRunning then (409, True, False) else (202, True, True))"

section \<open>Runs side by side\<close>

record sync_runs =
  sr_syncRunning :: bool
  sr_scheduled :: nat
  sr_batches :: nat
  sr_fullSyncRunning :: bool
  sr_full :: nat
  sr_delta :: nat

definition no_runs :: sync_runs where
  "no_runs = \<lparr>sr_syncRunning = False, sr_scheduled = 0, sr_batches = 0, sr_fullSyncRunning = False, sr_full = 0, sr_delta = 0\<rparr>"

text \<open>
  A run of the scheduler takes its flag or does not begin; a full one ends when its batches are queued,
  and puts the flag back.
\<close>

inductive run_step :: "sync_runs \<Rightarrow> sync_runs \<Rightarrow> bool" where
  scheduled_begins: "\<not> sr_syncRunning s \<Longrightarrow> run_step s (s\<lparr>sr_syncRunning := True, sr_scheduled := sr_scheduled s + 1\<rparr>)"
| delta_ends: "0 < sr_scheduled s \<Longrightarrow> run_step s (s\<lparr>sr_syncRunning := False, sr_scheduled := sr_scheduled s - 1\<rparr>)"
| full_queued: "0 < sr_scheduled s \<Longrightarrow>
    run_step s (s\<lparr>sr_syncRunning := False, sr_scheduled := sr_scheduled s - 1, sr_batches := sr_batches s + n\<rparr>)"
| batch_done: "0 < sr_batches s \<Longrightarrow> run_step s (s\<lparr>sr_batches := sr_batches s - 1\<rparr>)"
| full_asked: "handle_SyncProductsFull (sr_fullSyncRunning s) = (status, flag, begins) \<Longrightarrow>
    run_step s (s\<lparr>sr_fullSyncRunning := flag, sr_full := sr_full s + of_bool begins\<rparr>)"
| asked_full_ends: "0 < sr_full s \<Longrightarrow> run_step s (s\<lparr>sr_fullSyncRunning := False, sr_full := sr_full s - 1\<rparr>)"
| delta_asked: "run_step s (s\<lparr>sr_delta := sr_delta s + 1\<rparr>)"
| asked_delta_ends: "0 < sr_delta s \<Longrightarrow> run_step s (s\<lparr>sr_delta := sr_delta s - 1\<rparr>)"

definition runs_inv :: "sync_runs \<Rightarrow> bool" where
  "runs_inv s = (sr_scheduled s = of_bool (sr_syncRunning s) \<and> sr_full s = of_bool (sr_fullSyncRunning s))"

lemma run_step_inv: "run_step s s' \<Longrightarrow> runs_inv s \<Longrightarrow> runs_inv s'"
  by (induction rule: run_step.induct) (auto simp: runs_inv_def handle_SyncProductsFull_def split: if_splits)

lemma runs_reachable_inv: "run_step\<^sup>*\<^sup>* no_runs s \<Longrightarrow> runs_inv s"
  by (induction rule: rtranclp_induct) (auto simp: run_step_inv, simp add: runs_inv_def no_runs_def)

lemma overlap_reachable:
  "run_step\<^sup>*\<^sup>* no_runs \<lparr>sr_syncRunning = True, sr_scheduled = 1, sr_batches = n, sr_fullSyncRunning = True, sr_full = 1, sr_delta = 1\<rparr>"
proof -
  let ?s1 = "no_runs\<lparr>sr_syncRunning := True, sr_scheduled := 1\<rparr>"
  let ?s2 = "no_runs\<lparr>sr_batches := n\<rparr>"
  let ?s3 = "?s2\<lparr>sr_syncRunning := True, sr_scheduled := 1\<rparr>"
  let ?s4 = "?s3\<lparr>sr_fullSyncRunning := True, sr_full := 1\<rparr>"
  have "run_step no_runs ?s1" using scheduled_begins [of no_runs] by (simp add: no_runs_def)
  also have "run_step\<^sup>*\<^sup>* ?s1 ?s2" using full_queued [of ?s1 n] by (intro r_into_rtranclp) (simp add: no_runs_def)
  also have "run_step ?s2 ?s3" using scheduled_begins [of ?s2] by (simp add: no_runs_def)
  also have "run_step ?s3 ?s4"
    using full_asked [of ?s3 202 True True] by (simp add: no_runs_def handle_SyncProductsFull_def)
  also have "run_step ?s4 (?s4\<lparr>sr_delta := 1\<rparr>)" using delta_asked [of ?s4] by (simp add: no_runs_def)
  finally show ?thesis by (simp add: no_runs_def)
qed



end
