(* ===== verification/Migrations.thy ===== *)
theory Migrations
  imports Text "HOL-Library.List_Lexorder" "HOL-Library.Char_ord"
begin

text \<open>
  internal/db/migrate.go: the migrations of the schema. The database is an argument: \<open>exec\<close> gives its
  state after a statement, or nothing when it refuses it. What is in the directory is given: entries
  with their names, whether they are directories and their content, if it can be read. A record of
  the connection says which parts of a call go through.
\<close>

section \<open>Splitting a script\<close>

definition newline :: char where "newline = CHR 0x0A"

text \<open>The state of the scan: inside a dollar string, and its tag.\<close>

definition dollar_opens :: "string \<Rightarrow> bool \<times> string" where
  "dollar_opens trimmed =
     (case find_sub ''$'' trimmed of
        None \<Rightarrow> (False, [])
      | Some idx \<Rightarrow>
          let rest = drop idx trimmed in
          if prefix ''$$'' rest then
            (case find_sub ''$$'' (drop 2 rest) of Some e \<Rightarrow> (False, []) | None \<Rightarrow> (True, ''$$''))
          else (case find_sub ''$'' (drop 1 rest) of
              Some e \<Rightarrow> (True, take (e + 2) rest)
            | None \<Rightarrow> (False, [])))"

definition dollar_next :: "bool \<times> string \<Rightarrow> string \<Rightarrow> bool \<times> string" where
  "dollar_next q trimmed =
     (if \<not> fst q then dollar_opens trimmed
      else if sublist (snd q) trimmed then (False, []) else q)"

definition comment_line :: "string \<Rightarrow> bool" where
  "comment_line trimmed = (prefix ''--'' trimmed \<or> prefix ''/*'' trimmed)"

fun split_lines :: "string list \<Rightarrow> string list \<Rightarrow> string \<Rightarrow> bool \<times> string \<Rightarrow> string list" where
  "split_lines [] statements current q = (if current \<noteq> [] then statements @ [current] else statements)"
| "split_lines (line # ls) statements current q =
     (let trimmed = TrimSpace line in
      if \<not> fst q \<and> comment_line trimmed then split_lines ls statements current q
      else
        let current' = current @ line @ [newline]; q' = dollar_next q trimmed
        in if \<not> fst q' \<and> suffix '';'' trimmed then split_lines ls (statements @ [current']) [] q'
           else split_lines ls statements current' q')"

definition splitStatements :: "string \<Rightarrow> string list" where
  "splitStatements content = split_lines (split_on newline content) [] [] (False, [])"

section \<open>Running migrations\<close>

record 'd migrated =
  mg_db :: 'd
  mg_applied :: "string list"

record migrate_conn =
  mc_table :: bool
  mc_list :: bool
  mc_dir :: bool
  mc_begin :: "string \<Rightarrow> bool"
  mc_record :: "string \<Rightarrow> bool"
  mc_commit :: "string \<Rightarrow> bool"

record migration_file =
  mf_filename :: string
  mf_is_dir :: bool
  mf_content :: "string option"

fun run_statements :: "(string \<Rightarrow> 'd \<Rightarrow> 'd option) \<Rightarrow> string list \<Rightarrow> 'd \<Rightarrow> 'd option" where
  "run_statements exec [] d = Some d"
| "run_statements exec (stmt # stmts) d =
     (if TrimSpace stmt = [] then run_statements exec stmts d
      else case exec (TrimSpace stmt) d of
        None \<Rightarrow> None
      | Some d' \<Rightarrow> run_statements exec stmts d')"

text \<open>One transaction; the file name is unique in schema_migrations.\<close>

definition runMigration ::
  "migrate_conn \<Rightarrow> (string \<Rightarrow> 'd \<Rightarrow> 'd option) \<Rightarrow> string \<Rightarrow> string \<Rightarrow> 'd migrated \<Rightarrow> unit result \<times> 'd migrated" where
  "runMigration c exec filename content s =
     run_tx (mc_begin c filename) (mc_commit c filename) (\<lambda>s.
       case run_statements exec (splitStatements content) (mg_db s) of
         None \<Rightarrow> Inl DbError
       | Some d \<Rightarrow>
           if mc_record c filename \<and> filename \<notin> set (mg_applied s)
           then Inr ((), s\<lparr>mg_db := d, mg_applied := mg_applied s @ [filename]\<rparr>)
           else Inl DbError) s"

definition is_migration :: "migration_file \<Rightarrow> bool" where
  "is_migration f = (\<not> mf_is_dir f \<and> suffix ''.sql'' (mf_filename f))"

fun apply_files ::
  "migrate_conn \<Rightarrow> (string \<Rightarrow> 'd \<Rightarrow> 'd option) \<Rightarrow> string list \<Rightarrow> migration_file list \<Rightarrow> 'd migrated
    \<Rightarrow> unit result \<times> 'd migrated" where
  "apply_files c exec applied [] s = (Inr (), s)"
| "apply_files c exec applied (f # fs) s =
     (if \<not> is_migration f \<or> mf_filename f \<in> set applied then apply_files c exec applied fs s
      else case mf_content f of
        None \<Rightarrow> (Inl (Rejected ''failed to read migration''), s)
      | Some content \<Rightarrow>
          (case runMigration c exec (mf_filename f) content s of
             (Inl e, s') \<Rightarrow> (Inl e, s')
           | (Inr _, s') \<Rightarrow> apply_files c exec applied fs s'))"

definition RunMigrations ::
  "migrate_conn \<Rightarrow> (string \<Rightarrow> 'd \<Rightarrow> 'd option) \<Rightarrow> migration_file list \<Rightarrow> 'd migrated \<Rightarrow> unit result \<times> 'd migrated" where
  "RunMigrations c exec files s =
     (if \<not> mc_table c \<or> \<not> mc_list c then (Inl DbError, s)
      else if \<not> mc_dir c then (Inl (Rejected ''failed to read migrations dir''), s)
      else apply_files c exec (mg_applied s) (sort_key mf_filename files) s)"

section \<open>Splitting loses nothing\<close>

fun kept_lines :: "string list \<Rightarrow> bool \<times> string \<Rightarrow> string list" where
  "kept_lines [] q = []"
| "kept_lines (line # ls) q =
     (if \<not> fst q \<and> comment_line (TrimSpace line) then kept_lines ls q
      else line # kept_lines ls (dollar_next q (TrimSpace line)))"

lemma split_lines_concat:
  "concat (split_lines ls statements current q) =
    concat statements @ current @ concat (map (\<lambda>l. l @ [newline]) (kept_lines ls q))"
  by (induction ls statements current q rule: split_lines.induct) (auto simp: Let_def)

text \<open>
  The statements of a script are its lines, in order, without those that are comments outside of
  dollar strings.
\<close>

theorem split_keeps_lines:
  "concat (splitStatements content) =
    concat (map (\<lambda>l. l @ [newline]) (kept_lines (split_on newline content) (False, [])))"
  by (simp add: splitStatements_def split_lines_concat)

section \<open>Each migration once, in order\<close>

definition pending :: "migration_file list \<Rightarrow> string list \<Rightarrow> migration_file list" where
  "pending files applied =
     filter (\<lambda>f. is_migration f \<and> mf_filename f \<notin> set applied) (sort_key mf_filename files)"

text \<open>The state after some migrations, had each gone through.\<close>

fun after_files :: "(string \<Rightarrow> 'd \<Rightarrow> 'd option) \<Rightarrow> migration_file list \<Rightarrow> 'd migrated \<Rightarrow> 'd migrated option" where
  "after_files exec [] s = Some s"
| "after_files exec (f # fs) s =
     (case mf_content f of
        None \<Rightarrow> None
      | Some content \<Rightarrow>
          (case run_statements exec (splitStatements content) (mg_db s) of
             None \<Rightarrow> None
           | Some d \<Rightarrow> after_files exec fs (s\<lparr>mg_db := d, mg_applied := mg_applied s @ [mf_filename f]\<rparr>)))"

lemma after_files_applied:
  "after_files exec fs s = Some s' \<Longrightarrow> mg_applied s' = mg_applied s @ map mf_filename fs"
  by (induction fs arbitrary: s) (auto split: option.splits)

lemma run_tx_cases:
  "run_tx b m body s = (r, s') \<Longrightarrow> (\<exists>x. r = Inr x \<and> body s = Inr (x, s')) \<or> (\<exists>e. r = Inl e \<and> s' = s)"
  by (auto simp: run_tx_def split: if_splits sum.splits prod.splits)

lemma runMigration_cases:
  "runMigration c exec name content s = (r, s') \<Longrightarrow>
    (\<exists>d. r = Inr () \<and> run_statements exec (splitStatements content) (mg_db s) = Some d \<and>
       s' = s\<lparr>mg_db := d, mg_applied := mg_applied s @ [name]\<rparr>) \<or> (\<exists>e. r = Inl e \<and> s' = s)"
  unfolding runMigration_def by (drule run_tx_cases) (auto split: option.splits if_splits)

lemma apply_files_prefix:
  assumes "apply_files c exec applied files s = (r, s')"
  shows "\<exists>k. after_files exec (take k (filter (\<lambda>f. is_migration f \<and> mf_filename f \<notin> set applied) files)) s = Some s' \<and>
    (is_ok r \<longrightarrow> length (filter (\<lambda>f. is_migration f \<and> mf_filename f \<notin> set applied) files) \<le> k)"
  using assms
proof (induction files arbitrary: s)
  case Nil
  then show ?case by auto
next
  case (Cons f files)
  show ?case
  proof (cases "is_migration f \<and> mf_filename f \<notin> set applied")
    case False
    then have "apply_files c exec applied files s = (r, s')" using Cons.prems by auto
    from Cons.IH [OF this] False show ?thesis by auto
  next
    case todo: True
    show ?thesis
    proof (cases "mf_content f")
      case None
      then show ?thesis using Cons.prems todo by (intro exI [of _ 0]) auto
    next
      case (Some content)
      obtain r1 s1 where run: "runMigration c exec (mf_filename f) content s = (r1, s1)" by fastforce
      from runMigration_cases [OF run] show ?thesis
      proof (elim disjE exE conjE)
        fix d assume "r1 = Inr ()" and d: "run_statements exec (splitStatements content) (mg_db s) = Some d"
          and s1: "s1 = s\<lparr>mg_db := d, mg_applied := mg_applied s @ [mf_filename f]\<rparr>"
        then have "apply_files c exec applied files s1 = (r, s')" using Cons.prems todo Some run by simp
        from Cons.IH [OF this] obtain k where
          "after_files exec (take k (filter (\<lambda>f. is_migration f \<and> mf_filename f \<notin> set applied) files)) s1 = Some s'"
          "is_ok r \<longrightarrow> length (filter (\<lambda>f. is_migration f \<and> mf_filename f \<notin> set applied) files) \<le> k" by blast
        then show ?thesis using todo Some d s1 by (intro exI [of _ "Suc k"]) simp
      next
        fix e assume "r1 = Inl e" "s1 = s"
        then show ?thesis using Cons.prems todo Some run by (intro exI [of _ 0]) auto
      qed
    qed
  qed
qed

lemma nothing_pending:
  "\<forall>f \<in> set files. is_migration f \<longrightarrow> mf_filename f \<in> set applied \<Longrightarrow> apply_files c exec applied files s = (Inr (), s)"
  by (induction files) auto

text \<open>
  C29. A run of the migrations applies the files that were not applied yet, in the order of their
  names, up to the first that fails; each takes effect as a whole with its entry in the history, the
  one that fails not at all. If the run succeeds all are applied, and the next run changes nothing,
  if what it asks the database for goes through.
\<close>

theorem migrations_once_in_order:
  assumes "RunMigrations c exec files s = (r, s')"
  shows "(\<exists>k. after_files exec (take k (pending files (mg_applied s))) s = Some s' \<and>
      mg_applied s' = mg_applied s @ map mf_filename (take k (pending files (mg_applied s))) \<and>
      (is_ok r \<longrightarrow> length (pending files (mg_applied s)) \<le> k)) \<and>
    (is_ok r \<and> mc_table c' \<and> mc_list c' \<and> mc_dir c' \<longrightarrow> RunMigrations c' exec' files s' = (Inr (), s'))"
proof -
  have first: "\<exists>k. after_files exec (take k (pending files (mg_applied s))) s = Some s' \<and>
      (is_ok r \<longrightarrow> length (pending files (mg_applied s)) \<le> k)"
  proof (cases "mc_table c \<and> mc_list c \<and> mc_dir c")
    case True
    then have "apply_files c exec (mg_applied s) (sort_key mf_filename files) s = (r, s')"
      using assms by (simp add: RunMigrations_def)
    from apply_files_prefix [OF this] show ?thesis by (simp add: pending_def)
  next
    case False
    then show ?thesis using assms by (intro exI [of _ 0]) (auto simp: RunMigrations_def split: if_splits)
  qed
  then obtain k where k: "after_files exec (take k (pending files (mg_applied s))) s = Some s'"
      "is_ok r \<longrightarrow> length (pending files (mg_applied s)) \<le> k" by blast
  note applied = after_files_applied [OF k(1)]
  have "RunMigrations c' exec' files s' = (Inr (), s')" if ok: "is_ok r" and c': "mc_table c'" "mc_list c'" "mc_dir c'"
  proof -
    have "mg_applied s' = mg_applied s @ map mf_filename (pending files (mg_applied s))"
      using applied k(2) ok by simp
    then have "\<forall>f \<in> set (sort_key mf_filename files). is_migration f \<longrightarrow> mf_filename f \<in> set (mg_applied s')"
      by (auto simp: pending_def)
    then show ?thesis using c' by (simp add: RunMigrations_def nothing_pending)
  qed
  then show ?thesis using k applied by blast
qed

text \<open>Two files out of order; the statements are counted by their length.\<close>

definition migrate_healthy :: migrate_conn where
  "migrate_healthy = \<lparr>mc_table = True, mc_list = True, mc_dir = True, mc_begin = (\<lambda>_. True),
     mc_record = (\<lambda>_. True), mc_commit = (\<lambda>_. True)\<rparr>"

theorem migrations_once_in_order_witness:
  "\<exists>r s'. RunMigrations migrate_healthy (\<lambda>stmt d. if stmt = ''x;'' then None else Some (stmt # d))
      [\<lparr>mf_filename = ''2.sql'', mf_is_dir = False, mf_content = Some ''x;''\<rparr>,
       \<lparr>mf_filename = ''1.sql'', mf_is_dir = False, mf_content = Some ''a;''\<rparr>]
      \<lparr>mg_db = [], mg_applied = []\<rparr> = (r, s') \<and> list_all (\<lambda>name. name \<in> {''1.sql'', ''2.sql''}) (mg_applied s')"
proof -
  let ?files = "[\<lparr>mf_filename = ''2.sql'', mf_is_dir = False, mf_content = Some ''x;''\<rparr>,
       \<lparr>mf_filename = ''1.sql'', mf_is_dir = False, mf_content = Some ''a;''\<rparr>]"
  obtain r s' where run: "RunMigrations migrate_healthy (\<lambda>stmt d. if stmt = ''x;'' then None else Some (stmt # d)) ?files
      \<lparr>mg_db = [], mg_applied = []\<rparr> = (r, s')" by fastforce
  from conjunct1 [OF migrations_once_in_order [OF run]] obtain k where
    "mg_applied s' = map mf_filename (take k (pending ?files []))" by auto
  moreover have "set (pending ?files []) \<subseteq> set ?files" unfolding pending_def by auto
  ultimately have "set (mg_applied s') \<subseteq> mf_filename ` set ?files" by (auto dest: in_set_takeD)
  then show ?thesis using run by (auto simp: list_all_iff)
qed

end
