(* ===== verification/StaffQueries.thy ===== *)
theory StaffQueries
  imports Users OrderStore ProductStore "HOL-Library.Multiset"
begin

text \<open>
  internal/db/orders_admin.go and users_admin.go with internal/handlers/admin_orders.go: the lists,
  searches and figures of the staff. Rows with the same sort key come in an order Postgres leaves
  open; the model has them newest row first, or oldest first when ascending. An id of the database is
  a 32-bit integer: the text of a search that is compared with it must be one, or the query fails.
  Averages are exact.
\<close>

section \<open>Lists of orders\<close>

record order_filter =
  of_statuses :: "string list"
  of_user_id :: "id64 option"
  of_date_from :: "time option"
  of_date_to :: "time option"
  of_pickup_from :: "time option"
  of_pickup_to :: "time option"
  of_search :: string
  of_limit :: int
  of_offset :: int
  of_sort_by :: string
  of_sort_order :: string

definition no_filter :: order_filter where
  "no_filter = \<lparr>of_statuses = [], of_user_id = None, of_date_from = None, of_date_to = None,
     of_pickup_from = None, of_pickup_to = None, of_search = [], of_limit = 0, of_offset = 0,
     of_sort_by = [], of_sort_order = []\<rparr>"

definition onlyDigits :: "string \<Rightarrow> bool" where
  "onlyDigits s = (s \<noteq> [] \<and> list_all is_digit s)"

definition digits_number :: "string \<Rightarrow> int" where
  "digits_number s = foldl (\<lambda>n ch. 10 * n + of_char ch - 48) 0 s"

definition max0 :: "int \<Rightarrow> int" where
  "max0 n = (if n < 0 then 0 else n)"

definition holds_to :: "('a::linorder \<Rightarrow> 'a \<Rightarrow> bool) \<Rightarrow> 'a option \<Rightarrow> 'a option \<Rightarrow> bool" where
  "holds_to rel v bound = (case bound of None \<Rightarrow> True | Some b \<Rightarrow> (case v of None \<Rightarrow> False | Some x \<Rightarrow> rel x b))"

definition search_matches :: "string \<Rightarrow> order \<Rightarrow> bool" where
  "search_matches s ord =
     (s = [] \<or> ILike (search_pattern s) (o_customer_name ord) \<or> ILike (search_pattern s) (o_phone ord) \<or>
      onlyDigits s \<and> o_id ord = digits_number s)"

definition order_matches :: "order_filter \<Rightarrow> order \<Rightarrow> bool" where
  "order_matches f ord =
     ((of_statuses f = [] \<or> o_status ord \<in> set (of_statuses f)) \<and>
      (of_user_id f = None \<or> o_user_id ord = of_user_id f) \<and>
      holds_to (\<ge>) (Some (o_created_at ord)) (of_date_from f) \<and>
      holds_to (\<le>) (Some (o_created_at ord)) (of_date_to f) \<and>
      holds_to (\<ge>) (o_pickup_at ord) (of_pickup_from f) \<and>
      holds_to (<) (o_pickup_at ord) (of_pickup_to f) \<and>
      search_matches (TrimSpace (of_search f)) ord)"

text \<open>The comparison with the id asks for a number of the type of the column.\<close>

definition search_fits :: "order_filter \<Rightarrow> bool" where
  "search_fits f = (onlyDigits (TrimSpace (of_search f)) \<longrightarrow> digits_number (TrimSpace (of_search f)) < 2 ^ 31)"

datatype sort_column = SortCreated | SortTotal | SortReserved | SortPickup

definition orderBySafe :: "string \<Rightarrow> string \<Rightarrow> sort_column \<times> bool" where
  "orderBySafe by_column ord =
     (if by_column = ''total_price'' then SortTotal
      else if by_column = ''reserved_until'' then SortReserved
      else if by_column = ''pickup_at'' then SortPickup
      else SortCreated, ToLower ord = ''asc'')"

fun sort_value :: "sort_column \<Rightarrow> order \<Rightarrow> rat option" where
  "sort_value SortCreated ord = Some (of_int (o_created_at ord))"
| "sort_value SortTotal ord = Some (o_total_price ord)"
| "sort_value SortReserved ord = map_option of_int (o_reserved_until ord)"
| "sort_value SortPickup ord = map_option of_int (o_pickup_at ord)"

text \<open>Null is the largest value in an ORDER BY of Postgres.\<close>

definition sql_order :: "('r \<Rightarrow> rat option) \<Rightarrow> bool \<Rightarrow> 'r list \<Rightarrow> 'r list" where
  "sql_order key asc rows =
     (let some = sort_key (\<lambda>r. the (key r)) (filter (\<lambda>r. key r \<noteq> None) rows);
          none = filter (\<lambda>r. key r = None) rows
      in if asc then some @ none else rev none @ rev some)"

definition list_limit :: "int \<Rightarrow> nat" where
  "list_limit n = nat (if n \<le> 0 then 50 else if n > 500 then 500 else n)"

definition sorted_orders :: "order_filter \<Rightarrow> shop_db \<Rightarrow> order list" where
  "sorted_orders f db =
     (let (col, asc) = orderBySafe (of_sort_by f) (of_sort_order f)
      in sql_order (sort_value col) asc (filter (order_matches f) (orders db)))"

definition ListOrders :: "conn \<Rightarrow> order_filter \<Rightarrow> shop_db \<Rightarrow> (order list \<times> nat) result" where
  "ListOrders c f db =
     (if \<not> c_stmt c 0 \<or> \<not> search_fits f then Inl DbError
      else if \<not> c_stmt c 1 then Inl DbError
      else Inr (page (list_limit (of_limit f)) (nat (max0 (of_offset f))) (sorted_orders f db),
                length (filter (order_matches f) (orders db))))"

section \<open>Figures\<close>

definition in_period :: "time option \<Rightarrow> time option \<Rightarrow> order \<Rightarrow> bool" where
  "in_period t0 t1 ord = (holds_to (\<ge>) (Some (o_created_at ord)) t0 \<and> holds_to (\<le>) (Some (o_created_at ord)) t1)"

definition count_status :: "order list \<Rightarrow> string \<Rightarrow> nat" where
  "count_status os s = length (filter (\<lambda>ord. o_status ord = s) os)"

text \<open>GROUP BY: a status that no order has is not in the map.\<close>

definition StatsByStatus :: "conn \<Rightarrow> time option \<Rightarrow> time option \<Rightarrow> shop_db \<Rightarrow> (string \<times> nat) list result" where
  "StatsByStatus c t0 t1 db =
     (if \<not> c_stmt c 0 then Inl DbError
      else let os = filter (in_period t0 t1) (orders db)
           in Inr (map (\<lambda>s. (s, count_status os s)) (remdups (map o_status os))))"

record revenue_stats =
  rv_revenue :: money
  rv_avg_check :: money
  rv_completed :: nat

definition revenue_of :: "order list \<Rightarrow> revenue_stats" where
  "revenue_of os =
     (let total = sum_list (map o_total_price os)
      in \<lparr>rv_revenue = total, rv_avg_check = (if os = [] then 0 else total / of_nat (length os)),
          rv_completed = length os\<rparr>)"

definition RevenueByPeriod :: "conn \<Rightarrow> time option \<Rightarrow> time option \<Rightarrow> shop_db \<Rightarrow> revenue_stats result" where
  "RevenueByPeriod c t0 t1 db =
     (if \<not> c_stmt c 1 then Inl DbError
      else Inr (revenue_of (filter (\<lambda>ord. o_status ord = ''completed'' \<and> in_period t0 t1 ord) (orders db))))"

record user_order_stats =
  uo_total :: nat
  uo_completed :: nat
  uo_cancelled :: nat
  uo_expired :: nat
  uo_pending :: nat
  uo_revenue :: money
  uo_avg_check :: money
  uo_no_show_rate :: rat

definition GetUserStats :: "conn \<Rightarrow> nat \<Rightarrow> id64 \<Rightarrow> shop_db \<Rightarrow> user_order_stats result" where
  "GetUserStats c k uid db =
     (if \<not> c_stmt c k then Inl DbError
      else
        let os = filter (\<lambda>ord. o_user_id ord = Some uid) (orders db);
            rv = revenue_of (filter (\<lambda>ord. o_status ord = ''completed'') os);
            no_show = count_status os ''expired'' + count_status os ''cancelled''
        in Inr \<lparr>uo_total = length os, uo_completed = count_status os ''completed'',
                uo_cancelled = count_status os ''cancelled'', uo_expired = count_status os ''expired'',
                uo_pending = count_status os ''pending'', uo_revenue = rv_revenue rv,
                uo_avg_check = rv_avg_check rv,
                uo_no_show_rate = (if length os > 0 then of_nat no_show / of_nat (length os) else 0)\<rparr>)"

record top_product =
  tp_product_id :: id64
  tp_name :: string
  tp_order_count :: nat
  tp_qty :: int
  tp_spent :: money

definition bought_lines :: "id64 \<Rightarrow> shop_db \<Rightarrow> order_item list" where
  "bought_lines uid db =
     filter (\<lambda>it. \<exists>ord \<in> set (orders db). o_id ord = oi_order_id it \<and> o_user_id ord = Some uid \<and>
        o_status ord = ''completed'') (order_items db)"

definition top_of :: "shop_db \<Rightarrow> order_item list \<Rightarrow> id64 \<Rightarrow> top_product" where
  "top_of db its pid =
     (let mine = filter (\<lambda>it. oi_product_id it = pid) its
      in \<lparr>tp_product_id = pid,
          tp_name = (case find_product db pid of Some p \<Rightarrow> p_name p | None \<Rightarrow> []),
          tp_order_count = length (remdups (map oi_order_id mine)),
          tp_qty = sum_list (map oi_quantity mine),
          tp_spent = sum_list (map (\<lambda>it. of_int (oi_quantity it) * oi_price it) mine)\<rparr>)"

text \<open>Sorted by the number of orders, then by the money spent, both descending.\<close>

definition GetUserTopProducts :: "conn \<Rightarrow> nat \<Rightarrow> id64 \<Rightarrow> int \<Rightarrow> shop_db \<Rightarrow> top_product list result" where
  "GetUserTopProducts c k uid limit db =
     (if \<not> c_stmt c k then Inl DbError
      else
        let its = bought_lines uid db;
            rows = map (top_of db its) (remdups (map oi_product_id its));
            lim = (if limit \<le> 0 \<or> limit > 50 then 10 else limit)
        in Inr (take (nat lim) (rev (sort_key tp_order_count (sort_key tp_spent rows)))))"

definition GetItemsByOrderID :: "conn \<Rightarrow> nat \<Rightarrow> id64 \<Rightarrow> shop_db \<Rightarrow> order_item list result" where
  "GetItemsByOrderID c k orderID db = getOrderItems c k orderID db"

section \<open>Users\<close>

record user_list_item =
  ul_id :: id64
  ul_username :: string
  ul_email :: string
  ul_full_name :: "string option"
  ul_phone :: "string option"
  ul_email_verified :: bool
  ul_created_at :: "time option"
  ul_orders_count :: nat
  ul_last_order_at :: "time option"

definition text_of :: "string option \<Rightarrow> string" where
  "text_of s = (case s of None \<Rightarrow> [] | Some t \<Rightarrow> t)"

definition user_matches :: "string \<Rightarrow> shop_db \<Rightarrow> user \<Rightarrow> bool" where
  "user_matches q db u =
     (q = [] \<or> ILike (search_pattern q) (us_username u) \<or> ILike (search_pattern q) (us_email u) \<or>
      ILike (search_pattern q) (text_of (us_full_name u)) \<or> ILike (search_pattern q) (text_of (us_phone u)) \<or>
      list_ex (\<lambda>ord. o_user_id ord = Some (us_id u) \<and> ILike (search_pattern q) (o_phone ord)) (orders db))"

definition user_item :: "shop_db \<Rightarrow> user \<Rightarrow> user_list_item" where
  "user_item db u =
     (let os = filter (\<lambda>ord. o_user_id ord = Some (us_id u)) (orders db)
      in \<lparr>ul_id = us_id u, ul_username = us_username u, ul_email = us_email u, ul_full_name = us_full_name u,
          ul_phone = us_phone u, ul_email_verified = us_email_verified u, ul_created_at = us_created_at u,
          ul_orders_count = length os,
          ul_last_order_at = (if os = [] then None else Some (Max (set (map o_created_at os))))\<rparr>)"

definition nulls_last_desc :: "(user \<Rightarrow> time option) \<Rightarrow> user list \<Rightarrow> user list" where
  "nulls_last_desc key us =
     rev (sort_key (\<lambda>u. the (key u)) (filter (\<lambda>u. key u \<noteq> None) us)) @ filter (\<lambda>u. key u = None) us"

definition SearchUsers ::
  "conn \<Rightarrow> string \<Rightarrow> int \<Rightarrow> int \<Rightarrow> shop_db \<Rightarrow> users_db \<Rightarrow> (user_list_item list \<times> nat) result" where
  "SearchUsers c query limit offset db ub =
     (let lim = (if limit \<le> 0 then 50 else if limit > 200 then 200 else limit);
          found = filter (user_matches (TrimSpace query) db) (users ub)
      in if \<not> c_stmt c 0 \<or> \<not> c_stmt c 1 then Inl DbError
         else Inr (page (nat lim) (nat (max0 offset))
                (map (user_item db) (nulls_last_desc us_created_at found)), length found))"

definition FindUserIDByPhone :: "conn \<Rightarrow> string \<Rightarrow> shop_db \<Rightarrow> id64 option result" where
  "FindUserIDByPhone c phone db =
     (let ph = TrimSpace phone in
      if ph = [] then Inr None
      else if \<not> c_stmt c 0 then Inl DbError
      else case newest_first o_created_at (filter (\<lambda>ord. o_phone ord = ph \<and> o_user_id ord \<noteq> None) (orders db)) of
        [] \<Rightarrow> Inr None
      | ord # _ \<Rightarrow> Inr (o_user_id ord))"

text \<open>The digits of a number, from the last, into the end of a buffer.\<close>

fun itoa_digits :: "nat \<Rightarrow> string \<Rightarrow> string" where
  "itoa_digits n buf = (if n = 0 then buf else itoa_digits (n div 10) (digit (n mod 10) # buf))"

declare itoa_digits.simps [simp del]

definition itoa :: "int \<Rightarrow> string" where
  "itoa n =
     (if n = 0 then ''0''
      else let neg = n < 0; buf = itoa_digits (nat (if neg then - n else n)) []
           in if neg then CHR ''-'' # buf else buf)"

section \<open>Handlers\<close>

record stats_answer =
  sa_by_status :: "(string \<times> nat) list"
  sa_total :: nat
  sa_no_show :: nat
  sa_no_show_rate :: rat
  sa_revenue :: money
  sa_avg_check :: money

definition status_count :: "(string \<times> nat) list \<Rightarrow> string \<Rightarrow> nat" where
  "status_count stats s = (case map_of stats s of Some n \<Rightarrow> n | None \<Rightarrow> 0)"

definition handle_Stats :: "conn \<Rightarrow> time option \<Rightarrow> time option \<Rightarrow> shop_db \<Rightarrow> int \<times> stats_answer option" where
  "handle_Stats c t0 t1 db =
     (case StatsByStatus c t0 t1 db of
        Inl e \<Rightarrow> (500, None)
      | Inr stats \<Rightarrow>
          let total = sum_list (map snd stats);
              noShow = status_count stats ''expired'' + status_count stats ''cancelled'';
              revenue = (case RevenueByPeriod c t0 t1 db of Inl e \<Rightarrow> revenue_of [] | Inr rv \<Rightarrow> rv)
          in (200, Some \<lparr>sa_by_status = stats, sa_total = total, sa_no_show = noShow,
                sa_no_show_rate = (if total > 0 then of_nat noShow / of_nat total else 0),
                sa_revenue = rv_revenue revenue, sa_avg_check = rv_avg_check revenue\<rparr>))"

text \<open>
  \<open>ListOrders\<close> of the handler: the parameters of the query, the two dates as \<open>time.Parse\<close> reads them
  (nothing when it cannot).
\<close>

record list_params =
  lp_status :: string
  lp_user_id :: string
  lp_from :: "time option"
  lp_to :: "time option"
  lp_search :: string
  lp_sort :: string
  lp_order :: string
  lp_limit :: string
  lp_offset :: string

definition list_filter :: "list_params \<Rightarrow> order_filter" where
  "list_filter q =
     no_filter\<lparr>of_statuses := (if lp_status q = [] then []
          else filter (\<lambda>v. v \<noteq> []) (map TrimSpace (split_on (CHR '','') (lp_status q)))),
       of_user_id := (case Atoi (lp_user_id q) of Some k \<Rightarrow> if 0 < k then Some k else None | None \<Rightarrow> None),
       of_date_from := lp_from q, of_date_to := lp_to q, of_search := lp_search q, of_sort_by := lp_sort q,
       of_sort_order := lp_order q, of_limit := Atoi_value (lp_limit q), of_offset := Atoi_value (lp_offset q)\<rparr>"

definition handle_ListOrders :: "conn \<Rightarrow> list_params \<Rightarrow> shop_db \<Rightarrow> int \<times> (order list \<times> nat \<times> int \<times> int) option" where
  "handle_ListOrders c q db =
     (let f = list_filter q in
      case ListOrders c f db of
        Inl e \<Rightarrow> (500, None)
      | Inr (found, number) \<Rightarrow> (200, Some (found, number, of_limit f, of_offset f)))"

definition handle_SearchUsers ::
  "conn \<Rightarrow> string \<Rightarrow> string \<Rightarrow> string \<Rightarrow> shop_db \<Rightarrow> users_db \<Rightarrow> int \<times> (user_list_item list \<times> nat) option" where
  "handle_SearchUsers c search limit offset db ub =
     (case SearchUsers c search (Atoi_value limit) (Atoi_value offset) db ub of
        Inl e \<Rightarrow> (500, None)
      | Inr r \<Rightarrow> (200, Some r))"

definition handle_ListToday :: "conn \<Rightarrow> duration \<Rightarrow> time \<Rightarrow> shop_db \<Rightarrow> int \<times> (order list \<times> nat) option" where
  "handle_ListToday c loc now db =
     (let start = (now + loc) div day * day - loc in
      case ListOrders c (no_filter\<lparr>of_statuses := [''pending''], of_pickup_from := Some start,
             of_pickup_to := Some (start + 24 * hour), of_limit := 500, of_sort_by := ''pickup_at'',
             of_sort_order := ''asc''\<rparr>) db of
        Inl e \<Rightarrow> (500, None)
      | Inr r \<Rightarrow> (200, Some r))"

definition handle_Lookup :: "conn \<Rightarrow> string \<Rightarrow> string \<Rightarrow> shop_db \<Rightarrow> int \<times> (order list \<times> nat) option" where
  "handle_Lookup c phone order_id db =
     (let ph = TrimSpace phone; oid = TrimSpace order_id in
      if ph = [] \<and> oid = [] then (400, None)
      else case ListOrders c (no_filter\<lparr>of_limit := 20, of_sort_by := ''created_at'', of_sort_order := ''desc'',
                  of_search := (if oid \<noteq> [] then oid else ph)\<rparr>) db of
        Inl e \<Rightarrow> (500, None)
      | Inr r \<Rightarrow> (200, Some r))"

text \<open>The id of the path as \<open>strconv.ParseInt\<close> gives it; events are left out when they cannot be had.\<close>

definition handle_GetOrderDetails ::
  "conn \<Rightarrow> conn \<Rightarrow> conn option \<Rightarrow> id64 option \<Rightarrow> shop_db
    \<Rightarrow> int \<times> (order \<times> order_item list \<times> order_event list) option" where
  "handle_GetOrderDetails c1 c2 c3 oid db =
     (case oid of
        None \<Rightarrow> (400, None)
      | Some k \<Rightarrow>
          if k \<le> 0 then (400, None)
          else case GetByID c1 k db of
            Inl e \<Rightarrow> (500, None)
          | Inr None \<Rightarrow> (404, None)
          | Inr (Some ord) \<Rightarrow>
              (case GetItemsByOrderID c2 0 k db of
                 Inl e \<Rightarrow> (500, None)
               | Inr its \<Rightarrow>
                   (200, Some (ord, its,
                      case c3 of
                        None \<Rightarrow> []
                      | Some c \<Rightarrow> (case event_ListByOrderID c k db of Inl e \<Rightarrow> [] | Inr evs \<Rightarrow> evs)))))"

definition handle_UserStats ::
  "conn \<Rightarrow> conn \<Rightarrow> id64 option \<Rightarrow> int \<Rightarrow> shop_db \<Rightarrow> users_db
    \<Rightarrow> int \<times> (user \<times> user_order_stats \<times> top_product list) option" where
  "handle_UserStats c1 c2 uid topLimit db ub =
     (case uid of
        None \<Rightarrow> (400, None)
      | Some k \<Rightarrow>
          if k \<le> 0 then (400, None)
          else case user_GetByID c1 0 k ub of
            Inl e \<Rightarrow> (500, None)
          | Inr None \<Rightarrow> (404, None)
          | Inr (Some u) \<Rightarrow>
              (case GetUserStats c2 0 k db of
                 Inl e \<Rightarrow> (500, None)
               | Inr st \<Rightarrow>
                   (200, Some (u, st,
                      case GetUserTopProducts c2 1 k (if topLimit \<le> 0 then 10 else topLimit) db of
                        Inl e \<Rightarrow> [] | Inr tops \<Rightarrow> tops))))"

section \<open>Sorted pages\<close>

definition precedes :: "('r \<Rightarrow> rat option) \<Rightarrow> bool \<Rightarrow> 'r \<Rightarrow> 'r \<Rightarrow> bool" where
  "precedes key asc a b =
     (case (key a, key b) of
        (Some x, Some y) \<Rightarrow> if asc then x \<le> y else y \<le> x
      | (None, Some y) \<Rightarrow> \<not> asc
      | (Some x, None) \<Rightarrow> asc
      | (None, None) \<Rightarrow> True)"

lemma sorted_wrt_key: "sorted_wrt (\<lambda>a b. k a \<le> k b) (sort_key k rows)"
  using sorted_sort_key [of k rows] by (simp add: sorted_map)

lemma precedes_values:
  "key a = Some x \<Longrightarrow> key b = Some y \<Longrightarrow> precedes key asc a b = (if asc then x \<le> y else y \<le> x)"
  by (simp add: precedes_def)

lemma sorted_by_key:
  fixes key :: "'r \<Rightarrow> rat option"
  defines "some \<equiv> \<lambda>rows. sort_key (\<lambda>r. the (key r)) (filter (\<lambda>r. key r \<noteq> None) rows)"
  shows "sorted_wrt (precedes key True) (some rows)" "sorted_wrt (precedes key False) (rev (some rows))"
proof -
  have key: "key a = Some (the (key a))" if "a \<in> set (some rows)" for a using that by (auto simp: some_def)
  have ord: "sorted_wrt (\<lambda>a b. the (key a) \<le> the (key b)) (some rows)" unfolding some_def by (rule sorted_wrt_key)
  have val: "precedes key asc a b = (if asc then the (key a) \<le> the (key b) else the (key b) \<le> the (key a))"
    if "a \<in> set (some rows)" "b \<in> set (some rows)" for a b asc
    by (rule precedes_values) (use key that in blast)+
  show "sorted_wrt (precedes key True) (some rows)"
    using ord by (rule sorted_wrt_mono_rel [rotated]) (simp add: val)
  have "sorted_wrt (\<lambda>a b. precedes key False b a) (some rows)"
    using ord by (rule sorted_wrt_mono_rel [rotated]) (simp add: val)
  then show "sorted_wrt (precedes key False) (rev (some rows))" by (simp add: sorted_wrt_rev)
qed

lemma sorted_nulls: "list_all (\<lambda>r. key r = None) rows \<Longrightarrow> sorted_wrt (precedes key asc) rows"
  by (induction rows) (auto simp: precedes_def list_all_iff)

lemma nulls_after:
  "key a \<noteq> None \<Longrightarrow> key b = None \<Longrightarrow> precedes key True a b"
  "key a \<noteq> None \<Longrightarrow> key b = None \<Longrightarrow> precedes key False b a"
  by (auto simp: precedes_def)

lemma sql_order_sorted: "sorted_wrt (precedes key asc) (sql_order key asc rows)"
proof -
  let ?some = "sort_key (\<lambda>r. the (key r)) (filter (\<lambda>r. key r \<noteq> None) rows)"
  let ?none = "filter (\<lambda>r. key r = None) rows"
  have none: "sorted_wrt (precedes key b) ?none" "sorted_wrt (precedes key b) (rev ?none)" for b
    by (rule sorted_nulls, simp add: list_all_iff)+
  show ?thesis
  proof (cases asc)
    case True
    have "sorted_wrt (precedes key True) (?some @ ?none)"
      unfolding sorted_wrt_append using sorted_by_key(1) [of key rows] none by (auto intro: nulls_after)
    then show ?thesis using True by (simp add: sql_order_def Let_def)
  next
    case False
    have "sorted_wrt (precedes key False) (rev ?none @ rev ?some)"
      unfolding sorted_wrt_append using sorted_by_key(2) [of key rows] none by (auto intro: nulls_after)
    then show ?thesis using False by (simp add: sql_order_def Let_def)
  qed
qed

lemma mset_sql_order: "mset (sql_order key asc rows) = mset rows"
proof -
  have "mset (filter (\<lambda>r. key r \<noteq> None) rows) + mset (filter (\<lambda>r. key r = None) rows) = mset rows"
    by (induction rows) auto
  then show ?thesis by (simp add: sql_order_def Let_def add.commute)
qed

lemma max0_of_nat: "nat (max0 (int i * int k)) = i * k"
  by (simp add: max0_def nat_mult_distrib) (simp add: mult_less_0_iff)

lemma list_limit_pos: "0 < list_limit n"
  by (simp add: list_limit_def)

text \<open>
  The pages of a list of orders, asked for one after the other while nothing changes, are the
  orders that match the filter, each once, in the order asked for; every page says how many there
  are, and has at most 500.
\<close>

theorem order_pages_tile:
  fixes db :: shop_db
  assumes "c_stmt c 0" "c_stmt c 1" "search_fits f"
    and "length (filter (order_matches f) (orders db)) \<le> n * list_limit (of_limit f)"
  defines "pages \<equiv> map (\<lambda>i. page (list_limit (of_limit f)) (i * list_limit (of_limit f)) (sorted_orders f db)) [0..<n]"
  shows "map (\<lambda>i. ListOrders c (f\<lparr>of_offset := int (i * list_limit (of_limit f))\<rparr>) db) [0..<n] =
      map (\<lambda>p. Inr (p, length (filter (order_matches f) (orders db)))) pages \<and>
    mset (concat pages) = mset (filter (order_matches f) (orders db)) \<and>
    (case orderBySafe (of_sort_by f) (of_sort_order f) of
       (col, asc) \<Rightarrow> sorted_wrt (precedes (sort_value col) asc) (concat pages)) \<and>
    list_all (\<lambda>p. length p \<le> 500) pages"
proof -
  obtain col asc where by_col: "orderBySafe (of_sort_by f) (of_sort_order f) = (col, asc)" by fastforce
  have sorted: "sorted_orders f db = sql_order (sort_value col) asc (filter (order_matches f) (orders db))"
    by (simp add: sorted_orders_def by_col)
  then have rows: "mset (sorted_orders f db) = mset (filter (order_matches f) (orders db))"
    by (simp add: mset_sql_order)
  have "length (sorted_orders f db) \<le> n * list_limit (of_limit f)"
    using assms(4) mset_eq_length [OF rows] by simp
  then have all: "concat pages = sorted_orders f db" by (simp add: pages_def concat_pages)
  have off: "order_matches (f\<lparr>of_offset := k\<rparr>) = order_matches f" "sorted_orders (f\<lparr>of_offset := k\<rparr>) db = sorted_orders f db"
    "search_fits (f\<lparr>of_offset := k\<rparr>) = search_fits f" for k
  proof -
    show m: "order_matches (f\<lparr>of_offset := k\<rparr>) = order_matches f" by (rule ext) (simp add: order_matches_def)
    show "sorted_orders (f\<lparr>of_offset := k\<rparr>) db = sorted_orders f db" by (simp add: sorted_orders_def m)
    show "search_fits (f\<lparr>of_offset := k\<rparr>) = search_fits f" by (simp add: search_fits_def)
  qed
  have "map (\<lambda>i. ListOrders c (f\<lparr>of_offset := int (i * list_limit (of_limit f))\<rparr>) db) [0..<n] =
      map (\<lambda>p. Inr (p, length (filter (order_matches f) (orders db)))) pages"
    using assms(1-3) by (simp add: pages_def ListOrders_def off max0_of_nat)
  moreover have "list_all (\<lambda>p. length p \<le> 500) pages"
    by (auto simp: pages_def list_all_iff page_def list_limit_def)
  ultimately show ?thesis
    using all rows sql_order_sorted [of "sort_value col" asc] by (simp add: by_col sorted)
qed

theorem order_pages_tile_witness:
  "sorted_wrt (precedes (sort_value SortCreated) False)
    (concat (map (\<lambda>i. page 50 (i * 50) (sorted_orders no_filter empty_shop)) [0..<1]))"
  using order_pages_tile [of healthy no_filter empty_shop 1]
  by (simp add: healthy_def search_fits_def onlyDigits_def no_filter_def TrimSpace_def orderBySafe_def
    empty_shop_def list_limit_def ToLower_def)

section \<open>Figures that agree\<close>

lemma count_statuses:
  "finite S \<Longrightarrow> (\<Sum>s\<in>S. count_status os s) = length (filter (\<lambda>ord. o_status ord \<in> S) os)"
proof (induction os)
  case (Cons a os)
  have "(\<Sum>s\<in>S. count_status (a # os) s) = (\<Sum>s\<in>S. (if o_status a = s then 1 else 0) + count_status os s)"
    by (rule sum.cong) (simp_all add: count_status_def)
  then show ?case using Cons by (simp add: sum.distrib sum.delta')
qed (simp add: count_status_def)

lemma counts_total:
  "sum_list (map snd (map (\<lambda>s. (s, count_status os s)) (remdups (map o_status os)))) = length os"
proof -
  have "sum_list (map (count_status os) (remdups (map o_status os))) = (\<Sum>s\<in>o_status ` set os. count_status os s)"
    by (simp add: sum_list_distinct_conv_sum_set)
  also have "\<dots> = length os" by (subst count_statuses) (simp_all add: filter_id_conv)
  finally show ?thesis by (simp add: comp_def)
qed

lemma status_count_map:
  "status_count (map (\<lambda>s. (s, count_status os s)) (remdups (map o_status os))) t = count_status os t"
proof (cases "t \<in> set (map o_status os)")
  case True
  then show ?thesis by (simp add: status_count_def map_of_map_restrict)
next
  case False
  then have "count_status os t = 0" by (auto simp: count_status_def filter_empty_conv)
  then show ?thesis using False by (simp add: status_count_def map_of_map_restrict)
qed

lemma two_counts: "s \<noteq> t \<Longrightarrow> count_status os s + count_status os t \<le> length os"
  by (induction os) (auto simp: count_status_def)

text \<open>
  The figures of a period agree with its orders and with each other: the numbers by status are
  those of the orders and their sum is the total; the share of orders not picked up is that of the
  expired and cancelled ones, between 0 and 1; the revenue is the sum of the completed orders and
  their number times the average check.
\<close>

theorem staff_figures_agree:
  assumes "handle_Stats c t0 t1 db = (200, Some a)" "c_stmt c 1"
  defines "os \<equiv> filter (in_period t0 t1) (orders db)"
  shows "(\<forall>s. status_count (sa_by_status a) s = count_status os s) \<and> sa_total a = length os \<and>
    sa_no_show a = count_status os ''expired'' + count_status os ''cancelled'' \<and>
    sa_no_show_rate a * of_nat (sa_total a) = of_nat (sa_no_show a) \<and>
    0 \<le> sa_no_show_rate a \<and> sa_no_show_rate a \<le> 1 \<and>
    sa_revenue a = sum_list (map o_total_price (filter (\<lambda>ord. o_status ord = ''completed'') os)) \<and>
    sa_avg_check a * of_nat (count_status os ''completed'') = sa_revenue a"
proof -
  let ?stats = "map (\<lambda>s. (s, count_status os s)) (remdups (map o_status os))"
  let ?done = "filter (\<lambda>ord. o_status ord = ''completed'') os"
  have ok: "c_stmt c 0" using assms(1) by (auto simp: handle_Stats_def StatsByStatus_def split: if_splits)
  have dones: "filter (\<lambda>ord. o_status ord = ''completed'' \<and> in_period t0 t1 ord) (orders db) = ?done"
    by (simp add: os_def conj_commute)
  have stats: "StatsByStatus c t0 t1 db = Inr ?stats" and
    money: "RevenueByPeriod c t0 t1 db = Inr (revenue_of ?done)"
    using ok assms(2) by (simp_all add: StatsByStatus_def RevenueByPeriod_def Let_def dones flip: os_def)
  have a: "a = \<lparr>sa_by_status = ?stats, sa_total = length os,
      sa_no_show = count_status os ''expired'' + count_status os ''cancelled'',
      sa_no_show_rate = (if length os > 0 then of_nat (count_status os ''expired'' + count_status os ''cancelled'')
        / of_nat (length os) else 0),
      sa_revenue = rv_revenue (revenue_of ?done), sa_avg_check = rv_avg_check (revenue_of ?done)\<rparr>"
    using assms(1) by (simp only: handle_Stats_def stats money sum.case Let_def counts_total status_count_map
      prod.inject option.inject simp_thms eq_sym_conv)
  have le: "count_status os ''expired'' + count_status os ''cancelled'' \<le> length os" by (rule two_counts) simp
  have "sa_no_show_rate a * of_nat (sa_total a) = of_nat (sa_no_show a)" "0 \<le> sa_no_show_rate a" "sa_no_show_rate a \<le> 1"
    using le unfolding a by (auto simp: divide_le_eq_1 simp flip: of_nat_add)
  moreover have "sa_avg_check a * of_nat (count_status os ''completed'') = sa_revenue a"
    unfolding a by (simp add: revenue_of_def Let_def count_status_def)
  moreover have "sa_revenue a = sum_list (map o_total_price ?done)"
    unfolding a by (simp add: revenue_of_def Let_def)
  moreover have "\<forall>s. status_count (sa_by_status a) s = count_status os s"
    unfolding a by (simp add: status_count_map)
  ultimately show ?thesis unfolding a by simp
qed

text \<open>One completed order and one that was given up.\<close>

definition order_row :: "id64 \<Rightarrow> string \<Rightarrow> money \<Rightarrow> order" where
  "order_row k status price =
     \<lparr>o_id = k, o_user_id = Some 7, o_status = status, o_total_price = price, o_customer_name = ''Ann'',
      o_phone = ''89161234567'', o_address = None, o_comment = None, o_moysklad_id = None, o_created_at = k,
      o_updated_at = k, o_reserved_until = None, o_pickup_at = None, o_items = []\<rparr>"

definition two_orders :: shop_db where
  "two_orders = empty_shop\<lparr>orders := [order_row 1 ''completed'' 300, order_row 2 ''expired'' 100]\<rparr>"

theorem staff_figures_agree_witness:
  "\<exists>a. handle_Stats healthy None None two_orders = (200, Some a) \<and> sa_no_show_rate a * 2 = 1"
proof -
  have os: "filter (in_period None None) (orders two_orders) = [order_row 1 ''completed'' 300, order_row 2 ''expired'' 100]"
    by (simp add: two_orders_def in_period_def holds_to_def)
  obtain a where a: "handle_Stats healthy None None two_orders = (200, Some a)"
    by (simp add: handle_Stats_def StatsByStatus_def healthy_def Let_def)
  have "c_stmt healthy 1" by (simp add: healthy_def)
  note facts = staff_figures_agree [OF a this, unfolded os]
  have "sa_total a = 2" using facts by simp
  moreover have "sa_no_show a = 1" using facts by (simp add: count_status_def order_row_def)
  moreover have "sa_no_show_rate a * of_nat (sa_total a) = of_nat (sa_no_show a)" using facts by blast
  ultimately show ?thesis using a by auto
qed

section \<open>Numbers in a search\<close>

lemma digits_number_acc:
  "list_all is_digit s \<Longrightarrow> 0 \<le> a \<Longrightarrow> a * 10 ^ length s \<le> foldl (\<lambda>n ch. 10 * n + of_char ch - 48) a s"
  for a :: int
proof (induction s arbitrary: a)
  case (Cons ch s)
  have dig: "48 \<le> (of_char ch :: int)"
    using Cons.prems(1) unfolding is_digit_def by (metis list.pred_inject(2) of_nat_of_char of_nat_mono of_nat_numeral)
  have "a * 10 ^ length (ch # s) \<le> (10 * a + of_char ch - 48) * 10 ^ length s"
    using dig by (simp add: mult_right_mono algebra_simps)
  also have "\<dots> \<le> foldl (\<lambda>n ch. 10 * n + of_char ch - 48) (10 * a + of_char ch - 48) s"
    using Cons dig by simp
  finally show ?case by simp
qed simp

lemma digits_number_large:
  assumes "onlyDigits s" "11 \<le> length s" "hd s \<noteq> CHR ''0''"
  shows "2 ^ 31 \<le> digits_number s"
proof -
  obtain ch t where s: "s = ch # t" using assms(2) by (cases s) auto
  have dig: "48 \<le> (of_char ch :: int)"
    using assms(1) unfolding s onlyDigits_def is_digit_def
    by (metis list.pred_inject(2) of_nat_of_char of_nat_mono of_nat_numeral)
  moreover have "of_char ch \<noteq> (48 :: int)"
  proof
    assume "of_char ch = (48 :: int)"
    then have "of_char ch = (of_char (CHR ''0'') :: int)" by simp
    then show False using assms(3) unfolding s of_char_eq_iff by simp
  qed
  ultimately have first: "1 \<le> (of_char ch - 48 :: int)" by simp
  have "(2::int) ^ 31 \<le> 10 ^ 10" by simp
  also have "\<dots> \<le> 10 ^ length t" using assms(2) unfolding s by (intro power_increasing) simp_all
  also have "\<dots> \<le> (of_char ch - 48) * 10 ^ length t" using first by simp
  also have "\<dots> \<le> digits_number s"
    using digits_number_acc [of t "of_char ch - 48"] first assms(1)
    unfolding s digits_number_def onlyDigits_def by simp
  finally show ?thesis .
qed

text \<open>
  A phone written as digits alone, as in the country it is written with eleven, is not found by the
  lookup of the staff, nor by a search of the list, whatever the orders: the text is also compared
  with the number of the order, which no number so large can be, and the query fails.
\<close>

theorem phone_lookup_fails:
  assumes "onlyDigits (TrimSpace phone)" "11 \<le> length (TrimSpace phone)" "hd (TrimSpace phone) \<noteq> CHR ''0''"
  shows "handle_Lookup c phone [] db = (500, None) \<and> handle_ListOrders c (q\<lparr>lp_search := phone\<rparr>) db = (500, None)"
proof -
  have none: "ListOrders c f db = Inl DbError" if "TrimSpace (of_search f) = TrimSpace phone" for f
    using digits_number_large [OF assms] assms(1) that by (simp add: ListOrders_def search_fits_def)
  have trim: "TrimSpace (TrimSpace phone) = TrimSpace phone" by (rule TrimSpace_idem)
  have "TrimSpace phone \<noteq> []" using assms(2) by auto
  then have "handle_Lookup c phone [] db = (500, None)"
    unfolding handle_Lookup_def Let_def by (simp add: none trim no_filter_def) (simp add: TrimSpace_def)
  moreover have "handle_ListOrders c (q\<lparr>lp_search := phone\<rparr>) db = (500, None)"
    by (simp add: handle_ListOrders_def Let_def none list_filter_def)
  ultimately show ?thesis ..
qed

theorem phone_lookup_fails_witness: "handle_Lookup healthy ''89161234567'' [] two_orders = (500, None)"
proof -
  have "onlyDigits (TrimSpace ''89161234567'')" "11 \<le> length (TrimSpace ''89161234567'')"
    "hd (TrimSpace ''89161234567'') \<noteq> CHR ''0''"
    by (simp_all add: onlyDigits_def is_digit_def TrimSpace_def is_space_def)
  from phone_lookup_fails [OF this] show ?thesis by blast
qed

text \<open>The hand-written conversion gives the digits of \<open>%d\<close>.\<close>

lemma itoa_digits_decimal: "0 < n \<Longrightarrow> itoa_digits n buf = decimal n @ buf"
proof (induction n buf rule: itoa_digits.induct)
  case (1 n buf)
  show ?case
  proof (cases "n < 10")
    case True
    have "itoa_digits 0 t = t" for t by (subst itoa_digits.simps) simp
    with True show ?thesis using 1 by (subst itoa_digits.simps, subst decimal.simps) simp
  next
    case False
    then have "0 < n div 10" by (simp add: div_greater_zero_iff)
    with False 1 show ?thesis by (subst itoa_digits.simps, subst decimal.simps) simp
  qed
qed

lemma itoa_show_int: "itoa n = show_int n"
proof -
  have zero: "decimal 0 = ''0''" by code_simp
  have "0 < k \<Longrightarrow> itoa_digits k [] = decimal k" for k using itoa_digits_decimal [of k "[]"] by simp
  then show ?thesis by (auto simp: itoa_def show_int_def Let_def zero)
qed

end
