(* ===== verification/Sanitizer.thy ===== *)
theory Sanitizer
  imports Text
begin

text \<open>
  internal/middleware/security.go and input_sanitizer.go: the cleaning of text that comes in with a
  request, the checks of phones and e-mails, and the CORS headers. Lower case is that of ASCII text,
  where it keeps the length of a string; the regular expressions are functions.
\<close>

section \<open>Text\<close>

definition dangerous :: "string list" where
  "dangerous = [''<script'', ''</script>'', ''javascript:'', ''onerror='', ''onload='', ''onclick='', ''onmouseover='']"

text \<open>The inner loop: the pattern is taken out until it is no longer there.\<close>

function remove_pattern :: "string \<Rightarrow> string \<Rightarrow> string" where
  "remove_pattern pattern input =
     (case find_sub pattern (ToLower input) of
        None \<Rightarrow> input
      | Some idx \<Rightarrow>
          if pattern = [] then input
          else remove_pattern pattern (take idx input @ drop (idx + length pattern) input))"
  by pat_completeness auto

termination
proof (relation "measure (\<lambda>(p, s). length s)")
  fix pattern input :: string and idx
  assume "find_sub pattern (ToLower input) = Some idx" "pattern \<noteq> []"
  moreover from find_sub_bound [OF this(1)] have "idx + length pattern \<le> length input" by (simp add: ToLower_def)
  ultimately show "((pattern, take idx input @ drop (idx + length pattern) input), pattern, input)
      \<in> measure (\<lambda>(p, s). length s)"
    by (cases pattern) simp_all
qed simp

declare remove_pattern.simps [simp del]

definition escape_char :: "char \<Rightarrow> string" where
  "escape_char ch =
     (if ch = CHR ''&'' then ''&amp;'' else if ch = CHR 0x27 then ''&#39;''
      else if ch = CHR ''<'' then ''&lt;'' else if ch = CHR ''>'' then ''&gt;''
      else if ch = CHR 0x22 then ''&#34;'' else [ch])"

definition EscapeString :: "string \<Rightarrow> string" where
  "EscapeString s = concat (map escape_char s)"

definition SanitizeInput :: "string \<Rightarrow> string" where
  "SanitizeInput input = EscapeString (foldl (\<lambda>s p. remove_pattern p s) input dangerous)"

definition SanitizeString :: "string \<Rightarrow> nat \<Rightarrow> string" where
  "SanitizeString s maxLength =
     TrimSpace (SanitizeInput (if maxLength > 0 \<and> length s > maxLength then take maxLength s else s))"

section \<open>Phones, e-mails, file names, addresses, numbers\<close>

definition is_alpha :: "char \<Rightarrow> bool" where
  "is_alpha ch = (let n = of_char ch in (65::nat) \<le> n \<and> n \<le> 90 \<or> 97 \<le> n \<and> n \<le> 122)"

text \<open>\<open>\s\<close> of Go's regular expressions is a blank, tab, line feed, form feed or carriage return.\<close>

definition ValidatePhone :: "string \<Rightarrow> bool" where
  "ValidatePhone phone =
     (10 \<le> length phone \<and> length phone \<le> 20 \<and>
      list_all (\<lambda>ch. is_digit ch \<or> ch \<in> {CHR '' '', CHR 0x09, CHR 0x0A, CHR 0x0C, CHR 0x0D,
        CHR ''+'', CHR ''-'', CHR ''('', CHR '')''}) phone)"

text \<open>A local part, an at sign, a domain, a dot and two letters or more, cut at every place.\<close>

definition email_split :: "string \<Rightarrow> nat \<Rightarrow> nat \<Rightarrow> bool" where
  "email_split email i j =
     (let user = take i email; domain = drop (i + 1) (take j email); top = drop (j + 1) email
      in 0 < i \<and> i < j \<and> j < length email \<and> email ! i = CHR ''@'' \<and> email ! j = CHR ''.'' \<and>
         list_all (\<lambda>ch. is_alpha ch \<or> is_digit ch \<or> ch \<in> {CHR ''.'', CHR ''_'', CHR ''%'', CHR ''+'', CHR ''-''}) user \<and>
         domain \<noteq> [] \<and> list_all (\<lambda>ch. is_alpha ch \<or> is_digit ch \<or> ch \<in> {CHR ''.'', CHR ''-''}) domain \<and>
         2 \<le> length top \<and> list_all is_alpha top)"

definition ValidateEmail :: "string \<Rightarrow> bool" where
  "ValidateEmail email =
     list_ex (\<lambda>i. list_ex (\<lambda>j. email_split email i j) [0..<length email]) [0..<length email]"

text \<open>
  \<open>ReplaceAllString\<close> with the empty string: \<open>m\<close> gives the length of the match at the head of a text. The
  patterns ignore case; a dot does not match a line feed, and \<open>\w\<close> is a letter, a digit or an underscore.
\<close>

function replace_all :: "(string \<Rightarrow> nat option) \<Rightarrow> string \<Rightarrow> string" where
  "replace_all m s =
     (case s of
        [] \<Rightarrow> []
      | ch # t \<Rightarrow> (case m s of Some n \<Rightarrow> replace_all m (drop (max 1 n) s) | None \<Rightarrow> ch # replace_all m t))"
  by pat_completeness auto

termination
  by (relation "measure (\<lambda>(m, s). length s)") auto

declare replace_all.simps [simp del]

definition match_text :: "string \<Rightarrow> string \<Rightarrow> nat option" where
  "match_text p s = (if prefix p (ToLower s) then Some (length p) else None)"

definition match_script :: "string \<Rightarrow> nat option" where
  "match_script s =
     (if \<not> prefix ''<script'' (ToLower s) then None
      else
        let attrs = takeWhile (\<lambda>ch. ch \<noteq> CHR ''>'') (drop 7 s);
            body = drop (7 + length attrs + 1) s
        in if 7 + length attrs = length s then None
           else map_option (\<lambda>k. 7 + length attrs + 1 + k + 9)
                  (find_sub ''</script>'' (ToLower (takeWhile (\<lambda>ch. ch \<noteq> CHR 0x0A) body))))"

definition match_handler :: "string \<Rightarrow> nat option" where
  "match_handler s =
     (let name = takeWhile (\<lambda>ch. is_alpha ch \<or> is_digit ch \<or> ch = CHR ''_'') (drop 2 s);
          blanks = takeWhile (\<lambda>ch. ch \<in> {CHR '' '', CHR 0x09, CHR 0x0A, CHR 0x0C, CHR 0x0D}) (drop (2 + length name) s);
          k = 2 + length name + length blanks
      in if prefix ''on'' (ToLower s) \<and> name \<noteq> [] \<and> k < length s \<and> s ! k = CHR ''='' then Some (k + 1) else None)"

definition SanitizeHTML :: "string \<Rightarrow> string" where
  "SanitizeHTML input =
     EscapeString (foldl (\<lambda>s m. replace_all m s) input
       [match_script, match_text ''javascript:'', match_handler, match_text ''vbscript:'', match_text ''data:text/html''])"

definition SanitizeFilename :: "string \<Rightarrow> string" where
  "SanitizeFilename filename =
     take 255 (filter (\<lambda>ch. is_alpha ch \<or> is_digit ch \<or> ch \<in> {CHR ''.'', CHR ''_'', CHR ''-''}) filename)"

definition url_char :: "char \<Rightarrow> bool" where
  "url_char ch = (is_alpha ch \<or> is_digit ch \<or> ch \<in> set '':/?#[]@!$&()*+,;=._~-'' \<or> ch = CHR 0x27)"

definition SanitizeURL :: "string \<Rightarrow> string" where
  "SanitizeURL url =
     (if \<not> prefix ''http://'' url \<and> \<not> prefix ''https://'' url then [] else filter url_char url)"

text \<open>The string case: the digits, read as a number of 64 bits.\<close>

definition SanitizeNumeric :: "string \<Rightarrow> int option" where
  "SanitizeNumeric v =
     (let cleaned = filter is_digit v; n = foldl (\<lambda>n ch. 10 * n + of_char ch - 48) (0::int) cleaned
      in if cleaned = [] \<or> n \<ge> 2 ^ 63 then None else Some n)"

section \<open>CORS\<close>

record cors_answer =
  co_allow_origin :: "string option"
  co_credentials :: bool
  co_no_content :: bool

definition CORS :: "string list \<Rightarrow> string \<Rightarrow> string \<Rightarrow> cors_answer" where
  "CORS allowedOrigins origin http_method =
     (let allowed = (origin = [] \<or> list_ex (\<lambda>o'. origin = o') allowedOrigins)
      in \<lparr>co_allow_origin = (if allowed then Some origin else None), co_credentials = True,
          co_no_content = (http_method = ''OPTIONS'')\<rparr>)"

section \<open>What is removed\<close>

lemma remove_pattern_clean: "pattern \<noteq> [] \<Longrightarrow> \<not> sublist pattern (ToLower (remove_pattern pattern input))"
proof (induction pattern input rule: remove_pattern.induct)
  case (1 pattern input)
  show ?case
  proof (cases "find_sub pattern (ToLower input)")
    case None
    then have "\<not> sublist pattern (ToLower input)" by (simp add: find_sub_None)
    with None show ?thesis by (subst remove_pattern.simps) simp
  next
    case (Some idx)
    then show ?thesis using 1 by (subst remove_pattern.simps) simp
  qed
qed

lemma remove_pattern_absent: "\<not> sublist pattern (ToLower input) \<Longrightarrow> remove_pattern pattern input = input"
  by (subst remove_pattern.simps) (simp add: find_sub_None [symmetric])

definition markup :: "char set" where
  "markup = {CHR ''<'', CHR ''>'', CHR 0x22, CHR 0x27}"

lemma escape_no_markup: "set (EscapeString s) \<inter> markup = {}"
  by (auto simp: EscapeString_def escape_char_def markup_def split: if_splits)

lemma escape_plain: "set s \<inter> (markup \<union> {CHR ''&''}) = {} \<Longrightarrow> EscapeString s = s"
  by (induction s) (auto simp: EscapeString_def escape_char_def markup_def)

lemma remove_all_absent:
  "list_all (\<lambda>p. \<not> sublist p (ToLower s)) ps \<Longrightarrow> foldl (\<lambda>s p. remove_pattern p s) s ps = s"
  by (induction ps) (simp_all add: remove_pattern_absent)

text \<open>The text between the five entities, as a browser shows it.\<close>

fun unescape :: "nat \<Rightarrow> string \<Rightarrow> string" where
  "unescape 0 s = []"
| "unescape (Suc n) [] = []"
| "unescape (Suc n) (ch # s) =
     (if prefix ''amp;'' s \<and> ch = CHR ''&'' then CHR ''&'' # unescape n (drop 4 s)
      else if prefix ''#39;'' s \<and> ch = CHR ''&'' then CHR 0x27 # unescape n (drop 4 s)
      else if prefix ''lt;'' s \<and> ch = CHR ''&'' then CHR ''<'' # unescape n (drop 3 s)
      else if prefix ''gt;'' s \<and> ch = CHR ''&'' then CHR ''>'' # unescape n (drop 3 s)
      else if prefix ''#34;'' s \<and> ch = CHR ''&'' then CHR 0x22 # unescape n (drop 4 s)
      else ch # unescape n s)"

lemma unescape_escape: "length s < n \<Longrightarrow> unescape n (EscapeString s) = s"
proof (induction s arbitrary: n)
  case Nil
  then show ?case by (cases n) (simp_all add: EscapeString_def)
next
  case (Cons ch s)
  then obtain m where n: "n = Suc m" "length s < m" by (cases n) auto
  have "EscapeString (ch # s) = escape_char ch @ EscapeString s" by (simp add: EscapeString_def)
  with Cons.IH [OF n(2)] n(1) show ?case by (simp add: escape_char_def)
qed

text \<open>
  Cleaned text holds no markup character, and a browser shows what the patterns left of it; text
  without special characters and patterns stays as it is. But taking out one pattern can put another
  together, an ampersand is written out, so that a name that has one is not found by it, and cleaning
  again what was stored writes it out again.
\<close>

theorem sanitized_text:
  "set (SanitizeInput s) \<inter> markup = {} \<and>
   unescape (Suc (length s)) (SanitizeInput s) = foldl (\<lambda>s p. remove_pattern p s) s dangerous \<and>
   (set s \<inter> (markup \<union> {CHR ''&''}) = {} \<and> list_all (\<lambda>p. \<not> sublist p (ToLower s)) dangerous \<longrightarrow>
      SanitizeInput s = s) \<and>
   SanitizeInput ''onerronload=or=1'' = ''onerror=1'' \<and>
   \<not> ILike (search_pattern (SanitizeString ''A&B'' 100)) ''A&B'' \<and>
   SanitizeString (SanitizeString ''A&B'' 255) 255 = ''A&amp;amp;B''"
proof (intro conjI impI)
  show "set (SanitizeInput s) \<inter> markup = {}" unfolding SanitizeInput_def by (rule escape_no_markup)
  have shorter: "length (remove_pattern p t) \<le> length t" for p t
  proof (induction p t rule: remove_pattern.induct)
    case (1 pattern input)
    then show ?case
      using find_sub_bound [of pattern "ToLower input"]
      by (subst remove_pattern.simps) (force split: option.split simp: ToLower_def)
  qed
  have "length (foldl (\<lambda>s p. remove_pattern p s) s ps) \<le> length s" for ps
    by (induction ps rule: rev_induct) (auto intro: le_trans [OF shorter])
  then show "unescape (Suc (length s)) (SanitizeInput s) = foldl (\<lambda>s p. remove_pattern p s) s dangerous"
    unfolding SanitizeInput_def by (intro unescape_escape) (simp add: le_imp_less_Suc)
next
  assume "set s \<inter> (markup \<union> {CHR ''&''}) = {} \<and> list_all (\<lambda>p. \<not> sublist p (ToLower s)) dangerous"
  then show "SanitizeInput s = s" by (simp add: SanitizeInput_def remove_all_absent escape_plain)
next
  show "SanitizeInput ''onerronload=or=1'' = ''onerror=1''" by code_simp
  show "\<not> ILike (search_pattern (SanitizeString ''A&B'' 100)) ''A&B''" by code_simp
  show "SanitizeString (SanitizeString ''A&B'' 255) 255 = ''A&amp;amp;B''" by code_simp
qed

theorem sanitized_text_witness: "SanitizeInput ''red paint'' = ''red paint''"
proof -
  have "list_all (\<lambda>p. \<not> sublist p (ToLower ''red paint'')) dangerous" by code_simp
  with sanitized_text [of "''red paint''"] show ?thesis by (simp add: markup_def)
qed

text \<open>The other cleaner leaves no markup character either.\<close>

lemma SanitizeHTML_no_markup: "set (SanitizeHTML s) \<inter> markup = {}"
  unfolding SanitizeHTML_def by (rule escape_no_markup)

lemma SanitizeHTML_examples:
  "SanitizeHTML ''a<script src=x>y</script>b'' = ''ab''" "SanitizeHTML ''x onclick =1'' = ''x 1''"
  by code_simp+

end
