(* ===== verification/Router.thy ===== *)
theory Router
  imports Tokens RateLimit Sanitizer
begin

text \<open>
  internal/handlers/router.go with internal/middleware: the table of routes, the handlers each
  request passes on its way, and what is answered when one of them stops it. The router itself is
  gin's: the route of a request is the registered pattern that matches its path, a fixed segment
  before a parameter, else the request passes the general middleware and is answered 404. Gin's
  redirects of paths with a slash too many are left out. Handlers are named as the code names them;
  those of pages and probes by what they render.
\<close>

section \<open>Middleware\<close>

datatype mw =
    UseHealth
  | UseSecurityHeaders
  | UseCORS
  | Limit limiter
  | UseMetrics
  | UseAuth
  | NeedAuth
  | NeedAdmin
  | NeedToken string

record http_request =
  rq_method :: string
  rq_path :: string
  rq_origin :: string
  rq_auth :: string
  rq_token :: string
  rq_ip :: string
  rq_tls :: bool
  rq_time :: time

text \<open>
  What the middleware depends on: the parser of tokens, whether the list of revoked tokens is there
  and answers, whether the commands of the rate counter go through, the origins allowed.
\<close>

record router_env =
  re_parse :: "time \<Rightarrow> string \<Rightarrow> jwt_claims option"
  re_checker :: bool
  re_up :: "nat \<Rightarrow> bool"
  re_revoked :: revocations
  re_incr :: bool
  re_expire :: bool
  re_cors :: "string list"

text \<open>The state of a request, with the store of the limits and the paths that were measured.\<close>

record req_ctx =
  cx_store :: rate_store
  cx_user :: "jwt_claims option"
  cx_headers :: "(string \<times> string) list"
  cx_cors :: "cors_answer option"
  cx_counted :: "string list"

definition SecurityHeaders :: "bool \<Rightarrow> (string \<times> string) list" where
  "SecurityHeaders tls =
     [(''X-Content-Type-Options'', ''nosniff''), (''X-Frame-Options'', ''DENY''),
      (''X-XSS-Protection'', ''1; mode=block''),
      (''Content-Security-Policy'',
        ''default-src 'self'; '' @ ''script-src 'self' 'unsafe-inline' 'unsafe-eval'; '' @
        ''style-src 'self' 'unsafe-inline'; '' @ ''img-src 'self' data: https:; '' @
        ''font-src 'self' data:; '' @ ''connect-src 'self'; '' @
        ''frame-src 'self' https://yandex.ru https://*.yandex.ru; '' @ ''frame-ancestors 'none';'')] @
     (if tls then [(''Strict-Transport-Security'', ''max-age=31536000; includeSubDomains'')] else []) @
     [(''Referrer-Policy'', ''strict-origin-when-cross-origin''),
      (''Permissions-Policy'', ''geolocation=(), microphone=(), camera=()'')]"

text \<open>The token of /metrics, in the query or in the header.\<close>

definition metricsTokenOK :: "http_request \<Rightarrow> string \<Rightarrow> bool" where
  "metricsTokenOK rq want =
     (if rq_token rq = want then True
      else if prefix ''Bearer '' (rq_auth rq) then TrimSpace (drop 7 (rq_auth rq)) = want
      else False)"

text \<open>\<open>Metrics\<close> measures a request under the pattern of its route, except the scrape itself.\<close>

definition Metrics :: "string \<Rightarrow> req_ctx \<Rightarrow> req_ctx" where
  "Metrics fullPath cx =
     (let path = (if fullPath = [] then ''unmatched'' else fullPath)
      in if path = ''/metrics'' then cx else cx\<lparr>cx_counted := cx_counted cx @ [path]\<rparr>)"

text \<open>One handler of the chain: the status it stops the request with, or nothing.\<close>

fun mw_step :: "router_env \<Rightarrow> http_request \<Rightarrow> string \<Rightarrow> mw \<Rightarrow> req_ctx \<Rightarrow> int option \<times> req_ctx" where
  "mw_step env rq full UseHealth cx = (None, cx)"
| "mw_step env rq full UseSecurityHeaders cx =
     (None, cx\<lparr>cx_headers := cx_headers cx @ SecurityHeaders (rq_tls rq)\<rparr>)"
| "mw_step env rq full UseCORS cx =
     (let a = CORS (re_cors env) (rq_origin rq) (rq_method rq)
      in (if co_no_content a then Some 204 else None, cx\<lparr>cx_cors := Some a\<rparr>))"
| "mw_step env rq full (Limit l) cx =
     (let (st, s) = limit_request (re_incr env) (re_expire env) l (rq_time rq) (rq_ip rq) (cx_store cx)
      in (st, cx\<lparr>cx_store := s\<rparr>))"
| "mw_step env rq full UseMetrics cx = (None, Metrics full cx)"
| "mw_step env rq full UseAuth cx =
     (None, cx\<lparr>cx_user := AuthMiddleware (re_parse env) (re_checker env) (re_up env) (rq_time rq) (rq_auth rq)
        (re_revoked env)\<rparr>)"
| "mw_step env rq full NeedAuth cx = (RequireAuth (cx_user cx), cx)"
| "mw_step env rq full NeedAdmin cx = (RequireAdmin (cx_user cx), cx)"
| "mw_step env rq full (NeedToken want) cx = (if metricsTokenOK rq want then None else Some 401, cx)"

fun run_chain :: "router_env \<Rightarrow> http_request \<Rightarrow> string \<Rightarrow> mw list \<Rightarrow> req_ctx \<Rightarrow> int option \<times> req_ctx" where
  "run_chain env rq full [] cx = (None, cx)"
| "run_chain env rq full (m # ms) cx =
     (case mw_step env rq full m cx of
        (Some st, cx') \<Rightarrow> (Some st, cx')
      | (None, cx') \<Rightarrow> run_chain env rq full ms cx')"

text \<open>
  \<open>CSRFProtection\<close>, which no route uses: the status it stops the request with, or the new cookie of a
  GET. \<open>rand\<close> is the token \<open>GenerateCSRFToken\<close> makes, if there are random bytes.
\<close>

definition CSRFProtection ::
  "string option \<Rightarrow> string \<Rightarrow> string \<Rightarrow> string \<Rightarrow> string \<Rightarrow> string \<Rightarrow> int option \<times> string option" where
  "CSRFProtection rand http_method authorization cookieToken headerToken formToken =
     (if http_method = ''GET'' then (None, rand)
      else if http_method \<in> {''POST'', ''PUT'', ''DELETE''} then
        if authorization \<noteq> [] then (None, None)
        else if cookieToken = [] then (Some 403, None)
        else if headerToken \<noteq> cookieToken \<and> formToken \<noteq> cookieToken then (Some 403, None)
        else (None, None)
      else (None, None))"

section \<open>The table of routes\<close>

record route =
  rt_method :: string
  rt_path :: string
  rt_chain :: "mw list"
  rt_handler :: string

definition global_chain :: "mw list" where
  "global_chain = [UseHealth, UseSecurityHeaders, UseCORS, Limit RateLimit, UseMetrics]"

text \<open>A group: its prefix and what it uses, then its routes.\<close>

definition group :: "string \<Rightarrow> mw list \<Rightarrow> (string \<times> string \<times> mw list \<times> string) list \<Rightarrow> route list" where
  "group pre uses rs =
     map (\<lambda>(m, path, own, h). \<lparr>rt_method = m, rt_path = pre @ path, rt_chain = global_chain @ uses @ own, rt_handler = h\<rparr>) rs"

definition page_routes :: "route list" where
  "page_routes = group [] []
     [(''GET'', ''/static/*filepath'', [], ''static''), (''HEAD'', ''/static/*filepath'', [], ''static''),
      (''GET'', ''/favicon.ico'', [], ''favicon''), (''HEAD'', ''/favicon.ico'', [], ''favicon''),
      (''GET'', ''/favicon.svg'', [], ''favicon''), (''HEAD'', ''/favicon.svg'', [], ''favicon''),
      (''GET'', ''/'', [], ''index.html''), (''GET'', ''/catalog'', [], ''catalog.html''),
      (''GET'', ''/promotions'', [], ''promotions.html''), (''GET'', ''/contacts'', [], ''contacts.html''),
      (''GET'', ''/product/:id'', [], ''RenderProductPage''), (''GET'', ''/cart'', [UseAuth], ''cart.html''),
      (''GET'', ''/login'', [], ''login.html''), (''GET'', ''/register'', [], ''register.html''),
      (''GET'', ''/forgot-password'', [], ''forgot-password.html''),
      (''GET'', ''/profile'', [UseAuth], ''profile.html''), (''GET'', ''/orders'', [UseAuth], ''orders.html''),
      (''GET'', ''/admin'', [], ''admin.html'')]"

definition probe_routes :: "string \<Rightarrow> route list" where
  "probe_routes metricsEnv = group [] []
     ([(''GET'', ''/health'', [], ''healthHandler''), (''HEAD'', ''/health'', [], ''healthHandler''),
       (''GET'', ''/ping'', [], ''healthPingHandler''), (''HEAD'', ''/ping'', [], ''healthPingHandler''),
       (''GET'', ''/health/detail'', [], ''healthDetailHandler'')] @
      (let metricsToken = TrimSpace metricsEnv
       in if metricsToken \<noteq> [] then [(''GET'', ''/metrics'', [NeedToken metricsToken], ''promHandler'')] else []))"

definition auth_routes :: "route list" where
  "auth_routes =
     (let authRL = Limit AuthRateLimit in
      group ''/api/auth'' []
        [(''POST'', ''/register'', [authRL], ''Register''), (''POST'', ''/login'', [authRL], ''Login''),
         (''POST'', ''/logout'', [UseAuth], ''Logout''), (''POST'', ''/verify-email'', [authRL, UseAuth], ''VerifyEmail''),
         (''POST'', ''/resend-code'', [authRL], ''ResendVerificationCode''),
         (''POST'', ''/send-verification'', [authRL], ''ResendVerificationCode''),
         (''POST'', ''/forgot-password'', [authRL], ''ForgotPassword''),
         (''POST'', ''/reset-password'', [authRL], ''ResetPassword'')] @
      group ''/api/auth/profile'' [UseAuth, NeedAuth]
        [(''PUT'', [], [], ''UpdateProfile''), (''GET'', [], [], ''GetProfile'')] @
      group ''/api/auth'' [] [(''GET'', ''/verify'', [UseAuth], ''VerifyToken'')])"

definition shop_routes :: "bool \<Rightarrow> route list" where
  "shop_routes webhooks =
     group ''/api/products'' [Limit ProductRateLimit]
       [(''GET'', [], [], ''GetProducts''), (''GET'', ''/search'', [], ''SearchProducts''), (''GET'', ''/:id'', [], ''GetProduct'')] @
     group ''/api'' []
       [(''GET'', ''/categories'', [], ''ListCategories''), (''GET'', ''/promotions/feed'', [], ''GetPromotionsFeed''),
        (''GET'', ''/promotions/products'', [], ''GetPromotionalProducts''),
        (''GET'', ''/promotions/:id/products'', [], ''GetPromotionProducts''),
        (''GET'', ''/promotions'', [], ''GetActivePromotions'')] @
     group ''/api/cart'' [UseAuth, NeedAuth]
       [(''POST'', [], [], ''AddToCart''), (''GET'', [], [], ''GetCart''), (''PUT'', [], [], ''UpdateCart''),
        (''DELETE'', [], [], ''ClearCart''), (''DELETE'', ''/:id'', [], ''RemoveFromCart''), (''GET'', ''/total'', [], ''GetCartTotal'')] @
     group ''/api/orders'' [UseAuth, NeedAuth]
       [(''POST'', [], [], ''CreateOrder''), (''GET'', [], [], ''GetUserOrders''), (''POST'', ''/:id/cancel'', [], ''CancelOrder'')] @
     (if webhooks then group ''/api'' []
        [(''POST'', ''/webhooks/moysklad'', [], ''HandleWebhook''), (''POST'', ''/webhooks/stock'', [], ''HandleStockWebhook'')]
      else []) @
     group ''/api'' [] [(''POST'', ''/admin/login'', [Limit StrictRateLimit], ''AdminLogin'')]"

definition admin_routes :: "bool \<Rightarrow> route list" where
  "admin_routes webhooks = group ''/api/admin'' [Limit StrictRateLimit, UseAuth, NeedAdmin]
     ([(''GET'', ''/promotions'', [], ''GetAllPromotions''), (''GET'', ''/promotions/:id'', [], ''GetPromotion''),
       (''POST'', ''/promotions'', [], ''CreatePromotion''), (''PUT'', ''/promotions/:id'', [], ''UpdatePromotion''),
       (''DELETE'', ''/promotions/:id'', [], ''DeletePromotion''), (''POST'', ''/products/sync'', [], ''SyncProducts''),
       (''POST'', ''/products/sync/full'', [], ''SyncProductsFull''), (''GET'', ''/orders'', [], ''ListOrders''),
       (''GET'', ''/orders/today'', [], ''ListToday''), (''GET'', ''/orders/stats'', [], ''Stats''),
       (''GET'', ''/orders/lookup'', [], ''Lookup''), (''GET'', ''/orders/:id'', [], ''GetOrderDetails''),
       (''POST'', ''/orders/:id/ship'', [], ''ShipOrder''), (''POST'', ''/orders/:id/cancel'', [], ''CancelOrderByAdmin''),
       (''POST'', ''/orders/:id/expire'', [], ''ExpireOrder''), (''GET'', ''/metrics'', [], ''GetSnapshot''),
       (''GET'', ''/users'', [], ''SearchUsers''), (''GET'', ''/users/:id/stats'', [], ''UserStats'')] @
      (if webhooks then
         [(''GET'', ''/webhooks/dead-letter'', [], ''ListDeadLetter''), (''POST'', ''/webhooks/replay/:id'', [], ''ReplayDeadLetter'')]
       else []))"

definition SetupRouter :: "string \<Rightarrow> bool \<Rightarrow> route list" where
  "SetupRouter metricsEnv webhooks =
     page_routes @ probe_routes metricsEnv @ auth_routes @ shop_routes webhooks @ admin_routes webhooks"

text \<open>TRUSTED_PROXIES, or the private ranges.\<close>

definition trustedProxies :: "string \<Rightarrow> string list" where
  "trustedProxies env =
     (let raw = TrimSpace env in
      if raw \<noteq> [] then filter (\<lambda>p. p \<noteq> []) (map TrimSpace (split_on (CHR '','') raw))
      else [''127.0.0.1/32'', ''::1/128'', ''10.0.0.0/8'', ''172.16.0.0/12'', ''192.168.0.0/16''])"

section \<open>Serving a request\<close>

definition segments :: "string \<Rightarrow> string list" where
  "segments path = split_on (CHR ''/'') path"

fun seg_matches :: "string list \<Rightarrow> string list \<Rightarrow> bool" where
  "seg_matches [] ss = (ss = [])"
| "seg_matches (p # ps) [] = False"
| "seg_matches (p # ps) (s # ss) =
     (if prefix ''*'' p then True
      else if prefix '':'' p then s \<noteq> [] \<and> seg_matches ps ss
      else p = s \<and> seg_matches ps ss)"

definition route_matches :: "string \<Rightarrow> string \<Rightarrow> route \<Rightarrow> bool" where
  "route_matches m path r = (rt_method r = m \<and> seg_matches (segments (rt_path r)) (segments path))"

text \<open>Of two patterns for one path, the one that has a fixed segment first.\<close>

fun fixed_before :: "string list \<Rightarrow> string list \<Rightarrow> bool" where
  "fixed_before (p # ps) (q # qs) =
     (if p = q then fixed_before ps qs else \<not> (prefix '':'' p \<or> prefix ''*'' p))"
| "fixed_before ps qs = False"

definition dispatch :: "route list \<Rightarrow> string \<Rightarrow> string \<Rightarrow> route option" where
  "dispatch rs m path =
     (let found = filter (route_matches m path) rs
      in find (\<lambda>r. \<not> list_ex (\<lambda>r'. fixed_before (segments (rt_path r')) (segments (rt_path r))) found) found)"

datatype answer = Status int | Handler string "jwt_claims option"

definition ServeHTTP :: "router_env \<Rightarrow> route list \<Rightarrow> http_request \<Rightarrow> req_ctx \<Rightarrow> answer \<times> req_ctx" where
  "ServeHTTP env rs rq cx =
     (case dispatch rs (rq_method rq) (rq_path rq) of
        None \<Rightarrow>
          (case run_chain env rq [] global_chain cx of
             (Some st, cx') \<Rightarrow> (Status st, cx')
           | (None, cx') \<Rightarrow> (Status 404, cx'))
      | Some r \<Rightarrow>
          (case run_chain env rq (rt_path r) (rt_chain r) cx of
             (Some st, cx') \<Rightarrow> (Status st, cx')
           | (None, cx') \<Rightarrow> (Handler (rt_handler r) (cx_user cx'), cx')))"

text \<open>The context of a new request keeps the store and what was measured.\<close>

definition new_request :: "req_ctx \<Rightarrow> req_ctx" where
  "new_request cx = cx\<lparr>cx_user := None, cx_headers := [], cx_cors := None\<rparr>"

section \<open>Chains\<close>

lemma run_chain_append:
  "run_chain env rq full (ms @ ms') cx =
    (case run_chain env rq full ms cx of
       (Some st, cx') \<Rightarrow> (Some st, cx')
     | (None, cx') \<Rightarrow> run_chain env rq full ms' cx')"
  by (induction ms arbitrary: cx) (auto split: prod.split option.split)

lemma mw_step_user: "m \<noteq> UseAuth \<Longrightarrow> mw_step env rq full m cx = (st, cx') \<Longrightarrow> cx_user cx' = cx_user cx"
  by (cases m) (auto simp: Let_def Metrics_def split: prod.splits if_splits)

lemma run_chain_guards:
  assumes "run_chain env rq full ms cx = (None, cx')" "UseAuth \<notin> set ms"
  shows "cx_user cx' = cx_user cx \<and> (NeedAuth \<in> set ms \<longrightarrow> RequireAuth (cx_user cx) = None) \<and>
    (NeedAdmin \<in> set ms \<longrightarrow> RequireAdmin (cx_user cx) = None)"
  using assms
proof (induction ms arbitrary: cx)
  case (Cons m ms)
  from Cons.prems obtain cx1 where one: "mw_step env rq full m cx = (None, cx1)" "run_chain env rq full ms cx1 = (None, cx')"
    by (auto split: prod.splits option.splits)
  have "m \<noteq> UseAuth" "UseAuth \<notin> set ms" using Cons.prems(2) by auto
  note same = mw_step_user [OF this(1) one(1)] and rest = Cons.IH [OF one(2) this(2)]
  have "NeedAuth = m \<Longrightarrow> RequireAuth (cx_user cx) = None" "NeedAdmin = m \<Longrightarrow> RequireAdmin (cx_user cx) = None"
    using one(1) by (auto simp del: mw_step.simps(1-6))
  with rest show ?case unfolding same by simp
qed simp

text \<open>The guard \<open>g\<close> comes after the last look at the token.\<close>

definition guarded_by :: "mw \<Rightarrow> mw list \<Rightarrow> bool" where
  "guarded_by g ms =
     (case dropWhile (\<lambda>m. m \<noteq> UseAuth) ms of [] \<Rightarrow> False | _ # after \<Rightarrow> UseAuth \<notin> set after \<and> g \<in> set after)"

definition token_user :: "router_env \<Rightarrow> http_request \<Rightarrow> jwt_claims option" where
  "token_user env rq =
     AuthMiddleware (re_parse env) (re_checker env) (re_up env) (rq_time rq) (rq_auth rq) (re_revoked env)"

lemma guarded_split:
  assumes "guarded_by g ms" "run_chain env rq full ms cx = (None, cx')"
  obtains cx1 after where "run_chain env rq full after cx1 = (None, cx')" "cx_user cx1 = token_user env rq"
    "UseAuth \<notin> set after" "g \<in> set after"
proof -
  obtain m after where d: "dropWhile (\<lambda>m. m \<noteq> UseAuth) ms = m # after" "UseAuth \<notin> set after" "g \<in> set after"
    using assms(1) by (auto simp: guarded_by_def split: list.splits)
  have "m = UseAuth" using d(1) by (metis (mono_tags, lifting) hd_dropWhile list.sel(1) list.discI)
  then have "ms = takeWhile (\<lambda>m. m \<noteq> UseAuth) ms @ UseAuth # after" using d(1) by (metis takeWhile_dropWhile_id)
  then obtain cx0 where "run_chain env rq full (UseAuth # after) cx0 = (None, cx')"
    using assms(2) run_chain_append [of env rq full "takeWhile (\<lambda>m. m \<noteq> UseAuth) ms" "UseAuth # after" cx]
    by (auto split: prod.splits option.splits)
  then show ?thesis using that d by (auto simp: token_user_def)
qed

lemma run_chain_guarded:
  assumes "run_chain env rq full ms cx = (None, cx')"
  shows "guarded_by NeedAuth ms \<Longrightarrow> \<exists>cl. cx_user cx' = Some cl \<and> token_user env rq = Some cl"
    and "guarded_by NeedAdmin ms \<Longrightarrow> \<exists>cl. cx_user cx' = Some cl \<and> token_user env rq = Some cl \<and> cl_role cl = Some ''admin''"
proof -
  have guard: "(NeedAuth = g \<longrightarrow> cx_user cx' = token_user env rq \<and> RequireAuth (token_user env rq) = None) \<and>
      (NeedAdmin = g \<longrightarrow> cx_user cx' = token_user env rq \<and> RequireAdmin (token_user env rq) = None)"
    if guards: "guarded_by g ms" for g
  proof -
    obtain cx1 after where after: "run_chain env rq full after cx1 = (None, cx')" "cx_user cx1 = token_user env rq"
      "UseAuth \<notin> set after" "g \<in> set after" by (rule guarded_split [OF guards assms])
    from run_chain_guards [OF after(1,3)] after(2,4) show ?thesis by auto
  qed
  show "guarded_by NeedAuth ms \<Longrightarrow> \<exists>cl. cx_user cx' = Some cl \<and> token_user env rq = Some cl"
    by (drule guard) (auto simp: RequireAuth_def split: if_splits)
  show "guarded_by NeedAdmin ms \<Longrightarrow> \<exists>cl. cx_user cx' = Some cl \<and> token_user env rq = Some cl \<and> cl_role cl = Some ''admin''"
    by (drule guard) (auto simp: RequireAdmin_def split: option.splits if_splits)
qed

section \<open>Which routes a path can reach\<close>

text \<open>Whether a pattern can match a path that begins with the given segments.\<close>

fun may_start :: "string list \<Rightarrow> string list \<Rightarrow> bool" where
  "may_start ps [] = True"
| "may_start [] (s # ss) = False"
| "may_start (p # ps) (s # ss) = (prefix ''*'' p \<or> (prefix '':'' p \<or> p = s) \<and> may_start ps ss)"

lemma seg_matches_start: "seg_matches ps ss \<Longrightarrow> prefix pre ss \<Longrightarrow> may_start ps pre"
proof (induction ps ss arbitrary: pre rule: seg_matches.induct)
  case (3 p ps s ss)
  then show ?case by (cases pre) (auto split: if_splits)
qed (auto simp: prefix_def)

lemma dispatch_in: "dispatch rs m path = Some r \<Longrightarrow> r \<in> set rs \<and> route_matches m path r"
  by (auto simp: dispatch_def Let_def find_Some_iff in_set_conv_nth dest!: nth_mem)

definition admin_area :: "string list" where
  "admin_area = [[], ''api'', ''admin'']"

definition customer_areas :: "string list list" where
  "customer_areas = [[[], ''api'', ''cart''], [[], ''api'', ''orders''], [[], ''api'', ''auth'', ''profile'']]"

definition route_guards :: "route \<Rightarrow> bool" where
  "route_guards r =
     ((may_start (segments (rt_path r)) admin_area \<and> rt_handler r \<noteq> ''AdminLogin'' \<longrightarrow> guarded_by NeedAdmin (rt_chain r)) \<and>
      (list_ex (may_start (segments (rt_path r))) customer_areas \<longrightarrow> guarded_by NeedAuth (rt_chain r)))"

lemma fixed_route_guards:
  "list_all route_guards (page_routes @ auth_routes @ shop_routes True @ admin_routes True)"
  by code_simp

lemma probe_route_guards: "list_all route_guards (probe_routes metricsEnv)"
proof -
  have fixed: "list_all (\<lambda>p. \<not> may_start (segments p) admin_area \<and> \<not> list_ex (may_start (segments p)) customer_areas)
      [''/health'', ''/ping'', ''/health/detail'', ''/metrics'']" by code_simp
  then have "list_all (\<lambda>r. rt_path r \<in> {''/health'', ''/ping'', ''/health/detail'', ''/metrics''}) (probe_routes metricsEnv)"
    by (simp add: probe_routes_def group_def Let_def)
  with fixed show ?thesis by (auto simp: list_all_iff route_guards_def)
qed

lemma group_mono: "set (group pre uses rs) \<subseteq> set (group pre uses (rs @ rs'))"
  by (auto simp: group_def)

text \<open>What holds of the fixed tables and of the probes holds of every route.\<close>

lemma every_route:
  assumes "r \<in> set (SetupRouter metricsEnv webhooks)"
    and "list_all P (page_routes @ auth_routes @ shop_routes True @ admin_routes True)" "list_all P (probe_routes metricsEnv)"
  shows "P r"
proof -
  have "set (shop_routes w) \<subseteq> set (shop_routes True)" for w
    unfolding shop_routes_def set_append by (cases w) auto
  moreover have "set (admin_routes w) \<subseteq> set (admin_routes True)" for w
    unfolding admin_routes_def by (cases w) (simp_all add: group_mono del: append_Cons append.simps)
  ultimately have "r \<in> set (page_routes @ auth_routes @ shop_routes True @ admin_routes True) \<or> r \<in> set (probe_routes metricsEnv)"
    using assms(1) unfolding SetupRouter_def set_append by blast
  then show ?thesis using assms(2,3) by (meson list_all_iff)
qed

lemma all_route_guards: "r \<in> set (SetupRouter metricsEnv webhooks) \<Longrightarrow> route_guards r"
  by (rule every_route [OF _ fixed_route_guards probe_route_guards])

lemma route_starts:
  assumes "dispatch rs m path = Some r" "prefix area (segments path)"
  shows "may_start (segments (rt_path r)) area"
  using dispatch_in [OF assms(1)] seg_matches_start [OF _ assms(2)] by (simp add: route_matches_def)

lemma ServeHTTP_Handler:
  assumes "ServeHTTP env rs rq cx = (Handler h who, cx')"
  obtains r where "dispatch rs (rq_method rq) (rq_path rq) = Some r"
    "run_chain env rq (rt_path r) (rt_chain r) cx = (None, cx')" "h = rt_handler r" "who = cx_user cx'"
  using assms by (auto simp: ServeHTTP_def split: option.splits prod.splits)

text \<open>
  C30. Whatever the request: a handler under /api/admin, the login apart, is reached only with a token that
  the middleware accepts and that has the role of the staff, and a handler of the cart, the orders or
  the profile only with a token that it accepts.
\<close>

theorem guarded_routes:
  assumes "ServeHTTP env (SetupRouter metricsEnv webhooks) rq cx = (Handler h who, cx')"
  shows "(prefix admin_area (segments (rq_path rq)) \<and> h \<noteq> ''AdminLogin'' \<longrightarrow>
      (\<exists>cl. who = Some cl \<and> token_user env rq = Some cl \<and> cl_role cl = Some ''admin'')) \<and>
    (list_ex (\<lambda>area. prefix area (segments (rq_path rq))) customer_areas \<longrightarrow>
      (\<exists>cl. who = Some cl \<and> token_user env rq = Some cl))"
proof -
  obtain r where r: "dispatch (SetupRouter metricsEnv webhooks) (rq_method rq) (rq_path rq) = Some r"
    "run_chain env rq (rt_path r) (rt_chain r) cx = (None, cx')" "h = rt_handler r" "who = cx_user cx'"
    by (rule ServeHTTP_Handler [OF assms])
  have guards: "route_guards r" using dispatch_in [OF r(1)] all_route_guards by blast
  show ?thesis
  proof (intro conjI impI)
    assume "prefix admin_area (segments (rq_path rq)) \<and> h \<noteq> ''AdminLogin''"
    then have "guarded_by NeedAdmin (rt_chain r)" using guards route_starts [OF r(1)] r(3) by (simp add: route_guards_def)
    from run_chain_guarded(2) [OF r(2) this] show "\<exists>cl. who = Some cl \<and> token_user env rq = Some cl \<and> cl_role cl = Some ''admin''"
      by (simp add: r(4))
  next
    assume "list_ex (\<lambda>area. prefix area (segments (rq_path rq))) customer_areas"
    then have "guarded_by NeedAuth (rt_chain r)"
      using guards route_starts [OF r(1)] by (auto simp: route_guards_def list_ex_iff)
    from run_chain_guarded(1) [OF r(2) this] show "\<exists>cl. who = Some cl \<and> token_user env rq = Some cl"
      by (simp add: r(4))
  qed
qed

text \<open>A staff token on a request for the list of orders, and none.\<close>

definition staff_request :: http_request where
  "staff_request = \<lparr>rq_method = ''GET'', rq_path = ''/api/admin/orders'', rq_origin = [], rq_auth = ''Bearer t'',
     rq_token = [], rq_ip = ''a'', rq_tls = True, rq_time = 0\<rparr>"

definition staff_env :: router_env where
  "staff_env = \<lparr>re_parse = (\<lambda>_ t. if t = ''t'' then Some (staff_claims 0 1 1) else None), re_checker = False,
     re_up = (\<lambda>_. True), re_revoked = no_revocations, re_incr = True, re_expire = True, re_cors = []\<rparr>"

definition fresh_ctx :: req_ctx where
  "fresh_ctx = \<lparr>cx_store = MemStore Map.empty, cx_user = None, cx_headers = [], cx_cors = None, cx_counted = []\<rparr>"

lemma staff_request_served:
  "ServeHTTP staff_env (SetupRouter [] True) staff_request fresh_ctx =
    (Handler ''ListOrders'' (Some (staff_claims 0 1 1)), snd (ServeHTTP staff_env (SetupRouter [] True) staff_request fresh_ctx))"
proof -
  have disp: "map_option rt_handler (dispatch (SetupRouter [] True) ''GET'' ''/api/admin/orders'') = Some ''ListOrders''"
    "map_option rt_chain (dispatch (SetupRouter [] True) ''GET'' ''/api/admin/orders'') =
      Some (global_chain @ [Limit StrictRateLimit, UseAuth, NeedAdmin])" by code_simp+
  then obtain r where r: "dispatch (SetupRouter [] True) ''GET'' ''/api/admin/orders'' = Some r" "rt_handler r = ''ListOrders''"
    "rt_chain r = global_chain @ [Limit StrictRateLimit, UseAuth, NeedAdmin]" by auto
  show ?thesis
    by (simp add: ServeHTTP_def staff_request_def r global_chain_def fresh_ctx_def staff_env_def CORS_def
      limit_request_def rs_Allow_def mem_incr_def limit_key_def Metrics_def AuthMiddleware_def RequireAdmin_def
      unix_def Let_def)
qed

theorem guarded_routes_witness:
  "\<exists>cl. token_user staff_env staff_request = Some cl \<and> cl_role cl = Some ''admin''"
proof -
  have "prefix admin_area (segments (rq_path staff_request))" "''ListOrders'' \<noteq> ''AdminLogin''" by code_simp+
  then show ?thesis using guarded_routes [OF staff_request_served] by blast
qed

section \<open>What every answer carries\<close>

fun own_mw :: "mw \<Rightarrow> bool" where
  "own_mw (Limit l) = (l \<noteq> RateLimit)"
| "own_mw UseAuth = True"
| "own_mw NeedAuth = True"
| "own_mw NeedAdmin = True"
| "own_mw (NeedToken t) = True"
| "own_mw m = False"

definition own_chain :: "route \<Rightarrow> mw list" where
  "own_chain r = drop (length global_chain) (rt_chain r)"

definition route_own :: "route \<Rightarrow> bool" where
  "route_own r =
     (take (length global_chain) (rt_chain r) = global_chain \<and> list_all own_mw (own_chain r) \<and>
      (own_chain r = [Limit ProductRateLimit] \<or> Limit ProductRateLimit \<notin> set (own_chain r)))"

lemma all_route_own:
  assumes "r \<in> set (SetupRouter metricsEnv webhooks)"
  shows "rt_chain r = global_chain @ own_chain r" "list_all own_mw (own_chain r)"
    "own_chain r = [Limit ProductRateLimit] \<or> Limit ProductRateLimit \<notin> set (own_chain r)"
proof -
  have "list_all route_own (page_routes @ auth_routes @ shop_routes True @ admin_routes True)" by code_simp
  moreover have "list_all route_own (probe_routes metricsEnv)"
    by (simp add: probe_routes_def group_def Let_def route_own_def own_chain_def)
  ultimately have "route_own r" by (rule every_route [OF assms])
  then show "rt_chain r = global_chain @ own_chain r" "list_all own_mw (own_chain r)"
    "own_chain r = [Limit ProductRateLimit] \<or> Limit ProductRateLimit \<notin> set (own_chain r)"
    unfolding route_own_def own_chain_def by (metis append_take_drop_id)+
qed

lemma own_step_keeps:
  "own_mw m \<Longrightarrow> mw_step env rq full m cx = (st, cx') \<Longrightarrow> cx_headers cx' = cx_headers cx \<and> cx_counted cx' = cx_counted cx"
  by (cases m) (auto split: prod.splits)

lemma own_chain_keeps:
  "list_all own_mw ms \<Longrightarrow> run_chain env rq full ms cx = (st, cx') \<Longrightarrow>
    cx_headers cx' = cx_headers cx \<and> cx_counted cx' = cx_counted cx"
proof (induction ms arbitrary: cx)
  case (Cons m ms)
  obtain s1 cx1 where one: "mw_step env rq full m cx = (s1, cx1)" by fastforce
  have "own_mw m" "list_all own_mw ms" using Cons.prems(1) by simp_all
  note here = own_step_keeps [OF this(1) one]
  show ?case
  proof (cases s1)
    case None
    with Cons.prems(2) one have "run_chain env rq full ms cx1 = (st, cx')" by simp
    with Cons.IH [OF \<open>list_all own_mw ms\<close> this] here show ?thesis by simp
  next
    case (Some s)
    then show ?thesis using Cons.prems(2) one here by simp
  qed
qed simp

definition global_limit :: "router_env \<Rightarrow> http_request \<Rightarrow> req_ctx \<Rightarrow> int option \<times> rate_store" where
  "global_limit env rq cx = limit_request (re_incr env) (re_expire env) RateLimit (rq_time rq) (rq_ip rq) (cx_store cx)"

lemma global_chain_run:
  "run_chain env rq full global_chain cx =
    (let cx1 = cx\<lparr>cx_headers := cx_headers cx @ SecurityHeaders (rq_tls rq),
                   cx_cors := Some (CORS (re_cors env) (rq_origin rq) (rq_method rq))\<rparr>
     in if rq_method rq = ''OPTIONS'' then (Some 204, cx1)
        else case global_limit env rq cx of
          (Some st, s) \<Rightarrow> (Some st, cx1\<lparr>cx_store := s\<rparr>)
        | (None, s) \<Rightarrow> (None, Metrics full (cx1\<lparr>cx_store := s\<rparr>)))"
  by (simp add: global_chain_def CORS_def Let_def global_limit_def split: prod.split option.split)

lemma limit_request_status: "limit_request i e l t ip s = (Some st, s') \<Longrightarrow> st = 429"
  by (auto simp: limit_request_def Let_def split: prod.splits if_splits)

text \<open>Serving is the general middleware, and what the route adds to it if that lets the request on.\<close>

definition route_path :: "route option \<Rightarrow> string" where
  "route_path ro = (case ro of None \<Rightarrow> [] | Some r \<Rightarrow> rt_path r)"

definition finish :: "router_env \<Rightarrow> http_request \<Rightarrow> route option \<Rightarrow> req_ctx \<Rightarrow> answer \<times> req_ctx" where
  "finish env rq ro cx =
     (case ro of
        None \<Rightarrow> (Status 404, cx)
      | Some r \<Rightarrow>
          (case run_chain env rq (rt_path r) (own_chain r) cx of
             (Some st, cx') \<Rightarrow> (Status st, cx')
           | (None, cx') \<Rightarrow> (Handler (rt_handler r) (cx_user cx'), cx')))"

lemma ServeHTTP_global:
  "ServeHTTP env (SetupRouter metricsEnv webhooks) rq cx =
    (let ro = dispatch (SetupRouter metricsEnv webhooks) (rq_method rq) (rq_path rq) in
     case run_chain env rq (route_path ro) global_chain cx of
       (Some st, cx') \<Rightarrow> (Status st, cx')
     | (None, cx') \<Rightarrow> finish env rq ro cx')"
proof (cases "dispatch (SetupRouter metricsEnv webhooks) (rq_method rq) (rq_path rq)")
  case None
  then show ?thesis by (simp add: ServeHTTP_def route_path_def finish_def Let_def split: prod.split option.split)
next
  case (Some r)
  have "rt_chain r = global_chain @ own_chain r" using all_route_own(1) dispatch_in [OF Some] by blast
  then show ?thesis
    using run_chain_append [of env rq "rt_path r" global_chain "own_chain r" cx]
    by (simp add: ServeHTTP_def Some route_path_def finish_def split: prod.split option.split)
qed

lemma finish_keeps:
  assumes "ro = dispatch (SetupRouter metricsEnv webhooks) m path" "finish env rq ro cx = (a, cx')"
  shows "cx_headers cx' = cx_headers cx \<and> cx_counted cx' = cx_counted cx"
proof (cases ro)
  case (Some r)
  have "list_all own_mw (own_chain r)" using all_route_own(2) dispatch_in [of _ m path r] assms(1) Some by metis
  then show ?thesis
    using assms(2) Some by (auto simp: finish_def dest: own_chain_keeps split: prod.splits option.splits)
qed (use assms(2) in \<open>simp add: finish_def\<close>)



end
