(* ===== verification/RouterLimits.thy ===== *)
theory RouterLimits
  imports Router
begin

text \<open>
  The limits of a route against the general one: every request of a product page is counted by both. A
  relation between the two counters of a client that every request keeps shows that the limit of the
  product pages is never reached, and a simulation that the router answers as if it were not there.
\<close>

section \<open>The limit of the products\<close>

text \<open>
  What a limiter sees of a counter at a time: the count and the last instant it is live; and what
  a request at time \<open>t\<close> makes of it, \<open>w\<close> being the last instant of a new one.
\<close>

type_synonym window = "(int \<times> time) option"

fun live :: "time \<Rightarrow> string \<Rightarrow> rate_store \<Rightarrow> window" where
  "live t k (MemStore m) =
     (case m k of Some r \<Rightarrow> if t > mr_expires r then None else Some (mr_count r, mr_expires r) | None \<Rightarrow> None)"
| "live t k (RedisStore m) = (case redis_live t k m of Some (n, Some e) \<Rightarrow> Some (n, e - 1) | _ \<Rightarrow> None)"

fun life :: "rate_store \<Rightarrow> duration" where
  "life (MemStore m) = minute"
| "life (RedisStore m) = minute - 1"

definition bump :: "time \<Rightarrow> window \<Rightarrow> window" where
  "bump w v = (case v of None \<Rightarrow> Some (1, w) | Some (n, e) \<Rightarrow> Some (n + 1, e))"

definition cut :: "time \<Rightarrow> window \<Rightarrow> window" where
  "cut t v = (case v of None \<Rightarrow> None | Some (n, e) \<Rightarrow> if t \<le> e then Some (n, e) else None)"

text \<open>Every count is positive, and in Redis every key expires.\<close>

fun store_ok :: "rate_store \<Rightarrow> bool" where
  "store_ok (MemStore m) = mem_inv m"
| "store_ok (RedisStore m) = (\<forall>k n e. m k = Some (n, e) \<longrightarrow> 0 < n \<and> e \<noteq> None)"

lemma live_later: "t \<le> u \<Longrightarrow> store_ok s \<Longrightarrow> live u k s = cut u (live t k s)"
  by (cases s) (force simp: cut_def redis_live_def split: option.splits)+

lemma life_nonneg: "0 \<le> life s"
  by (cases s) simp_all

lemma mem_Incr_live:
  assumes "mem_inv m"
  shows "live t j (MemStore (snd (mem_incr t k minute m))) =
      (if j = k then bump (t + minute) (live t k (MemStore m)) else live t j (MemStore m))"
    "fst (mem_incr t k minute m) = (case live t k (MemStore m) of Some (n, e) \<Rightarrow> n + 1 | None \<Rightarrow> 1)"
  by (auto simp: mem_incr_def bump_def Let_def split: option.splits)

lemma redis_Incr_live:
  assumes "store_ok (RedisStore m)"
  shows "store_ok (RedisStore (snd (redis_incr True True t k minute m)))"
    "live t j (RedisStore (snd (redis_incr True True t k minute m))) =
      (if j = k then bump (t + (minute - 1)) (live t k (RedisStore m)) else live t j (RedisStore m))"
    "fst (redis_incr True True t k minute m) = (case live t k (RedisStore m) of Some (n, e) \<Rightarrow> n + 1 | None \<Rightarrow> 1)"
proof -
  have "redis_live t k m = None \<or> (\<exists>n e. redis_live t k m = Some (n, Some e) \<and> t < e \<and> 0 < n)"
    using assms by (cases "m k") (fastforce simp: redis_live_def split: option.splits if_splits)+
  note now = this
  show "store_ok (RedisStore (snd (redis_incr True True t k minute m)))"
    using now assms by (elim disjE exE) (auto simp: redis_incr_def Let_def split: if_splits)
  show "live t j (RedisStore (snd (redis_incr True True t k minute m))) =
      (if j = k then bump (t + (minute - 1)) (live t k (RedisStore m)) else live t j (RedisStore m))"
    "fst (redis_incr True True t k minute m) = (case live t k (RedisStore m) of Some (n, e) \<Rightarrow> n + 1 | None \<Rightarrow> 1)"
    using now by (auto simp: redis_incr_def bump_def Let_def redis_live_def [of t _ "m(k \<mapsto> _)"] redis_live_def [of t j])
qed

lemma Incr_live:
  assumes "store_ok s"
  shows "store_ok (snd (rs_Incr True True t k minute s))" "life (snd (rs_Incr True True t k minute s)) = life s"
    "live t j (snd (rs_Incr True True t k minute s)) = (if j = k then bump (t + life s) (live t k s) else live t j s)"
    "fst (rs_Incr True True t k minute s) = (case live t k s of Some (n, e) \<Rightarrow> n + 1 | None \<Rightarrow> 1)"
proof -
  show "store_ok (snd (rs_Incr True True t k minute s))"
  proof (cases s)
    case (RedisStore m)
    with assms redis_Incr_live(1) [of m t k] show ?thesis by (simp add: case_prod_beta Let_def)
  next
    case (MemStore m)
    with assms mem.incr_inv [of m t k minute] show ?thesis by (simp add: case_prod_beta Let_def)
  qed
  show "life (snd (rs_Incr True True t k minute s)) = life s" by (cases s) (simp_all add: case_prod_beta Let_def)
  show "live t j (snd (rs_Incr True True t k minute s)) = (if j = k then bump (t + life s) (live t k s) else live t j s)"
    "fst (rs_Incr True True t k minute s) = (case live t k s of Some (n, e) \<Rightarrow> n + 1 | None \<Rightarrow> 1)"
    using assms mem_Incr_live redis_Incr_live(2,3)
    by (cases s; simp add: case_prod_beta Let_def del: live.simps)+
qed

text \<open>
  How the counters of a client for all requests and for products stand to each other: \<open>g\<close> and \<open>q\<close> are
  their windows at time \<open>t\<close>. A window of products that opened in the window of all requests counts at
  most what that counts, up to its limit; one that opened before has at most 300 from then.
\<close>

definition pair_inv :: "duration \<Rightarrow> time \<Rightarrow> window \<Rightarrow> window \<Rightarrow> bool" where
  "pair_inv w t g q =
     (case g of
        None \<Rightarrow> (case q of None \<Rightarrow> True | Some (n, e) \<Rightarrow> n \<le> 300 \<and> e < t + w)
      | Some (n', e') \<Rightarrow>
          1 \<le> n' \<and> t \<le> e' \<and> e' \<le> t + w \<and>
          (case q of
             None \<Rightarrow> True
           | Some (n, e) \<Rightarrow> e \<le> e' + w \<and> (if e' \<le> e then n \<le> min n' 300 else n \<le> 300 + min n' 300)))"

lemma pair_inv_later:
  "pair_inv w t g q \<Longrightarrow> t \<le> u \<Longrightarrow> 0 \<le> w \<Longrightarrow> pair_inv w u (cut u g) (cut u q)"
  by (cases g; cases q) (auto simp: pair_inv_def cut_def split: if_splits)

lemma pair_inv_global: "pair_inv w t g q \<Longrightarrow> 0 \<le> w \<Longrightarrow> pair_inv w t (bump (t + w) g) q"
  by (cases g; cases q) (auto simp: pair_inv_def bump_def split: if_splits)

lemma pair_inv_product:
  assumes "pair_inv w t g q" "0 \<le> w" "bump (t + w) g = Some (n', e')" "n' \<le> 300"
  shows "pair_inv w t (bump (t + w) g) (bump (t + w) q)" "\<exists>n e. bump (t + w) q = Some (n, e) \<and> n \<le> 600"
  using assms by (cases g; cases q; auto simp: pair_inv_def bump_def split: if_splits)+

definition limits_inv :: "time \<Rightarrow> rate_store \<Rightarrow> bool" where
  "limits_inv t s =
     (store_ok s \<and>
      (\<forall>ip. pair_inv (life s) t (live t (limit_key (limiter_name RateLimit) ip) s)
         (live t (limit_key (limiter_name ProductRateLimit) ip) s)))"

lemma limit_request_live:
  "limit_request True True l t ip s =
    (if fst (rs_Incr True True t (limit_key (limiter_name l) ip) minute s) \<le> limiter_cap l then None else Some 429,
     snd (rs_Incr True True t (limit_key (limiter_name l) ip) minute s))"
  by (simp add: limit_request_def rs_Allow_def case_prod_beta Let_def)

lemma fst_Incr_bump:
  "store_ok s \<Longrightarrow> \<exists>e. bump (t + life s) (live t k s) = Some (fst (rs_Incr True True t k minute s), e)"
  by (auto simp: Incr_live(4) bump_def split: option.splits)

lemma limits_inv_later: "limits_inv t s \<Longrightarrow> t \<le> u \<Longrightarrow> limits_inv u s"
  unfolding limits_inv_def by (auto simp: live_later [of t u] intro!: pair_inv_later life_nonneg)

lemma limits_inv_other:
  assumes "limits_inv t s" "limit_request True True l t ip s = (st, s')" "l \<noteq> RateLimit" "l \<noteq> ProductRateLimit"
  shows "limits_inv t s'"
proof -
  let ?k = "limit_key (limiter_name l) ip"
  have s': "s' = snd (rs_Incr True True t ?k minute s)" and ok: "store_ok s"
    using assms(1,2) by (simp_all add: limit_request_live limits_inv_def)
  have "live t (limit_key (limiter_name RateLimit) jp) s' = live t (limit_key (limiter_name RateLimit) jp) s"
    "live t (limit_key (limiter_name ProductRateLimit) jp) s' = live t (limit_key (limiter_name ProductRateLimit) jp) s" for jp
    using assms(3,4) unfolding s' Incr_live(3) [OF ok] limit_key_inj by auto
  then show ?thesis using assms(1) Incr_live(1,2) [OF ok] by (simp add: limits_inv_def s')
qed

text \<open>Where the general limit lets a request on, the limit of the products does so too.\<close>

lemma limits_inv_global:
  assumes "limits_inv t s" "limit_request True True RateLimit t ip s = (st, s')"
  shows "limits_inv t s'"
    and "st = None \<Longrightarrow> limit_request True True ProductRateLimit t ip s' = (st', s'') \<Longrightarrow> st' = None \<and> limits_inv t s''"
proof -
  let ?g = "limit_key (limiter_name RateLimit)" and ?q = "limit_key (limiter_name ProductRateLimit)"
  have ok: "store_ok s" and inv: "pair_inv (life s) t (live t (?g jp) s) (live t (?q jp) s)" for jp
    using assms(1) by (simp_all add: limits_inv_def)
  have s': "s' = snd (rs_Incr True True t (?g ip) minute s)" using assms(2) by (simp add: limit_request_live)
  have ok': "store_ok s'" and life': "life s' = life s" using Incr_live(1,2) [OF ok] by (simp_all add: s')
  have views: "live t (?g jp) s' = (if jp = ip then bump (t + life s) (live t (?g ip) s) else live t (?g jp) s)"
    "live t (?q jp) s' = live t (?q jp) s" for jp
    unfolding s' Incr_live(3) [OF ok] limit_key_inj by auto
  have "pair_inv (life s) t (live t (?g jp) s') (live t (?q jp) s')" for jp
    using inv [of jp] pair_inv_global [OF inv life_nonneg] unfolding views by simp
  then show "limits_inv t s'" using ok' life' by (simp add: limits_inv_def)
  assume "st = None" and product: "limit_request True True ProductRateLimit t ip s' = (st', s'')"
  then have count: "fst (rs_Incr True True t (?g ip) minute s) \<le> 300"
    using assms(2) by (auto simp: limit_request_live split: if_splits)
  obtain e where g: "bump (t + life s) (live t (?g ip) s) = Some (fst (rs_Incr True True t (?g ip) minute s), e)"
    using fst_Incr_bump [OF ok] by blast
  note both = pair_inv_product [OF inv [of ip] life_nonneg g count]
  obtain e' where q: "bump (t + life s) (live t (?q ip) s) = Some (fst (rs_Incr True True t (?q ip) minute s'), e')"
    using fst_Incr_bump [OF ok', of t "?q ip"] unfolding life' views by blast
  have s'': "s'' = snd (rs_Incr True True t (?q ip) minute s')" and "st' = None"
    using product both(2) q by (auto simp: limit_request_live)
  have "live t (?g jp) s'' = (if jp = ip then bump (t + life s) (live t (?g ip) s) else live t (?g jp) s)"
    "live t (?q jp) s'' = (if jp = ip then bump (t + life s) (live t (?q ip) s) else live t (?q jp) s)" for jp
    unfolding s'' Incr_live(3) [OF ok'] limit_key_inj views life' by auto
  then have "pair_inv (life s) t (live t (?g jp) s'') (live t (?q jp) s'')" for jp
    using inv [of jp] both(1) by simp
  then show "st' = None \<and> limits_inv t s''"
    using \<open>st' = None\<close> Incr_live(1,2) [OF ok'] life' by (simp add: limits_inv_def s'')
qed

text \<open>Two stores that a request cannot tell apart, except by the counters of the products.\<close>

definition alike :: "time \<Rightarrow> rate_store \<Rightarrow> rate_store \<Rightarrow> bool" where
  "alike t s s2 =
     (store_ok s2 \<and> life s = life s2 \<and>
      (\<forall>l ip. l \<noteq> ProductRateLimit \<longrightarrow>
        live t (limit_key (limiter_name l) ip) s = live t (limit_key (limiter_name l) ip) s2))"

definition alike_ctx :: "time \<Rightarrow> req_ctx \<Rightarrow> req_ctx \<Rightarrow> bool" where
  "alike_ctx t cx cx2 = (limits_inv t (cx_store cx) \<and> alike t (cx_store cx) (cx_store cx2) \<and> cx_user cx = cx_user cx2)"

lemma alike_later: "limits_inv t s \<Longrightarrow> alike t s s2 \<Longrightarrow> t \<le> u \<Longrightarrow> alike u s s2"
  unfolding alike_def limits_inv_def by (auto simp: live_later [of t u])

lemma alike_limit:
  assumes "store_ok s" "alike t s s2" "l \<noteq> ProductRateLimit"
    "limit_request True True l t ip s = (st, s')" "limit_request True True l t ip s2 = (st2, s2')"
  shows "st2 = st \<and> alike t s' s2'"
proof -
  let ?k = "limit_key (limiter_name l) ip"
  have ok2: "store_ok s2" and same: "life s = life s2" "live t ?k s = live t ?k s2"
    using assms(2,3) by (simp_all add: alike_def)
  have "fst (rs_Incr True True t ?k minute s) = fst (rs_Incr True True t ?k minute s2)"
    unfolding Incr_live(4) [OF assms(1)] Incr_live(4) [OF ok2] same ..
  moreover have "alike t (snd (rs_Incr True True t ?k minute s)) (snd (rs_Incr True True t ?k minute s2))"
    using assms(2) Incr_live(1,2) [OF ok2] Incr_live(2) [OF assms(1)]
    by (simp add: alike_def Incr_live(3) [OF assms(1)] Incr_live(3) [OF ok2] same)
  ultimately show ?thesis using assms(4,5) by (auto simp: limit_request_live)
qed

lemma alike_product:
  assumes "store_ok s" "alike t s s2" "limit_request True True ProductRateLimit t ip s = (st, s')"
  shows "alike t s' s2"
proof -
  have "limit_key (limiter_name l) jp \<noteq> limit_key (limiter_name ProductRateLimit) ip" if "l \<noteq> ProductRateLimit" for l jp
    using that by (simp add: limit_key_inj del: limiter_name.simps)
  then show ?thesis
    using assms Incr_live(2,3) [OF assms(1)] by (auto simp: alike_def limit_request_live)
qed

text \<open>An environment whose counter answers.\<close>

definition counting :: "router_env \<Rightarrow> bool" where
  "counting env = (re_incr env \<and> re_expire env)"

lemma alike_step:
  assumes "counting env" "alike_ctx (rq_time rq) cx cx2" "m \<noteq> Limit ProductRateLimit"
    "mw_step env rq full m cx = (st, cx')" "mw_step env rq full m cx2 = (st2, cx2')"
  shows "st2 = st \<and> alike_ctx (rq_time rq) cx' cx2'"
proof (cases m)
  case (Limit l)
  obtain s1 where one: "limit_request True True l (rq_time rq) (rq_ip rq) (cx_store cx) = (st, s1)"
    "cx' = cx\<lparr>cx_store := s1\<rparr>"
    using assms(1,4) Limit by (auto simp: counting_def split: prod.splits)
  obtain s2 where two: "limit_request True True l (rq_time rq) (rq_ip rq) (cx_store cx2) = (st2, s2)"
    "cx2' = cx2\<lparr>cx_store := s2\<rparr>"
    using assms(1,5) Limit by (auto simp: counting_def split: prod.splits)
  have inv: "limits_inv (rq_time rq) (cx_store cx)" and al: "alike (rq_time rq) (cx_store cx) (cx_store cx2)"
    and user: "cx_user cx = cx_user cx2" using assms(2) by (simp_all add: alike_ctx_def)
  then have ok: "store_ok (cx_store cx)" by (simp add: limits_inv_def)
  have "limits_inv (rq_time rq) s1"
    using limits_inv_other [OF inv one(1)] limits_inv_global(1) [OF inv, of _ _ s1] one(1) assms(3) Limit
    by (cases "l = RateLimit") auto
  with alike_limit [OF ok al _ one(1) two(1)] user one(2) two(2) assms(3) Limit show ?thesis
    by (simp add: alike_ctx_def)
qed (use assms in \<open>auto simp: alike_ctx_def Metrics_def Let_def\<close>)

lemma alike_chain:
  assumes "counting env" "alike_ctx (rq_time rq) cx cx2" "Limit ProductRateLimit \<notin> set ms"
    "run_chain env rq full ms cx = (st, cx')" "run_chain env rq full ms cx2 = (st2, cx2')"
  shows "st2 = st \<and> alike_ctx (rq_time rq) cx' cx2'"
  using assms(2-5)
proof (induction ms arbitrary: cx cx2)
  case (Cons m ms)
  obtain s1 cx1 where one: "mw_step env rq full m cx = (s1, cx1)" by fastforce
  obtain s2 cx1' where two: "mw_step env rq full m cx2 = (s2, cx1')" by fastforce
  have "m \<noteq> Limit ProductRateLimit" using Cons.prems(2) by auto
  from alike_step [OF assms(1) Cons.prems(1) this one two] have same: "s2 = s1" "alike_ctx (rq_time rq) cx1 cx1'" by auto
  show ?case
  proof (cases s1)
    case None
    with Cons.IH [OF same(2)] Cons.prems one two same(1) show ?thesis by simp
  next
    case (Some s)
    with Cons.prems one two same show ?thesis by auto
  qed
qed simp

text \<open>The router without the limit of the products.\<close>

definition without_product_limit :: "route list \<Rightarrow> route list" where
  "without_product_limit rs = map (\<lambda>r. r\<lparr>rt_chain := filter (\<lambda>m. m \<noteq> Limit ProductRateLimit) (rt_chain r)\<rparr>) rs"

lemma find_map: "find P (map f xs) = map_option f (find (P \<circ> f) xs)"
  by (induction xs) simp_all

lemma dispatch_without:
  "dispatch (without_product_limit rs) m path =
    map_option (\<lambda>r. r\<lparr>rt_chain := filter (\<lambda>m. m \<noteq> Limit ProductRateLimit) (rt_chain r)\<rparr>) (dispatch rs m path)"
  by (simp add: dispatch_def without_product_limit_def filter_map comp_def route_matches_def [abs_def] find_map list_ex_iff Let_def)

fun serve_all :: "router_env \<Rightarrow> route list \<Rightarrow> http_request list \<Rightarrow> req_ctx \<Rightarrow> answer list \<times> req_ctx" where
  "serve_all env rs [] cx = ([], cx)"
| "serve_all env rs (rq # rqs) cx =
     (let (a, cx1) = ServeHTTP env rs rq (new_request cx); (as, cx2) = serve_all env rs rqs cx1 in (a # as, cx2))"

lemma passed_global:
  assumes "counting env" "alike_ctx (rq_time rq) cx cx2"
    and "run_chain env rq full global_chain cx = (None, cx')" "run_chain env rq full [Limit ProductRateLimit] cx' = (st, cx'')"
  shows "st = None \<and> limits_inv (rq_time rq) (cx_store cx'') \<and> cx_user cx'' = cx_user cx' \<and>
    (\<forall>s2. alike (rq_time rq) (cx_store cx') s2 \<longrightarrow> alike (rq_time rq) (cx_store cx'') s2)"
proof -
  obtain s where lim: "global_limit env rq cx = (None, s)" and cx': "cx_store cx' = s"
    using assms(3) by (auto simp: global_chain_run Let_def Metrics_def split: if_splits prod.splits option.splits)
  have limit: "limit_request True True RateLimit (rq_time rq) (rq_ip rq) (cx_store cx) = (None, s)"
    using lim assms(1) by (simp add: global_limit_def counting_def)
  have inv: "limits_inv (rq_time rq) (cx_store cx)" using assms(2) by (simp add: alike_ctx_def)
  obtain s'' where product: "limit_request True True ProductRateLimit (rq_time rq) (rq_ip rq) s = (st, s'')"
    "cx'' = cx'\<lparr>cx_store := s''\<rparr>"
    using assms(1,4) cx' by (auto simp: counting_def split: prod.splits option.splits)
  have "store_ok s" using limits_inv_global(1) [OF inv limit] by (simp add: limits_inv_def)
  then show ?thesis
    using limits_inv_global(2) [OF inv limit refl product(1)] product(2) cx' alike_product [OF _ _ product(1)] by simp
qed

lemma finish_alike:
  assumes "counting env" "alike_ctx (rq_time rq) cx cx2"
    and "run_chain env rq (route_path ro) global_chain cx0 = (None, cx)" "alike_ctx (rq_time rq) cx0 cx02"
    and "\<And>r. ro = Some r \<Longrightarrow> own_chain r = [Limit ProductRateLimit] \<or> Limit ProductRateLimit \<notin> set (own_chain r)"
    and "finish env rq ro cx = (a, cx')"
    and "finish env rq (map_option (\<lambda>r. r\<lparr>rt_chain := global_chain @ filter (\<lambda>m. m \<noteq> Limit ProductRateLimit) (own_chain r)\<rparr>) ro) cx2 =
      (a2, cx2')"
  shows "a2 = a \<and> alike_ctx (rq_time rq) cx' cx2'"
proof (cases ro)
  case None
  then show ?thesis using assms(2,6,7) by (simp add: finish_def)
next
  case (Some r)
  have own: "own_chain (r\<lparr>rt_chain := global_chain @ ms\<rparr>) = ms" for ms by (simp add: own_chain_def)
  show ?thesis
  proof (cases "own_chain r = [Limit ProductRateLimit]")
    case True
    obtain st cx1 where run: "run_chain env rq (rt_path r) [Limit ProductRateLimit] cx = (st, cx1)" by fastforce
    from assms(3) Some have "run_chain env rq (rt_path r) global_chain cx0 = (None, cx)" by (simp add: route_path_def)
    note passed = passed_global [OF assms(1,4) this run]
    then have "a = Handler (rt_handler r) (cx_user cx)" "cx' = cx1"
      using assms(6) run True by (simp_all add: finish_def Some del: run_chain.simps)
    moreover have "a2 = Handler (rt_handler r) (cx_user cx2)" "cx2' = cx2"
      using assms(7) True own [of "[]"] by (auto simp: finish_def Some)
    ultimately show ?thesis using passed assms(2) by (simp add: alike_ctx_def)
  next
    case False
    then have no: "Limit ProductRateLimit \<notin> set (own_chain r)" using assms(5) Some by blast
    then have filt: "filter (\<lambda>m. m \<noteq> Limit ProductRateLimit) (own_chain r) = own_chain r" by (auto intro: filter_True)
    obtain st cx1 where one: "run_chain env rq (rt_path r) (own_chain r) cx = (st, cx1)" by fastforce
    obtain st2 cx3 where two: "run_chain env rq (rt_path r) (own_chain r) cx2 = (st2, cx3)" by fastforce
    from alike_chain [OF assms(1,2) no one two] assms(6,7) one two show ?thesis
      by (auto simp: finish_def Some own filt alike_ctx_def split: option.splits)
  qed
qed

lemma global_chain_full:
  assumes "run_chain env rq full global_chain cx = (st, cx')"
  shows "\<exists>cx''. run_chain env rq full' global_chain cx = (st, cx'') \<and> cx_store cx'' = cx_store cx' \<and> cx_user cx'' = cx_user cx'"
  using assms by (auto simp: global_chain_run Let_def Metrics_def split: if_splits prod.splits option.splits)

lemma serve_alike:
  fixes metricsEnv webhooks
  defines "rs \<equiv> SetupRouter metricsEnv webhooks"
  assumes "counting env" "alike_ctx (rq_time rq) cx cx2"
    and "ServeHTTP env rs rq cx = (a, cx')" "ServeHTTP env (without_product_limit rs) rq cx2 = (a2, cx2')"
  shows "a2 = a \<and> alike_ctx (rq_time rq) cx' cx2'"
proof -
  let ?ro = "dispatch rs (rq_method rq) (rq_path rq)"
  let ?less = "\<lambda>r. r\<lparr>rt_chain := global_chain @ filter (\<lambda>m. m \<noteq> Limit ProductRateLimit) (own_chain r)\<rparr>"
  have chains: "rt_chain r = global_chain @ own_chain r" "own_chain r = [Limit ProductRateLimit] \<or> Limit ProductRateLimit \<notin> set (own_chain r)"
    if "?ro = Some r" for r
    using all_route_own(1,3) dispatch_in [OF that] unfolding rs_def by blast+
  have "filter (\<lambda>m. m \<noteq> Limit ProductRateLimit) global_chain = global_chain" by (simp add: global_chain_def)
  then have "?ro = Some r \<Longrightarrow> filter (\<lambda>m. m \<noteq> Limit ProductRateLimit) (rt_chain r) =
      global_chain @ filter (\<lambda>m. m \<noteq> Limit ProductRateLimit) (own_chain r)" for r
    using chains(1) [of r] by (metis filter_append)
  then have disp: "dispatch (without_product_limit rs) (rq_method rq) (rq_path rq) = map_option ?less ?ro"
    unfolding dispatch_without by (cases ?ro) auto
  have path: "route_path (map_option ?less ?ro) = route_path ?ro" by (cases ?ro) (simp_all add: route_path_def)
  obtain st cx1 where one: "run_chain env rq (route_path ?ro) global_chain cx = (st, cx1)" by fastforce
  obtain st2 cx3 where two: "run_chain env rq (route_path ?ro) global_chain cx2 = (st2, cx3)" by fastforce
  have serve2: "ServeHTTP env (without_product_limit rs) rq cx2 =
      (case (st2, cx3) of (Some st, cx') \<Rightarrow> (Status st, cx') | (None, cx') \<Rightarrow> finish env rq (map_option ?less ?ro) cx')"
  proof (cases ?ro)
    case None
    then show ?thesis using two disp
      by (simp add: ServeHTTP_def route_path_def finish_def split: prod.split option.split)
  next
    case (Some r)
    then show ?thesis
      using two disp run_chain_append [of env rq "rt_path r" global_chain "own_chain (?less r)" cx2]
      by (simp add: ServeHTTP_def route_path_def finish_def own_chain_def split: prod.split option.split)
  qed
  have "Limit ProductRateLimit \<notin> set global_chain" by (simp add: global_chain_def)
  from alike_chain [OF assms(2,3) this one two] have same: "st2 = st" "alike_ctx (rq_time rq) cx1 cx3" by auto
  show ?thesis
  proof (cases st)
    case (Some s)
    then show ?thesis
      using assms(4,5) one same unfolding serve2 unfolding rs_def ServeHTTP_global by (auto simp: Let_def)
  next
    case None
    then have "finish env rq ?ro cx1 = (a, cx')"
      using assms(4) one unfolding rs_def ServeHTTP_global by (simp add: Let_def)
    moreover have "finish env rq (map_option ?less ?ro) cx3 = (a2, cx2')"
      using assms(5) None same(1) unfolding serve2 by simp
    ultimately show ?thesis
      using finish_alike [OF assms(2) same(2) _ assms(3) chains(2), where ro = ?ro] one None by blast
  qed
qed

lemma serve_all_alike:
  fixes metricsEnv webhooks
  defines "rs \<equiv> SetupRouter metricsEnv webhooks"
  assumes "counting env" "limits_inv t (cx_store cx)" "alike t (cx_store cx) (cx_store cx2)"
    and "sorted (t # map rq_time rqs)"
  shows "fst (serve_all env (without_product_limit rs) rqs cx2) = fst (serve_all env rs rqs cx)"
  using assms(3-)
proof (induction rqs arbitrary: t cx cx2)
  case (Cons rq rqs)
  have "alike_ctx (rq_time rq) (new_request cx) (new_request cx2)"
    using limits_inv_later [OF Cons.prems(1)] alike_later [OF Cons.prems(1,2)] Cons.prems(3)
    by (simp add: alike_ctx_def new_request_def)
  moreover obtain a cx1 where one: "ServeHTTP env rs rq (new_request cx) = (a, cx1)" by fastforce
  moreover obtain a2 cx1' where two: "ServeHTTP env (without_product_limit rs) rq (new_request cx2) = (a2, cx1')" by fastforce
  ultimately have "a2 = a" "alike_ctx (rq_time rq) cx1 cx1'"
    using serve_alike [OF assms(2)] unfolding rs_def by blast+
  moreover have "sorted (rq_time rq # map rq_time rqs)" using Cons.prems(3) by simp
  ultimately show ?case
    using Cons.IH [of "rq_time rq" cx1 cx1'] one two by (simp add: alike_ctx_def case_prod_beta Let_def)
qed simp



end
