(* ===== verification/ImageSync.thy ===== *)
theory ImageSync
  imports ProductStore Text
begin

text \<open>
  internal/services/image_sync.go: the images of the products, fetched from Moysklad into a directory of
  the server. The state is the tables and the directory, a map from file names to contents. What the
  client answers is given: the address of a product's first image, if it has one, and the file at an
  address with its type. The goroutines of a batch work on different rows and files; they are done one
  after the other, in the order of the list. A write that fails may leave a part of the file.
\<close>

section \<open>File names\<close>

text \<open>\<open>filepath.Base\<close>.\<close>

definition base :: "string \<Rightarrow> string" where
  "base path =
     (if path = [] then ''.''
      else let t = rev (dropWhile (\<lambda>ch. ch = CHR ''/'') (rev path))
           in if t = [] then ''/'' else rev (takeWhile (\<lambda>ch. ch \<noteq> CHR ''/'') (rev t)))"

definition is_local :: "string option \<Rightarrow> bool" where
  "is_local url = (case url of Some u \<Rightarrow> prefix ''/static'' u | None \<Rightarrow> False)"

type_synonym directory = "string \<rightharpoonup> string"

text \<open>\<open>os.Stat\<close> of a name in the directory; the names of directories are there too.\<close>

definition file_exists :: "directory \<Rightarrow> string \<Rightarrow> bool" where
  "file_exists files name = (name \<in> dom files \<or> name \<in> {''.'', ''..'', ''/''})"

definition image_ext :: "string \<Rightarrow> string" where
  "image_ext contentType =
     (if sublist ''png'' contentType then ''.png''
      else if sublist ''gif'' contentType then ''.gif''
      else if sublist ''webp'' contentType then ''.webp''
      else ''.jpg'')"

definition image_name :: "id64 \<Rightarrow> string \<Rightarrow> string" where
  "image_name k contentType = show_int k @ image_ext contentType"

definition local_url :: "string \<Rightarrow> string" where
  "local_url filename = ''/static/images/products/'' @ filename"

section \<open>One image\<close>

record image_env =
  ie_client :: bool
  ie_free :: bool
  ie_mkdir :: bool
  ie_read :: conn
  ie_cancelled :: "nat \<Rightarrow> bool"
  ie_url :: "string \<Rightarrow> string result"
  ie_file :: "string \<Rightarrow> (string \<times> string) result"
  ie_write :: "string \<Rightarrow> bool"
  ie_partial :: "string \<Rightarrow> string option"
  ie_conn :: conn
  ie_now :: "nat \<Rightarrow> time"
  ie_reread :: conn
  ie_list :: bool
  ie_remove :: "string \<Rightarrow> bool"

type_synonym image_state = "shop_db \<times> directory"

datatype download = Downloaded | NoImage | Failed error

text \<open>\<open>k\<close> is the number of the update among the statements of the run.\<close>

definition downloadProductImage :: "image_env \<Rightarrow> nat \<Rightarrow> product \<Rightarrow> image_state \<Rightarrow> download \<times> image_state" where
  "downloadProductImage env k p s =
     (let (db, files) = s in
      case ie_url env (case p_moysklad_id p of Some ms \<Rightarrow> ms | None \<Rightarrow> []) of
        Inl e \<Rightarrow> (Failed e, s)
      | Inr url \<Rightarrow>
          if url = [] then (NoImage, s)
          else case ie_file env url of
            Inl e \<Rightarrow> (Failed e, s)
          | Inr (content, contentType) \<Rightarrow>
              let filename = image_name (p_id p) contentType in
              if \<not> ie_write env filename then
                (Failed (Rejected ''failed to write file''),
                 db, case ie_partial env filename of Some part \<Rightarrow> files(filename \<mapsto> part) | None \<Rightarrow> files)
              else
                let files' = files(filename \<mapsto> content);
                    p' = p\<lparr>p_image_url := Some (local_url filename), p_updated_at := ie_now env k\<rparr>
                in case product_Update (ie_conn env) k (ie_now env k) p' (p_id p) db of
                     (Inl e, db') \<Rightarrow> (Failed e, db', files')
                   | (Inr row, db') \<Rightarrow> (Downloaded, db', files'))"

section \<open>A run\<close>

definition wants_image :: "directory \<Rightarrow> product \<Rightarrow> bool" where
  "wants_image files p =
     (case p_moysklad_id p of
        None \<Rightarrow> False
      | Some ms \<Rightarrow>
          ms \<noteq> [] \<and>
          \<not> (is_local (p_image_url p) \<and>
             (case p_image_url p of Some u \<Rightarrow> file_exists files (base u) | None \<Rightarrow> False)))"

record image_counts =
  im_downloaded :: nat
  im_skipped :: nat
  im_failed :: nat

fun count_download :: "download \<Rightarrow> image_counts \<Rightarrow> image_counts" where
  "count_download Downloaded n = n\<lparr>im_downloaded := im_downloaded n + 1\<rparr>"
| "count_download NoImage n = n\<lparr>im_skipped := im_skipped n + 1\<rparr>"
| "count_download (Failed e) n = n\<lparr>im_failed := im_failed n + 1\<rparr>"

text \<open>The loop over batches of five, which looks at the context before each.\<close>

fun download_all ::
  "image_env \<Rightarrow> nat \<Rightarrow> product list \<Rightarrow> image_counts \<Rightarrow> image_state \<Rightarrow> image_counts result \<times> image_state" where
  "download_all env k [] n s = (Inr n, s)"
| "download_all env k (p # ps) n s =
     (if k mod 5 = 0 \<and> ie_cancelled env (k div 5) then (Inl (Rejected ''context canceled''), s)
      else let (r, s') = downloadProductImage env k p s
           in download_all env (Suc k) ps (count_download r n) s')"

definition no_images :: image_counts where
  "no_images = \<lparr>im_downloaded = 0, im_skipped = 0, im_failed = 0\<rparr>"

definition SyncImages :: "image_env \<Rightarrow> image_state \<Rightarrow> image_counts result \<times> image_state" where
  "SyncImages env s =
     (let (db, files) = s in
      if \<not> ie_client env then (Inl (Rejected ''moysklad client not initialized''), s)
      else if \<not> ie_free env then (Inl (Rejected ''image sync already running''), s)
      else if \<not> ie_mkdir env then (Inl (Rejected ''failed to create images directory''), s)
      else case product_GetAll (ie_read env) 100000 0 db of
        Inl e \<Rightarrow> (Inl e, s)
      | Inr ps \<Rightarrow> download_all env 0 (filter (wants_image files) ps) no_images s)"

definition known_files :: "product list \<Rightarrow> string set" where
  "known_files ps = set (map (\<lambda>p. base (the (p_image_url p))) (filter (\<lambda>p. is_local (p_image_url p)) ps))"

definition cleanupOrphanedFiles :: "image_env \<Rightarrow> image_state \<Rightarrow> unit result \<times> image_state" where
  "cleanupOrphanedFiles env s =
     (let (db, files) = s in
      case product_GetAll (ie_reread env) 100000 0 db of
        Inl e \<Rightarrow> (Inl e, s)
      | Inr ps \<Rightarrow>
          if \<not> ie_list env then (Inl (Rejected ''failed to read images dir''), s)
          else (Inr (), db, \<lambda>name. if name \<notin> known_files ps \<and> ie_remove env name then None else files name))"

definition SyncImagesWithCleanup :: "image_env \<Rightarrow> image_state \<Rightarrow> unit result \<times> image_state" where
  "SyncImagesWithCleanup env s =
     (case SyncImages env s of
        (Inl e, s') \<Rightarrow> (Inl e, s')
      | (Inr n, s') \<Rightarrow> cleanupOrphanedFiles env s')"

section \<open>Names round trip\<close>

lemma decimal_no_slash: "CHR ''/'' \<notin> set (decimal n)"
proof
  assume "CHR ''/'' \<in> set (decimal n)"
  then have "is_digit (CHR ''/'')" using decimal_digits [of n] by (simp add: list_all_iff)
  then show False by (simp add: is_digit_def)
qed

lemma image_name_no_slash: "CHR ''/'' \<notin> set (image_name k ty)"
  using decimal_no_slash by (auto simp: image_name_def show_int_def image_ext_def)

lemma image_name_nonempty: "image_name k ty \<noteq> []"
  by (simp add: image_name_def image_ext_def)

text \<open>The file name is what \<open>Base\<close> reads back from the address written to the row.\<close>

lemma base_local_url:
  assumes "CHR ''/'' \<notin> set filename" "filename \<noteq> []"
  shows "base (local_url filename) = filename"
proof -
  have rev: "rev filename \<noteq> []" "CHR ''/'' \<notin> set (rev filename)" using assms by simp_all
  then obtain ch t where r: "rev filename = ch # t" by (cases "rev filename") auto
  have drop: "dropWhile (\<lambda>ch. ch = CHR ''/'') (rev (local_url filename)) = rev (local_url filename)"
    using rev(2) r by (auto simp: local_url_def)
  have "takeWhile (\<lambda>ch. ch \<noteq> CHR ''/'') (rev filename @ CHR ''/'' # u) = rev filename" for u
    using rev(2) by (simp add: takeWhile_tail) (metis (mono_tags, lifting) takeWhile_eq_all_conv)
  then have "takeWhile (\<lambda>ch. ch \<noteq> CHR ''/'') (rev (local_url filename)) = rev filename"
    by (simp add: local_url_def)
  with drop show ?thesis by (simp add: base_def Let_def local_url_def)
qed

lemma is_local_url: "is_local (Some (local_url filename))"
  by (simp add: is_local_def local_url_def)

section \<open>What a run does\<close>

definition has_image :: "directory \<Rightarrow> product \<Rightarrow> bool" where
  "has_image files p = (\<exists>u. p_image_url p = Some u \<and> is_local (Some u) \<and> base u \<in> dom files)"

lemma has_image_no_want: "has_image files p \<Longrightarrow> \<not> wants_image files p"
  by (auto simp: has_image_def wants_image_def file_exists_def split: option.split)

lemma has_image_mono: "has_image files p \<Longrightarrow> dom files \<subseteq> dom files' \<Longrightarrow> has_image files' p"
  unfolding has_image_def by blast

lemma wants_image_mono: "wants_image files' p \<Longrightarrow> dom files \<subseteq> dom files' \<Longrightarrow> wants_image files p"
  by (auto simp: wants_image_def file_exists_def split: option.splits)

text \<open>
  What a step makes of the tables and the directory: files are only added, rows keep their keys, and
  only rows with a key of \<open>ks\<close> change; those with a key of \<open>good\<close> have an image.
\<close>

definition image_change :: "id64 set \<Rightarrow> id64 set \<Rightarrow> image_state \<Rightarrow> image_state \<Rightarrow> bool" where
  "image_change ks good s s' =
     (dom (snd s) \<subseteq> dom (snd s') \<and>
      (\<exists>f. products (fst s') = map f (products (fst s)) \<and> (\<forall>r. p_id (f r) = p_id r) \<and>
         (\<forall>r. p_id r \<notin> ks \<longrightarrow> f r = r) \<and> (\<forall>r. p_id r \<in> good \<longrightarrow> has_image (snd s') (f r))))"

lemma image_change_refl: "image_change ks {} s s"
  unfolding image_change_def by (auto intro: exI [of _ id])

lemma image_change_trans:
  assumes "image_change ks good s s1" "image_change ks' good' s1 s2" "good \<inter> ks' = {}"
  shows "image_change (ks \<union> ks') (good \<union> good') s s2"
proof -
  obtain f where f: "products (fst s1) = map f (products (fst s))" "\<And>r. p_id (f r) = p_id r"
    "\<And>r. p_id r \<notin> ks \<Longrightarrow> f r = r" "\<And>r. p_id r \<in> good \<Longrightarrow> has_image (snd s1) (f r)"
    using assms(1) by (auto simp: image_change_def)
  obtain g where g: "products (fst s2) = map g (products (fst s1))" "\<And>r. p_id (g r) = p_id r"
    "\<And>r. p_id r \<notin> ks' \<Longrightarrow> g r = r" "\<And>r. p_id r \<in> good' \<Longrightarrow> has_image (snd s2) (g r)"
    using assms(2) by (auto simp: image_change_def)
  have files: "dom (snd s1) \<subseteq> dom (snd s2)" "dom (snd s) \<subseteq> dom (snd s2)"
    using assms(1,2) by (auto simp: image_change_def)
  have "has_image (snd s2) (g (f r))" if "p_id r \<in> good \<union> good'" for r
  proof (cases "p_id r \<in> good'")
    case True
    then show ?thesis using g(4) f(2) by simp
  next
    case False
    with that assms(3) have "p_id r \<in> good" "p_id r \<notin> ks'" by auto
    then show ?thesis using g(3) f(2,4) has_image_mono [OF _ files(1)] by simp
  qed
  then show ?thesis
    using f g files(2) unfolding image_change_def by (intro conjI exI [of _ "g \<circ> f"]) auto
qed

lemma download_cases:
  assumes "downloadProductImage env k p (db, files) = (r, s')"
  obtains (nothing) "s' = (db, files)" "r \<noteq> Downloaded"
    | (part) name content where "s' = (db, files(name \<mapsto> content))" "r \<noteq> Downloaded"
    | (written) ty content p' where "p_image_url p' = Some (local_url (image_name (p_id p) ty))" "p_stock p' = p_stock p"
        "p_price p' = p_price p" "p_status p' = p_status p"
        "s' = (snd (product_Update (ie_conn env) k (ie_now env k) p' (p_id p) db), files(image_name (p_id p) ty \<mapsto> content))"
        "(r = Downloaded) = is_ok (fst (product_Update (ie_conn env) k (ie_now env k) p' (p_id p) db))"
proof -
  show ?thesis
  proof (cases "ie_url env (case p_moysklad_id p of Some ms \<Rightarrow> ms | None \<Rightarrow> [])")
    case (Inl e)
    then have "s' = (db, files)" "r \<noteq> Downloaded" using assms by (auto simp: downloadProductImage_def)
    then show ?thesis by (rule nothing)
  next
    case url: (Inr url)
    show ?thesis
    proof (cases "url = [] \<or> (\<exists>e. ie_file env url = Inl e)")
      case True
      then have "s' = (db, files)" "r \<noteq> Downloaded" using assms url by (auto simp: downloadProductImage_def split: if_splits)
      then show ?thesis by (rule nothing)
    next
      case False
      then obtain content ty where f: "url \<noteq> []" "ie_file env url = Inr (content, ty)"
        by (metis obj_sumE surj_pair)
      let ?p' = "p\<lparr>p_image_url := Some (local_url (image_name (p_id p) ty)), p_updated_at := ie_now env k\<rparr>"
      show ?thesis
      proof (cases "ie_write env (image_name (p_id p) ty)")
        case False
        then have r: "r \<noteq> Downloaded" and s': "s' = (db, files) \<or> (\<exists>name content. s' = (db, files(name \<mapsto> content)))"
          using assms url f by (auto simp: downloadProductImage_def Let_def split: option.splits)
        from s' show ?thesis
        proof (elim disjE exE)
          assume "s' = (db, files)"
          then show ?thesis using r by (rule nothing)
        next
          fix name content
          assume "s' = (db, files(name \<mapsto> content))"
          then show ?thesis using r by (rule part)
        qed
      next
        case True
        then show ?thesis
          using assms url f by (intro written [of ?p' ty content])
            (auto simp: downloadProductImage_def Let_def split: prod.splits sum.splits)
      qed
    qed
  qed
qed

lemma download_change:
  assumes "downloadProductImage env k p s = (r, s')"
  shows "image_change {p_id p} (if r = Downloaded then {p_id p} else {}) s s'"
proof -
  obtain db files where s: "s = (db, files)" by fastforce
  let ?upd = "\<lambda>p' rows. sql_update (\<lambda>r. p_id r = p_id p) (product_columns p') rows"
  have rows: "products (snd (product_Update c n now p' (p_id p) db)) = products db \<and> \<not> is_ok (fst (product_Update c n now p' (p_id p) db)) \<or>
      products (snd (product_Update c n now p' (p_id p) db)) = ?upd (p'\<lparr>p_updated_at := now\<rparr>) (products db)" for c n now p'
    by (auto simp: product_Update_def Let_def split: scan.split)
  have saved: "image_change {p_id p} {p_id p} (db, files) (db', files(image_name (p_id p) ty \<mapsto> content))"
    if "products db' = ?upd p' (products db)" "p_image_url p' = Some (local_url (image_name (p_id p) ty))" for db' p' ty content
    unfolding image_change_def using that is_local_url [of "image_name (p_id p) ty"]
    by (intro conjI exI [of _ "\<lambda>r. if p_id r = p_id p then product_columns p' r else r"])
      (auto simp: sql_update_def product_columns_def has_image_def base_local_url image_name_no_slash image_name_nonempty)
  have added: "image_change {p_id p} {} (db, files) (db', files(name \<mapsto> content))" if "products db' = products db" for db' name content
    unfolding image_change_def using that by (auto intro: exI [of _ id])
  have weaker: "image_change {p_id p} {p_id p} (db, files) s2 \<Longrightarrow> image_change {p_id p} {} (db, files) s2" for s2
    by (auto simp: image_change_def)
  show ?thesis
    using assms [unfolded s]
  proof (cases rule: download_cases)
    case nothing
    then show ?thesis using image_change_refl by (simp add: s)
  next
    case part
    then show ?thesis using added by (simp add: s)
  next
    case (written ty content p')
    have url: "p_image_url (p'\<lparr>p_updated_at := t\<rparr>) = Some (local_url (image_name (p_id p) ty))" for t using written(1) by simp
    show ?thesis
      using rows [of "ie_conn env" k "ie_now env k" p'] written(5,6) saved [OF _ url] added weaker
      by (auto simp: s)
  qed
qed

lemma download_all_change:
  assumes "download_all env k ps n s = (Inr n', s')" "distinct (map p_id ps)"
  shows "\<exists>good. image_change (p_id ` set ps) good s s' \<and> good \<subseteq> p_id ` set ps \<and>
    im_downloaded n' = im_downloaded n + card good \<and>
    im_downloaded n' + im_skipped n' + im_failed n' = im_downloaded n + im_skipped n + im_failed n + length ps"
  using assms
proof (induction ps arbitrary: k n s)
  case (Cons p ps)
  obtain r s1 where one: "downloadProductImage env k p s = (r, s1)" by (cases "downloadProductImage env k p s")
  with Cons.prems(1) have rest: "download_all env (Suc k) ps (count_download r n) s1 = (Inr n', s')"
    by (auto split: if_splits)
  have fresh: "p_id p \<notin> p_id ` set ps" and dist: "distinct (map p_id ps)" using Cons.prems(2) by auto
  obtain good where good: "image_change (p_id ` set ps) good s1 s'" "good \<subseteq> p_id ` set ps"
    "im_downloaded n' = im_downloaded (count_download r n) + card good"
    "im_downloaded n' + im_skipped n' + im_failed n' =
      im_downloaded (count_download r n) + im_skipped (count_download r n) + im_failed (count_download r n) + length ps"
    using Cons.IH [OF rest dist] by blast
  let ?here = "if r = Downloaded then {p_id p} else {}"
  have "image_change ({p_id p} \<union> p_id ` set ps) (?here \<union> good) s s'"
    using download_change [OF one] good(1) fresh by (intro image_change_trans) auto
  moreover have "finite good" using good(2) by (rule finite_subset) simp
  then have "im_downloaded n' = im_downloaded n + card (?here \<union> good)"
    using good(2,3) fresh by (cases r) (auto simp: card_insert_if)
  moreover have "im_downloaded n' + im_skipped n' + im_failed n' =
      im_downloaded n + im_skipped n + im_failed n + length (p # ps)"
    using good(4) by (cases r) auto
  ultimately show ?case using good(2) by (intro exI [of _ "?here \<union> good"]) auto
qed (auto intro: image_change_refl exI [of _ "{}"])

lemma set_page_all: "length rows \<le> limit \<Longrightarrow> set (page limit 0 (newest_first key rows)) = set rows"
  by (simp add: page_def newest_first_def)

lemma length_filter_newest: "length (filter P (newest_first key rows)) = length (filter P rows)"
proof -
  have "mset (newest_first key rows) = mset rows" by (simp add: newest_first_def)
  then show ?thesis by (metis mset_filter size_mset)
qed

lemma image_change_left:
  assumes "image_change (p_id ` set todo) good (db, files) (db', files1)" "good \<subseteq> p_id ` set todo"
    and "distinct (map p_id todo)" "distinct (map p_id (products db))"
    and "\<And>r. r \<in> set (products db) \<Longrightarrow> wants_image files r \<Longrightarrow> r \<in> set todo"
  shows "length (filter (wants_image files1) (products db')) + card good \<le> length todo \<and>
    length (products db') = length (products db)"
proof -
  obtain f where f: "products db' = map f (products db)" "\<And>r. p_id (f r) = p_id r" "\<And>r. p_id r \<notin> p_id ` set todo \<Longrightarrow> f r = r"
    "\<And>r. p_id r \<in> good \<Longrightarrow> has_image files1 (f r)" and grow: "dom files \<subseteq> dom files1"
    using assms(1) by (auto simp: image_change_def)
  let ?left = "filter (wants_image files1) (products db')"
  have "p_id r \<in> p_id ` set todo - good" if left: "r \<in> set ?left" for r
  proof -
    obtain r0 where r0: "r0 \<in> set (products db)" "r = f r0" using left f(1) by auto
    have "p_id r \<notin> good" using left f(2,4) r0(2) has_image_no_want by fastforce
    moreover have "p_id r \<in> p_id ` set todo"
    proof (rule ccontr)
      assume none: "p_id r \<notin> p_id ` set todo"
      then have "r = r0" using f(2,3) r0(2) by simp
      then have "r \<in> set todo" using left wants_image_mono [OF _ grow] assms(5) r0(1) by simp
      with none show False by blast
    qed
    ultimately show ?thesis by blast
  qed
  then have sub: "p_id ` set ?left \<subseteq> p_id ` set todo - good" by blast
  have "map p_id (products db') = map p_id (products db)" using f(1,2) by simp
  then have "distinct (map p_id ?left)" using assms(4) by (metis distinct_map_filter)
  then have "length ?left = card (p_id ` set ?left)" by (metis distinct_card length_map list.set_map)
  also have "\<dots> \<le> card (p_id ` set todo - good)" using sub by (rule card_mono [rotated]) simp
  also have "\<dots> = length todo - card good"
    using assms(2,3) by (metis card_Diff_subset distinct_card finite_imageI finite_set finite_subset length_map list.set_map)
  finally have "length ?left \<le> length todo - card good" .
  moreover have "card good \<le> length todo"
    using assms(2,3) by (metis card_mono distinct_card finite_imageI finite_set length_map list.set_map)
  ultimately show ?thesis using f(1) by simp
qed

lemma cleanup_files:
  assumes "cleanupOrphanedFiles env (db, files) = (Inr (), (db', files'))" "length (products db) \<le> 100000"
  shows "db' = db \<and> files' = (\<lambda>name. if name \<in> known_files (products db) \<or> \<not> ie_remove env name then files name else None)"
proof -
  have "known_files (page 100000 0 (newest_first p_created_at (products db))) = known_files (products db)"
    using set_page_all [OF assms(2)] by (simp add: known_files_def)
  then show ?thesis
    using assms(1) by (fastforce simp: cleanupOrphanedFiles_def product_GetAll_def split: if_splits)
qed


definition image_product :: product where
  "image_product = (mk_product 1 10 5)\<lparr>p_moysklad_id := Some ''m''\<rparr>"

definition image_db :: shop_db where
  "image_db = empty_shop\<lparr>products := [image_product]\<rparr>"

definition image_healthy :: image_env where
  "image_healthy = \<lparr>ie_client = True, ie_free = True, ie_mkdir = True, ie_read = healthy, ie_cancelled = (\<lambda>_. False),
     ie_url = (\<lambda>_. Inr ''u''), ie_file = (\<lambda>_. Inr (''pixels'', ''image/png'')), ie_write = (\<lambda>_. True),
     ie_partial = (\<lambda>_. None), ie_conn = healthy, ie_now = (\<lambda>_. 9), ie_reread = healthy, ie_list = True,
     ie_remove = (\<lambda>_. True)\<rparr>"

lemma image_run:
  "SyncImagesWithCleanup image_healthy (image_db, [''old.jpg'' \<mapsto> ''x'']) =
    (Inr (), snd (SyncImagesWithCleanup image_healthy (image_db, [''old.jpg'' \<mapsto> ''x''])))"
  by (simp add: SyncImagesWithCleanup_def SyncImages_def image_healthy_def image_db_def image_product_def mk_product_def
    product_GetAll_def healthy_def page_def newest_first_def wants_image_def is_local_def downloadProductImage_def
    product_Update_def product_constraints_def product_statuses_def empty_shop_def Let_def cleanupOrphanedFiles_def
    split: prod.split sum.split)


section \<open>Stale rows\<close>

text \<open>
  The row of a product is written back as it was read when the run began, for runs may take half an
  hour: whatever was sold, restored or priced anew in the meantime is undone by its image, the units of
  an order placed meanwhile come back to the stock.
\<close>

theorem image_writes_stale_stock:
  assumes "downloadProductImage env k p (db, files) = (Downloaded, (db', files'))" "r \<in> set (products db)" "p_id r = p_id p"
  shows "\<exists>r' \<in> set (products db'). p_id r' = p_id r \<and> p_stock r' = p_stock p \<and> p_price r' = p_price p \<and> p_status r' = p_status p"
  using assms(1)
proof (cases rule: download_cases)
  case (written ty content p')
  have "db' = snd (product_Update (ie_conn env) k (ie_now env k) p' (p_id p) db)"
    "is_ok (fst (product_Update (ie_conn env) k (ie_now env k) p' (p_id p) db))" using written(5,6) by auto
  then have "products db' = sql_update (\<lambda>r. p_id r = p_id p) (product_columns (p'\<lparr>p_updated_at := ie_now env k\<rparr>)) (products db)"
    by (auto simp: product_Update_def Let_def split: if_splits scan.splits)
  then show ?thesis
    using assms(2,3) written(2-4)
    by (intro bexI [of _ "product_columns (p'\<lparr>p_updated_at := ie_now env k\<rparr>) r"]) (auto simp: set_sql_update product_columns_def)
qed auto

text \<open>Four of five units are sold between the reading and the writing.\<close>

theorem image_writes_stale_stock_witness:
  "\<exists>db' files'. downloadProductImage image_healthy 0 image_product
      (image_db\<lparr>products := [image_product\<lparr>p_stock := 1\<rparr>]\<rparr>, Map.empty) = (Downloaded, (db', files')) \<and>
    (\<exists>r' \<in> set (products db'). p_id r' = 1 \<and> p_stock r' = 5)"
proof -
  let ?db = "image_db\<lparr>products := [image_product\<lparr>p_stock := 1\<rparr>]\<rparr>"
  obtain db' files' where run: "downloadProductImage image_healthy 0 image_product (?db, Map.empty) = (Downloaded, (db', files'))"
    by (simp add: image_healthy_def image_db_def image_product_def mk_product_def healthy_def downloadProductImage_def
      product_Update_def product_constraints_def product_statuses_def empty_shop_def Let_def)
  have "image_product\<lparr>p_stock := 1\<rparr> \<in> set (products ?db)" "p_id (image_product\<lparr>p_stock := 1\<rparr>) = p_id image_product" by simp_all
  from image_writes_stale_stock [OF run this] run show ?thesis by (auto simp: image_product_def mk_product_def)
qed

end
