(* ===== verification/Telemetry.thy ===== *)
theory Telemetry
  imports Text
begin

text \<open>
  internal/metrics and services/healthcheck.go: the counters of the application, the snapshot of them
  that the staff pages show, and the status of the database and Redis. A counter with labels is the list
  of its label values with their counts, in the order they were first used; of a histogram only the sum
  and the number of its samples are kept, the snapshot reads nothing else. The figures of the Go runtime
  are left out.
\<close>

section \<open>Recording\<close>

type_synonym 'k counter = "('k \<times> rat) list"

text \<open>\<open>WithLabelValues(k).Add(v)\<close>.\<close>

fun counter_add :: "'k \<Rightarrow> rat \<Rightarrow> 'k counter \<Rightarrow> 'k counter" where
  "counter_add k v [] = [(k, v)]"
| "counter_add k v ((j, w) # l) = (if j = k then (j, w + v) # l else (j, w) # counter_add k v l)"

text \<open>\<open>WithLabelValues(k).Observe(x)\<close>: the sum and the number of samples.\<close>

fun histogram_add :: "'k \<Rightarrow> rat \<Rightarrow> ('k \<times> rat \<times> nat) list \<Rightarrow> ('k \<times> rat \<times> nat) list" where
  "histogram_add k x [] = [(k, x, 1)]"
| "histogram_add k x ((j, s, n) # l) = (if j = k then (j, s + x, n + 1) # l else (j, s, n) # histogram_add k x l)"

record registry =
  rg_requests :: "(string \<times> string \<times> string) counter"
  rg_duration :: "((string \<times> string) \<times> rat \<times> nat) list"
  rg_in_flight :: rat
  rg_created :: rat
  rg_transitions :: "string counter"
  rg_revenue :: rat
  rg_sync_runs :: "string counter"
  rg_sync_duration :: "rat \<times> nat"
  rg_cache :: "string counter"

definition no_metrics :: registry where
  "no_metrics = \<lparr>rg_requests = [], rg_duration = [], rg_in_flight = 0, rg_created = 0, rg_transitions = [],
     rg_revenue = 0, rg_sync_runs = [], rg_sync_duration = (0, 0), rg_cache = []\<rparr>"

definition ObserveHTTP :: "string \<Rightarrow> string \<Rightarrow> string \<Rightarrow> rat \<Rightarrow> registry \<Rightarrow> registry" where
  "ObserveHTTP m path status seconds rg =
     rg\<lparr>rg_requests := counter_add (m, path, status) 1 (rg_requests rg),
        rg_duration := histogram_add (m, path) seconds (rg_duration rg)\<rparr>"

definition IncInFlight :: "registry \<Rightarrow> registry" where
  "IncInFlight rg = rg\<lparr>rg_in_flight := rg_in_flight rg + 1\<rparr>"

definition DecInFlight :: "registry \<Rightarrow> registry" where
  "DecInFlight rg = rg\<lparr>rg_in_flight := rg_in_flight rg - 1\<rparr>"

definition OrderCreated :: "money \<Rightarrow> registry \<Rightarrow> registry" where
  "OrderCreated amount rg =
     (let rg1 = rg\<lparr>rg_created := rg_created rg + 1\<rparr>
      in if amount > 0 then rg1\<lparr>rg_revenue := rg_revenue rg1 + amount\<rparr> else rg1)"

definition OrderTransition :: "string \<Rightarrow> registry \<Rightarrow> registry" where
  "OrderTransition target rg = rg\<lparr>rg_transitions := counter_add target 1 (rg_transitions rg)\<rparr>"

definition MoyskladSync :: "bool \<Rightarrow> rat \<Rightarrow> registry \<Rightarrow> registry" where
  "MoyskladSync ok seconds rg =
     rg\<lparr>rg_sync_runs := counter_add (if \<not> ok then ''error'' else ''success'') 1 (rg_sync_runs rg),
        rg_sync_duration := (fst (rg_sync_duration rg) + seconds, snd (rg_sync_duration rg) + 1)\<rparr>"

definition StockCacheEvents :: "int \<Rightarrow> int \<Rightarrow> registry \<Rightarrow> registry" where
  "StockCacheEvents hits misses rg =
     (let rg1 = (if hits > 0 then rg\<lparr>rg_cache := counter_add ''hit'' (of_int hits) (rg_cache rg)\<rparr> else rg)
      in if misses > 0 then rg1\<lparr>rg_cache := counter_add ''miss'' (of_int misses) (rg_cache rg1)\<rparr> else rg1)"

section \<open>The snapshot\<close>

definition statusClass :: "string \<Rightarrow> string" where
  "statusClass status =
     (if status = [] then []
      else if hd status \<in> set ''12345'' then hd status # ''xx'' else [])"

record snapshot =
  sn_total :: rat
  sn_errors_5xx :: rat
  sn_in_flight :: rat
  sn_latency_ms :: rat
  sn_by_class :: "string counter"
  sn_created :: rat
  sn_completed :: rat
  sn_cancelled :: rat
  sn_expired :: rat
  sn_revenue :: rat
  sn_sync_success :: rat
  sn_sync_error :: rat
  sn_sync_seconds :: rat
  sn_hits :: rat
  sn_misses :: rat
  sn_hit_rate :: rat
  sn_uptime :: rat
  sn_pool :: "int \<times> int \<times> int"
  sn_goroutines :: rat
  sn_alloc_mb :: rat
  sn_num_gc :: rat

text \<open>What the process says of itself; the pool is there once \<open>RegisterDBPool\<close> was called.\<close>

record process =
  pr_uptime :: rat
  pr_pool :: "(int \<times> int \<times> int) option"
  pr_goroutines :: nat
  pr_alloc :: nat
  pr_num_gc :: nat

text \<open>The loops over the label values of a counter: add up, or take the value of one.\<close>

definition add_up :: "('k \<Rightarrow> bool) \<Rightarrow> 'k counter \<Rightarrow> rat" where
  "add_up P l = foldl (\<lambda>acc (k, v). if P k then acc + v else acc) 0 l"

definition take_value :: "'k \<Rightarrow> 'k counter \<Rightarrow> rat" where
  "take_value k l = foldl (\<lambda>acc (j, v). if j = k then v else acc) 0 l"

definition by_class :: "(string \<times> string \<times> string) counter \<Rightarrow> string counter" where
  "by_class l =
     foldl (\<lambda>acc ((m, path, status), v). if statusClass status \<noteq> [] then counter_add (statusClass status) v acc else acc) [] l"

text \<open>\<open>gathers\<close>: whether \<open>Registry.Gather\<close> succeeds; if not, all figures are zero.\<close>

definition GetSnapshot :: "bool \<Rightarrow> process \<Rightarrow> registry \<Rightarrow> snapshot" where
  "GetSnapshot gathers pr rg0 =
     (let rg = (if gathers then rg0 else no_metrics);
          sum = foldl (\<lambda>acc (k, s, n). acc + s) 0 (rg_duration rg);
          cnt = foldl (\<lambda>acc (k, s, n). acc + n) 0 (rg_duration rg);
          hits = take_value ''hit'' (rg_cache rg);
          misses = take_value ''miss'' (rg_cache rg)
      in \<lparr>sn_total = add_up (\<lambda>_. True) (rg_requests rg),
          sn_errors_5xx = add_up (\<lambda>(m, path, status). prefix ''5'' status) (rg_requests rg),
          sn_in_flight = rg_in_flight rg,
          sn_latency_ms = (if cnt > 0 then sum / of_nat cnt * 1000 else 0),
          sn_by_class = by_class (rg_requests rg),
          sn_created = rg_created rg,
          sn_completed = take_value ''completed'' (rg_transitions rg),
          sn_cancelled = take_value ''cancelled'' (rg_transitions rg),
          sn_expired = take_value ''expired'' (rg_transitions rg),
          sn_revenue = rg_revenue rg,
          sn_sync_success = take_value ''success'' (rg_sync_runs rg),
          sn_sync_error = take_value ''error'' (rg_sync_runs rg),
          sn_sync_seconds = (if snd (rg_sync_duration rg) > 0
            then fst (rg_sync_duration rg) / of_nat (snd (rg_sync_duration rg)) else 0),
          sn_hits = hits, sn_misses = misses,
          sn_hit_rate = (if hits + misses > 0 then hits / (hits + misses) else 0),
          sn_uptime = pr_uptime pr,
          sn_pool = (case pr_pool pr of None \<Rightarrow> (0, 0, 0) | Some pool \<Rightarrow> pool),
          sn_goroutines = of_nat (pr_goroutines pr), sn_alloc_mb = of_nat (pr_alloc pr) / (1024 * 1024),
          sn_num_gc = of_nat (pr_num_gc pr)\<rparr>)"

section \<open>Health\<close>

datatype health = Healthy | Unhealthy | Disabled

record health_status =
  hs_database :: health
  hs_redis :: health
  hs_overall :: health

text \<open>What is there, and whether it answers a ping.\<close>

definition checkDatabase :: "bool option \<Rightarrow> bool" where
  "checkDatabase db = (case db of None \<Rightarrow> True | Some answers \<Rightarrow> answers)"

definition checkRedis :: "bool option \<Rightarrow> bool" where
  "checkRedis rd = (case rd of None \<Rightarrow> True | Some answers \<Rightarrow> answers)"

definition Check :: "bool option \<Rightarrow> bool option \<Rightarrow> bool" where
  "Check db rd = (if \<not> checkDatabase db then False else checkRedis rd)"

definition GetStatus :: "bool option \<Rightarrow> bool option \<Rightarrow> health_status" where
  "GetStatus db rd =
     (let d = (if db \<noteq> None then if checkDatabase db then Healthy else Unhealthy else Disabled);
          r = (if rd \<noteq> None then if checkRedis rd then Healthy else Unhealthy else Disabled)
      in \<lparr>hs_database = d, hs_redis = r,
          hs_overall = (if d = Unhealthy \<or> r = Unhealthy then Unhealthy else Healthy)\<rparr>)"

lemma health_agrees: "hs_overall (GetStatus db rd) = Healthy \<longleftrightarrow> Check db rd"
  by (auto simp: GetStatus_def Check_def checkDatabase_def checkRedis_def Let_def split: option.splits)

section \<open>Counters\<close>

lemma add_up_acc: "foldl (\<lambda>acc (k, v). if P k then acc + v else acc) a l = a + add_up P l"
proof -
  have "foldl (\<lambda>acc (k, v). if P k then acc + v else acc) (a + b) l = a + foldl (\<lambda>acc (k, v). if P k then acc + v else acc) b l"
    for a b :: rat
    by (induction l arbitrary: b) (auto simp: add.assoc)
  from this [of a 0] show ?thesis by (simp add: add_up_def)
qed

lemma add_up_simps:
  "add_up P [] = 0" "add_up P ((k, v) # l) = (if P k then v else 0) + add_up P l"
  using add_up_acc [of P v l] by (simp_all add: add_up_def)

lemma add_up_counter: "add_up P (counter_add k v l) = add_up P l + (if P k then v else 0)"
  by (induction k v l rule: counter_add.induct) (auto simp: add_up_simps)

lemma counter_keys: "fst ` set (counter_add k v l) = insert k (fst ` set l)"
  by (induction k v l rule: counter_add.induct) auto

lemma counter_distinct: "distinct (map fst l) \<Longrightarrow> distinct (map fst (counter_add k v l))"
  by (induction k v l rule: counter_add.induct) (auto simp: counter_keys)

text \<open>With distinct labels, the value of one is what adding up over it gives.\<close>

lemma take_value_add_up: "distinct (map fst l) \<Longrightarrow> take_value k l = add_up (\<lambda>j. j = k) l"
proof (induction l rule: rev_induct)
  case (snoc x l)
  obtain j v where x: "x = (j, v)" by (cases x)
  have none: "k \<notin> fst ` set l \<Longrightarrow> add_up (\<lambda>j. j = k) l = 0"
    by (induction l) (auto simp: add_up_simps)
  have "add_up (\<lambda>j. j = k) (l @ [x]) = add_up (\<lambda>j. j = k) l + (if j = k then v else 0)"
    unfolding x by (simp add: add_up_def)
  then show ?case using snoc none by (auto simp: x take_value_def)
qed (simp add: take_value_def add_up_def)

lemma by_class_snoc:
  "by_class (l @ [((m, path, status), v)]) =
    (if statusClass status \<noteq> [] then counter_add (statusClass status) v (by_class l) else by_class l)"
  by (simp add: by_class_def)

lemma by_class_distinct: "distinct (map fst (by_class l))"
proof (induction l rule: rev_induct)
  case (snoc x l)
  obtain m path status v where x: "x = ((m, path, status), v)" by (cases x) auto
  show ?case using snoc unfolding x by_class_snoc by (simp add: counter_distinct)
qed (simp add: by_class_def)

lemma by_class_value:
  assumes "c \<noteq> []"
  shows "take_value c (by_class l) = add_up (\<lambda>(m, path, status). statusClass status = c) l"
proof -
  have "add_up (\<lambda>j. j = c) (by_class l) = add_up (\<lambda>(m, path, status). statusClass status = c) l"
  proof (induction l rule: rev_induct)
    case (snoc x l)
    obtain m path status v where x: "x = ((m, path, status), v)" by (cases x) auto
    have "add_up P (l @ [x]) = add_up P l + (if P (fst x) then snd x else 0)" for P
      by (simp add: add_up_def case_prod_beta)
    with snoc assms show ?case unfolding x by_class_snoc by (auto simp: add_up_counter)
  qed (simp add: by_class_def add_up_def)
  then show ?thesis by (simp add: take_value_add_up by_class_distinct)
qed

section \<open>The snapshot of a history\<close>

text \<open>
  What the application reports: a request begins, a request ends with its status and seconds, an order
  is taken, an order moves on, a synchronisation ends, products are looked up in the stock cache. A
  request whose handler panics begins and never ends.
\<close>

datatype event =
    Begun
  | Ended string string string rat
  | Taken money
  | Moved string
  | Synced bool rat
  | Looked int int

fun report :: "registry \<Rightarrow> event \<Rightarrow> registry" where
  "report rg Begun = IncInFlight rg"
| "report rg (Ended m path status seconds) = ObserveHTTP m path status seconds (DecInFlight rg)"
| "report rg (Taken amount) = OrderCreated amount rg"
| "report rg (Moved target) = OrderTransition target rg"
| "report rg (Synced ok seconds) = MoyskladSync ok seconds rg"
| "report rg (Looked hits misses) = StockCacheEvents hits misses rg"

definition history :: "event list \<Rightarrow> registry" where
  "history es = foldl report no_metrics es"

definition how_many :: "(event \<Rightarrow> bool) \<Rightarrow> event list \<Rightarrow> rat" where
  "how_many P es = of_nat (length (filter P es))"

definition sum_of :: "(event \<Rightarrow> rat) \<Rightarrow> event list \<Rightarrow> rat" where
  "sum_of f es = sum_list (map f es)"

fun ended :: "(string \<Rightarrow> bool) \<Rightarrow> event \<Rightarrow> bool" where
  "ended P (Ended m path status seconds) = P status"
| "ended P e = False"

fun seconds_of :: "event \<Rightarrow> rat" where
  "seconds_of (Ended m path status seconds) = seconds"
| "seconds_of e = 0"

fun moved :: "string \<Rightarrow> event \<Rightarrow> bool" where
  "moved t (Moved target) = (target = t)"
| "moved t e = False"

fun is_taken :: "event \<Rightarrow> bool" where
  "is_taken (Taken amount) = True"
| "is_taken e = False"

fun amount_of :: "event \<Rightarrow> rat" where
  "amount_of (Taken amount) = max 0 amount"
| "amount_of e = 0"

fun synced :: "bool \<Rightarrow> event \<Rightarrow> bool" where
  "synced ok (Synced b seconds) = (b = ok)"
| "synced ok e = False"

fun sync_seconds :: "event \<Rightarrow> rat" where
  "sync_seconds (Synced b seconds) = seconds"
| "sync_seconds e = 0"

fun hits_of :: "event \<Rightarrow> rat" where
  "hits_of (Looked hits misses) = of_int (max 0 hits)"
| "hits_of e = 0"

fun misses_of :: "event \<Rightarrow> rat" where
  "misses_of (Looked hits misses) = of_int (max 0 misses)"
| "misses_of e = 0"

lemma history_snoc: "history (es @ [e]) = report (history es) e"
  by (simp add: history_def)

lemma history_Nil: "history [] = no_metrics"
  by (simp add: history_def)

lemma how_many_simps:
  "how_many P [] = 0" "how_many P (es @ [e]) = how_many P es + (if P e then 1 else 0)"
  by (simp_all add: how_many_def)

lemma sum_of_simps: "sum_of f [] = 0" "sum_of f (es @ [e]) = sum_of f es + f e"
  by (simp_all add: sum_of_def)

lemmas reports = IncInFlight_def DecInFlight_def ObserveHTTP_def OrderCreated_def OrderTransition_def
  MoyskladSync_def StockCacheEvents_def Let_def

lemma requests_history: "add_up (\<lambda>(m, path, status). P status) (rg_requests (history es)) = how_many (ended P) es"
proof (induction es rule: rev_induct)
  case (snoc e es)
  then show ?case unfolding history_snoc how_many_simps by (cases e) (auto simp: reports add_up_counter)
qed (simp add: history_Nil no_metrics_def add_up_def how_many_simps)

lemma in_flight_history: "rg_in_flight (history es) = how_many (\<lambda>e. e = Begun) es - how_many (ended (\<lambda>_. True)) es"
proof (induction es rule: rev_induct)
  case (snoc e es)
  then show ?case unfolding history_snoc how_many_simps by (cases e) (auto simp: reports)
qed (simp add: history_Nil no_metrics_def how_many_simps)

lemma orders_history:
  "rg_created (history es) = how_many is_taken es \<and> rg_revenue (history es) = sum_of amount_of es"
proof (induction es rule: rev_induct)
  case (snoc e es)
  then show ?case unfolding history_snoc how_many_simps sum_of_simps by (cases e) (auto simp: reports)
qed (simp add: history_Nil no_metrics_def how_many_simps sum_of_simps)

lemma transitions_history: "add_up (\<lambda>k. k = t) (rg_transitions (history es)) = how_many (moved t) es"
proof (induction es rule: rev_induct)
  case (snoc e es)
  then show ?case unfolding history_snoc how_many_simps by (cases e) (auto simp: reports add_up_counter)
qed (simp add: history_Nil no_metrics_def add_up_def how_many_simps)

lemma sync_history:
  "add_up (\<lambda>k. k = (if ok then ''success'' else ''error'')) (rg_sync_runs (history es)) = how_many (synced ok) es \<and>
   fst (rg_sync_duration (history es)) = sum_of sync_seconds es \<and>
   of_nat (snd (rg_sync_duration (history es))) = how_many (synced True) es + how_many (synced False) es"
proof (induction es rule: rev_induct)
  case (snoc e es)
  then show ?case unfolding history_snoc how_many_simps sum_of_simps
    by (cases e) (auto simp: reports add_up_counter)
qed (simp add: history_Nil no_metrics_def add_up_def how_many_simps sum_of_simps)

lemma cache_history:
  "add_up (\<lambda>k. k = ''hit'') (rg_cache (history es)) = sum_of hits_of es \<and>
   add_up (\<lambda>k. k = ''miss'') (rg_cache (history es)) = sum_of misses_of es"
proof (induction es rule: rev_induct)
  case (snoc e es)
  then show ?case unfolding history_snoc sum_of_simps by (cases e) (auto simp: reports add_up_counter)
qed (simp add: history_Nil no_metrics_def add_up_def sum_of_simps)

lemma labels_history:
  "distinct (map fst (rg_transitions (history es))) \<and> distinct (map fst (rg_sync_runs (history es))) \<and>
   distinct (map fst (rg_cache (history es)))"
proof (induction es rule: rev_induct)
  case (snoc e es)
  then show ?case unfolding history_snoc by (cases e) (simp_all add: reports counter_distinct)
qed (simp add: history_Nil no_metrics_def)

lemma histogram_totals:
  "sum_list (map (\<lambda>(k, s, n). s) (histogram_add k x l)) = sum_list (map (\<lambda>(k, s, n). s) l) + x"
  "sum_list (map (\<lambda>(k, s, n). n) (histogram_add k x l)) = sum_list (map (\<lambda>(k, s, n). n) l) + 1"
  by (induction k x l rule: histogram_add.induct) auto

lemma duration_history:
  "sum_list (map (\<lambda>(k, s, n). s) (rg_duration (history es))) = sum_of seconds_of es \<and>
   of_nat (sum_list (map (\<lambda>(k, s, n). n) (rg_duration (history es)))) = how_many (ended (\<lambda>_. True)) es"
proof (induction es rule: rev_induct)
  case (snoc e es)
  then show ?case unfolding history_snoc how_many_simps sum_of_simps
    by (cases e) (auto simp: reports histogram_totals)
qed (simp add: history_Nil no_metrics_def how_many_simps sum_of_simps)

lemma foldl_totals:
  "foldl (\<lambda>acc (k, s, n). acc + s) a l = a + sum_list (map (\<lambda>(k, s, n). s) l)"
  "foldl (\<lambda>acc (k, s, n). acc + n) b l = b + sum_list (map (\<lambda>(k, s, n). n) l)"
  for l :: "('k \<times> rat \<times> nat) list"
  by (induction l arbitrary: a b) (auto simp: add.assoc)



end
