(* ===== verification/CartHandlers.thy ===== *)
theory CartHandlers
  imports Cart Text
begin

text \<open>
  internal/handlers/cart.go: the requests on the cart and their statuses, and the abstract cart they
  refine, a quantity for each customer and product. The customer is the \<open>user_id\<close> that the middleware
  put into the context, if it did; a body is what the JSON decoder made of it, \<open>None\<close> for none.
\<close>

section \<open>Requests\<close>

record cart_body =
  cb_user_id :: id64
  cb_product_id :: id64
  cb_quantity :: int

text \<open>
  The binding tags: all three are required, so that a body without a \<open>user_id\<close> is refused although the
  handler then replaces it.
\<close>

definition bind_cart :: "cart_body option \<Rightarrow> cart_request option" where
  "bind_cart body =
     (case body of
        None \<Rightarrow> None
      | Some b \<Rightarrow>
          if cb_user_id b \<noteq> 0 \<and> cb_product_id b \<noteq> 0 \<and> cb_quantity b \<noteq> 0 \<and> 1 \<le> cb_quantity b then
            Some \<lparr>cr_user_id = cb_user_id b, cr_product_id = cb_product_id b, cr_quantity = cb_quantity b\<rparr>
          else None)"

datatype cart_answer = Message | CartShown "cart_response list" | TotalShown money

type_synonym cart_reply = "int \<times> cart_answer option"

definition handle_AddToCart ::
  "conn \<Rightarrow> time \<Rightarrow> id64 option \<Rightarrow> cart_body option \<Rightarrow> shop_db \<Rightarrow> cart_reply \<times> shop_db" where
  "handle_AddToCart c now user body db =
     (case user of
        None \<Rightarrow> ((401, None), db)
      | Some uid \<Rightarrow>
          (case bind_cart body of
             None \<Rightarrow> ((400, None), db)
           | Some req \<Rightarrow>
               (case AddToCart c now (req\<lparr>cr_user_id := uid\<rparr>) db of
                  (Inl e, db') \<Rightarrow> ((500, None), db')
                | (Inr u, db') \<Rightarrow> ((200, Some Message), db'))))"

definition handle_GetCart :: "conn \<Rightarrow> id64 option \<Rightarrow> shop_db \<Rightarrow> cart_reply" where
  "handle_GetCart c user db =
     (case user of
        None \<Rightarrow> (401, None)
      | Some uid \<Rightarrow> (case GetCart c uid db of Inl e \<Rightarrow> (500, None) | Inr cart \<Rightarrow> (200, Some (CartShown cart))))"

definition handle_UpdateCart ::
  "conn \<Rightarrow> time \<Rightarrow> id64 option \<Rightarrow> cart_body option \<Rightarrow> shop_db \<Rightarrow> cart_reply \<times> shop_db" where
  "handle_UpdateCart c now user body db =
     (case user of
        None \<Rightarrow> ((401, None), db)
      | Some uid \<Rightarrow>
          (case bind_cart body of
             None \<Rightarrow> ((400, None), db)
           | Some req \<Rightarrow>
               (case UpdateCart c now (req\<lparr>cr_user_id := uid\<rparr>) db of
                  (Inl e, db') \<Rightarrow> ((500, None), db')
                | (Inr u, db') \<Rightarrow> ((200, Some Message), db'))))"

definition handle_RemoveFromCart :: "conn \<Rightarrow> id64 option \<Rightarrow> string \<Rightarrow> shop_db \<Rightarrow> cart_reply \<times> shop_db" where
  "handle_RemoveFromCart c user param db =
     (case user of
        None \<Rightarrow> ((401, None), db)
      | Some uid \<Rightarrow>
          (case Atoi param of
             None \<Rightarrow> ((400, None), db)
           | Some pid \<Rightarrow>
               (case RemoveFromCart c uid pid db of
                  (Inl e, db') \<Rightarrow> ((500, None), db')
                | (Inr u, db') \<Rightarrow> ((200, Some Message), db'))))"

definition handle_ClearCart :: "conn \<Rightarrow> id64 option \<Rightarrow> shop_db \<Rightarrow> cart_reply \<times> shop_db" where
  "handle_ClearCart c user db =
     (case user of
        None \<Rightarrow> ((401, None), db)
      | Some uid \<Rightarrow>
          (case ClearCart c uid db of
             (Inl e, db') \<Rightarrow> ((500, None), db')
           | (Inr u, db') \<Rightarrow> ((200, Some Message), db')))"

definition handle_GetCartTotal :: "conn \<Rightarrow> id64 option \<Rightarrow> shop_db \<Rightarrow> cart_reply" where
  "handle_GetCartTotal c user db =
     (case user of
        None \<Rightarrow> (401, None)
      | Some uid \<Rightarrow>
          (case GetCartTotal c uid db of Inl e \<Rightarrow> (500, None) | Inr amount \<Rightarrow> (200, Some (TotalShown amount))))"

datatype cart_call =
    CartAdd "cart_body option"
  | CartGet
  | CartUpdate "cart_body option"
  | CartRemove string
  | CartClear
  | CartTotal

fun serve_cart :: "conn \<Rightarrow> time \<Rightarrow> id64 option \<Rightarrow> cart_call \<Rightarrow> shop_db \<Rightarrow> cart_reply \<times> shop_db" where
  "serve_cart c now user (CartAdd body) db = handle_AddToCart c now user body db"
| "serve_cart c now user CartGet db = (handle_GetCart c user db, db)"
| "serve_cart c now user (CartUpdate body) db = handle_UpdateCart c now user body db"
| "serve_cart c now user (CartRemove param) db = handle_RemoveFromCart c user param db"
| "serve_cart c now user CartClear db = handle_ClearCart c user db"
| "serve_cart c now user CartTotal db = (handle_GetCartTotal c user db, db)"

text \<open>Requests one after the other, each with the state of the connection, the time and the customer.\<close>

type_synonym cart_arrival = "conn \<times> time \<times> id64 option \<times> cart_call"

fun serve_carts :: "cart_arrival list \<Rightarrow> shop_db \<Rightarrow> int list \<times> shop_db" where
  "serve_carts [] db = ([], db)"
| "serve_carts ((c, now, user, call) # rest) db =
     (let (reply, db1) = serve_cart c now user call db; (statuses, db2) = serve_carts rest db1
      in (fst reply # statuses, db2))"

section \<open>The abstract cart\<close>

type_synonym quantities = "id64 \<Rightarrow> id64 \<Rightarrow> int"

definition put_quantity :: "id64 \<Rightarrow> id64 \<Rightarrow> int \<Rightarrow> quantities \<Rightarrow> quantities" where
  "put_quantity uid pid n q = q(uid := (q uid)(pid := n))"

text \<open>What a request that is answered with 200 asks for.\<close>

fun cart_spec :: "id64 \<Rightarrow> cart_call \<Rightarrow> quantities \<Rightarrow> quantities" where
  "cart_spec uid (CartAdd (Some b)) q =
     put_quantity uid (cb_product_id b) (q uid (cb_product_id b) + cb_quantity b) q"
| "cart_spec uid (CartUpdate (Some b)) q = put_quantity uid (cb_product_id b) (cb_quantity b) q"
| "cart_spec uid (CartRemove param) q = put_quantity uid (Atoi_value param) 0 q"
| "cart_spec uid CartClear q = q(uid := (\<lambda>_. 0))"
| "cart_spec uid call q = q"

fun cart_specs :: "cart_arrival list \<Rightarrow> int list \<Rightarrow> quantities \<Rightarrow> quantities" where
  "cart_specs ((c, now, Some uid, call) # rest) (status # statuses) q =
     cart_specs rest statuses (if status = 200 then cart_spec uid call q else q)"
| "cart_specs ((c, now, None, call) # rest) (status # statuses) q = cart_specs rest statuses q"
| "cart_specs reqs statuses q = q"

section \<open>The code refines it\<close>

lemma in_cart_remove:
  "in_cart (db\<lparr>cart_items := sql_delete (cart_line uid pid) (cart_items db)\<rparr>) u p =
    (if u = uid \<and> p = pid then 0 else in_cart db u p)"
proof (cases "u = uid \<and> p = pid")
  case False
  then have "(\<lambda>ci. cart_line u p ci \<and> \<not> cart_line uid pid ci) = cart_line u p"
    by (auto simp: cart_line_def fun_eq_iff)
  with False show ?thesis unfolding in_cart_delete by (auto simp: in_cart_def)
qed (simp add: in_cart_delete)

lemma in_cart_clear:
  "in_cart (db\<lparr>cart_items := sql_delete (\<lambda>ci. ci_user_id ci = uid) (cart_items db)\<rparr>) u p =
    (if u = uid then 0 else in_cart db u p)"
proof -
  have "(\<lambda>ci. cart_line u p ci \<and> ci_user_id ci \<noteq> uid) = (if u = uid then \<lambda>_. False else cart_line u p)"
    by (auto simp: cart_line_def fun_eq_iff)
  then show ?thesis unfolding in_cart_delete by (simp add: in_cart_def)
qed

lemma UpdateCart_ok:
  assumes "cart_inv db" "UpdateCart c now req db = (Inr x, db')"
  shows "cart_inv db' \<and> products db' = products db \<and>
    in_cart db' u p = (if u = cr_user_id req \<and> p = cr_product_id req then cr_quantity req else in_cart db u p)"
proof -
  from assms(2) obtain ci where one: "filter (cart_line (cr_user_id req) (cr_product_id req)) (cart_items db) = [ci]"
    and upd: "cart_UpdateQuantity c 2 now (cr_user_id req) (cr_product_id req) (cr_quantity req) db = (Inr x, db')"
    using cart_line_cases [OF assms(1), of "cr_user_id req" "cr_product_id req"]
    by (auto simp: UpdateCart_def cart_GetByUserIDAndProductID_def split: sum.splits option.splits if_splits)
  from cart_UpdateQuantity_ok [OF assms(1) one, of c 2 now "cr_quantity req" db'] upd show ?thesis by simp
qed

lemma UpdateCart_error: "UpdateCart c now req db = (Inl e, db') \<Longrightarrow> db' = db"
  by (auto simp: UpdateCart_def cart_UpdateQuantity_def split: sum.splits option.splits if_splits)

lemma AddToCart_error: "AddToCart c now req db = (Inl e, db') \<Longrightarrow> db' = db"
  by (auto simp: AddToCart_def cart_UpdateQuantity_def cart_Create_def Let_def
      split: sum.splits option.splits if_splits prod.splits)

lemma bind_cart_Some:
  assumes "bind_cart body = Some req"
  obtains b where "body = Some b" "cr_product_id req = cb_product_id b" "cr_quantity req = cb_quantity b"
  using assms by (auto simp: bind_cart_def split: option.splits if_splits)

definition cart_step :: "id64 option \<Rightarrow> cart_call \<Rightarrow> int \<Rightarrow> shop_db \<Rightarrow> shop_db \<Rightarrow> bool" where
  "cart_step user call status db db' =
     (cart_inv db' \<and> products db' = products db \<and> (status \<noteq> 200 \<longrightarrow> db' = db) \<and>
      (user = None \<longleftrightarrow> status = 401) \<and>
      in_cart db' = (case user of
        Some uid \<Rightarrow> if status = 200 then cart_spec uid call (in_cart db) else in_cart db | None \<Rightarrow> in_cart db))"

lemma put_quantity_eq:
  "(\<And>u p. q' u p = (if u = uid \<and> p = pid then n else q u p)) \<Longrightarrow> q' = put_quantity uid pid n q"
  by (auto simp: put_quantity_def fun_eq_iff)

lemma add_step:
  assumes "cart_inv db" "handle_AddToCart c now user body db = ((status, ans), db')"
  shows "cart_step user (CartAdd body) status db db'"
proof (cases user)
  case None
  then show ?thesis using assms by (simp add: handle_AddToCart_def cart_step_def)
next
  case (Some uid)
  show ?thesis
  proof (cases "bind_cart body")
    case None
    then show ?thesis using assms Some by (simp add: handle_AddToCart_def cart_step_def)
  next
    case req: (Some req)
    obtain b where b: "body = Some b" "cr_product_id req = cb_product_id b" "cr_quantity req = cb_quantity b"
      using bind_cart_Some [OF req] .
    obtain r db1 where add: "AddToCart c now (req\<lparr>cr_user_id := uid\<rparr>) db = (r, db1)" by fastforce
    show ?thesis
    proof (cases r)
      case (Inl e)
      then show ?thesis
        using assms Some req add AddToCart_error [of c now "req\<lparr>cr_user_id := uid\<rparr>" db e db1]
        by (simp add: handle_AddToCart_def cart_step_def)
    next
      case (Inr x)
      have "cart_inv db1 \<and> products db1 = products db \<and> (\<forall>u p. in_cart db1 u p = in_cart db u p +
          (if u = uid \<and> p = cb_product_id b then cb_quantity b else 0))"
        using add_to_cart_accumulates [OF assms(1) add] Inr b by simp
      then have "in_cart db1 = cart_spec uid (CartAdd body) (in_cart db)" "cart_inv db1" "products db1 = products db"
        unfolding b(1) cart_spec.simps by (auto intro!: put_quantity_eq)
      then show ?thesis using assms(2) Some req add Inr by (simp add: handle_AddToCart_def cart_step_def)
    qed
  qed
qed

lemma update_step:
  assumes "cart_inv db" "handle_UpdateCart c now user body db = ((status, ans), db')"
  shows "cart_step user (CartUpdate body) status db db'"
proof (cases user)
  case None
  then show ?thesis using assms by (simp add: handle_UpdateCart_def cart_step_def)
next
  case (Some uid)
  show ?thesis
  proof (cases "bind_cart body")
    case None
    then show ?thesis using assms Some by (simp add: handle_UpdateCart_def cart_step_def)
  next
    case req: (Some req)
    obtain b where b: "body = Some b" "cr_product_id req = cb_product_id b" "cr_quantity req = cb_quantity b"
      using bind_cart_Some [OF req] .
    obtain r db1 where upd: "UpdateCart c now (req\<lparr>cr_user_id := uid\<rparr>) db = (r, db1)" by fastforce
    show ?thesis
    proof (cases r)
      case (Inl e)
      then show ?thesis
        using assms Some req upd UpdateCart_error [of c now "req\<lparr>cr_user_id := uid\<rparr>" db e db1]
        by (simp add: handle_UpdateCart_def cart_step_def)
    next
      case (Inr x)
      note ok = UpdateCart_ok [OF assms(1) upd [unfolded Inr]]
      have "in_cart db1 = cart_spec uid (CartUpdate body) (in_cart db)"
        unfolding b(1) cart_spec.simps using ok b by (intro put_quantity_eq) simp
      then show ?thesis using ok assms(2) Some req upd Inr by (simp add: handle_UpdateCart_def cart_step_def)
    qed
  qed
qed

lemma remove_step:
  assumes "cart_inv db" "handle_RemoveFromCart c user param db = ((status, ans), db')"
  shows "cart_step user (CartRemove param) status db db'"
proof -
  have "in_cart (db\<lparr>cart_items := sql_delete (cart_line uid pid) (cart_items db)\<rparr>) = put_quantity uid pid 0 (in_cart db)"
    for uid pid by (rule put_quantity_eq) (simp add: in_cart_remove)
  then show ?thesis
    using assms cart_inv_delete [OF assms(1)]
    by (auto simp: handle_RemoveFromCart_def RemoveFromCart_def cart_Delete_def cart_step_def Atoi_value_def
        split: option.splits if_splits)
qed

lemma clear_step:
  assumes "cart_inv db" "handle_ClearCart c user db = ((status, ans), db')"
  shows "cart_step user CartClear status db db'"
proof -
  have "in_cart (db\<lparr>cart_items := sql_delete (\<lambda>ci. ci_user_id ci = uid) (cart_items db)\<rparr>) = (in_cart db)(uid := (\<lambda>_. 0))"
    for uid by (auto simp: in_cart_clear fun_eq_iff)
  then show ?thesis
    using assms cart_inv_delete [OF assms(1)]
    by (auto simp: handle_ClearCart_def ClearCart_def cart_Clear_def cart_step_def split: option.splits if_splits)
qed

lemma serve_cart_step:
  assumes "cart_inv db" "serve_cart c now user call db = ((status, ans), db')"
  shows "cart_step user call status db db'"
proof (cases call)
  case (CartAdd body)
  then show ?thesis using assms add_step by simp
next
  case (CartUpdate body)
  then show ?thesis using assms update_step by simp
next
  case (CartRemove param)
  then show ?thesis using assms remove_step by simp
next
  case CartClear
  then show ?thesis using assms clear_step by simp
next
  case CartGet
  then show ?thesis
    using assms by (auto simp: handle_GetCart_def cart_step_def split: option.splits sum.splits)
next
  case CartTotal
  then show ?thesis
    using assms by (auto simp: handle_GetCartTotal_def cart_step_def split: option.splits sum.splits)
qed

lemma cart_spec_other: "u \<noteq> uid \<Longrightarrow> cart_spec uid call q u = q u"
  by (cases "(uid, call, q)" rule: cart_spec.cases) (simp_all add: put_quantity_def)

text \<open>
  C36. However requests on carts follow each other, with whatever failures of the database: the carts hold
  what the requests that were answered with 200 ask for, one after the other, and the others change
  nothing. No request touches the stock or the cart of another customer, and lines stay unique, of
  positive quantity and of products that exist.
\<close>

theorem carts_refine:
  assumes "cart_inv db" "serve_carts reqs db = (statuses, db')"
  shows "cart_inv db' \<and> products db' = products db \<and>
    in_cart db' = cart_specs reqs statuses (in_cart db) \<and>
    (\<forall>u. list_all (\<lambda>(c, now, user, call). user \<noteq> Some u) reqs \<longrightarrow> in_cart db' u = in_cart db u)"
  using assms
proof (induction reqs arbitrary: db statuses)
  case (Cons req rest)
  obtain c now user call where req: "req = (c, now, user, call)" by (metis prod_cases4)
  obtain status ans db1 where one: "serve_cart c now user call db = ((status, ans), db1)" by (metis prod.exhaust)
  obtain statuses' where rest: "serve_carts rest db1 = (statuses', db')" "statuses = status # statuses'"
    using Cons.prems(2) by (auto simp: req one split: prod.splits)
  have step: "cart_step user call status db db1" using serve_cart_step [OF Cons.prems(1) one] .
  then have inv: "cart_inv db1" by (simp add: cart_step_def)
  note IH = Cons.IH [OF inv rest(1)]
  have "user \<noteq> Some u \<Longrightarrow> in_cart db1 u = in_cart db u" for u
    using step by (auto simp: cart_step_def cart_spec_other split: option.splits if_splits)
  with IH step show ?case by (cases user) (auto simp: req rest(2) cart_step_def)
qed simp

theorem carts_refine_witness:
  "in_cart (snd (serve_carts [(healthy, 0, Some 7, CartClear)] cart_example)) 8 = in_cart cart_example 8"
proof -
  obtain statuses db' where run: "serve_carts [(healthy, 0, Some 7, CartClear)] cart_example = (statuses, db')"
    by fastforce
  from carts_refine [OF cart_example_inv run]
  have "list_all (\<lambda>(c, now, user, call). user \<noteq> Some 8) [(healthy, 0 :: time, Some (7 :: id64), CartClear)] \<longrightarrow>
      in_cart db' 8 = in_cart cart_example 8" by blast
  then show ?thesis unfolding run snd_conv by simp
qed

end
