(* ===== verification/Storefront.thy ===== *)
theory Storefront
  imports PromotionCatalog Sanitizer Tokens
begin

text \<open>
  internal/handlers/products.go and promotions.go: the requests of the catalogue and of the promotions,
  with their parameters and statuses, and the check of a promotion in services/validation_helpers.go.
  A query of an address is a map from names to values; a body is what the JSON decoder made of it. Names
  of promotions are at most 255 characters long in the table: a longer one makes the statement fail.
\<close>

section \<open>Parameters\<close>

type_synonym url_query = "string \<rightharpoonup> string"

definition DefaultQuery :: "url_query \<Rightarrow> string \<Rightarrow> string \<Rightarrow> string" where
  "DefaultQuery q key defaultValue = (case q key of Some v \<Rightarrow> v | None \<Rightarrow> defaultValue)"

definition positive_id :: "string \<Rightarrow> id64 option" where
  "positive_id s = (case Atoi s of Some k \<Rightarrow> if k \<le> 0 then None else Some k | None \<Rightarrow> None)"

definition page_limit :: "string \<Rightarrow> int \<Rightarrow> int \<Rightarrow> int" where
  "page_limit s largest other =
     (case Atoi s of Some n \<Rightarrow> if n \<le> 0 \<or> n > largest then other else n | None \<Rightarrow> other)"

definition page_offset :: "string \<Rightarrow> nat" where
  "page_offset s = (case Atoi s of Some n \<Rightarrow> if n < 0 then 0 else nat n | None \<Rightarrow> 0)"

section \<open>Products\<close>

record product_page =
  pp_products :: "product list"
  pp_total :: nat
  pp_count :: nat
  pp_has_more :: bool

definition show_page :: "nat \<Rightarrow> product list \<Rightarrow> nat result \<Rightarrow> product_page" where
  "show_page offset ps counted =
     \<lparr>pp_products = ps, pp_total = (case counted of Inr n \<Rightarrow> n | Inl e \<Rightarrow> 0), pp_count = length ps,
      pp_has_more = has_more offset (length ps) counted\<rparr>"

definition handle_GetProducts ::
  "catalog_env \<Rightarrow> conn \<Rightarrow> url_query \<Rightarrow> shop_db \<Rightarrow> redis \<Rightarrow> pricer \<Rightarrow> (int \<times> product_page option) \<times> redis \<times> pricer" where
  "handle_GetProducts env cn q db rd pc =
     (let limit = page_limit (DefaultQuery q ''limit'' ''20'') 500 50;
          offset = page_offset (DefaultQuery q ''offset'' ''0'');
          categoryID = DefaultQuery q ''category_id'' []
      in if categoryID \<noteq> [] \<and> positive_id categoryID = None then ((400, None), rd, pc)
         else
           let category = (if categoryID \<noteq> [] then positive_id categoryID else None)
           in case GetCatalogProducts env limit offset category db rd pc of
             (Inl e, rd', pc') \<Rightarrow> ((500, None), rd', pc')
           | (Inr ps, rd', pc') \<Rightarrow>
               ((200, Some (show_page offset ps (GetActiveProductsCount cn category db))), rd', pc'))"

definition handle_GetProduct ::
  "catalog_env \<Rightarrow> string \<Rightarrow> shop_db \<Rightarrow> redis \<Rightarrow> pricer \<Rightarrow> (int \<times> product option) \<times> redis \<times> pricer" where
  "handle_GetProduct env param db rd pc =
     (case positive_id param of
        None \<Rightarrow> ((400, None), rd, pc)
      | Some pid \<Rightarrow>
          (case GetProductByID env pid db rd pc of
             (Inl e, rd', pc') \<Rightarrow> ((500, None), rd', pc')
           | (Inr None, rd', pc') \<Rightarrow> ((404, None), rd', pc')
           | (Inr (Some p), rd', pc') \<Rightarrow> ((200, Some p), rd', pc')))"

text \<open>The page of a product hides one that is not active; the API does not.\<close>

definition RenderProductPage ::
  "catalog_env \<Rightarrow> string \<Rightarrow> shop_db \<Rightarrow> redis \<Rightarrow> pricer \<Rightarrow> (int \<times> product option) \<times> redis \<times> pricer" where
  "RenderProductPage env param db rd pc =
     (case positive_id param of
        None \<Rightarrow> ((404, None), rd, pc)
      | Some pid \<Rightarrow>
          (case GetProductByID env pid db rd pc of
             (Inl e, rd', pc') \<Rightarrow> ((404, None), rd', pc')
           | (Inr None, rd', pc') \<Rightarrow> ((404, None), rd', pc')
           | (Inr (Some p), rd', pc') \<Rightarrow>
               if \<not> p_active p then ((404, None), rd', pc') else ((200, Some p), rd', pc')))"

definition handle_SearchProducts ::
  "catalog_env \<Rightarrow> conn \<Rightarrow> url_query \<Rightarrow> shop_db \<Rightarrow> redis \<Rightarrow> pricer \<Rightarrow> (int \<times> product_page option) \<times> redis \<times> pricer" where
  "handle_SearchProducts env cn q db rd pc =
     (let asked = DefaultQuery q ''q'' []
      in if asked = [] then ((400, None), rd, pc)
         else
           let query = SanitizeString asked 100
           in if length query < 2 then ((400, None), rd, pc)
              else
                let limit = page_limit (DefaultQuery q ''limit'' ''20'') 100 20;
                    offset = page_offset (DefaultQuery q ''offset'' ''0'');
                    category = positive_id (DefaultQuery q ''category_id'' [])
                in case SearchProducts env query category limit offset db rd pc of
                  (Inl e, rd', pc') \<Rightarrow> ((500, None), rd', pc')
                | (Inr ps, rd', pc') \<Rightarrow>
                    ((200, Some (show_page offset ps (GetSearchProductsCount cn query category db))), rd', pc'))"

definition handle_ListCategories ::
  "conn \<Rightarrow> (category list \<Rightarrow> category list) \<Rightarrow> shop_db \<Rightarrow> int \<times> category list option" where
  "handle_ListCategories c order_by_name db =
     (case ListAll c db order_by_name of Inl e \<Rightarrow> (500, None) | Inr cats \<Rightarrow> (200, Some cats))"

section \<open>Promotions\<close>

definition answer_result :: "'a result \<Rightarrow> int \<times> 'a option" where
  "answer_result r = (case r of Inl e \<Rightarrow> (500, None) | Inr x \<Rightarrow> (200, Some x))"

definition handle_GetActivePromotions :: "conn \<Rightarrow> conn \<Rightarrow> time \<Rightarrow> shop_db \<Rightarrow> int \<times> promotion_card list option" where
  "handle_GetActivePromotions c cl now db = answer_result (GetActivePromotions c cl now db)"

definition handle_GetAllPromotions :: "conn \<Rightarrow> conn \<Rightarrow> time \<Rightarrow> shop_db \<Rightarrow> int \<times> promotion_card list option" where
  "handle_GetAllPromotions c cl now db = answer_result (GetAllPromotions c cl now db)"

text \<open>A panic of the handler is turned into 500 by the recovery middleware.\<close>

definition handle_GetPromotionsFeed ::
  "conn \<Rightarrow> conn \<Rightarrow> time \<Rightarrow> url_query \<Rightarrow> shop_db \<Rightarrow> int \<times> (promotion_card list \<times> bool \<times> nat) option" where
  "handle_GetPromotionsFeed c cl now q db =
     answer_result (GetPromotionsFeed c cl now (word_of_int (Atoi_value (DefaultQuery q ''page'' ''1'')))
       (word_of_int (Atoi_value (DefaultQuery q ''page_size'' ''20''))) db)"

definition handle_GetPromotion :: "conn \<Rightarrow> string \<Rightarrow> shop_db \<Rightarrow> int \<times> promotion option" where
  "handle_GetPromotion c param db =
     (case Atoi param of
        None \<Rightarrow> (400, None)
      | Some pid \<Rightarrow>
          (case promotion_GetByID c 0 pid db of
             Inl e \<Rightarrow> (500, None)
           | Inr None \<Rightarrow> (404, None)
           | Inr (Some p) \<Rightarrow> (200, Some p)))"

definition handle_GetPromotionProducts ::
  "conn \<Rightarrow> catalog_env \<Rightarrow> string \<Rightarrow> url_query \<Rightarrow> shop_db \<Rightarrow> redis \<Rightarrow> pricer
    \<Rightarrow> (int \<times> (product list \<times> nat \<times> bool) option) \<times> redis \<times> pricer" where
  "handle_GetPromotionProducts c env param q db rd pc =
     (case positive_id param of
        None \<Rightarrow> ((400, None), rd, pc)
      | Some pid \<Rightarrow>
          (let (r, rd', pc') = GetPromotionProducts c env pid (Atoi_value (DefaultQuery q ''limit'' ''20''))
                 (Atoi_value (DefaultQuery q ''offset'' ''0'')) db rd pc
           in (answer_result r, rd', pc')))"

text \<open>\<open>has_more\<close> is added to what the use case gives.\<close>

definition handle_GetPromotionalProducts ::
  "promo_env \<Rightarrow> url_query \<Rightarrow> shop_db \<Rightarrow> redis \<Rightarrow> pricer \<Rightarrow> (int \<times> (catalog_result \<times> bool) option) \<times> redis \<times> pricer" where
  "handle_GetPromotionalProducts env q db rd pc =
     (let n = Atoi_value (DefaultQuery q ''limit'' ''24'');
          limit = (if n \<le> 0 \<or> n > 60 then 24 else nat n);
          k = Atoi_value (DefaultQuery q ''offset'' ''0'');
          offset = (if k < 0 then 0 else nat k);
          search = SanitizeString (DefaultQuery q ''q'' []) 100;
          category = positive_id (DefaultQuery q ''category_id'' []);
          kind = DefaultQuery q ''kind'' ''all''
      in case ListProducts env search category kind limit offset db rd pc of
        (Inl e, rd', pc') \<Rightarrow> ((500, None), rd', pc')
      | (Inr res, rd', pc') \<Rightarrow>
          ((200, Some (res, offset + length (cr_products res) < cr_total res)), rd', pc'))"

section \<open>Promotions of the staff\<close>

text \<open>The check trims the description it was given a pointer to, but only its own copy of the title.\<close>

definition ValidatePromotion :: "promotion \<Rightarrow> promotion result" where
  "ValidatePromotion p =
     (let title = TrimSpace (pr_title p);
          p' = p\<lparr>pr_description := map_option TrimSpace (pr_description p)\<rparr>
      in if length title = 0 then Inl (Rejected ''title is required'')
         else if runes title > 255 then Inl (Rejected ''title is too long (max 255 characters)'')
         else if (case pr_description p' of Some d \<Rightarrow> runes d > 2000 | None \<Rightarrow> False)
           then Inl (Rejected ''description is too long (max 2000 characters)'')
         else if pr_discount p < 0 \<or> pr_discount p > 100 then Inl (Rejected ''discount must be between 0 and 100'')
         else Inr p')"

definition clean_promotion :: "promotion \<Rightarrow> promotion" where
  "clean_promotion p =
     p\<lparr>pr_title := SanitizeString (pr_title p) 255,
       pr_description := map_option (\<lambda>d. SanitizeString d 2000) (pr_description p)\<rparr>"

definition title_fits :: "promotion \<Rightarrow> bool" where
  "title_fits p = (runes (pr_title p) \<le> 255)"

definition CreatePromotion :: "conn \<Rightarrow> time \<Rightarrow> promotion option \<Rightarrow> shop_db \<Rightarrow> (int \<times> promotion option) \<times> shop_db" where
  "CreatePromotion c now body db =
     (case body of
        None \<Rightarrow> ((400, None), db)
      | Some p \<Rightarrow>
          (case ValidatePromotion p of
             Inl e \<Rightarrow> ((400, None), db)
           | Inr p' \<Rightarrow>
               (let promotion = clean_promotion p'
                in if \<not> title_fits promotion then ((500, None), db)
                   else case promotion_Insert c 0 now promotion db of
                     (Inl e, db') \<Rightarrow> ((500, None), db')
                   | (Inr created, db') \<Rightarrow> ((201, Some created), db'))))"

definition UpdatePromotion :: "conn \<Rightarrow> string \<Rightarrow> promotion option \<Rightarrow> shop_db \<Rightarrow> (int \<times> promotion option) \<times> shop_db" where
  "UpdatePromotion c param body db =
     (case positive_id param of
        None \<Rightarrow> ((400, None), db)
      | Some pid \<Rightarrow>
          (case body of
             None \<Rightarrow> ((400, None), db)
           | Some p \<Rightarrow>
               (case ValidatePromotion p of
                  Inl e \<Rightarrow> ((400, None), db)
                | Inr p' \<Rightarrow>
                    (let promotion = clean_promotion p'
                     in if \<not> title_fits promotion then ((500, None), db)
                        else case promotion_Update c 0 promotion pid db of
                          (Inl e, db') \<Rightarrow> ((500, None), db')
                        | (Inr updated, db') \<Rightarrow> ((200, Some updated), db')))))"

definition DeletePromotion :: "conn \<Rightarrow> string \<Rightarrow> shop_db \<Rightarrow> int \<times> shop_db" where
  "DeletePromotion c param db =
     (case Atoi param of
        None \<Rightarrow> (400, db)
      | Some pid \<Rightarrow>
          (case promotion_Delete c pid db of (Inl e, db') \<Rightarrow> (500, db') | (Inr u, db') \<Rightarrow> (200, db')))"

section \<open>What is stored\<close>

lemma CreatePromotion_created:
  assumes "CreatePromotion c now (Some p) db = ((201, Some created), db')"
  shows "0 \<le> pr_discount p" "pr_discount p \<le> 100" "pr_discount created = pr_discount p"
    "pr_title created = SanitizeString (pr_title p) 255" "runes (pr_title created) \<le> 255"
    "pr_id created = next_promotion db"
    "db' = db\<lparr>promotions := promotions db @ [created], next_promotion := next_promotion db + 1\<rparr>"
  using assms
  by (auto simp: CreatePromotion_def ValidatePromotion_def clean_promotion_def title_fits_def promotion_Insert_def Let_def
      split: sum.splits prod.splits if_splits)

lemma SanitizeString_no_markup: "set (SanitizeString s n) \<inter> markup = {}"
proof -
  have "set (TrimSpace t) \<subseteq> set t" for t by (auto simp: TrimSpace_def dest!: set_dropWhileD)
  then show ?thesis using escape_no_markup unfolding SanitizeString_def SanitizeInput_def by fast
qed

definition promotions_inv :: "shop_db \<Rightarrow> bool" where
  "promotions_inv db =
     ((\<forall>p \<in> set (promotions db). pr_id p < next_promotion db) \<and> 0 < next_promotion db \<and> next_promotion db < 2 ^ 63 \<and>
      (\<forall>l \<in> set (promotion_products db) \<union> set (promotion_categories db). fst l \<in> pr_id ` set (promotions db)))"

text \<open>
  C37. A promotion the staff creates has a discount between 0 and 100 and a title of at most 255 characters
  without markup; it is read back as it was answered, and deleting it leaves the tables as they were, but
  for the number used. Its title may be empty, though: the check comes before the cleaning.
\<close>

theorem promotion_created_read_deleted:
  assumes "promotions_inv db" "CreatePromotion c now (Some p) db = ((201, Some created), db')"
  shows "0 \<le> pr_discount created \<and> pr_discount created \<le> 100 \<and> runes (pr_title created) \<le> 255 \<and>
    set (pr_title created) \<inter> markup = {} \<and>
    handle_GetPromotion healthy (show_int (pr_id created)) db' = (200, Some created) \<and>
    DeletePromotion healthy (show_int (pr_id created)) db' = (200, db\<lparr>next_promotion := next_promotion db + 1\<rparr>) \<and>
    handle_GetPromotion healthy (show_int (pr_id created)) (db\<lparr>next_promotion := next_promotion db + 1\<rparr>) = (404, None) \<and>
    (\<exists>q stored. CreatePromotion healthy now (Some (p\<lparr>pr_title := ''onclick='', pr_moysklad_id := None\<rparr>)) db = ((201, Some q), stored) \<and>
       pr_title q = [])"
proof -
  note made = CreatePromotion_created [OF assms(2)]
  have fresh: "filter (\<lambda>r. pr_id r = next_promotion db) (promotions db) = []"
    "filter (\<lambda>r. pr_id r \<noteq> next_promotion db) (promotions db) = promotions db"
    using assms(1) by (auto simp: promotions_inv_def filter_empty_conv filter_id_conv)
  have "fst l \<noteq> next_promotion db" if "l \<in> set (promotion_products db) \<union> set (promotion_categories db)" for l
    using assms(1) that unfolding promotions_inv_def by (metis (no_types, lifting) imageE order_less_irrefl)
  then have links: "filter (\<lambda>l. fst l \<noteq> next_promotion db) (promotion_products db) = promotion_products db"
    "filter (\<lambda>l. fst l \<noteq> next_promotion db) (promotion_categories db) = promotion_categories db"
    by (simp_all add: filter_id_conv)
  have number: "Atoi (show_int (pr_id created)) = Some (next_promotion db)"
    using assms(1) by (simp add: promotions_inv_def made(6) Atoi_show_int)
  have up: "c_stmt healthy k" for k by (simp add: healthy_def)
  have get: "handle_GetPromotion healthy (show_int (pr_id created)) db' = (200, Some created)"
    by (simp add: handle_GetPromotion_def number promotion_GetByID_def up made(7) fresh) (simp add: made(6))
  have del: "DeletePromotion healthy (show_int (pr_id created)) db' = (200, db\<lparr>next_promotion := next_promotion db + 1\<rparr>)"
    by (simp add: DeletePromotion_def number promotion_Delete_def up made(7) sql_delete_def fresh links) (simp add: made(6))
  have gone: "handle_GetPromotion healthy (show_int (pr_id created)) (db\<lparr>next_promotion := next_promotion db + 1\<rparr>) = (404, None)"
    by (simp add: handle_GetPromotion_def number promotion_GetByID_def up fresh)
  have clean: "SanitizeString ''onclick='' 255 = []" "TrimSpace ''onclick='' = ''onclick=''" "runes ''onclick='' = 8" "runes [] = 0"
    by code_simp+
  have described: "case map_option TrimSpace (pr_description p) of Some d \<Rightarrow> \<not> runes d > 2000 | None \<Rightarrow> True"
    using assms(2) by (auto simp: CreatePromotion_def ValidatePromotion_def Let_def split: if_splits option.splits)
  have "\<exists>q stored. CreatePromotion healthy now (Some (p\<lparr>pr_title := ''onclick='', pr_moysklad_id := None\<rparr>)) db =
      ((201, Some q), stored) \<and> pr_title q = []"
    using made(1,2) described
    by (auto simp: CreatePromotion_def ValidatePromotion_def Let_def clean clean_promotion_def title_fits_def
        promotion_Insert_def up promotion_unique_def split: option.splits)
  then show ?thesis using get del gone made SanitizeString_no_markup by simp
qed

theorem promotion_created_read_deleted_witness:
  "\<exists>created db'. CreatePromotion healthy 5 (Some (mk_promotion 0 ''manual'' 10 0)) empty_shop = ((201, Some created), db') \<and>
     handle_GetPromotion healthy (show_int (pr_id created)) db' = (200, Some created)"
proof -
  have inv: "promotions_inv empty_shop" by (simp add: promotions_inv_def empty_shop_def)
  have clean: "SanitizeString ''t'' 255 = ''t''" "TrimSpace ''t'' = ''t''" "runes ''t'' = 1" by code_simp+
  have "\<exists>created db'. CreatePromotion healthy 5 (Some (mk_promotion 0 ''manual'' 10 0)) empty_shop = ((201, Some created), db')"
    by (simp add: CreatePromotion_def ValidatePromotion_def mk_promotion_def clean clean_promotion_def title_fits_def
        promotion_Insert_def healthy_def promotion_unique_def empty_shop_def Let_def)
  then show ?thesis using promotion_created_read_deleted [OF inv] by blast
qed

section \<open>Searching\<close>

lemma search_page_rows:
  assumes "catalog_up env" "distinct (map p_id (products db))" "search_rows query None db = Some rows" "0 < limit"
  shows "fst (SearchProducts env query None (int limit) offset db rd pc) =
    Inr (fst (applyPromotions env (map (restocked (ce_now env) rd) (take limit
      (filter (\<lambda>p. 0 < shown_stock (ce_now env) rd p)
        (take (20 * limit) (drop offset (newest_first p_created_at rows)))))) db pc))"
proof -
  have rows: "rows = filter (\<lambda>p. on_sale p \<and> ILike (search_pattern query) (p_name p)) (products db)"
    using assms(3) by (simp add: search_rows_def)
  have sub: "set (newest_first p_created_at rows) \<subseteq> set (products db)" by (auto simp: rows)
  have dist: "distinct (map p_id (newest_first p_created_at rows))"
    unfolding rows by (rule distinct_newest_first) (simp add: assms(2) distinct_map_filter)
  have fetch: "Search (ce_page env b) query None limit off db = Inr (page limit off (newest_first p_created_at rows))" for b off
    using assms(1,3) by (simp add: catalog_up_def Search_def healthy_def)
  have "fst (collect_batches env (\<lambda>b lim off. Search (ce_page env b) query None lim off db) maxBatches 0 limit offset [] db rd) =
      Inr (take limit (map (restocked (ce_now env) rd)
        (filter (\<lambda>p. 0 < shown_stock (ce_now env) rd p) (take (20 * limit) (drop offset (newest_first p_created_at rows))))))"
    using collect_batches_up [where fetch = "\<lambda>b lim off. Search (ce_page env b) query None lim off db" and n = maxBatches and b = 0
        and collected = "[]" and offset = offset and rd = rd and rd' = rd, OF assms(1,2) sub dist fetch assms(4)]
    by (simp add: maxBatches_def)
  then show ?thesis
    using assms(4) by (simp add: SearchProducts_def take_map) (metis fst_priced prod.collapse)
qed

lemma SanitizeString_plain:
  assumes "set s \<inter> (markup \<union> {CHR ''&''}) = {}" "list_all (\<lambda>d. \<not> sublist d (ToLower s)) dangerous"
    "TrimSpace s = s" "length s \<le> n"
  shows "SanitizeString s n = s"
  using assms by (simp add: SanitizeString_def SanitizeInput_def remove_all_absent escape_plain)

text \<open>
  Searching for a name of plain text finds, with everything up, the products on sale whose name
  contains it in whatever case: they are counted, and the page has the first twenty of them that have
  something left. A name with an ampersand is cleaned into a text that finds nothing.
\<close>

theorem search_finds_plain_names:
  fixes db :: shop_db and rd :: redis
  assumes "catalog_up env" "c_stmt cn 0" "distinct (map p_id (products db))"
    and "\<forall>ch \<in> set name. plain_char ch \<and> ch \<notin> markup \<and> ch \<noteq> CHR ''&''"
    and "list_all (\<lambda>d. \<not> sublist d (ToLower name)) dangerous"
    and "TrimSpace name = name" "2 \<le> length name" "length name \<le> 100"
  defines "hits \<equiv> filter (\<lambda>p. on_sale p \<and> sublist (ToLower name) (ToLower (p_name p))) (products db)"
    and "shown \<equiv> \<lambda>p. 0 < shown_stock (ce_now env) rd p"
  shows "(\<exists>pg. fst (handle_SearchProducts env cn [''q'' \<mapsto> name] db rd pc) = (200, Some pg) \<and>
      pp_total pg = length hits \<and>
      pp_products pg = fst (applyPromotions env (map (restocked (ce_now env) rd)
        (take 20 (filter shown (take 400 (newest_first p_created_at hits))))) db pc)) \<and>
    GetSearchProductsCount healthy (SanitizeString ''A&B'' 100) None
      (db\<lparr>products := [(mk_product 1 10 5)\<lparr>p_name := ''A&B''\<rparr>]\<rparr>) = Inr 0"
proof
  have clean: "SanitizeString name 100 = name" using assms(4-8) by (intro SanitizeString_plain) auto
  have rows: "search_rows name None db = Some hits"
    using search_pattern_contains [of name] assms(4) by (simp add: search_rows_def hits_def)
  note found = search_page_rows [OF assms(1,3) rows, of 20 0 rd pc]
  obtain res rd' pc' where run: "SearchProducts env name None 20 0 db rd pc = (res, rd', pc')" by (metis prod_cases3)
  have count: "GetSearchProductsCount cn name None db = Inr (length hits)"
    using rows assms(2) by (simp add: GetSearchProductsCount_def CountSearch_def)
  have numbers: "page_limit ''20'' 100 20 = 20" "page_offset ''0'' = 0" "positive_id [] = None" by code_simp+
  have "name \<noteq> []" using assms(7) by auto
  then show "\<exists>pg. fst (handle_SearchProducts env cn [''q'' \<mapsto> name] db rd pc) = (200, Some pg) \<and>
      pp_total pg = length hits \<and>
      pp_products pg = fst (applyPromotions env (map (restocked (ce_now env) rd)
        (take 20 (filter shown (take 400 (newest_first p_created_at hits))))) db pc)"
    using found assms(7) count
    by (simp add: handle_SearchProducts_def DefaultQuery_def clean numbers run show_page_def shown_def)
next
  have "SanitizeString ''A&B'' 100 = ''A&amp;B''" "\<not> ILike (search_pattern ''A&amp;B'') ''A&B''" by code_simp+
  then show "GetSearchProductsCount healthy (SanitizeString ''A&B'' 100) None
      (db\<lparr>products := [(mk_product 1 10 5)\<lparr>p_name := ''A&B''\<rparr>]\<rparr>) = Inr 0"
    by (simp add: GetSearchProductsCount_def CountSearch_def search_rows_def healthy_def)
qed

theorem search_finds_plain_names_witness:
  "\<exists>pg. fst (handle_SearchProducts (usual_catalog 7) healthy [''q'' \<mapsto> ''paint'']
     (empty_shop\<lparr>products := [(mk_product 1 10 5)\<lparr>p_name := ''Red Paint''\<rparr>]\<rparr>) redis_empty (NewPromotionPricer False)) =
       (200, Some pg) \<and> pp_total pg = 1"
proof -
  let ?db = "empty_shop\<lparr>products := [(mk_product 1 10 5)\<lparr>p_name := ''Red Paint''\<rparr>]\<rparr>"
  have env: "c_stmt healthy 0" "distinct (map p_id (products ?db))" by (simp_all add: healthy_def)
  have name: "\<forall>ch \<in> set ''paint''. plain_char ch \<and> ch \<notin> markup \<and> ch \<noteq> CHR ''&''" by (simp add: plain_char_def markup_def)
  have clean: "list_all (\<lambda>d. \<not> sublist d (ToLower ''paint'')) dangerous" "TrimSpace ''paint'' = ''paint''"
    "(2 :: nat) \<le> length ''paint''" "length ''paint'' \<le> (100 :: nat)" by code_simp+
  have hit: "sublist (ToLower ''paint'') (ToLower ''Red Paint'')" by code_simp
  from search_finds_plain_names [OF usual_catalog_up env name clean, of 7 redis_empty "NewPromotionPricer False"] hit
  show ?thesis by (auto simp: on_sale_def mk_product_def)
qed

end
