(* ===== verification/Startup.thy ===== *)
theory Startup
  imports MoyskladClient SyncWorker Router
begin

text \<open>
  internal/config/config.go, internal/app/app.go and the loops of services/scheduler.go: what the
  environment makes of the application. An environment variable that is not set is empty;
  the environment is the one left when the file .env was read. Numbers with a
  fraction are read by \<open>strconv.ParseFloat\<close>, an argument that gives the finite ones; durations are exact.
  Building an application says which parts it has and with which settings; the parts are those of the
  other theories.
\<close>

section \<open>Reading the environment\<close>

type_synonym environment = "string \<Rightarrow> string"

definition getEnv :: "environment \<Rightarrow> string \<Rightarrow> string \<Rightarrow> string" where
  "getEnv env key defaultValue = (if env key \<noteq> [] then env key else defaultValue)"

definition requireEnv :: "environment \<Rightarrow> string \<Rightarrow> string result" where
  "requireEnv env key =
     (if env key \<noteq> [] then Inr (env key)
      else Inl (Rejected (''required environment variable '' @ key @ '' is not set'')))"

text \<open>\<open>time.ParseDuration\<close>: a sign, then numbers with units; 0 needs none.\<close>

definition unit_of :: "string \<Rightarrow> duration option" where
  "unit_of u =
     map_of [(''ns'', 1), (''us'', 1000), ([CHR 0xC2, CHR 0xB5, CHR ''s''], 1000), ([CHR 0xCE, CHR 0xBC, CHR ''s''], 1000),
       (''ms'', millisecond), (''s'', second), (''m'', minute), (''h'', hour)] u"

definition digits_nat :: "string \<Rightarrow> int" where
  "digits_nat s = foldl (\<lambda>n ch. 10 * n + of_char ch - 48) 0 s"

fun duration_parts :: "nat \<Rightarrow> string \<Rightarrow> duration \<Rightarrow> duration option" where
  "duration_parts 0 s acc = None"
| "duration_parts (Suc k) s acc =
     (if s = [] then Some acc
      else
        let whole = takeWhile is_digit s;
            rest = dropWhile is_digit s;
            dot = (rest \<noteq> [] \<and> hd rest = CHR ''.'');
            frac = (if dot then takeWhile is_digit (tl rest) else []);
            rest' = (if dot then dropWhile is_digit (tl rest) else rest);
            name = takeWhile (\<lambda>ch. \<not> is_digit ch \<and> ch \<noteq> CHR ''.'') rest'
        in if whole = [] \<and> frac = [] then None
           else case unit_of name of
             None \<Rightarrow> None
           | Some u \<Rightarrow>
               duration_parts k (drop (length name) rest')
                 (acc + digits_nat whole * u + digits_nat frac * u div 10 ^ length frac))"

definition ParseDuration :: "string \<Rightarrow> duration option" where
  "ParseDuration s =
     (let neg = (s \<noteq> [] \<and> hd s = CHR ''-'');
          body = (if s \<noteq> [] \<and> hd s \<in> {CHR ''-'', CHR ''+''} then tl s else s)
      in if body = ''0'' then Some 0
         else if body = [] then None
         else case duration_parts (Suc (length body)) body 0 of
           None \<Rightarrow> None
         | Some d \<Rightarrow> if d \<ge> 2 ^ 63 then (if neg \<and> d = 2 ^ 63 then Some (- d) else None) else Some (if neg then - d else d))"

definition parseDuration :: "string \<Rightarrow> duration" where
  "parseDuration s = (case ParseDuration s of None \<Rightarrow> 10 * minute | Some d \<Rightarrow> d)"

definition parseDurationOrZero :: "string \<Rightarrow> duration" where
  "parseDurationOrZero s = (if s \<in> {[], ''0'', ''off'', ''false''} then 0 else parseDuration s)"

definition parseFloat :: "(string \<Rightarrow> rat option) \<Rightarrow> string \<Rightarrow> rat" where
  "parseFloat float s = (case float s of None \<Rightarrow> 5 | Some f \<Rightarrow> f)"

definition parseInt :: "string \<Rightarrow> int" where
  "parseInt s = (case Atoi s of None \<Rightarrow> 0 | Some i \<Rightarrow> i)"

section \<open>The configuration\<close>

record db_config =
  dc_host :: string
  dc_port :: int
  dc_user :: string
  dc_password :: string
  dc_name :: string
  dc_ssl_mode :: string

record moysklad_config =
  mk_token :: string
  mk_base_url :: string
  mk_sync_interval :: duration
  mk_auto_sync :: bool
  mk_webhook_secret :: string
  mk_stock_buffer :: rat
  mk_requests_per_second :: rat
  mk_max_retries :: int
  mk_sync_workers :: int
  mk_reseed_interval :: duration
  mk_image_interval :: duration
  mk_image_time :: string
  mk_webhook_interval :: duration
  mk_webhook_batch :: int
  mk_webhook_attempts :: int
  mk_circuit_threshold :: int
  mk_circuit_timeout :: duration
  mk_max_concurrent :: int
  mk_organization :: string
  mk_agent :: string

record smtp_config =
  sm_host :: string
  sm_port :: int
  sm_username :: string
  sm_password :: string
  sm_from :: string
  sm_use_tls :: bool

record config =
  cf_db :: db_config
  cf_port :: string
  cf_host :: string
  cf_cors :: "string list"
  cf_jwt_secret :: string
  cf_jwt_expiration :: duration
  cf_moysklad :: moysklad_config
  cf_redis_host :: string
  cf_redis_port :: string
  cf_redis_password :: string
  cf_redis_db :: int
  cf_smtp :: smtp_config

definition load_db :: "environment \<Rightarrow> string \<Rightarrow> db_config" where
  "load_db env password =
     \<lparr>dc_host = getEnv env ''DB_HOST'' ''postgres'', dc_port = Atoi_value (getEnv env ''DB_PORT'' ''5432''),
      dc_user = getEnv env ''DB_USER'' ''postgres'', dc_password = password,
      dc_name = getEnv env ''DB_NAME'' ''hozdacha'', dc_ssl_mode = getEnv env ''DB_SSLMODE'' ''disable''\<rparr>"

definition load_moysklad :: "(string \<Rightarrow> rat option) \<Rightarrow> environment \<Rightarrow> moysklad_config" where
  "load_moysklad float env =
     \<lparr>mk_token = env ''MOYSKLAD_TOKEN'',
      mk_base_url = getEnv env ''MOYSKLAD_BASE_URL'' ''https://api.moysklad.ru/api/remap/1.2'',
      mk_sync_interval = parseDuration (getEnv env ''MOYSKLAD_SYNC_INTERVAL'' ''1h''),
      mk_auto_sync = (getEnv env ''MOYSKLAD_AUTO_SYNC'' ''true'' = ''true''),
      mk_webhook_secret = env ''MOYSKLAD_WEBHOOK_SECRET'',
      mk_stock_buffer = parseFloat float (getEnv env ''MOYSKLAD_STOCK_BUFFER'' ''3.0''),
      mk_requests_per_second = parseFloat float (getEnv env ''MOYSKLAD_REQUESTS_PER_SECOND'' ''10.0''),
      mk_max_retries = parseInt (getEnv env ''MOYSKLAD_MAX_RETRIES'' ''5''),
      mk_sync_workers = parseInt (getEnv env ''MOYSKLAD_SYNC_WORKERS'' ''3''),
      mk_reseed_interval = parseDurationOrZero (getEnv env ''MOYSKLAD_RESEED_FULL_INTERVAL'' ''24h''),
      mk_image_interval = parseDurationOrZero (getEnv env ''MOYSKLAD_IMAGE_SYNC_INTERVAL'' ''6h''),
      mk_image_time = getEnv env ''MOYSKLAD_IMAGE_SYNC_TIME'' [],
      mk_webhook_interval = parseDuration (getEnv env ''WEBHOOK_INBOX_POLL_INTERVAL'' ''2s''),
      mk_webhook_batch = parseInt (getEnv env ''WEBHOOK_INBOX_BATCH'' ''10''),
      mk_webhook_attempts = parseInt (getEnv env ''WEBHOOK_MAX_ATTEMPTS'' ''15''),
      mk_circuit_threshold = parseInt (getEnv env ''MOYSKLAD_CIRCUIT_FAIL_THRESHOLD'' ''5''),
      mk_circuit_timeout = parseDuration (getEnv env ''MOYSKLAD_CIRCUIT_OPEN_TIMEOUT'' ''60s''),
      mk_max_concurrent = parseInt (getEnv env ''MOYSKLAD_MAX_CONCURRENT_REQUESTS'' ''8''),
      mk_organization = env ''MOYSKLAD_ORGANIZATION_ID'', mk_agent = env ''MOYSKLAD_AGENT_ID''\<rparr>"

definition load_smtp :: "environment \<Rightarrow> smtp_config" where
  "load_smtp env =
     \<lparr>sm_host = getEnv env ''SMTP_HOST'' ''smtp.gmail.com'', sm_port = parseInt (getEnv env ''SMTP_PORT'' ''587''),
      sm_username = env ''SMTP_USERNAME'', sm_password = env ''SMTP_PASSWORD'',
      sm_from = getEnv env ''SMTP_FROM'' ''noreply@hozdacha.ru'', sm_use_tls = (getEnv env ''SMTP_USE_TLS'' ''true'' = ''true'')\<rparr>"

definition Load :: "(string \<Rightarrow> rat option) \<Rightarrow> environment \<Rightarrow> config result" where
  "Load float env =
     (case requireEnv env ''DB_PASSWORD'' of
        Inl e \<Rightarrow> Inl e
      | Inr dbPassword \<Rightarrow>
          (case requireEnv env ''JWT_SECRET'' of
             Inl e \<Rightarrow> Inl e
           | Inr jwtSecret \<Rightarrow>
               Inr \<lparr>cf_db = load_db env dbPassword, cf_port = getEnv env ''SERVER_PORT'' ''8080'',
                 cf_host = getEnv env ''SERVER_HOST'' ''0.0.0.0'',
                 cf_cors = (if env ''CORS_ALLOWED_ORIGINS'' = [] then []
                   else filter (\<lambda>o'. o' \<noteq> []) (map TrimSpace (split_on (CHR '','') (env ''CORS_ALLOWED_ORIGINS'')))),
                 cf_jwt_secret = jwtSecret,
                 cf_jwt_expiration = (case ParseDuration (getEnv env ''JWT_EXPIRATION'' ''24h'') of None \<Rightarrow> 0 | Some d \<Rightarrow> d),
                 cf_moysklad = load_moysklad float env,
                 cf_redis_host = getEnv env ''REDIS_HOST'' ''redis'', cf_redis_port = getEnv env ''REDIS_PORT'' ''6379'',
                 cf_redis_password = env ''REDIS_PASSWORD'', cf_redis_db = parseInt (getEnv env ''REDIS_DB'' ''0''),
                 cf_smtp = load_smtp env\<rparr>))"

definition DSN :: "db_config \<Rightarrow> string" where
  "DSN c =
     ''host='' @ dc_host c @ '' port='' @ show_int (dc_port c) @ '' user='' @ dc_user c @ '' password='' @ dc_password c @
     '' dbname='' @ dc_name c @ '' sslmode='' @ dc_ssl_mode c"

lemma durations:
  "ParseDuration ''24h'' = Some (24 * hour)" "ParseDuration ''1.5h'' = Some (90 * minute)" "ParseDuration ''2s'' = Some (2 * second)"
  "ParseDuration ''-10ms'' = Some (- 10 * millisecond)" "ParseDuration ''1h30m'' = Some (90 * minute)"
  "ParseDuration ''10'' = None" "ParseDuration ''0'' = Some 0" "ParseDuration ''h'' = None"
  by code_simp+

section \<open>The scheduler\<close>

record scheduler =
  sd_pool :: worker_pool
  sd_max_workers :: int
  sd_interval :: duration
  sd_reseed :: duration
  sd_images :: bool
  sd_image_interval :: duration
  sd_image_time :: string

definition NewScheduler :: "duration \<Rightarrow> int \<Rightarrow> duration \<Rightarrow> bool \<Rightarrow> duration \<Rightarrow> string \<Rightarrow> scheduler" where
  "NewScheduler interval maxWorkers reseed images imageInterval imageTime =
     (let n = (if maxWorkers < 1 then 1 else maxWorkers)
      in \<lparr>sd_pool = NewSyncWorkerPool n, sd_max_workers = n, sd_interval = interval, sd_reseed = reseed,
          sd_images = images, sd_image_interval = imageInterval, sd_image_time = imageTime\<rparr>)"

text \<open>
  The loops: when the first run is due after the start and how far apart the runs are; the daily one asks
  the clock after each run.
\<close>

datatype loop =
    WorkerPool
  | ReseedLoop duration
  | ImageLoop "duration option" "string option"
  | PromotionsLoop duration duration
  | DeltaLoop duration

text \<open>After the run at the start, images are synchronised at a time of day, at an interval, or no more.\<close>

definition runImageSyncLoop :: "scheduler \<Rightarrow> loop" where
  "runImageSyncLoop sd =
     (if sd_image_time sd \<noteq> [] then ImageLoop None (Some (sd_image_time sd))
      else if sd_image_interval sd > 0 then ImageLoop (Some (sd_image_interval sd)) None
      else ImageLoop None None)"

text \<open>
  \<open>Start\<close>: the loops that run, and whether it panics: a ticker must have a positive interval.
\<close>

definition Start :: "bool \<Rightarrow> scheduler \<Rightarrow> loop list \<times> bool" where
  "Start has_service sd =
     (if \<not> has_service then ([], False)
      else
        let loops =
          [WorkerPool] @
          (if sd_reseed sd > 0 then [ReseedLoop (sd_reseed sd)] else []) @
          (if sd_images sd \<and> (sd_image_interval sd > 0 \<or> sd_image_time sd \<noteq> []) then [runImageSyncLoop sd] else []) @
          [PromotionsLoop (30 * second) (10 * minute)]
        in if sd_interval sd \<le> 0 then (loops, True) else (loops @ [DeltaLoop (sd_interval sd)], False))"

text \<open>When run \<open>k\<close> of a loop is due, counted from its start; \<open>ends\<close> says when the runs end.\<close>

fun due :: "duration \<Rightarrow> loop \<Rightarrow> time \<Rightarrow> (nat \<Rightarrow> time) \<Rightarrow> nat \<Rightarrow> time option" where
  "due loc WorkerPool start ends k = None"
| "due loc (ReseedLoop d) start ends k = Some (start + int (k + 1) * d)"
| "due loc (PromotionsLoop first d) start ends k = Some (if k = 0 then start + first else ends 0 + int k * d)"
| "due loc (DeltaLoop d) start ends k = Some (start + int (k + 1) * d)"
| "due loc (ImageLoop every at_time) start ends k =
     (if k = 0 then Some start
      else case at_time of
        Some t \<Rightarrow> Some (nextTimeOfDay loc (ends (k - 1)) t)
      | None \<Rightarrow> (case every of Some d \<Rightarrow> Some (ends 0 + 30 * second + int k * d) | None \<Rightarrow> None))"

section \<open>Building the application\<close>

record app =
  ap_config :: config
  ap_client :: "ms_client option"
  ap_rate :: rate_store
  ap_blacklist :: bool
  ap_scheduler :: "scheduler option"
  ap_webhooks :: "(string \<times> int \<times> int \<times> duration) option"
  ap_expiry :: "duration \<times> int"
  ap_routes :: "route list"
  ap_addr :: string

datatype startup = StartFailed error | Exited | Built app

text \<open>What answers at the start: the logger, the database, Redis.\<close>

record surroundings =
  su_logger :: bool
  su_db :: bool
  su_redis :: bool

definition app_client :: "moysklad_config \<Rightarrow> ms_client option" where
  "app_client mk =
     (if mk_token mk \<noteq> [] then
        let maxConc = (if mk_max_concurrent mk < 1 then 8 else mk_max_concurrent mk);
            cb = NewCircuitBreaker (mk_circuit_threshold mk) (mk_circuit_timeout mk)
        in Some (NewClient (mk_base_url mk) (mk_requests_per_second mk) (mk_max_retries mk)
             [WithOutboundConcurrency maxConc, WithCircuitBreaker cb, WithOrderDefaults (mk_organization mk) (mk_agent mk)])
      else None)"

definition app_scheduler :: "moysklad_config \<Rightarrow> scheduler option" where
  "app_scheduler mk =
     (if mk_auto_sync mk \<and> app_client mk \<noteq> None then
        let w1 = (if mk_sync_workers mk < 1 then 3 else mk_sync_workers mk);
            w2 = (if w1 > 32 then 32 else w1);
            images = (mk_image_interval mk > 0 \<or> mk_image_time mk \<noteq> [])
        in Some (NewScheduler (mk_sync_interval mk) w2 (mk_reseed_interval mk) images (mk_image_interval mk) (mk_image_time mk))
      else None)"

text \<open>The webhook handler's secret and attempts, the worker's batch and interval.\<close>

definition NewWebhookInboxWorker :: "duration \<Rightarrow> int \<Rightarrow> int \<times> duration" where
  "NewWebhookInboxWorker interval batch =
     (if batch < 1 then 10 else batch, if interval < second then 2 * second else interval)"

definition app_webhooks :: "moysklad_config \<Rightarrow> (string \<times> int \<times> int \<times> duration) option" where
  "app_webhooks mk =
     (if app_client mk \<noteq> None then
        let tries = (if mk_webhook_attempts mk < 1 then 15 else mk_webhook_attempts mk);
            whBatch = (if mk_webhook_batch mk < 1 then 10 else mk_webhook_batch mk);
            (batch, interval) = NewWebhookInboxWorker (mk_webhook_interval mk) whBatch
        in Some (mk_webhook_secret mk, tries, batch, interval)
      else None)"

definition NewApp :: "(string \<Rightarrow> rat option) \<Rightarrow> environment \<Rightarrow> surroundings \<Rightarrow> startup" where
  "NewApp float env su =
     (if \<not> su_logger su then StartFailed (Rejected ''failed to init logger'')
      else case Load float env of
        Inl e \<Rightarrow> StartFailed e
      | Inr cfg \<Rightarrow>
          if \<not> su_db su then StartFailed (Rejected ''failed to initialize database'')
          else
            let cached = cf_redis_host cfg \<noteq> [] in
            if cached \<and> \<not> su_redis su then Exited
            else
              Built \<lparr>ap_config = cfg, ap_client = app_client (cf_moysklad cfg),
                ap_rate = NewRateStore (if cached then Some Map.empty else None), ap_blacklist = cached,
                ap_scheduler = app_scheduler (cf_moysklad cfg), ap_webhooks = app_webhooks (cf_moysklad cfg),
                ap_expiry = (5 * minute, 100),
                ap_routes = SetupRouter (env ''METRICS_TOKEN'') (app_webhooks (cf_moysklad cfg) \<noteq> None),
                ap_addr = cf_host cfg @ '':'' @ cf_port cfg\<rparr>)"

section \<open>What the environment decides\<close>

lemma Load_ok: "is_ok (Load float env) \<longleftrightarrow> env ''DB_PASSWORD'' \<noteq> [] \<and> env ''JWT_SECRET'' \<noteq> []"
  by (simp add: Load_def requireEnv_def)

lemma getEnv_default: "value \<noteq> [] \<Longrightarrow> getEnv env key value \<noteq> []"
  by (simp add: getEnv_def)

lemma Load_parts:
  assumes "Load float env = Inr cfg"
  shows "cf_redis_host cfg = getEnv env ''REDIS_HOST'' ''redis''" "cf_smtp cfg = load_smtp env"
    "cf_moysklad cfg = load_moysklad float env"
proof -
  obtain pw secret where "requireEnv env ''DB_PASSWORD'' = Inr pw" "requireEnv env ''JWT_SECRET'' = Inr secret"
    using assms by (cases "requireEnv env ''DB_PASSWORD''"; cases "requireEnv env ''JWT_SECRET''") (simp_all add: Load_def)
  then show "cf_redis_host cfg = getEnv env ''REDIS_HOST'' ''redis''" "cf_smtp cfg = load_smtp env"
    "cf_moysklad cfg = load_moysklad float env"
    using assms unfolding Load_def by auto
qed

lemma Load_hosts: "Load float env = Inr cfg \<Longrightarrow> cf_redis_host cfg \<noteq> [] \<and> sm_host (cf_smtp cfg) \<noteq> []"
  by (simp add: Load_parts load_smtp_def getEnv_default)

text \<open>
  The application is built exactly when the logger works, the two variables without a default are set
  and the database and Redis answer. Leaving the host of Redis or of the mail server empty gives the
  default: there is no running without Redis, whatever the environment, though the code has branches for it.
\<close>

theorem startup_needs_redis:
  "(\<exists>a. NewApp float env su = Built a) \<longleftrightarrow>
     su_logger su \<and> env ''DB_PASSWORD'' \<noteq> [] \<and> env ''JWT_SECRET'' \<noteq> [] \<and> su_db su \<and> su_redis su"
proof (cases "Load float env")
  case (Inl e)
  then have "\<not> (env ''DB_PASSWORD'' \<noteq> [] \<and> env ''JWT_SECRET'' \<noteq> [])" using Load_ok [of float env] by simp
  then show ?thesis using Inl by (auto simp: NewApp_def)
next
  case (Inr cfg)
  then have "env ''DB_PASSWORD'' \<noteq> []" "env ''JWT_SECRET'' \<noteq> []" using Load_ok [of float env] by simp_all
  then show ?thesis using Inr Load_hosts [OF Inr] by (auto simp: NewApp_def Let_def)
qed

text \<open>
  C35. Whatever the environment holds: the client has a slot at least and a breaker that opens after one
  failure at least and for a second at least, the pool has between 1 and 32 workers, a webhook gets one
  attempt at least, the worker of the inbox takes one job at least and rests a second at least. But
  the interval of the periodic synchronisation is taken as it is: with 0 the scheduler panics once its
  other loops run, and there is no periodic synchronisation.
\<close>

theorem settings_bounded:
  assumes "NewApp float env su = Built a"
  shows "(case ap_client a of None \<Rightarrow> True | Some c \<Rightarrow> 1 \<le> mc_slots c \<and> mc_in_flight c = 0 \<and>
      (case mc_breaker c of None \<Rightarrow> False | Some b \<Rightarrow> 1 \<le> fail_threshold b \<and> second \<le> open_timeout b)) \<and>
    (case ap_webhooks a of None \<Rightarrow> True | Some (secret, tries, batch, interval) \<Rightarrow>
      1 \<le> tries \<and> 1 \<le> batch \<and> second \<le> interval) \<and>
    (case ap_scheduler a of None \<Rightarrow> True | Some sd \<Rightarrow>
      1 \<le> wp_max (sd_pool sd) \<and> wp_max (sd_pool sd) \<le> 32 \<and>
      sd_interval sd = parseDuration (getEnv env ''MOYSKLAD_SYNC_INTERVAL'' ''1h'') \<and>
      snd (Start True sd) = (sd_interval sd \<le> 0) \<and>
      (env ''MOYSKLAD_SYNC_INTERVAL'' = ''0'' \<longrightarrow> snd (Start True sd) \<and> WorkerPool \<in> set (fst (Start True sd)) \<and>
         \<not> list_ex (\<lambda>l. case l of DeltaLoop d \<Rightarrow> True | _ \<Rightarrow> False) (fst (Start True sd))))"
proof -
  obtain cfg where cfg: "Load float env = Inr cfg" "ap_client a = app_client (cf_moysklad cfg)"
    "ap_webhooks a = app_webhooks (cf_moysklad cfg)" "ap_scheduler a = app_scheduler (cf_moysklad cfg)"
    using assms by (auto simp: NewApp_def Let_def split: if_splits sum.splits)
  have interval: "mk_sync_interval (cf_moysklad cfg) = parseDuration (getEnv env ''MOYSKLAD_SYNC_INTERVAL'' ''1h'')"
    by (simp add: Load_parts [OF cfg(1)] load_moysklad_def)
  have zero: "parseDuration ''0'' = 0" by (simp add: parseDuration_def ParseDuration_def)
  have "case app_client mk of None \<Rightarrow> True | Some c \<Rightarrow> 1 \<le> mc_slots c \<and> mc_in_flight c = 0 \<and>
      (case mc_breaker c of None \<Rightarrow> False | Some b \<Rightarrow> 1 \<le> fail_threshold b \<and> second \<le> open_timeout b)" for mk
    by (simp add: app_client_def NewClient_def WithOutboundConcurrency_def WithCircuitBreaker_def WithOrderDefaults_def
      NewCircuitBreaker_def Let_def)
  moreover have "case app_webhooks mk of None \<Rightarrow> True | Some (secret, tries, batch, interval) \<Rightarrow>
      1 \<le> tries \<and> 1 \<le> batch \<and> second \<le> interval" for mk
    by (simp add: app_webhooks_def NewWebhookInboxWorker_def Let_def)
  moreover have "1 \<le> wp_max (sd_pool sd) \<and> wp_max (sd_pool sd) \<le> 32 \<and> sd_interval sd = mk_sync_interval mk"
    if "app_scheduler mk = Some sd" for mk sd
    using that by (auto simp: app_scheduler_def NewScheduler_def NewSyncWorkerPool_def Let_def split: if_splits)
  moreover have "snd (Start True sd) = (sd_interval sd \<le> 0)" "WorkerPool \<in> set (fst (Start True sd))"
    "sd_interval sd \<le> 0 \<Longrightarrow> \<not> list_ex (\<lambda>l. case l of DeltaLoop d \<Rightarrow> True | _ \<Rightarrow> False) (fst (Start True sd))" for sd
    by (auto simp: Start_def runImageSyncLoop_def Let_def)
  ultimately show ?thesis
    unfolding cfg(2-4) using interval zero by (auto simp: getEnv_def split: option.split)
qed

text \<open>The environment that sets what is needed, and the interval of the synchronisation to 0.\<close>

definition sample_env :: environment where
  "sample_env key =
     (if key \<in> {''DB_PASSWORD'', ''JWT_SECRET'', ''MOYSKLAD_TOKEN''} then ''x''
      else if key = ''MOYSKLAD_SYNC_INTERVAL'' then ''0'' else [])"

lemma settings_bounded_witness:
  "\<exists>a sd. NewApp (\<lambda>s. None) sample_env \<lparr>su_logger = True, su_db = True, su_redis = True\<rparr> = Built a \<and>
     ap_scheduler a = Some sd \<and> snd (Start True sd) \<and> wp_max (sd_pool sd) \<le> 32"
proof -
  let ?su = "\<lparr>su_logger = True, su_db = True, su_redis = True\<rparr>"
  have "sample_env ''DB_PASSWORD'' \<noteq> []" "sample_env ''JWT_SECRET'' \<noteq> []" by (simp_all add: sample_env_def)
  then obtain cfg where cfg: "Load (\<lambda>s. None) sample_env = Inr cfg"
    using Load_ok [of "\<lambda>s. None" sample_env] by (cases "Load (\<lambda>s. None) sample_env") auto
  obtain a where a: "NewApp (\<lambda>s. None) sample_env ?su = Built a" "ap_scheduler a = app_scheduler (cf_moysklad cfg)"
    using cfg Load_hosts [OF cfg] by (simp add: NewApp_def Let_def)
  have "mk_token (cf_moysklad cfg) \<noteq> []" "mk_auto_sync (cf_moysklad cfg)"
    by (simp_all add: Load_parts [OF cfg] load_moysklad_def sample_env_def getEnv_def)
  then obtain sd where sd: "ap_scheduler a = Some sd" using a(2) by (simp add: app_scheduler_def app_client_def Let_def)
  have "sample_env ''MOYSKLAD_SYNC_INTERVAL'' = ''0''" by (simp add: sample_env_def)
  then show ?thesis using settings_bounded [OF a(1)] a(1) sd by auto
qed

end
