(* ===== verification/Email.thy ===== *)
theory Email
  imports Startup
begin

text \<open>
  internal/services/email.go and email_plain.go: the mails of the shop and how they are handed to a mail
  server. The client of Go's net/smtp is modelled as far as the code uses it: its commands, the replies
  it waits for, and \<open>smtp.PlainAuth\<close>, which gives a password only to the right host and only over TLS or
  to the machine itself. The server is an argument: whether it can be reached, the code of its reply to
  the last of the commands so far (0 when the connection breaks), and the extensions it lists. Texts are
  UTF-8, written as code points where they are Russian; a body is what is received, with the doubled dots
  and the end marker of the protocol taken off.
\<close>

section \<open>Texts\<close>

definition utf8_char :: "nat \<Rightarrow> string" where
  "utf8_char n =
     (if n < 128 then [char_of n]
      else if n < 2048 then [char_of (192 + n div 64), char_of (128 + n mod 64)]
      else [char_of (224 + n div 4096), char_of (128 + n div 64 mod 64), char_of (128 + n mod 64)])"

definition utf8 :: "nat list \<Rightarrow> string" where
  "utf8 ns = concat (map utf8_char ns)"

text \<open>\<open>FormatFloat(total, 'f', 2, 64)\<close>.\<close>

definition show_fixed2 :: "money \<Rightarrow> string" where
  "show_fixed2 x =
     (let n = round (\<bar>x\<bar> * 100); cents = decimal (nat (n mod 100))
      in (if x < 0 then ''-'' else []) @ decimal (nat (n div 100)) @ ''.'' @ (if length cents < 2 then ''0'' else []) @ cents)"

definition emailWrap :: "string \<Rightarrow> string \<Rightarrow> string" where
  "emailWrap title bodyHTML =
     ''<!DOCTYPE html><html lang=\"ru\"><head><meta charset=\"UTF-8\"></head><body style=\"margin:0;padding:0;ba'' @
     ''ckground:#f0f2f5;font-family:-apple-system,BlinkMacSystemFont,'Segoe UI',Roboto,sans-serif\"><table w'' @
     ''idth=\"100%\" cellpadding=\"0\" cellspacing=\"0\" style=\"background:#f0f2f5;padding:30px 0\"><tr><td align='' @
     ''\"center\"><table width=\"480\" cellpadding=\"0\" cellspacing=\"0\" style=\"background:#fff;border-radius:12p'' @
     ''x;overflow:hidden;max-width:480px;width:100%\"><tr><td style=\"background:#4A7C59;padding:24px 30px;te'' @
     ''xt-align:center\"><span style=\"color:#fff;font-size:20px;font-weight:700;letter-spacing:0.5px\">'' @ title @
     ''</span></td></tr><tr><td style=\"padding:30px\">'' @ bodyHTML @
     ''</td></tr><tr><td style=\"padding:0 30px 24px;color:#999;font-size:12px;text-align:center;line-height'' @
     '':1.5\">'' @ utf8 [1045, 1089, 1083, 1080, 32, 1074, 1099, 32, 1085, 1077, 32, 1089, 1086, 1074, 1077, 1088,
     1096, 1072, 1083, 1080, 32, 1101, 1090, 1086, 32, 1076, 1077, 1081, 1089, 1090, 1074, 1080, 1077] @ '', '' @
     utf8 [1087, 1088, 1086, 1089, 1090, 1086, 32, 1087, 1088, 1086, 1080, 1075, 1085, 1086, 1088, 1080, 1088, 1091,
     1081, 1090, 1077, 32, 1087, 1080, 1089, 1100, 1084, 1086] @ ''.<br>'' @ utf8 [169, 32, 1061, 1086, 1079, 1103,
     1081, 1082, 1080, 1085, 32, 1044, 1086, 1084] @
     '', hozdacha.ru</td></tr></table></td></tr></table></body></html>''"

definition codeDigits :: "string \<Rightarrow> string" where
  "codeDigits code =
     ''<div style=\"text-align:center;margin:24px 0\"><span style=\"display:inline-block;font-size:44px;font-w'' @
     ''eight:800;color:#1a2e1f;font-family:'Courier New',Courier,monospace;letter-spacing:14px;background:#'' @
     ''f4f8f5;border-radius:10px;padding:14px 28px 14px 42px;border:2px solid #d0e8d8\">'' @ code @ ''</span></div>''"

definition greeting :: "string \<Rightarrow> string" where
  "greeting name =
     (if name = [] then utf8 [1079, 1076, 1088, 1072, 1074, 1089, 1090, 1074, 1091, 1081, 1090, 1077]
      else utf8 [1079, 1076, 1088, 1072, 1074, 1089, 1090, 1074, 1091, 1081, 1090, 1077] @ '', '' @ name)"

definition verification_body :: "string \<Rightarrow> string \<Rightarrow> string" where
  "verification_body name code =
     ''<p style=\"color:#444;font-size:15px;line-height:1.6;margin:0 0 8px\">'' @ greeting name @
     ''!</p><p style=\"color:#555;font-size:14px;line-height:1.6;margin:0 0 20px\">'' @ utf8 [1044, 1083, 1103, 32,
     1079, 1072, 1074, 1077, 1088, 1096, 1077, 1085, 1080, 1103, 32, 1088, 1077, 1075, 1080, 1089, 1090, 1088, 1072,
     1094, 1080, 1080, 32, 1074, 1074, 1077, 1076, 1080, 1090, 1077, 32, 1101, 1090, 1086, 1090, 32, 1082, 1086,
     1076, 32, 1085, 1072, 32, 1089, 1072, 1081, 1090, 1077] @ '':</p>'' @ codeDigits code @
     ''<p style=\"color:#888;font-size:13px;text-align:center;margin:0\">'' @ utf8 [1050, 1086, 1076, 32, 1076, 1077,
     1081, 1089, 1090, 1074, 1080, 1090, 1077, 1083, 1077, 1085] @ '' 30 '' @ utf8 [1084, 1080, 1085, 1091, 1090] @
     ''</p>''"

definition reset_body :: "string \<Rightarrow> string \<Rightarrow> string" where
  "reset_body name code =
     ''<p style=\"color:#444;font-size:15px;line-height:1.6;margin:0 0 8px\">'' @ greeting name @
     ''!</p><p style=\"color:#555;font-size:14px;line-height:1.6;margin:0 0 20px\">'' @ utf8 [1044, 1083, 1103, 32,
     1089, 1073, 1088, 1086, 1089, 1072, 32, 1087, 1072, 1088, 1086, 1083, 1103, 32, 1074, 1074, 1077, 1076, 1080,
     1090, 1077, 32, 1101, 1090, 1086, 1090, 32, 1082, 1086, 1076, 32, 1085, 1072, 32, 1089, 1072, 1081, 1090, 1077]
     @ '':</p>'' @ codeDigits code @ ''<p style=\"color:#888;font-size:13px;text-align:center;margin:0\">'' @ utf8
     [1050, 1086, 1076, 32, 1076, 1077, 1081, 1089, 1090, 1074, 1080, 1090, 1077, 1083, 1077, 1085] @ '' 30 '' @
     utf8 [1084, 1080, 1085, 1091, 1090] @ ''</p>''"

definition order_body :: "string \<Rightarrow> id64 \<Rightarrow> money \<Rightarrow> string" where
  "order_body name orderID amount =
     ''<p style=\"color:#444;font-size:15px;line-height:1.6;margin:0 0 16px\">'' @ greeting name @
     ''!</p><p style=\"color:#555;font-size:14px;line-height:1.6;margin:0 0 8px\">'' @ utf8 [1042, 1072, 1096, 32,
     1079, 1072, 1082, 1072, 1079, 32, 1086, 1092, 1086, 1088, 1084, 1083, 1077, 1085] @
     '':</p><table cellpadding=\"0\" cellspacing=\"0\" style=\"background:#f7f9fc;border-radius:8px;padding:16px'' @
     '';width:100%%;margin-bottom:16px\"><tr><td style=\"padding:8px 0;font-size:14px;color:#333\"><b>'' @ utf8 [8470,
     32, 1079, 1072, 1082, 1072, 1079, 1072] @ '':</b> '' @ show_int orderID @
     ''</td></tr><tr><td style=\"padding:8px 0;font-size:14px;color:#333\"><b>'' @ utf8 [1057, 1091, 1084, 1084, 1072]
     @ '':</b> '' @ show_fixed2 amount @ '' '' @ utf8 [1088, 1091, 1073] @
     ''.</td></tr></table><p style=\"color:#888;font-size:13px;margin:0\">'' @ utf8 [1052, 1077, 1085, 1077, 1076,
     1078, 1077, 1088, 32, 1089, 1074, 1103, 1078, 1077, 1090, 1089, 1103, 32, 1089, 32, 1074, 1072, 1084, 1080, 32,
     1076, 1083, 1103, 32, 1087, 1086, 1076, 1090, 1074, 1077, 1088, 1078, 1076, 1077, 1085, 1080, 1103] @ ''.</p>''"

section \<open>Encodings\<close>

text \<open>\<open>base64.StdEncoding\<close>.\<close>

definition alphabet64 :: string where
  "alphabet64 = ''ABCDEFGHIJKLMNOPQRSTUVWXYZabcdefghijklmnopqrstuvwxyz0123456789+/''"

definition char64 :: "nat \<Rightarrow> char" where
  "char64 n = alphabet64 ! (n mod 64)"

fun EncodeToString :: "string \<Rightarrow> string" where
  "EncodeToString [] = []"
| "EncodeToString [a] =
     (let x = of_char a in [char64 (x div 4), char64 (x mod 4 * 16), CHR ''='', CHR ''=''])"
| "EncodeToString [a, b] =
     (let x = of_char a; y = of_char b
      in [char64 (x div 4), char64 (x mod 4 * 16 + y div 16), char64 (y mod 16 * 4), CHR ''=''])"
| "EncodeToString (a # b # c # s) =
     (let x = of_char a; y = of_char b; z = of_char c
      in char64 (x div 4) # char64 (x mod 4 * 16 + y div 16) # char64 (y mod 16 * 4 + z div 64) # char64 (z mod 64) #
         EncodeToString s)"

text \<open>\<open>mime.QEncoding.Encode\<close>: encoded words of at most 75 characters, in which no character is cut.\<close>

definition hex_digit :: "nat \<Rightarrow> char" where
  "hex_digit n = ''0123456789ABCDEF'' ! (n mod 16)"

definition q_plain :: "char \<Rightarrow> bool" where
  "q_plain ch = (let n = of_char ch in (33 :: nat) \<le> n \<and> n \<le> 126 \<and> ch \<notin> {CHR ''='', CHR ''?'', CHR ''_''})"

definition writeQString :: "string \<Rightarrow> string" where
  "writeQString s =
     concat (map (\<lambda>ch. if ch = CHR '' '' then ''_'' else if q_plain ch then [ch]
       else [CHR ''='', hex_digit (of_char ch div 16), hex_digit (of_char ch)]) s)"

definition rune_length :: "char \<Rightarrow> nat" where
  "rune_length ch =
     (let n = of_char ch in if n < (192 :: nat) then 1 else if n < 224 then 2 else if n < 240 then 3 else 4)"

function q_words :: "nat \<Rightarrow> string \<Rightarrow> string" where
  "q_words used [] = []"
| "q_words used (ch # s) =
     (let plain = (q_plain ch \<or> ch = CHR '' '');
          k = (if plain then 1 else rune_length ch);
          len = (if plain then 1 else 3 * k);
          split = used + len > 63
      in (if split then ''?='' @ [CHR 0x0D, CHR 0x0A] @ '' =?UTF-8?q?'' else []) @ writeQString (take k (ch # s)) @
         q_words ((if split then 0 else used) + len) (drop k (ch # s)))"
  by pat_completeness auto

termination
  by (relation "measure (\<lambda>(used, s). length s)") (auto simp: rune_length_def Let_def)

definition QEncode :: "string \<Rightarrow> string" where
  "QEncode s =
     (if list_all (\<lambda>ch. (32 :: nat) \<le> of_char ch \<and> of_char ch \<le> (126 :: nat) \<or> ch = CHR 0x09) s then s
      else ''=?UTF-8?q?'' @ q_words 0 s @ ''?='')"

definition crlf :: string where
  "crlf = [CHR 0x0D, CHR 0x0A]"

definition buildMsg :: "string \<Rightarrow> string \<Rightarrow> string \<Rightarrow> string \<Rightarrow> bool \<Rightarrow> string" where
  "buildMsg from to subject body html =
     ''To: '' @ to @ crlf @ ''From: '' @ from @ crlf @ ''Subject: '' @ QEncode subject @ crlf @
     ''MIME-Version: 1.0'' @ crlf @
     ''Content-Type: '' @ (if html then ''text/html; charset=UTF-8'' else ''text/plain; charset=UTF-8'') @ crlf @
     ''Content-Transfer-Encoding: base64'' @ crlf @ crlf @ EncodeToString body"

section \<open>The client of net/smtp\<close>

datatype smtp_cmd =
    Ehlo
  | Helo
  | StartTls
  | AuthPlain string
  | AbortAuth
  | MailFrom string
  | RcptTo string
  | DataCmd
  | Body string
  | QuitCmd

text \<open>What was sent, each with whether it went over TLS.\<close>

type_synonym smtp_log = "(bool \<times> smtp_cmd) list"

record smtp_server =
  sv_reached :: "string \<Rightarrow> bool"
  sv_greets :: bool
  sv_handshake :: bool
  sv_reply :: "smtp_log \<Rightarrow> int"
  sv_extensions :: "bool \<Rightarrow> string list"

record smtp_client =
  sc_name :: string
  sc_tls :: bool
  sc_hello :: "bool option"
  sc_ext :: "string list"
  sc_log :: smtp_log

type_synonym smtp_step = "smtp_client \<Rightarrow> unit result \<times> smtp_client"

definition failed :: "unit result" where
  "failed = Inl (Rejected ''smtp'')"

definition smtp_send :: "smtp_server \<Rightarrow> (int \<Rightarrow> bool) \<Rightarrow> smtp_cmd \<Rightarrow> smtp_step" where
  "smtp_send sv expect c sc =
     (let trace = sc_log sc @ [(sc_tls sc, c)]; code = sv_reply sv trace
      in (if code \<noteq> 0 \<and> expect code then Inr () else failed, sc\<lparr>sc_log := trace\<rparr>))"

definition smtp_ehlo :: "smtp_server \<Rightarrow> smtp_step" where
  "smtp_ehlo sv sc =
     (case smtp_send sv (\<lambda>n. n = 250) Ehlo sc of
        (Inl e, sc') \<Rightarrow> (Inl e, sc')
      | (Inr u, sc') \<Rightarrow> (Inr (), sc'\<lparr>sc_ext := sv_extensions sv (sc_tls sc)\<rparr>))"

text \<open>The greeting is sent once, as EHLO and, when that is refused, as HELO; its outcome is kept.\<close>

definition smtp_hello :: "smtp_server \<Rightarrow> smtp_step" where
  "smtp_hello sv sc =
     (case sc_hello sc of
        Some ok \<Rightarrow> (if ok then Inr () else failed, sc)
      | None \<Rightarrow>
          (case smtp_ehlo sv sc of
             (Inr u, sc1) \<Rightarrow> (Inr (), sc1\<lparr>sc_hello := Some True\<rparr>)
           | (Inl e, sc1) \<Rightarrow>
               (case smtp_send sv (\<lambda>n. n = 250) Helo (sc1\<lparr>sc_ext := []\<rparr>) of
                  (Inr u, sc2) \<Rightarrow> (Inr (), sc2\<lparr>sc_hello := Some True\<rparr>)
                | (Inl e, sc2) \<Rightarrow> (Inl e, sc2\<lparr>sc_hello := Some False\<rparr>))))"

definition after_hello :: "smtp_server \<Rightarrow> smtp_step \<Rightarrow> smtp_step" where
  "after_hello sv step sc = (case smtp_hello sv sc of (Inl e, sc1) \<Rightarrow> (Inl e, sc1) | (Inr u, sc1) \<Rightarrow> step sc1)"

definition client_Hello :: "smtp_server \<Rightarrow> smtp_step" where
  "client_Hello sv sc = (if sc_hello sc \<noteq> None then (failed, sc) else smtp_hello sv sc)"

definition client_StartTLS :: "smtp_server \<Rightarrow> smtp_step" where
  "client_StartTLS sv =
     after_hello sv (\<lambda>sc.
       case smtp_send sv (\<lambda>n. n = 220) StartTls sc of
         (Inl e, sc1) \<Rightarrow> (Inl e, sc1)
       | (Inr u, sc1) \<Rightarrow>
           if \<not> sv_handshake sv then (failed, sc1\<lparr>sc_tls := True\<rparr>) else smtp_ehlo sv (sc1\<lparr>sc_tls := True\<rparr>))"

definition client_Quit :: "smtp_server \<Rightarrow> smtp_step" where
  "client_Quit sv = after_hello sv (smtp_send sv (\<lambda>n. n = 221) QuitCmd)"

definition isLocalhost :: "string \<Rightarrow> bool" where
  "isLocalhost name = (name \<in> {''localhost'', ''127.0.0.1'', ''::1''})"

text \<open>\<open>Auth\<close> with \<open>PlainAuth("", user, password, host)\<close>.\<close>

definition client_Auth :: "smtp_server \<Rightarrow> string \<Rightarrow> string \<Rightarrow> string \<Rightarrow> smtp_step" where
  "client_Auth sv user password host =
     after_hello sv (\<lambda>sc.
       if \<not> sc_tls sc \<and> \<not> isLocalhost (sc_name sc) \<or> sc_name sc \<noteq> host then (failed, snd (client_Quit sv sc))
       else
         let secret = EncodeToString ([CHR 0x00] @ user @ [CHR 0x00] @ password);
             (r, sc1) = smtp_send sv (\<lambda>n. True) (AuthPlain secret) sc
         in if r \<noteq> Inr () \<or> sv_reply sv (sc_log sc1) = 235 then (r, sc1)
            else (failed, snd (client_Quit sv (snd (smtp_send sv (\<lambda>n. n = 501) AbortAuth sc1)))))"

definition valid_line :: "string \<Rightarrow> bool" where
  "valid_line s = (CHR 0x0A \<notin> set s \<and> CHR 0x0D \<notin> set s)"

definition client_Mail :: "smtp_server \<Rightarrow> string \<Rightarrow> smtp_step" where
  "client_Mail sv from sc =
     (if \<not> valid_line from then (failed, sc)
      else after_hello sv (\<lambda>sc1.
        smtp_send sv (\<lambda>n. n = 250)
          (MailFrom (''<'' @ from @ ''>'' @ (if ''8BITMIME'' \<in> set (sc_ext sc1) then '' BODY=8BITMIME'' else []) @
            (if ''SMTPUTF8'' \<in> set (sc_ext sc1) then '' SMTPUTF8'' else []))) sc1) sc)"

definition client_Rcpt :: "smtp_server \<Rightarrow> string \<Rightarrow> smtp_step" where
  "client_Rcpt sv to sc =
     (if \<not> valid_line to then (failed, sc) else smtp_send sv (\<lambda>n. n div 10 = 25) (RcptTo to) sc)"

section \<open>Sending\<close>

definition then_step :: "smtp_step \<Rightarrow> smtp_step \<Rightarrow> smtp_step" where
  "then_step f g sc = (case f sc of (Inl e, sc1) \<Rightarrow> (Inl e, sc1) | (Inr u, sc1) \<Rightarrow> g sc1)"

text \<open>What the three ways to send have in common: from the authentication on.\<close>

definition deliver :: "smtp_server \<Rightarrow> smtp_config \<Rightarrow> string \<Rightarrow> string \<Rightarrow> string \<Rightarrow> smtp_step" where
  "deliver sv cfg from to msg =
     then_step (if sm_username cfg \<noteq> [] \<and> sm_password cfg \<noteq> []
         then client_Auth sv (sm_username cfg) (sm_password cfg) (sm_host cfg) else Pair (Inr ()))
     (then_step (client_Mail sv from)
     (then_step (client_Rcpt sv to)
     (then_step (smtp_send sv (\<lambda>n. n = 354) DataCmd)
     (then_step (smtp_send sv (\<lambda>n. n = 250) (Body msg))
       (client_Quit sv)))))"

definition new_client :: "string \<Rightarrow> bool \<Rightarrow> smtp_client" where
  "new_client name tls = \<lparr>sc_name = name, sc_tls = tls, sc_hello = None, sc_ext = [], sc_log = []\<rparr>"

type_synonym sent = "unit result \<times> smtp_log"

definition on_client :: "smtp_client \<Rightarrow> smtp_step \<Rightarrow> sent" where
  "on_client sc step = (let (r, sc') = step sc in (r, sc_log sc'))"

definition sendSMTPS :: "smtp_server \<Rightarrow> smtp_config \<Rightarrow> string \<Rightarrow> string \<Rightarrow> string \<Rightarrow> string \<Rightarrow> sent" where
  "sendSMTPS sv cfg addr from to msg =
     (if \<not> sv_reached sv addr \<or> \<not> sv_handshake sv then (failed, [])
      else if \<not> sv_greets sv then (failed, [])
      else on_client (new_client (sm_host cfg) True) (deliver sv cfg from to msg))"

text \<open>The name of the server is the host of the address that was dialled.\<close>

definition host_of :: "string \<Rightarrow> string" where
  "host_of addr = rev (tl (dropWhile (\<lambda>ch. ch \<noteq> CHR '':'') (rev addr)))"

definition sendSTARTTLS :: "smtp_server \<Rightarrow> smtp_config \<Rightarrow> string \<Rightarrow> string \<Rightarrow> string \<Rightarrow> string \<Rightarrow> sent" where
  "sendSTARTTLS sv cfg addr from to msg =
     (if \<not> sv_reached sv addr \<or> \<not> sv_greets sv then (failed, [])
      else on_client (new_client (host_of addr) False)
        (then_step (client_Hello sv)
        (then_step (\<lambda>sc. if ''STARTTLS'' \<in> set (sc_ext sc) then client_StartTLS sv sc else (Inr (), sc))
          (deliver sv cfg from to msg))))"

definition sendPlain :: "smtp_server \<Rightarrow> smtp_config \<Rightarrow> string \<Rightarrow> string \<Rightarrow> string \<Rightarrow> string \<Rightarrow> sent" where
  "sendPlain sv cfg addr from to msg =
     (let addr = (if addr = ''localhost:25'' \<or> addr = ''localhost:587'' then ''127.0.0.1:25'' else addr)
      in if \<not> sv_reached sv addr \<or> \<not> sv_greets sv then (failed, [])
         else on_client (new_client (host_of addr) False) (deliver sv cfg from to msg))"

definition sendEmail :: "smtp_server \<Rightarrow> smtp_config \<Rightarrow> string \<Rightarrow> string \<Rightarrow> string \<Rightarrow> bool \<Rightarrow> sent" where
  "sendEmail sv cfg to subject body html =
     (if sm_host cfg = [] then (Inr (), [])
      else
        let from = (if sm_from cfg = [] then sm_username cfg else sm_from cfg);
            finalBody = (if html then emailWrap subject body else body);
            msg = buildMsg from to subject finalBody html;
            addr = sm_host cfg @ '':'' @ show_int (sm_port cfg)
        in if sm_use_tls cfg \<and> sm_port cfg = 465 then sendSMTPS sv cfg addr from to msg
           else if sm_use_tls cfg \<and> sm_port cfg = 587 then sendSTARTTLS sv cfg addr from to msg
           else sendPlain sv cfg addr from to msg)"

definition SendVerificationCode :: "smtp_server \<Rightarrow> smtp_config \<Rightarrow> string \<Rightarrow> string \<Rightarrow> string \<Rightarrow> sent" where
  "SendVerificationCode sv cfg to name code =
     sendEmail sv cfg to (utf8 [1050, 1086, 1076, 32, 1087, 1086, 1076, 1090, 1074, 1077, 1088, 1078, 1076, 1077, 1085, 1080, 1103, 32,
       8212, 32, 1061, 1086, 1079, 1044, 1072, 1095, 1072])
       (verification_body name code) True"

definition SendPasswordResetCode :: "smtp_server \<Rightarrow> smtp_config \<Rightarrow> string \<Rightarrow> string \<Rightarrow> string \<Rightarrow> sent" where
  "SendPasswordResetCode sv cfg to name code =
     sendEmail sv cfg to (utf8 [1057, 1073, 1088, 1086, 1089, 32, 1087, 1072, 1088, 1086, 1083, 1103, 32, 8212, 32, 1061, 1086, 1079,
       1044, 1072, 1095, 1072])
       (reset_body name code) True"

definition SendOrderConfirmation :: "smtp_server \<Rightarrow> smtp_config \<Rightarrow> string \<Rightarrow> string \<Rightarrow> id64 \<Rightarrow> money \<Rightarrow> sent" where
  "SendOrderConfirmation sv cfg to name orderID amount =
     sendEmail sv cfg to (utf8 [1047, 1072, 1082, 1072, 1079, 32, 1086, 1092, 1086, 1088, 1084, 1083, 1077, 1085, 32, 8212, 32, 1061,
       1086, 1079, 1044, 1072, 1095, 1072])
       (order_body name orderID amount) True"

section \<open>What is sent, and how\<close>

definition later :: "smtp_client \<Rightarrow> smtp_client \<Rightarrow> bool" where
  "later sc sc' = (sc_name sc' = sc_name sc \<and> sc_tls sc' = sc_tls sc \<and> set (sc_log sc) \<subseteq> set (sc_log sc'))"

text \<open>A step sends, besides what was sent before, only commands with the property, as safe as the connection is.\<close>

definition sends_only :: "(smtp_cmd \<Rightarrow> bool) \<Rightarrow> smtp_step \<Rightarrow> smtp_client \<Rightarrow> bool" where
  "sends_only Q f sc =
     (later sc (snd (f sc)) \<and> set (sc_log (snd (f sc))) \<subseteq> set (sc_log sc) \<union> {sc_tls sc} \<times> Collect Q)"

lemma later_refl [simp]: "later sc sc"
  by (simp add: later_def)

lemma later_trans: "later sc sc1 \<Longrightarrow> later sc1 sc2 \<Longrightarrow> later sc sc2"
  by (auto simp: later_def)

lemma sends_only_weaken: "sends_only Q f sc \<Longrightarrow> (\<And>c. Q c \<Longrightarrow> Q' c) \<Longrightarrow> sends_only Q' f sc"
  by (auto simp: sends_only_def)

lemma sends_only_send: "Q c \<Longrightarrow> sends_only Q (smtp_send sv expect c) sc"
  by (auto simp: sends_only_def later_def smtp_send_def Let_def)

lemma sends_only_frame:
  "sends_only Q f sc \<Longrightarrow> sc_name sc1 = sc_name (snd (f sc)) \<Longrightarrow> sc_tls sc1 = sc_tls (snd (f sc)) \<Longrightarrow>
    sc_log sc1 = sc_log (snd (f sc)) \<Longrightarrow> snd (g sc) = sc1 \<Longrightarrow> sends_only Q g sc"
  by (simp add: sends_only_def later_def)

lemma sends_only_chain:
  assumes "sends_only Q f sc" "later sc (snd (f sc)) \<Longrightarrow> sends_only Q g (snd (f sc))" "snd (h sc) = snd (g (snd (f sc)))"
  shows "sends_only Q h sc"
proof -
  have l: "later sc (snd (f sc))" using assms(1) by (simp add: sends_only_def)
  note g = assms(2) [OF l]
  have "later sc (snd (h sc))" using l g later_trans assms(3) by (metis sends_only_def)
  moreover have "sc_tls (snd (f sc)) = sc_tls sc" using l by (simp add: later_def)
  ultimately show ?thesis using assms(1) g unfolding sends_only_def assms(3) by auto
qed

lemma sends_only_ehlo: "Q Ehlo \<Longrightarrow> sends_only Q (smtp_ehlo sv) sc"
proof -
  assume Q: "Q Ehlo"
  obtain r sc1 where send: "smtp_send sv (\<lambda>n. n = 250) Ehlo sc = (r, sc1)" by fastforce
  show ?thesis
    using sends_only_send [of Q Ehlo sv "\<lambda>n. n = 250" sc, OF Q] send
    by (cases r) (auto simp: smtp_ehlo_def sends_only_def later_def)
qed

lemma sends_only_hello:
  assumes "Q Ehlo" "Q Helo"
  shows "sends_only Q (smtp_hello sv) sc"
proof (cases "sc_hello sc")
  case (Some ok)
  then show ?thesis by (simp add: smtp_hello_def sends_only_def)
next
  case None
  obtain r sc1 where ehlo: "smtp_ehlo sv sc = (r, sc1)" by fastforce
  note one = sends_only_ehlo [where Q = Q and sv = sv and sc = sc, OF assms(1), unfolded ehlo]
  show ?thesis
  proof (cases r)
    case (Inr u)
    then show ?thesis using one ehlo None by (simp add: smtp_hello_def sends_only_def later_def)
  next
    case (Inl e)
    obtain r2 sc2 where helo: "smtp_send sv (\<lambda>n. n = 250) Helo (sc1\<lparr>sc_ext := []\<rparr>) = (r2, sc2)" by fastforce
    have "set (sc_log sc2) = insert (sc_tls sc1, Helo) (set (sc_log sc1))" "sc_name sc2 = sc_name sc1" "sc_tls sc2 = sc_tls sc1"
      using helo by (auto simp: smtp_send_def Let_def)
    then have "later sc sc2 \<and> set (sc_log sc2) \<subseteq> set (sc_log sc) \<union> {sc_tls sc} \<times> Collect Q"
      using one ehlo assms(2) by (auto simp: sends_only_def later_def)
    then show ?thesis
      using Inl ehlo None helo by (cases r2) (simp_all add: smtp_hello_def sends_only_def later_def)
  qed
qed

lemma sends_only_after_hello:
  assumes "Q Ehlo" "Q Helo" "\<And>sc1. later sc sc1 \<Longrightarrow> sends_only Q step sc1"
  shows "sends_only Q (after_hello sv step) sc"
proof -
  obtain r sc1 where hello: "smtp_hello sv sc = (r, sc1)" by fastforce
  note one = sends_only_hello [where Q = Q and sv = sv and sc = sc, OF assms(1,2)]
  show ?thesis
  proof (cases r)
    case (Inl e)
    then show ?thesis using one hello by (simp add: after_hello_def sends_only_def)
  next
    case (Inr u)
    then show ?thesis
      by (intro sends_only_chain [where f = "smtp_hello sv" and g = step, OF one assms(3)]) (simp_all add: after_hello_def hello)
  qed
qed

lemma sends_only_then:
  assumes "sends_only Q f sc" "\<And>sc1. f sc = (Inr (), sc1) \<Longrightarrow> later sc sc1 \<Longrightarrow> sends_only Q g sc1"
  shows "sends_only Q (then_step f g) sc"
proof -
  obtain r sc1 where f: "f sc = (r, sc1)" by fastforce
  show ?thesis
  proof (cases r)
    case (Inl e)
    then show ?thesis using assms(1) f by (simp add: then_step_def sends_only_def)
  next
    case (Inr u)
    then show ?thesis
      using assms(2) [of sc1] f
      by (intro sends_only_chain [where f = f and g = g, OF assms(1)]) (simp_all add: then_step_def)
  qed
qed

lemma sends_only_quit: "Q Ehlo \<Longrightarrow> Q Helo \<Longrightarrow> Q QuitCmd \<Longrightarrow> sends_only Q (client_Quit sv) sc"
  unfolding client_Quit_def by (rule sends_only_after_hello) (simp_all add: sends_only_send)

text \<open>When \<open>PlainAuth\<close> gives the password: over TLS or to the machine itself, under the name it is for.\<close>

definition trusted :: "string \<Rightarrow> smtp_client \<Rightarrow> bool" where
  "trusted host sc = ((sc_tls sc \<or> isLocalhost (sc_name sc)) \<and> sc_name sc = host)"

lemma trusted_later: "later sc sc1 \<Longrightarrow> trusted host sc1 = trusted host sc"
  by (simp add: trusted_def later_def)

lemma sends_only_auth:
  assumes "Q Ehlo" "Q Helo" "Q QuitCmd" "Q AbortAuth" "\<And>x. trusted host sc \<Longrightarrow> Q (AuthPlain x)"
  shows "sends_only Q (client_Auth sv user password host) sc"
proof -
  have quit: "sends_only Q (\<lambda>sc. (failed, snd (client_Quit sv sc))) s" for s
    using sends_only_quit [where Q = Q and sv = sv and sc = s, OF assms(1-3)] by (simp add: sends_only_def)
  have abort: "sends_only Q (\<lambda>sc. (failed, snd (client_Quit sv (snd (smtp_send sv (\<lambda>n. n = 501) AbortAuth sc))))) s" for s
    by (rule sends_only_chain [OF sends_only_send [where c = AbortAuth] quit]) (simp_all add: assms(4))
  show ?thesis
    unfolding client_Auth_def
  proof (rule sends_only_after_hello [OF assms(1,2)])
    fix sc1
    assume "later sc sc1"
    then have trust: "trusted host sc1 \<Longrightarrow> Q (AuthPlain x)" for x using assms(5) trusted_later by blast
    let ?secret = "EncodeToString ([CHR 0x00] @ user @ [CHR 0x00] @ password)"
    let ?auth = "smtp_send sv (\<lambda>n. True) (AuthPlain ?secret)"
    let ?rest = "\<lambda>sc. if \<not> sc_tls sc \<and> \<not> isLocalhost (sc_name sc) \<or> sc_name sc \<noteq> host then (failed, snd (client_Quit sv sc))
       else let secret = ?secret; (r, sc1) = smtp_send sv (\<lambda>n. True) (AuthPlain secret) sc
         in if r \<noteq> Inr () \<or> sv_reply sv (sc_log sc1) = 235 then (r, sc1)
            else (failed, snd (client_Quit sv (snd (smtp_send sv (\<lambda>n. n = 501) AbortAuth sc1))))"
    show "sends_only Q ?rest sc1"
    proof (cases "trusted host sc1")
      case False
      then have "?rest sc1 = (failed, snd (client_Quit sv sc1))" by (auto simp: trusted_def)
      then show ?thesis using quit [of sc1] by (simp only: sends_only_def)
    next
      case True
      then have gate: "\<not> (\<not> sc_tls sc1 \<and> \<not> isLocalhost (sc_name sc1) \<or> sc_name sc1 \<noteq> host)" by (auto simp: trusted_def)
      obtain r sc2 where a: "?auth sc1 = (r, sc2)" by fastforce
      have one: "sends_only Q ?auth sc1" using trust [OF True] by (rule sends_only_send)
      show ?thesis
      proof (cases "r \<noteq> Inr () \<or> sv_reply sv (sc_log sc2) = 235")
        case True
        then have "?rest sc1 = (r, sc2)" by (simp only: a gate if_False Let_def prod.case if_True)
        then show ?thesis using one by (simp only: sends_only_def a)
      next
        case False
        then show ?thesis
          by (intro sends_only_chain [OF one abort]) (simp only: a gate snd_conv if_False Let_def prod.case)
      qed
    qed
  qed
qed

lemma auth_trusted: "client_Auth sv user password host sc = (Inr (), sc1) \<Longrightarrow> trusted host sc"
proof -
  assume a: "client_Auth sv user password host sc = (Inr (), sc1)"
  obtain r sc2 where hello: "smtp_hello sv sc = (r, sc2)" by fastforce
  have "later sc sc2"
    using sends_only_hello [where Q = "\<lambda>_. True" and sv = sv and sc = sc] hello by (simp add: sends_only_def)
  moreover have "trusted host sc2"
    using a hello
    by (cases r) (auto simp: client_Auth_def after_hello_def trusted_def failed_def Let_def split: if_splits prod.splits)
  ultimately show ?thesis using trusted_later by blast
qed

lemma sends_only_mail:
  assumes "Q Ehlo" "Q Helo" "\<And>x. Q (MailFrom x)"
  shows "sends_only Q (client_Mail sv from) sc"
proof (cases "valid_line from")
  case True
  have "sends_only Q (after_hello sv (\<lambda>sc1.
        smtp_send sv (\<lambda>n. n = 250)
          (MailFrom (''<'' @ from @ ''>'' @ (if ''8BITMIME'' \<in> set (sc_ext sc1) then '' BODY=8BITMIME'' else []) @
            (if ''SMTPUTF8'' \<in> set (sc_ext sc1) then '' SMTPUTF8'' else []))) sc1)) sc"
  proof (rule sends_only_after_hello [OF assms(1,2)])
    fix sc1 :: smtp_client
    let ?c = "MailFrom (''<'' @ from @ ''>'' @ (if ''8BITMIME'' \<in> set (sc_ext sc1) then '' BODY=8BITMIME'' else []) @
            (if ''SMTPUTF8'' \<in> set (sc_ext sc1) then '' SMTPUTF8'' else []))"
    have "sends_only Q (smtp_send sv (\<lambda>n. n = 250) ?c) sc1" by (rule sends_only_send) (rule assms(3))
    then show "sends_only Q (\<lambda>sc1. smtp_send sv (\<lambda>n. n = 250)
          (MailFrom (''<'' @ from @ ''>'' @ (if ''8BITMIME'' \<in> set (sc_ext sc1) then '' BODY=8BITMIME'' else []) @
            (if ''SMTPUTF8'' \<in> set (sc_ext sc1) then '' SMTPUTF8'' else []))) sc1) sc1"
      by (simp only: sends_only_def)
  qed
  then show ?thesis using True by (simp add: client_Mail_def sends_only_def)
qed (simp add: client_Mail_def sends_only_def)

lemma mail_valid: "client_Mail sv from sc = (Inr (), sc1) \<Longrightarrow> valid_line from"
  by (auto simp: client_Mail_def failed_def split: if_splits)

lemma rcpt_valid: "client_Rcpt sv to sc = (Inr (), sc1) \<Longrightarrow> valid_line to"
  by (auto simp: client_Rcpt_def failed_def split: if_splits)

text \<open>What a delivery may send, on a client as it is at its start.\<close>

definition may_send :: "smtp_config \<Rightarrow> string \<Rightarrow> string \<Rightarrow> string \<Rightarrow> smtp_client \<Rightarrow> smtp_cmd \<Rightarrow> bool" where
  "may_send cfg from to msg sc c =
     (case c of
        AuthPlain x \<Rightarrow> trusted (sm_host cfg) sc
      | Body m \<Rightarrow> m = msg \<and> valid_line from \<and> valid_line to \<and>
          (sm_username cfg \<noteq> [] \<and> sm_password cfg \<noteq> [] \<longrightarrow> trusted (sm_host cfg) sc)
      | _ \<Rightarrow> True)"

lemma sends_only_deliver: "sends_only (may_send cfg from to msg sc) (deliver sv cfg from to msg) sc"
proof -
  let ?Q = "may_send cfg from to msg sc"
  have Q: "?Q Ehlo" "?Q Helo" "?Q QuitCmd" "?Q AbortAuth" "?Q DataCmd" "?Q (MailFrom x)" "?Q (RcptTo x)" for x
    by (simp_all add: may_send_def)
  let ?creds = "sm_username cfg \<noteq> [] \<and> sm_password cfg \<noteq> []"
  let ?auth = "if ?creds then client_Auth sv (sm_username cfg) (sm_password cfg) (sm_host cfg) else Pair (Inr ())"
  have auth: "sends_only ?Q ?auth sc"
  proof (cases ?creds)
    case True
    then show ?thesis using sends_only_auth [where Q = ?Q, OF Q(1-4)] by (simp add: may_send_def)
  next
    case False
    then show ?thesis by (simp only: if_False) (simp add: sends_only_def)
  qed
  have trust: "?auth sc = (Inr (), sc1) \<Longrightarrow> ?creds \<longrightarrow> trusted (sm_host cfg) sc" for sc1
    using auth_trusted by auto
  have rcpt: "sends_only ?Q (client_Rcpt sv to) sc1" for sc1
    using Q(7) by (auto simp: client_Rcpt_def sends_only_def later_def smtp_send_def Let_def)
  show ?thesis
    unfolding deliver_def
    by (intro sends_only_then auth rcpt sends_only_mail sends_only_send sends_only_quit Q)
      (auto simp: may_send_def dest: trust mail_valid rcpt_valid)
qed

lemma then_step_ok: "then_step f g sc = (Inr (), sc') \<longleftrightarrow> (\<exists>sc1. f sc = (Inr (), sc1) \<and> g sc1 = (Inr (), sc'))"
  by (auto simp: then_step_def split: sum.splits prod.splits)

lemma step_later: "sends_only Q f sc \<Longrightarrow> f sc = (r, sc1) \<Longrightarrow> later sc sc1"
  by (simp add: sends_only_def)

lemma deliver_delivered:
  assumes "deliver sv cfg from to msg sc = (Inr (), sc')"
  shows "(sc_tls sc, Body msg) \<in> set (sc_log sc')"
proof -
  let ?auth = "if sm_username cfg \<noteq> [] \<and> sm_password cfg \<noteq> []
      then client_Auth sv (sm_username cfg) (sm_password cfg) (sm_host cfg) else Pair (Inr ())"
  obtain sc1 sc2 sc3 sc4 sc5 where run: "?auth sc = (Inr (), sc1)" "client_Mail sv from sc1 = (Inr (), sc2)"
    "client_Rcpt sv to sc2 = (Inr (), sc3)" "smtp_send sv (\<lambda>n. n = 354) DataCmd sc3 = (Inr (), sc4)"
    "smtp_send sv (\<lambda>n. n = 250) (Body msg) sc4 = (Inr (), sc5)" "client_Quit sv sc5 = (Inr (), sc')"
    using assms unfolding deliver_def then_step_ok by blast
  have "later sc sc1"
  proof (cases "sm_username cfg \<noteq> [] \<and> sm_password cfg \<noteq> []")
    case True
    then show ?thesis
      using run(1) step_later [OF sends_only_auth [where Q = "\<lambda>_. True"]] by auto
  next
    case False
    then show ?thesis using run(1) by auto
  qed
  moreover have "later sc1 sc2" using step_later [OF sends_only_mail [where Q = "\<lambda>_. True"] run(2)] by simp
  moreover have "later sc2 sc3" using run(3) by (auto simp: client_Rcpt_def smtp_send_def later_def Let_def split: if_splits)
  moreover have "later sc3 sc4" using step_later [OF sends_only_send [where Q = "\<lambda>_. True"] run(4)] by simp
  moreover have "later sc5 sc'" using step_later [OF sends_only_quit [where Q = "\<lambda>_. True"] run(6)] by simp
  moreover have "(sc_tls sc4, Body msg) \<in> set (sc_log sc5)" using run(5) by (auto simp: smtp_send_def Let_def split: if_splits)
  ultimately show ?thesis by (auto simp: later_def)
qed

text \<open>What every way to send keeps.\<close>

definition mail_safe :: "smtp_config \<Rightarrow> string \<Rightarrow> string \<Rightarrow> string \<Rightarrow> smtp_log \<Rightarrow> bool" where
  "mail_safe cfg from to msg trace =
     ((\<forall>t x. (t, AuthPlain x) \<in> set trace \<longrightarrow> t \<or> isLocalhost (sm_host cfg)) \<and>
      (\<forall>t m. (t, Body m) \<in> set trace \<longrightarrow> m = msg \<and> valid_line from \<and> valid_line to \<and>
         (sm_username cfg \<noteq> [] \<and> sm_password cfg \<noteq> [] \<longrightarrow> t \<or> isLocalhost (sm_host cfg))))"

definition greeting_only :: "smtp_log \<Rightarrow> bool" where
  "greeting_only trace = (set trace \<subseteq> UNIV \<times> {Ehlo, Helo, StartTls})"

lemma deliver_safe:
  assumes "greeting_only (sc_log sc)" "deliver sv cfg from to msg sc = (r, sc')"
  shows "mail_safe cfg from to msg (sc_log sc')" "sc_tls sc \<Longrightarrow> (t, Body m) \<in> set (sc_log sc') \<Longrightarrow> t"
proof -
  have "set (sc_log sc') \<subseteq> set (sc_log sc) \<union> {sc_tls sc} \<times> Collect (may_send cfg from to msg sc)"
    using sends_only_deliver [of cfg "from" to msg sc sv] assms(2) by (simp add: sends_only_def)
  then have new: "(t, c) \<in> set (sc_log sc') \<Longrightarrow> c \<notin> {Ehlo, Helo, StartTls} \<Longrightarrow> t = sc_tls sc \<and> may_send cfg from to msg sc c" for t c
    using assms(1) by (auto simp: greeting_only_def)
  show "mail_safe cfg from to msg (sc_log sc')"
    unfolding mail_safe_def
  proof (intro conjI allI impI)
    fix t x
    assume "(t, AuthPlain x) \<in> set (sc_log sc')"
    from new [OF this] show "t \<or> isLocalhost (sm_host cfg)" by (auto simp: may_send_def trusted_def)
  next
    fix t m
    assume "(t, Body m) \<in> set (sc_log sc')"
    from new [OF this] show "m = msg" "valid_line from" "valid_line to"
      "sm_username cfg \<noteq> [] \<and> sm_password cfg \<noteq> [] \<Longrightarrow> t \<or> isLocalhost (sm_host cfg)"
      by (auto simp: may_send_def trusted_def)
  qed
  show "sc_tls sc \<Longrightarrow> (t, Body m) \<in> set (sc_log sc') \<Longrightarrow> t" using new [of t "Body m"] by auto
qed

lemma empty_log_safe: "mail_safe cfg from to msg []"
  by (simp add: mail_safe_def)

lemma sendPlain_safe:
  assumes "sendPlain sv cfg addr from to msg = (r, trace)"
  shows "mail_safe cfg from to msg trace" "r = Inr () \<Longrightarrow> \<exists>t. (t, Body msg) \<in> set trace"
proof -
  define addr' where "addr' = (if addr = ''localhost:25'' \<or> addr = ''localhost:587'' then ''127.0.0.1:25'' else addr)"
  let ?sc = "new_client (host_of addr') False"
  obtain r' sc' where run: "deliver sv cfg from to msg ?sc = (r', sc')" by fastforce
  have cases: "r = failed \<and> trace = [] \<or> r = r' \<and> trace = sc_log sc'"
    using assms run by (auto simp: sendPlain_def addr'_def on_client_def Let_def split: if_splits)
  have "greeting_only (sc_log ?sc)" by (simp add: greeting_only_def new_client_def)
  from deliver_safe(1) [OF this run] cases show "mail_safe cfg from to msg trace" by (auto simp: empty_log_safe)
  assume "r = Inr ()"
  then show "\<exists>t. (t, Body msg) \<in> set trace" using cases deliver_delivered [of sv cfg "from" to msg ?sc sc'] run by (auto simp: failed_def)
qed

lemma sendSMTPS_safe:
  assumes "sendSMTPS sv cfg addr from to msg = (r, trace)"
  shows "mail_safe cfg from to msg trace" "r = Inr () \<Longrightarrow> \<exists>t. (t, Body msg) \<in> set trace"
    "(t, Body m) \<in> set trace \<Longrightarrow> t"
proof -
  let ?sc = "new_client (sm_host cfg) True"
  obtain r' sc' where run: "deliver sv cfg from to msg ?sc = (r', sc')" by fastforce
  have cases: "r = failed \<and> trace = [] \<or> r = r' \<and> trace = sc_log sc'"
    using assms run by (auto simp: sendSMTPS_def on_client_def Let_def split: if_splits)
  have greet: "greeting_only (sc_log ?sc)" by (simp add: greeting_only_def new_client_def)
  from deliver_safe(1) [OF greet run] cases show "mail_safe cfg from to msg trace" by (auto simp: empty_log_safe)
  show "(t, Body m) \<in> set trace \<Longrightarrow> t"
    using cases deliver_safe(2) [OF greet run, of t m] by (auto simp: new_client_def)
  assume "r = Inr ()"
  then show "\<exists>t. (t, Body msg) \<in> set trace" using cases deliver_delivered [of sv cfg "from" to msg ?sc sc'] run by (auto simp: failed_def)
qed

lemma greeting_hello: "greeting_only (sc_log sc) \<Longrightarrow> greeting_only (sc_log (snd (smtp_hello sv sc)))"
  using sends_only_hello [of "\<lambda>c. c \<in> {Ehlo, Helo, StartTls}" sv sc] by (auto simp: greeting_only_def sends_only_def)

lemma greeting_ehlo: "greeting_only (sc_log sc) \<Longrightarrow> greeting_only (sc_log (snd (smtp_ehlo sv sc)))"
  using sends_only_ehlo [of "\<lambda>c. c \<in> {Ehlo, Helo, StartTls}" sv sc] by (auto simp: greeting_only_def sends_only_def)

lemma greeting_starttls:
  assumes "greeting_only (sc_log sc)"
  shows "greeting_only (sc_log (snd (client_StartTLS sv sc)))"
proof -
  obtain r sc1 where hello: "smtp_hello sv sc = (r, sc1)" by fastforce
  have one: "greeting_only (sc_log sc1)" using greeting_hello [OF assms, of sv] hello by simp
  obtain r2 sc2 where tls: "smtp_send sv (\<lambda>n. n = 220) StartTls sc1 = (r2, sc2)" by fastforce
  have two: "greeting_only (sc_log (sc2\<lparr>sc_tls := True\<rparr>))" using one tls by (auto simp: greeting_only_def smtp_send_def Let_def)
  show ?thesis
    using one two hello tls greeting_ehlo [OF two, of sv]
    by (cases r; cases r2) (auto simp: client_StartTLS_def after_hello_def)
qed

lemma sendSTARTTLS_safe:
  assumes "sendSTARTTLS sv cfg addr from to msg = (r, trace)"
  shows "mail_safe cfg from to msg trace" "r = Inr () \<Longrightarrow> \<exists>t. (t, Body msg) \<in> set trace"
proof -
  let ?sc = "new_client (host_of addr) False"
  let ?tls = "\<lambda>sc. if ''STARTTLS'' \<in> set (sc_ext sc) then client_StartTLS sv sc else (Inr (), sc)"
  let ?step = "then_step (client_Hello sv) (then_step ?tls (deliver sv cfg from to msg))"
  have short: "mail_safe cfg from to msg l" if "greeting_only l" for l
    using that by (auto simp: mail_safe_def greeting_only_def)
  obtain r1 sc1 where hello: "client_Hello sv ?sc = (r1, sc1)" by fastforce
  have "greeting_only (sc_log ?sc)" by (simp add: greeting_only_def new_client_def)
  then have one: "greeting_only (sc_log sc1)"
    using greeting_hello [of ?sc sv] hello by (auto simp: client_Hello_def split: if_splits)
  obtain r2 sc2 where tls: "?tls sc1 = (r2, sc2)" by fastforce
  have two: "greeting_only (sc_log sc2)"
    using one greeting_starttls [OF one, of sv] tls by (cases "''STARTTLS'' \<in> set (sc_ext sc1)") auto
  obtain r3 sc3 where run: "deliver sv cfg from to msg sc2 = (r3, sc3)" by fastforce
  have cases: "r = failed \<and> trace = [] \<or> (r1, sc1) = (r, sc1) \<and> trace = sc_log sc1 \<and> r \<noteq> Inr () \<or>
      trace = sc_log sc2 \<and> r \<noteq> Inr () \<or> r = r3 \<and> trace = sc_log sc3"
    using assms hello tls run
    by (cases r1; cases r2) (auto simp: sendSTARTTLS_def on_client_def then_step_def Let_def split: if_splits)
  from deliver_safe(1) [OF two run] cases one two short show "mail_safe cfg from to msg trace" by (auto simp: empty_log_safe)
  assume "r = Inr ()"
  then show "\<exists>t. (t, Body msg) \<in> set trace"
    using cases deliver_delivered [of sv cfg "from" to msg sc2 sc3] run by (auto simp: failed_def)
qed

text \<open>The address of \<open>localhost\<close> is rewritten, and \<open>PlainAuth\<close> then misses the name it is for.\<close>

lemma sendPlain_localhost:
  assumes "sm_host cfg = ''localhost''" "sm_username cfg \<noteq> []" "sm_password cfg \<noteq> []"
    and "addr \<in> {''localhost:25'', ''localhost:587''}"
  shows "fst (sendPlain sv cfg addr from to msg) \<noteq> Inr ()"
proof
  let ?sc = "new_client (host_of ''127.0.0.1:25'') False"
  assume ok: "fst (sendPlain sv cfg addr from to msg) = Inr ()"
  obtain r sc' where run: "deliver sv cfg from to msg ?sc = (r, sc')" by fastforce
  have "r = Inr ()" using ok assms(4) run by (auto simp: sendPlain_def on_client_def failed_def Let_def split: if_splits)
  then have "(False, Body msg) \<in> set (sc_log sc')"
    using deliver_delivered [of sv cfg "from" to msg ?sc sc'] run by (simp add: new_client_def)
  then have "trusted (sm_host cfg) ?sc"
    using sends_only_deliver [of cfg "from" to msg ?sc sv] run assms(2,3)
    by (auto simp: sends_only_def new_client_def may_send_def)
  moreover have "host_of ''127.0.0.1:25'' \<noteq> ''localhost''" by code_simp
  ultimately show False using assms(1) by (simp add: trusted_def new_client_def)
qed

text \<open>A server that agrees to everything and offers no TLS.\<close>

definition open_server :: smtp_server where
  "open_server = \<lparr>sv_reached = (\<lambda>_. True), sv_greets = True, sv_handshake = True,
     sv_reply = (\<lambda>l. case snd (last l) of DataCmd \<Rightarrow> 354 | QuitCmd \<Rightarrow> 221 | _ \<Rightarrow> 250), sv_extensions = (\<lambda>_. [])\<rparr>"

definition open_config :: smtp_config where
  "open_config = \<lparr>sm_host = ''mail.ru'', sm_port = 587, sm_username = [], sm_password = [], sm_from = ''a@b'', sm_use_tls = True\<rparr>"

text \<open>
  C39. Whatever the mail server answers: the password goes over TLS or to the machine itself, and a mail
  only over TLS when a password is set for another machine, or with TLS from the start (port 465); a mail
  is what \<open>buildMsg\<close> made, between addresses without line breaks, so that no header can be smuggled in;
  and success means that the server took it. But without a password TLS is only tried: with a server
  that does not offer it, the mail and its code go in clear; and \<open>localhost\<close> never works with a password.
\<close>

theorem mail_secrets:
  fixes cfg :: smtp_config
  assumes "sendEmail sv cfg to subject body html = (r, trace)" "sm_host cfg \<noteq> []"
  defines "from' \<equiv> if sm_from cfg = [] then sm_username cfg else sm_from cfg"
  defines "msg \<equiv> buildMsg from' to subject (if html then emailWrap subject body else body) html"
  shows "(\<forall>t x. (t, AuthPlain x) \<in> set trace \<longrightarrow> t \<or> isLocalhost (sm_host cfg)) \<and>
    (\<forall>t m. (t, Body m) \<in> set trace \<longrightarrow> m = msg \<and> valid_line from' \<and> valid_line to \<and>
       (sm_username cfg \<noteq> [] \<and> sm_password cfg \<noteq> [] \<longrightarrow> t \<or> isLocalhost (sm_host cfg)) \<and>
       (sm_use_tls cfg \<and> sm_port cfg = 465 \<longrightarrow> t)) \<and>
    (r = Inr () \<longrightarrow> (\<exists>t. (t, Body msg) \<in> set trace)) \<and>
    (sm_host cfg = ''localhost'' \<and> sm_username cfg \<noteq> [] \<and> sm_password cfg \<noteq> [] \<and> \<not> sm_use_tls cfg \<and>
       sm_port cfg \<in> {25, 587} \<longrightarrow> r \<noteq> Inr ()) \<and>
    (\<exists>m. (False, Body m) \<in> set (snd (sendEmail open_server open_config ''c@d'' ''s'' ''code'' False)))"
proof -
  let ?addr = "sm_host cfg @ '':'' @ show_int (sm_port cfg)"
  have way: "sm_use_tls cfg \<and> sm_port cfg = 465 \<and> sendSMTPS sv cfg ?addr from' to msg = (r, trace) \<or>
      \<not> (sm_use_tls cfg \<and> sm_port cfg = 465) \<and>
      (sendSTARTTLS sv cfg ?addr from' to msg = (r, trace) \<or> sendPlain sv cfg ?addr from' to msg = (r, trace))"
    using assms(1,2) by (auto simp: sendEmail_def Let_def msg_def from'_def split: if_splits)
  have safe: "mail_safe cfg from' to msg trace" "r = Inr () \<longrightarrow> (\<exists>t. (t, Body msg) \<in> set trace)"
    using way by (auto dest: sendSMTPS_safe(1,2) sendSTARTTLS_safe(1,2) sendPlain_safe(1,2))
  have tls: "t" if "sm_use_tls cfg \<and> sm_port cfg = 465" "(t, Body m) \<in> set trace" for t m
    using way that sendSMTPS_safe(3) [where t = t and m = m] by auto
  have ports: "show_int 25 = ''25''" "show_int 587 = ''587''" by code_simp+
  have local: "r \<noteq> Inr ()" if "sm_host cfg = ''localhost''" "sm_username cfg \<noteq> []" "sm_password cfg \<noteq> []"
      "\<not> sm_use_tls cfg" "sm_port cfg \<in> {25, 587}"
  proof -
    have "sendPlain sv cfg ?addr from' to msg = (r, trace)"
      using assms(1,2) that(4) by (simp add: sendEmail_def Let_def msg_def from'_def)
    moreover have "?addr \<in> {''localhost:25'', ''localhost:587''}" using that(1,5) ports by auto
    ultimately show ?thesis using sendPlain_localhost [OF that(1-3)] by (metis fst_conv)
  qed
  have "(False, Body (buildMsg ''a@b'' ''c@d'' ''s'' ''code'' False)) \<in>
      set (snd (sendEmail open_server open_config ''c@d'' ''s'' ''code'' False))" by code_simp
  then show ?thesis using safe tls local unfolding mail_safe_def by blast
qed

theorem mail_secrets_witness:
  "\<exists>t. (t, Body (buildMsg ''a@b'' ''c@d'' ''s'' ''code'' False)) \<in>
     set (snd (sendEmail open_server open_config ''c@d'' ''s'' ''code'' False))"
proof -
  have host: "sm_host open_config \<noteq> []" by (simp add: open_config_def)
  have ok: "fst (sendEmail open_server open_config ''c@d'' ''s'' ''code'' False) = Inr ()" by code_simp
  obtain r trace where run: "sendEmail open_server open_config ''c@d'' ''s'' ''code'' False = (r, trace)" by fastforce
  have "sm_from open_config = ''a@b''" by (simp add: open_config_def)
  then show ?thesis using mail_secrets [OF run host] run ok by simp
qed

section \<open>The encoding of a mail\<close>

fun value64 :: "char \<Rightarrow> nat" where
  "value64 ch = length (takeWhile (\<lambda>c. c \<noteq> ch) alphabet64)"

fun DecodeString :: "string \<Rightarrow> string" where
  "DecodeString (p # q # r # s # t) =
     (let a = value64 p; b = value64 q; c = value64 r; d = value64 s
      in if r = CHR ''='' then [char_of (a * 4 + b div 16)]
         else if s = CHR ''='' then [char_of (a * 4 + b div 16), char_of (b mod 16 * 16 + c div 4)]
         else char_of (a * 4 + b div 16) # char_of (b mod 16 * 16 + c div 4) # char_of (c mod 4 * 64 + d) # DecodeString t)"
| "DecodeString s = []"

lemma value64_char64: "n < 64 \<Longrightarrow> value64 (char64 n) = n \<and> char64 n \<noteq> CHR ''='' \<and> valid_line [char64 n]"
proof -
  assume "n < 64"
  moreover have "list_all (\<lambda>n. value64 (char64 n) = n \<and> char64 n \<noteq> CHR ''='' \<and> valid_line [char64 n]) [0..<64]" by code_simp
  ultimately show ?thesis by (simp add: list_all_iff)
qed

lemma sextets:
  fixes x y z :: nat
  assumes "x < 256" "y < 256" "z < 256"
  shows "x div 4 < 64" "x mod 4 * 16 + y div 16 < 64" "y mod 16 * 4 + z div 64 < 64" "z mod 64 < 64"
    "x mod 4 * 16 < 64" "y mod 16 * 4 < 64"
    "x div 4 * 4 + (x mod 4 * 16 + y div 16) div 16 = x" "x div 4 * 4 + x mod 4 * 16 div 16 = x"
    "(x mod 4 * 16 + y div 16) mod 16 * 16 + (y mod 16 * 4 + z div 64) div 4 = y"
    "(x mod 4 * 16 + y div 16) mod 16 * 16 + y mod 16 * 4 div 4 = y"
    "(y mod 16 * 4 + z div 64) mod 4 * 64 + z mod 64 = z"
proof -
  have "x div 4 < 64" "y div 16 < 16" "z div 64 < 4" using assms by (simp_all add: div_less_iff_less_mult)
  moreover have "x mod 4 < 4" "y mod 16 < 16" "z mod 64 < 64" by simp_all
  moreover have "x = x div 4 * 4 + x mod 4" "y = y div 16 * 16 + y mod 16" "z = z div 64 * 64 + z mod 64" by simp_all
  moreover have "(a * 16 + b) div 16 = a" "(a * 16 + b) mod 16 = b" if "b < 16" for a b :: nat using that by simp_all
  moreover have "(a * 4 + b) div 4 = a" "(a * 4 + b) mod 4 = b" if "b < 4" for a b :: nat using that by simp_all
  ultimately show "x div 4 < 64" "x mod 4 * 16 + y div 16 < 64" "y mod 16 * 4 + z div 64 < 64" "z mod 64 < 64"
    "x mod 4 * 16 < 64" "y mod 16 * 4 < 64"
    "x div 4 * 4 + (x mod 4 * 16 + y div 16) div 16 = x" "x div 4 * 4 + x mod 4 * 16 div 16 = x"
    "(x mod 4 * 16 + y div 16) mod 16 * 16 + (y mod 16 * 4 + z div 64) div 4 = y"
    "(x mod 4 * 16 + y div 16) mod 16 * 16 + y mod 16 * 4 div 4 = y"
    "(y mod 16 * 4 + z div 64) mod 4 * 64 + z mod 64 = z"
    by simp_all
qed

lemma byte: "(of_char ch :: nat) < 256"
  by (rule nat_of_char_less_256)

lemma decode_quads:
  assumes "a < 64" "b < 64" "c < 64" "d < 64"
  shows "DecodeString (char64 a # char64 b # char64 c # char64 d # t) =
      char_of (a * 4 + b div 16) # char_of (b mod 16 * 16 + c div 4) # char_of (c mod 4 * 64 + d) # DecodeString t"
    "DecodeString [char64 a, char64 b, char64 c, CHR ''=''] = [char_of (a * 4 + b div 16), char_of (b mod 16 * 16 + c div 4)]"
    "DecodeString [char64 a, char64 b, CHR ''='', CHR ''=''] = [char_of (a * 4 + b div 16)]"
  using assms value64_char64 [of a] value64_char64 [of b] value64_char64 [of c] value64_char64 [of d]
  by (simp_all add: Let_def del: value64.simps)

lemma decode_encode: "DecodeString (EncodeToString s) = s"
proof (induction s rule: EncodeToString.induct)
  case (2 a)
  note six = sextets [of "of_char a" "of_char a" "of_char a", OF byte byte byte]
  show ?case
    unfolding EncodeToString.simps Let_def
    by (subst decode_quads(3) [OF six(1) six(5) six(4) six(4)]) (simp only: six(8) char_of_char)
next
  case (3 a b)
  note six = sextets [of "of_char a" "of_char b" "of_char a", OF byte byte byte]
  show ?case
    unfolding EncodeToString.simps Let_def
    by (subst decode_quads(2) [OF six(1,2,6,4)]) (simp only: six(7,10) char_of_char)
next
  case (4 a b c s)
  note six = sextets [of "of_char a" "of_char b" "of_char c", OF byte byte byte]
  have "DecodeString (EncodeToString s) = s" by (rule 4) (rule refl)+
  then show ?case
    unfolding EncodeToString.simps Let_def
    by (subst decode_quads(1) [OF six(1-4)]) (simp only: six(7,9,11) char_of_char)
qed simp

lemma length_encode: "length (EncodeToString s) = 4 * ((length s + 2) div 3)"
proof (induction s rule: EncodeToString.induct)
  case (4 a b c s)
  have "length (EncodeToString s) = 4 * ((length s + 2) div 3)" by (rule 4) (rule refl)+
  then show ?case by (simp add: Let_def) presburger
qed (simp_all add: Let_def)

lemma encode_line: "valid_line (EncodeToString s)"
proof -
  have "valid_line [char64 n]" for n using value64_char64 [of "n mod 64"] by (simp add: char64_def)
  then show ?thesis
    by (induction s rule: EncodeToString.induct) (auto simp: Let_def valid_line_def)
qed

lemma sublist_right: "sublist x q \<Longrightarrow> sublist x (p @ q)"
  by (auto simp: sublist_def) (metis append.assoc)

lemma sublist_here: "sublist x z \<Longrightarrow> sublist x (z @ q)"
  by (auto simp: sublist_def) (metis append.assoc)

lemma wrapped: "sublist x bodyHTML \<Longrightarrow> sublist x (emailWrap title bodyHTML)"
  unfolding emailWrap_def
  by (rule sublist_right, rule sublist_right, rule sublist_right, rule sublist_right, rule sublist_right, rule sublist_right,
      rule sublist_right, rule sublist_right, rule sublist_here)

lemma code_shown: "sublist code (verification_body name code)"
proof -
  have code: "sublist code (codeDigits code)"
    unfolding codeDigits_def
    by (rule sublist_right, rule sublist_right, rule sublist_right, rule sublist_here, rule sublist_order.order.refl)
  show ?thesis
    unfolding verification_body_def
    by (rule sublist_right, rule sublist_right, rule sublist_right, rule sublist_right, rule sublist_right, rule sublist_here,
        rule code)
qed

lemma name_shown: "sublist name (verification_body name code)"
proof -
  have name: "sublist name (greeting name)"
  proof (cases "name = []")
    case False
    then have "greeting name = utf8 [1079, 1076, 1088, 1072, 1074, 1089, 1090, 1074, 1091, 1081, 1090, 1077] @ '', '' @ name"
      by (simp add: greeting_def)
    then show ?thesis by (metis append.assoc sublist_append_leftI)
  qed simp
  show ?thesis unfolding verification_body_def by (rule sublist_right, rule sublist_here, rule name)
qed

lemma wrap_long: "749 \<le> length (emailWrap title bodyHTML)"
  unfolding emailWrap_def by simp

lemma long_line: "998 < length (EncodeToString (emailWrap title bodyHTML))"
  using wrap_long [of title bodyHTML] unfolding length_encode by simp


end
