(* ===== verification/MoyskladOrders.thy ===== *)
theory MoyskladOrders
  imports Cart OrderStore ClientGuarantees
begin

text \<open>
  internal/usecase/moysklad_orders.go: an order made of the customer's cart and placed at Moysklad,
  without a reservation of stock. Only tests construct this use case. The state is the database, the
  client of Moysklad with its clock, and the customer orders Moysklad holds; each group of statements
  has a connection of its own in \<open>mso_env\<close>. \<open>me_name\<close> is the number of the order as the code formats
  it for Moysklad, with the time of the call; the constant message of the answer is left out.
\<close>

section \<open>State and environment\<close>

record mso_state =
  mo_db :: shop_db
  mo_call :: call
  mo_remote :: "string set"

record mso_env =
  me_now :: time
  me_cart :: conn
  me_check :: conn
  me_total :: conn
  me_insert :: conn
  me_positions :: conn
  me_update :: conn
  me_clear :: conn
  me_orgs :: "string list http_env"
  me_agents :: "string list http_env"
  me_create :: "ms_order_request \<Rightarrow> string http_env"
  me_name :: "id64 \<Rightarrow> string"

record MoyskladOrderResponse =
  mr_order_id :: string
  mr_moysklad_id :: string
  mr_status :: string

section \<open>The loops over the cart\<close>

text \<open>The check of the lines, the sum, the positions; the query of a product is statement \<open>k\<close>, \<open>k + 1\<close>, ...\<close>

fun mso_check :: "conn \<Rightarrow> nat \<Rightarrow> shop_db \<Rightarrow> cart_item list \<Rightarrow> unit result" where
  "mso_check c k db [] = Inr ()"
| "mso_check c k db (ci # lines) =
     (case product_GetByID c k (ci_product_id ci) db of
        Inl e \<Rightarrow> Inl e
      | Inr None \<Rightarrow> Inl (RejectedItem ''not found'' (ci_product_id ci))
      | Inr (Some p) \<Rightarrow>
          if p_stock p < ci_quantity ci then Inl (InsufficientStock (ci_product_id ci))
          else mso_check c (Suc k) db lines)"

fun mso_total :: "conn \<Rightarrow> nat \<Rightarrow> shop_db \<Rightarrow> cart_item list \<Rightarrow> money \<Rightarrow> money" where
  "mso_total c k db [] acc = acc"
| "mso_total c k db (ci # lines) acc =
     mso_total c (Suc k) db lines
       (case product_GetByID c k (ci_product_id ci) db of
          Inr (Some p) \<Rightarrow> acc + of_int (ci_quantity ci) * p_price p
        | _ \<Rightarrow> acc)"

text \<open>The id of a product at Moysklad is dereferenced without a look.\<close>

fun mso_positions :: "string \<Rightarrow> conn \<Rightarrow> nat \<Rightarrow> shop_db \<Rightarrow> cart_item list \<Rightarrow> ms_position list result" where
  "mso_positions base c k db [] = Inr []"
| "mso_positions base c k db (ci # lines) =
     (case product_GetByID c k (ci_product_id ci) db of
        Inr (Some p) \<Rightarrow>
          (case p_moysklad_id p of
             None \<Rightarrow> Inl (Panic ''nil pointer'')
           | Some m \<Rightarrow>
               (case mso_positions base c (Suc k) db lines of
                  Inl e \<Rightarrow> Inl e
                | Inr ps \<Rightarrow> Inr (\<lparr>po_quantity = ci_quantity ci, po_href = base @ ''/entity/product/'' @ m,
                                   po_price = p_price p * 100, po_reserve = 0\<rparr> # ps)))
      | _ \<Rightarrow> mso_positions base c (Suc k) db lines)"

section \<open>The operations\<close>

definition createMoyskladOrder ::
  "mso_env \<Rightarrow> cart_item list \<Rightarrow> id64 \<Rightarrow> mso_state \<Rightarrow> string result \<times> mso_state" where
  "createMoyskladOrder env lines oid s =
     (case GetOrganizations (me_orgs env) (mo_call s) of
        (Inl _, t) \<Rightarrow> (Inl (Upstream ''moysklad''), s\<lparr>mo_call := t\<rparr>)
      | (Inr [], t) \<Rightarrow> (Inl (Rejected ''no organizations found''), s\<lparr>mo_call := t\<rparr>)
      | (Inr (org # _), t) \<Rightarrow>
     (case GetCounterparties (me_agents env) t of
        (Inl _, t) \<Rightarrow> (Inl (Upstream ''moysklad''), s\<lparr>mo_call := t\<rparr>)
      | (Inr [], t) \<Rightarrow> (Inl (Rejected ''no counterparties found''), s\<lparr>mo_call := t\<rparr>)
      | (Inr (agent # _), t) \<Rightarrow>
     (case mso_positions (mc_base_url (ca_client t)) (me_positions env) 0 (mo_db s) lines of
        Inl e \<Rightarrow> (Inl e, s\<lparr>mo_call := t\<rparr>)
      | Inr ps \<Rightarrow>
     (case CreateCustomerOrder (me_create env)
             \<lparr>or_name = me_name env oid, or_description = (None, [], [], None), or_positions = ps,
              or_organization = org, or_agent = agent\<rparr> t of
        (Inl _, t) \<Rightarrow> (Inl (Upstream ''moysklad''), s\<lparr>mo_call := t\<rparr>)
      | (Inr remote, t) \<Rightarrow>
          (Inr remote, s\<lparr>mo_call := t, mo_remote := insert remote (mo_remote s)\<rparr>)))))"

text \<open>"Buyer from the site", in Russian and UTF-8.\<close>

definition buyer_from_site :: string where
  "buyer_from_site =
     [CHR 0xD0, CHR 0x9F, CHR 0xD0, CHR 0xBE, CHR 0xD0, CHR 0xBA, CHR 0xD1, CHR 0x83, CHR 0xD0,
      CHR 0xBF, CHR 0xD0, CHR 0xB0, CHR 0xD1, CHR 0x82, CHR 0xD0, CHR 0xB5, CHR 0xD0, CHR 0xBB,
      CHR 0xD1, CHR 0x8C, CHR 0x20, CHR 0xD1, CHR 0x81, CHR 0x20, CHR 0xD1, CHR 0x81, CHR 0xD0,
      CHR 0xB0, CHR 0xD0, CHR 0xB9, CHR 0xD1, CHR 0x82, CHR 0xD0, CHR 0xB0]"

definition mso_order :: "mso_env \<Rightarrow> id64 \<Rightarrow> money \<Rightarrow> order" where
  "mso_order env uid totalPrice =
     \<lparr>o_id = 0, o_user_id = Some uid, o_status = ''pending'', o_total_price = totalPrice,
      o_customer_name = buyer_from_site, o_phone = [], o_address = None, o_comment = None,
      o_moysklad_id = None, o_created_at = me_now env, o_updated_at = me_now env,
      o_reserved_until = None, o_pickup_at = None, o_items = []\<rparr>"

definition mso_place ::
  "mso_env \<Rightarrow> id64 \<Rightarrow> cart_item list \<Rightarrow> order \<Rightarrow> mso_state \<Rightarrow> MoyskladOrderResponse result \<times> mso_state" where
  "mso_place env uid lines created s =
     (case createMoyskladOrder env lines (o_id created) s of
        (Inl (Panic m), s) \<Rightarrow> (Inl (Panic m), s)
      | (Inl e, s) \<Rightarrow>
          (case Update (me_update env) (created\<lparr>o_status := ''error''\<rparr>) (o_id created) (mo_db s) of
             (Inl e', db) \<Rightarrow> (Inl e', s\<lparr>mo_db := db\<rparr>)
           | (Inr _, db) \<Rightarrow> (Inl e, s\<lparr>mo_db := db\<rparr>))
      | (Inr remote, s) \<Rightarrow>
          (case Update (me_update env) (created\<lparr>o_status := ''processing'', o_moysklad_id := Some remote\<rparr>)
                  (o_id created) (mo_db s) of
             (Inl e', db) \<Rightarrow> (Inl e', s\<lparr>mo_db := db\<rparr>)
           | (Inr _, db) \<Rightarrow>
               (Inr \<lparr>mr_order_id = show_int (o_id created), mr_moysklad_id = remote,
                     mr_status = ''processing''\<rparr>,
                s\<lparr>mo_db := snd (cart_Clear (me_clear env) 0 uid db)\<rparr>)))"

definition mso_CreateOrder ::
  "mso_env \<Rightarrow> id64 \<Rightarrow> mso_state \<Rightarrow> MoyskladOrderResponse result \<times> mso_state" where
  "mso_CreateOrder env uid s =
     (case cart_GetByUserID (me_cart env) 0 uid (mo_db s) of
        Inl e \<Rightarrow> (Inl e, s)
      | Inr [] \<Rightarrow> (Inl (Rejected ''cart is empty''), s)
      | Inr lines \<Rightarrow>
     (case mso_check (me_check env) 0 (mo_db s) lines of
        Inl e \<Rightarrow> (Inl e, s)
      | Inr _ \<Rightarrow>
     (case Insert (me_insert env) (me_now env)
             (mso_order env uid (mso_total (me_total env) 0 (mo_db s) lines 0)) (mo_db s) of
        (Inl e, db) \<Rightarrow> (Inl e, s\<lparr>mo_db := db\<rparr>)
      | (Inr created, db) \<Rightarrow> mso_place env uid lines created (s\<lparr>mo_db := db\<rparr>))))"

text \<open>Neither a missing order nor an order without a customer is looked for.\<close>

definition GetOrderStatus :: "conn \<Rightarrow> id64 \<Rightarrow> id64 \<Rightarrow> shop_db \<Rightarrow> order result" where
  "GetOrderStatus c uid oid db =
     (case GetByID c oid db of
        Inl e \<Rightarrow> Inl e
      | Inr None \<Rightarrow> Inl (Panic ''nil pointer'')
      | Inr (Some o') \<Rightarrow>
          (case o_user_id o' of
             None \<Rightarrow> Inl (Panic ''nil pointer'')
           | Some u \<Rightarrow> if u \<noteq> uid then Inl (Rejected ''access denied'') else Inr o'))"

section \<open>What an order comes to\<close>

lemma refused_status:
  assumes "\<not> order_status_ok (o_status ord)"
  shows "\<exists>e. Update c ord k db = (Inl e, db)"
  using assms by (auto simp: Update_def split: scan.splits)

lemma createMoyskladOrder_db [simp]: "mo_db (snd (createMoyskladOrder env lines oid s)) = mo_db s"
  by (auto simp: createMoyskladOrder_def split: prod.splits sum.splits list.splits)

lemma createMoyskladOrder_remote:
  "createMoyskladOrder env lines oid s = (r, s') \<Longrightarrow>
    mo_remote s' = (case r of Inl _ \<Rightarrow> mo_remote s | Inr remote \<Rightarrow> insert remote (mo_remote s))"
  by (auto simp: createMoyskladOrder_def split: prod.splits sum.splits list.splits)

text \<open>Neither of the two states that \<open>mso_place\<close> writes passes the CHECK.\<close>

lemma mso_place_refused:
  "\<exists>e. mso_place env uid lines created s =
     (Inl e, snd (createMoyskladOrder env lines (o_id created) s))"
proof -
  obtain r s' where made: "createMoyskladOrder env lines (o_id created) s = (r, s')" by fastforce
  obtain e1 where failed: "Update (me_update env) (created\<lparr>o_status := ''error''\<rparr>) (o_id created) (mo_db s')
      = (Inl e1, mo_db s')"
    using refused_status [of "created\<lparr>o_status := ''error''\<rparr>" "me_update env" "o_id created" "mo_db s'"]
    by (auto simp: order_status_ok_def)
  show ?thesis
  proof (cases r)
    case (Inl e)
    then show ?thesis using made failed by (cases e) (simp_all add: mso_place_def)
  next
    case (Inr m)
    obtain e2 where "Update (me_update env) (created\<lparr>o_status := ''processing'', o_moysklad_id := Some m\<rparr>)
        (o_id created) (mo_db s') = (Inl e2, mo_db s')"
      using refused_status [of "created\<lparr>o_status := ''processing'', o_moysklad_id := Some m\<rparr>"
        "me_update env" "o_id created" "mo_db s'"]
      by (auto simp: order_status_ok_def)
    then show ?thesis using made Inr by (simp add: mso_place_def)
  qed
qed

text \<open>The row leaves the database as it is and Moysklad with at most one more order.\<close>

lemma mso_place_frame:
  shows "\<exists>e. fst (mso_place env uid lines created s) = Inl e"
    and "mo_db (snd (mso_place env uid lines created s)) = mo_db s"
    and "\<exists>new. mo_remote (snd (mso_place env uid lines created s)) = mo_remote s \<union> new \<and> card new \<le> 1"
proof -
  obtain e where placed: "mso_place env uid lines created s =
      (Inl e, snd (createMoyskladOrder env lines (o_id created) s))"
    using mso_place_refused by blast
  then show "\<exists>e. fst (mso_place env uid lines created s) = Inl e"
    and "mo_db (snd (mso_place env uid lines created s)) = mo_db s"
    by simp_all
  obtain r s' where made: "createMoyskladOrder env lines (o_id created) s = (r, s')" by fastforce
  have "mo_remote s' = mo_remote s \<union> (case r of Inl _ \<Rightarrow> {} | Inr m \<Rightarrow> {m})"
    using createMoyskladOrder_remote [OF made] by (auto split: sum.splits)
  then show "\<exists>new. mo_remote (snd (mso_place env uid lines created s)) = mo_remote s \<union> new \<and> card new \<le> 1"
    using placed made by (intro exI [of _ "case r of Inl _ \<Rightarrow> {} | Inr m \<Rightarrow> {m}"]) (simp split: sum.splits)
qed

definition pending_row :: "mso_env \<Rightarrow> id64 \<Rightarrow> shop_db \<Rightarrow> order \<Rightarrow> bool" where
  "pending_row env uid db row =
     (o_id row = next_order db \<and> o_user_id row = Some uid \<and> o_status row = ''pending'' \<and>
      o_moysklad_id row = None \<and> o_reserved_until row = None \<and> o_items row = [])"

lemma Insert_pending:
  "Insert c now (mso_order env uid price) db = (Inl e, db') \<Longrightarrow> db' = db"
  "Insert c now (mso_order env uid price) db = (Inr created, db') \<Longrightarrow>
     \<exists>row. db' = db\<lparr>orders := orders db @ [row], next_order := next_order db + 1\<rparr> \<and> pending_row env uid db row"
  by (auto simp: Insert_def insert_order_def pending_row_def mso_order_def Let_def split: if_splits sum.splits)

text \<open>A call stops before it writes, or stores the pending order and goes on to place it.\<close>

lemma mso_CreateOrder_cases:
  obtains (early) e where "mso_CreateOrder env uid s = (Inl e, s)"
    | (place) lines created t where "mso_CreateOrder env uid s = mso_place env uid lines created t"
        and "mo_remote t = mo_remote s"
        and "\<exists>row. mo_db t = (mo_db s)\<lparr>orders := orders (mo_db s) @ [row], next_order := next_order (mo_db s) + 1\<rparr> \<and>
             pending_row env uid (mo_db s) row"
proof (cases "\<exists>lines. cart_GetByUserID (me_cart env) 0 uid (mo_db s) = Inr lines \<and> lines \<noteq> [] \<and> mso_check (me_check env) 0 (mo_db s) lines = Inr ()")
  case False
  then have "\<exists>e. mso_CreateOrder env uid s = (Inl e, s)"
    by (auto simp: mso_CreateOrder_def split: sum.split list.split)
  then show thesis using early by blast
next
  case True
  then obtain lines where lines: "cart_GetByUserID (me_cart env) 0 uid (mo_db s) = Inr lines" "lines \<noteq> []"
    "mso_check (me_check env) 0 (mo_db s) lines = Inr ()"
    by blast
  obtain r db where ins: "Insert (me_insert env) (me_now env)
      (mso_order env uid (mso_total (me_total env) 0 (mo_db s) lines 0)) (mo_db s) = (r, db)"
    by fastforce
  have made: "mso_CreateOrder env uid s = (case r of Inl e \<Rightarrow> (Inl e, s\<lparr>mo_db := db\<rparr>)
      | Inr created \<Rightarrow> mso_place env uid lines created (s\<lparr>mo_db := db\<rparr>))"
    using lines ins by (cases lines) (simp_all add: mso_CreateOrder_def split: sum.split)
  show thesis
  proof (cases r)
    case (Inl e)
    then show thesis using made early Insert_pending(1) ins by fastforce
  next
    case (Inr created)
    then show thesis
      using made ins place [of lines created "s\<lparr>mo_db := db\<rparr>"] Insert_pending(2) by fastforce
  qed
qed

text \<open>
  Every call answers an error, whatever the database and Moysklad answer: both states the
  code writes, "processing" and "error", are outside the CHECK of migration 007. What a call changes
  in the database is at most one new order, still pending, without lines, without a deadline for the
  expiry job and without the id of the remote order; stock, cart and events stay. Moysklad
  holds at most one more order, and only when such a row was written, which does not name it.
\<close>

theorem mso_never_succeeds:
  "\<exists>e db.
     fst (mso_CreateOrder env uid s) = Inl e \<and> mo_db (snd (mso_CreateOrder env uid s)) = db \<and>
     (db = mo_db s \<and> mo_remote (snd (mso_CreateOrder env uid s)) = mo_remote s \<or>
      (\<exists>row. db = (mo_db s)\<lparr>orders := orders (mo_db s) @ [row], next_order := next_order (mo_db s) + 1\<rparr> \<and>
         pending_row env uid (mo_db s) row \<and>
         (\<exists>new. mo_remote (snd (mso_CreateOrder env uid s)) = mo_remote s \<union> new \<and> card new \<le> 1)))"
proof (cases rule: mso_CreateOrder_cases [of env uid s])
  case early
  then show ?thesis by auto
next
  case (place lines created t)
  show ?thesis
    using mso_place_frame [of env uid lines created t] place unfolding place(1) by simp
qed

text \<open>
  While everything answers, the call for a stocked cart still fails, after Moysklad took the order:
  that order is known to nobody, and a second call makes another.
\<close>

definition orphan_db :: shop_db where
  "orphan_db = empty_shop\<lparr>
     products := [(mk_product 1 30 5)\<lparr>p_moysklad_id := Some ''m1''\<rparr>],
     cart_items := [\<lparr>ci_id = 1, ci_user_id = 7, ci_product_id = 1, ci_quantity = 2, ci_created_at = 0,
                     ci_updated_at = 0, ci_product = None\<rparr>]\<rparr>"

definition orphan_env :: "string \<Rightarrow> mso_env" where
  "orphan_env remote = \<lparr>me_now = 0, me_cart = healthy, me_check = healthy, me_total = healthy,
     me_insert = healthy, me_positions = healthy, me_update = healthy, me_clear = healthy,
     me_orgs = quick (\<lambda>_. Some (with_body [''org''])), me_agents = quick (\<lambda>_. Some (with_body [''agent''])),
     me_create = (\<lambda>_. quick (\<lambda>_. Some (with_body remote))), me_name = (\<lambda>_. ''order'')\<rparr>"

definition orphan_start :: mso_state where
  "orphan_start = \<lparr>mo_db = orphan_db, mo_call = idle_call, mo_remote = {}\<rparr>"

definition orphan_once :: "mso_state" where
  "orphan_once = snd (mso_CreateOrder (orphan_env ''A'') 7 orphan_start)"

definition orphan_twice :: "mso_state" where
  "orphan_twice = snd (mso_CreateOrder (orphan_env ''B'') 7 orphan_once)"

theorem mso_leaves_orphans:
  "fst (mso_CreateOrder (orphan_env ''A'') 7 orphan_start) = Inl DbError \<and>
    mo_remote orphan_once = {''A''} \<and> mo_remote orphan_twice = {''A'', ''B''} \<and>
    map o_moysklad_id (orders (mo_db orphan_twice)) = [None, None]"
  by code_simp

section \<open>The status of an order\<close>

text \<open>
  A customer reads exactly the own orders: an order of another customer is refused, but one that
  does not exist, or that has no customer, stops the request with a nil pointer.
\<close>

theorem GetOrderStatus_answers:
  assumes "distinct (map o_id (orders db))"
  shows "GetOrderStatus healthy uid oid db =
    (case find_order db oid of
       None \<Rightarrow> Inl (Panic ''nil pointer'')
     | Some row \<Rightarrow>
         if o_user_id row = None then Inl (Panic ''nil pointer'')
         else if o_user_id row \<noteq> Some uid then Inl (Rejected ''access denied'')
         else Inr (row\<lparr>o_items := filter (\<lambda>it. oi_order_id it = oid) (order_items db)\<rparr>))"
  using order_rows.filter_key [OF assms, of oid]
  by (auto simp: GetOrderStatus_def GetByID_def getOrderItems_def healthy_def split: option.splits)

theorem GetOrderStatus_answers_witness:
  "GetOrderStatus healthy 7 1 (empty_shop\<lparr>orders := [(mk_order 7)\<lparr>o_id := 1\<rparr>]\<rparr>) =
     Inr ((mk_order 7)\<lparr>o_id := 1, o_items := []\<rparr>)"
  using GetOrderStatus_answers [of "empty_shop\<lparr>orders := [(mk_order 7)\<lparr>o_id := 1\<rparr>]\<rparr>" 7 1]
  by (simp add: empty_shop_def mk_order_def find_row_def)

end
