(* ===== verification/SyncSources.thy ===== *)
theory SyncSources
  imports ClientGuarantees SyncWorker
begin

text \<open>
  Where the synchronisation of internal/services/moysklad_sync.go meets the client of Moysklad:
  \<open>GetProductsForSync\<close> and \<open>GetStockMapForSync\<close>, a full synchronisation of scheduler.go that reads
  folders, stocks and products with one client, and the counters that \<open>SyncSingleProduct\<close> keeps of the
  categories of products. The counters are int32 and wrap around.
\<close>

section \<open>Reading from Moysklad\<close>

definition answered :: "http_error + 'a \<Rightarrow> 'a result" where
  "answered r = (case r of Inl e \<Rightarrow> Inl (Upstream ''moysklad'') | Inr a \<Rightarrow> Inr a)"

definition GetProductsForSync ::
  "(int \<Rightarrow> ms_product page_body http_env) \<Rightarrow> (int \<Rightarrow> int \<Rightarrow> ms_product page_body http_env)
    \<Rightarrow> bool \<Rightarrow> time option \<Rightarrow> call \<Rightarrow> ms_product list result \<times> call" where
  "GetProductsForSync pages delta_pages delta since s =
     (let (r, s') = (case (delta, since) of
            (True, Some t) \<Rightarrow> GetProductsDelta delta_pages t s
          | _ \<Rightarrow> GetProducts pages s)
      in (answered r, s'))"

definition GetStockMapForSync ::
  "bool \<Rightarrow> (int \<Rightarrow> (string \<times> money) page_body http_env) \<Rightarrow> call \<Rightarrow> (string \<rightharpoonup> money) result \<times> call" where
  "GetStockMapForSync has_client pages s =
     (if \<not> has_client then (Inl (Rejected ''moysklad client not initialized''), s)
      else let (r, s') = GetStockReport pages s in (answered r, s'))"

text \<open>
  The order of the requests of \<open>FullSync\<close>: folders, stocks, products. The products are asked for
  only after the stocks are there.
\<close>

definition full_sync_run ::
  "(int \<Rightarrow> ms_folder page_body http_env) \<Rightarrow> (int \<Rightarrow> (string \<times> money) page_body http_env)
    \<Rightarrow> (int \<Rightarrow> ms_product page_body http_env) \<Rightarrow> bool \<Rightarrow> sync_env \<Rightarrow> call \<Rightarrow> sync_state
    \<Rightarrow> (sync_task list result \<times> sync_state) \<times> call" where
  "full_sync_run folders stocks pages flag_free env s st =
     (if \<not> flag_free then (FullSync True False env (Inr Map.empty) st, s)
      else
        let (fs, s1) = GetProductFolders folders s;
            env1 = env\<lparr>sy_folders := answered fs\<rparr>;
            (report, s2) = GetStockMapForSync True stocks s1
        in case report of
             Inl e \<Rightarrow> (FullSync True True env1 (Inl e) st, s2)
           | Inr m \<Rightarrow>
               let (ps, s3) = GetProductsForSync pages (\<lambda>_. pages) False None s2
               in (FullSync True True (env1\<lparr>sy_products := ps\<rparr>) (Inr m) st, s3))"

section \<open>The counters of the categories\<close>

record link_counters =
  linkCatSet :: "32 word"
  linkCatMissing :: "32 word"
  linkCatNoFolder :: "32 word"
  linkCatPreserved :: "32 word"

definition no_links :: link_counters where
  "no_links = \<lparr>linkCatSet = 0, linkCatMissing = 0, linkCatNoFolder = 0, linkCatPreserved = 0\<rparr>"

text \<open>What \<open>SyncSingleProduct\<close> adds, before it writes the product.\<close>

definition count_folder :: "ms_product \<Rightarrow> sync_state \<Rightarrow> link_counters \<Rightarrow> link_counters" where
  "count_folder mp st lc =
     (case mp_folder mp of
        None \<Rightarrow> lc\<lparr>linkCatNoFolder := linkCatNoFolder lc + 1\<rparr>
      | Some href \<Rightarrow>
          if lookupCategoryIDByFolderHref st href \<noteq> None then lc\<lparr>linkCatSet := linkCatSet lc + 1\<rparr>
          else lc\<lparr>linkCatMissing := linkCatMissing lc + 1\<rparr>)"

definition count_links :: "sync_env \<Rightarrow> ms_product \<Rightarrow> sync_state \<Rightarrow> link_counters \<Rightarrow> link_counters" where
  "count_links env mp st lc =
     (case product_GetByMoyskladID (sy_conn env 0) 0 (mp_id mp) (ss_db st) of
        Inl e \<Rightarrow> lc
      | Inr None \<Rightarrow> count_folder mp st lc
      | Inr (Some e) \<Rightarrow>
          let lc' = count_folder mp st lc
          in if Option.bind (mp_folder mp) (lookupCategoryIDByFolderHref st) = None \<and> p_category_id e \<noteq> None
             then lc'\<lparr>linkCatPreserved := linkCatPreserved lc' + 1\<rparr> else lc')"

text \<open>A task counts its products one after the other; \<open>LogCategoryLinkStats\<close> reads the totals.\<close>

fun count_products ::
  "(nat \<Rightarrow> sync_env) \<Rightarrow> nat \<Rightarrow> (string \<rightharpoonup> money) option \<Rightarrow> ms_product list \<Rightarrow> sync_state \<Rightarrow> link_counters
    \<Rightarrow> link_counters" where
  "count_products env i report [] st lc = lc"
| "count_products env i report (mp # mps) st lc =
     count_products env (Suc i) report mps (snd (SyncSingleProduct (env i) (with_stock report mp) st))
       (count_links (env i) (with_stock report mp) st lc)"

definition RefreshCategories_counters :: "link_counters \<Rightarrow> link_counters" where
  "RefreshCategories_counters lc =
     lc\<lparr>linkCatSet := 0, linkCatMissing := 0, linkCatNoFolder := 0, linkCatPreserved := 0\<rparr>"

definition LogCategoryLinkStats :: "sync_state \<Rightarrow> link_counters \<Rightarrow> nat \<times> int \<times> int \<times> int \<times> int" where
  "LogCategoryLinkStats st lc =
     (card (dom (ss_folders st)), sint (linkCatSet lc), sint (linkCatMissing lc), sint (linkCatNoFolder lc),
      sint (linkCatPreserved lc))"

section \<open>A full synchronisation gets what Moysklad serves\<close>

lemma refresh_folders:
  "sy_folders env = Inr fs \<Longrightarrow> RefreshCategories (env\<lparr>sy_products := ps\<rparr>) st = RefreshCategories env st"
  by (simp add: RefreshCategories_def syncCategoriesFromMoysklad_def)

lemma batch_tasks_stock: "t \<in> set (batch_tasks ps m) \<Longrightarrow> tk_stock t = Some m"
  by (auto simp: batch_tasks_def batch_task_def)

text \<open>
  While the breaker is closed and Moysklad serves folders, stocks and products, if only after
  temporary failures that the retries cover, a full synchronisation queues every product once and in
  order, each with the whole stock report, and refreshes the categories from the whole tree: up to
  the caps of the three lists, which no error reports.
\<close>

theorem full_sync_reads_moysklad:
  assumes "lets_through (ca_client s)" "nat (max 0 (mc_max_retries (ca_client s))) = n"
    and "serves_list n 100 folders fs" "serves_list n 1000 stocks rows" "serves_list n 100 pages xs"
  shows "\<exists>tasks s'. full_sync_run folders stocks pages True env s st =
      ((Inr tasks, RefreshCategories (env\<lparr>sy_folders := Inr (take 10100 fs)\<rparr>) st), s') \<and>
    concat (map tk_products tasks) = take 100100 xs \<and>
    (\<forall>t \<in> set tasks. tk_stock t = Some (foldl add_stock_row Map.empty (take 501000 rows)))"
proof -
  note get = get_json_def [abs_def]
  have r: "ready n s" using assms(1,2) by (simp add: ready_def)
  obtain s1 where fs: "GetProductFolders folders s = (Inr (take 10100 fs), s1)" and r1: "ready n s1"
    using fetched_list_ready [OF assms(3) r, of "\<lambda>p. length (pb_rows p) < 100" "(@)" ApiStatus 10000 "[]"]
    by (auto simp: GetProductFolders_def get)
  obtain s2 where rows: "GetStockReport stocks s1 = (Inr (foldl add_stock_row Map.empty (take 501000 rows)), s2)"
    and r2: "ready n s2"
    using fetched_list_ready [OF assms(4) r1, of "last_or_unlinked 1000" "foldl add_stock_row" ApiStatus 500000 Map.empty]
    by (auto simp: GetStockReport_def get)
  obtain s3 where xs: "GetProducts pages s2 = (Inr (take 100100 xs), s3)"
    using fetched_list_ready [OF assms(5) r2, of "last_or_unlinked 100" "(@)" ApiStatus 100000 "[]"]
    by (auto simp: GetProducts_def get)
  let ?m = "foldl add_stock_row Map.empty (take 501000 rows)"
  have "full_sync_run folders stocks pages True env s st =
      ((Inr (batch_tasks (take 100100 xs) ?m), RefreshCategories (env\<lparr>sy_folders := Inr (take 10100 fs)\<rparr>) st), s3)"
    using fs rows xs
    by (simp add: full_sync_run_def GetStockMapForSync_def GetProductsForSync_def answered_def FullSync_def
        products_for_sync_def refresh_folders Let_def)
  then show ?thesis using batch_tasks_stock concat_batches by blast
qed

theorem full_sync_reads_moysklad_witness:
  "\<exists>tasks s' st'. full_sync_run (one_page 100 []) (one_page 1000 [(''x/a'', 7 / 2)]) (one_page 100 [ms_example])
      True sync_example idle_call sync_start = ((Inr tasks, st'), s') \<and> concat (map tk_products tasks) = [ms_example]"
proof -
  have "\<exists>tasks s'. full_sync_run (one_page 100 []) (one_page 1000 [(''x/a'', 7 / 2)]) (one_page 100 [ms_example])
      True sync_example idle_call sync_start =
      ((Inr tasks, RefreshCategories (sync_example\<lparr>sy_folders := Inr (take 10100 [])\<rparr>) sync_start), s') \<and>
    concat (map tk_products tasks) = take 100100 [ms_example] \<and>
    (\<forall>t \<in> set tasks. tk_stock t = Some (foldl add_stock_row Map.empty (take 501000 [(''x/a'', 7 / 2)])))"
    by (rule full_sync_reads_moysklad [where n = 2])
      (simp_all add: serves_one_page lets_through_def)
  then show ?thesis by fastforce
qed

section \<open>What the counters add up to\<close>

definition linked_total :: "link_counters \<Rightarrow> 32 word" where
  "linked_total lc = linkCatSet lc + linkCatMissing lc + linkCatNoFolder lc"

fun looked_up :: "(nat \<Rightarrow> sync_env) \<Rightarrow> nat \<Rightarrow> (string \<rightharpoonup> money) option \<Rightarrow> ms_product list \<Rightarrow> sync_state \<Rightarrow> nat" where
  "looked_up env i report [] st = 0"
| "looked_up env i report (mp # mps) st =
     of_bool (is_ok (product_GetByMoyskladID (sy_conn (env i) 0) 0 (mp_id mp) (ss_db st))) +
       looked_up env (Suc i) report mps (snd (SyncSingleProduct (env i) (with_stock report mp) st))"

lemma linked_count_folder: "linked_total (count_folder mp st lc) = linked_total lc + 1"
  by (simp add: linked_total_def count_folder_def split: option.split)

lemma linked_count_links:
  "linked_total (count_links env mp st lc) = linked_total lc +
     of_bool (is_ok (product_GetByMoyskladID (sy_conn env 0) 0 (mp_id mp) (ss_db st)))"
  using linked_count_folder [of mp st lc]
  by (simp add: count_links_def linked_total_def Let_def split: sum.split option.split)

lemma mp_id_with_stock [simp]: "mp_id (with_stock report mp) = mp_id mp"
  by (simp add: with_stock_def split: option.split)

text \<open>
  After a full synchronisation the counters of set, missing and absent folders add up, modulo
  2^32, to the products whose row could be looked up: every such product is counted once.
\<close>

theorem links_counted:
  "linked_total (count_products env i report mps st (RefreshCategories_counters lc)) =
    word_of_nat (looked_up env i report mps st)"
proof -
  have "linked_total (count_products env i report mps st lc) =
      linked_total lc + word_of_nat (looked_up env i report mps st)" for lc
    by (induction mps arbitrary: i st lc) (simp_all add: linked_count_links add.assoc)
  then show ?thesis by (simp add: RefreshCategories_counters_def linked_total_def)
qed

end
