(* ===== verification/AppRun.thy ===== *)
theory AppRun
  imports Startup
begin

text \<open>
  \<open>Run\<close> of internal/app/app.go: the server, the scheduler and the first full synchronisation are
  started side by side, then the program waits for a signal and shuts down; and the clean-up job of
  services/cleanup.go, which nothing starts. A run is the list of what it starts and then of what it closes,
  with times and limits; what the parts do meanwhile is in their theories.
\<close>

section \<open>A run of the program\<close>

datatype run_event =
    Listening string
  | SchedulerStarted time "loop list" bool
  | FirstFullSync time time
  | ShuttingDown time
  | CacheClosed
  | PoolClosed
  | ServerExited
  | KilledBy string

text \<open>
  What makes the program stop: listening fails, or a signal comes; the open requests need some time
  after it to end.
\<close>

datatype ending = ListenFailed time | Signalled time duration

definition in_background :: "time \<Rightarrow> app \<Rightarrow> run_event list" where
  "in_background start a =
     (case ap_scheduler a of
        None \<Rightarrow> []
      | Some sd \<Rightarrow>
          [SchedulerStarted start (fst (Start True sd)) (snd (Start True sd)),
           FirstFullSync (start + 5 * second) (start + 5 * second + 30 * minute)])"

text \<open>The open requests have 15 seconds.\<close>

definition shut_down :: "bool \<Rightarrow> ending \<Rightarrow> run_event list" where
  "shut_down cached e =
     (case e of
        ListenFailed t \<Rightarrow> [KilledBy ''Failed to start server'']
      | Signalled t rest \<Rightarrow>
          ShuttingDown (t + 15 * second) #
          (if 15 * second \<le> rest then [KilledBy ''Server forced to shutdown'']
           else (if cached then [CacheClosed] else []) @ [PoolClosed, ServerExited]))"

text \<open>A part that would start after the end of the program is not started.\<close>

definition end_time :: "ending \<Rightarrow> time" where
  "end_time e = (case e of ListenFailed t \<Rightarrow> t | Signalled t rest \<Rightarrow> t + min rest (15 * second))"

definition starts_before :: "time \<Rightarrow> run_event \<Rightarrow> bool" where
  "starts_before t ev = (case ev of FirstFullSync s _ \<Rightarrow> s < t | _ \<Rightarrow> True)"

definition Run :: "time \<Rightarrow> app \<Rightarrow> ending \<Rightarrow> run_event list" where
  "Run start a e =
     Listening (ap_addr a) # filter (starts_before (end_time e)) (in_background start a) @
     shut_down (ap_blacklist a) e"

section \<open>The clean-up job\<close>

definition CleanPendingUsers :: "'users \<Rightarrow> unit result \<times> 'users" where
  "CleanPendingUsers us = (Inr (), us)"

definition cleanup_due :: "time \<Rightarrow> nat \<Rightarrow> time" where
  "cleanup_due start k = start + int (k + 1) * (6 * hour)"

section \<open>What a run starts and closes\<close>

lemma app_scheduler_iff: "app_scheduler mk \<noteq> None \<longleftrightarrow> mk_auto_sync mk \<and> mk_token mk \<noteq> []"
  by (simp add: app_scheduler_def app_client_def Let_def)

lemma NewApp_parts:
  assumes "NewApp float env su = Built a"
  obtains cfg where "Load float env = Inr cfg" "ap_scheduler a = app_scheduler (load_moysklad float env)"
    "ap_blacklist a"
proof -
  obtain cfg where cfg: "Load float env = Inr cfg" "ap_scheduler a = app_scheduler (cf_moysklad cfg)"
    "ap_blacklist a = (cf_redis_host cfg \<noteq> [])"
    using assms by (auto simp: NewApp_def Let_def split: if_splits sum.splits)
  show thesis
    by (rule that [OF cfg(1)]) (use cfg Load_hosts [OF cfg(1)] Load_parts(3) [OF cfg(1)] in auto)
qed

text \<open>
  A built application that runs until a signal synchronises everything once at the start exactly when
  the environment has a token and leaves the automatic synchronisation on, unless the program ends
  within five seconds; the connections to Redis and to the database are closed exactly when the open
  requests end within their 15 seconds, in this order and after them.
\<close>

theorem run_of_built_app:
  assumes "NewApp float env su = Built a"
  defines "synced \<equiv> mk_auto_sync (load_moysklad float env) \<and> env ''MOYSKLAD_TOKEN'' \<noteq> []"
  shows "(FirstFullSync (start + 5 * second) (start + 1805 * second) \<in> set (Run start a (Signalled t rest))
       \<longleftrightarrow> synced \<and> start + 5 * second < t + min rest (15 * second)) \<and>
    (PoolClosed \<in> set (Run start a (Signalled t rest)) \<longleftrightarrow> rest < 15 * second) \<and>
    (rest < 15 * second \<longrightarrow> (\<exists>begun. Run start a (Signalled t rest) =
       begun @ [ShuttingDown (t + 15 * second), CacheClosed, PoolClosed, ServerExited]))"
proof -
  obtain cfg where cfg: "Load float env = Inr cfg" "ap_scheduler a = app_scheduler (load_moysklad float env)"
    "ap_blacklist a"
    using NewApp_parts [OF assms(1)] .
  have token: "mk_token (load_moysklad float env) = env ''MOYSKLAD_TOKEN''"
    by (simp add: load_moysklad_def getEnv_def)
  have "ap_scheduler a \<noteq> None \<longleftrightarrow> synced"
    unfolding cfg(2) app_scheduler_iff token synced_def by simp
  then show ?thesis
    using cfg(3) by (auto simp: Run_def in_background_def shut_down_def starts_before_def end_time_def
      split: option.splits)
qed

end
