(* ===== verification/Commands.thy ===== *)
theory Commands
  imports AccountGuarantees AppRun Migrations
begin

text \<open>
  The two commands of cmd/: main.go runs the application or the migrations, and
  create_admin/main.go writes a member of the staff straight into the table of users. The hash of a
  password is an argument, as is the directory of the migrations.
\<close>

section \<open>The main program\<close>

datatype main_result =
    Migrated "unit result"
  | NotStarted error
  | Ran "run_event list"

text \<open>
  \<open>su_logger\<close> and \<open>su_db\<close> say whether the logger and the database answer; the directory is the local
  one when it is there, else the one of the container.
\<close>

definition runMigrations ::
  "(string \<Rightarrow> rat option) \<Rightarrow> environment \<Rightarrow> surroundings \<Rightarrow> migrate_conn \<Rightarrow> (string \<Rightarrow> 'd \<Rightarrow> 'd option)
    \<Rightarrow> (string \<Rightarrow> migration_file list option) \<Rightarrow> 'd migrated \<Rightarrow> unit result \<times> 'd migrated" where
  "runMigrations float env su c exec dir s =
     (if \<not> su_logger su then (Inl (Rejected ''failed to init logger''), s)
      else case Load float env of
        Inl e \<Rightarrow> (Inl e, s)
      | Inr cfg \<Rightarrow>
          if \<not> su_db su then (Inl DbError, s)
          else case (case dir ''./migrations'' of None \<Rightarrow> dir ''/root/migrations'' | Some fs \<Rightarrow> Some fs) of
            None \<Rightarrow> RunMigrations (c\<lparr>mc_dir := False\<rparr>) exec [] s
          | Some files \<Rightarrow> RunMigrations c exec files s)"

definition main_program ::
  "(string \<Rightarrow> rat option) \<Rightarrow> environment \<Rightarrow> surroundings \<Rightarrow> migrate_conn \<Rightarrow> (string \<Rightarrow> 'd \<Rightarrow> 'd option)
    \<Rightarrow> (string \<Rightarrow> migration_file list option) \<Rightarrow> time \<Rightarrow> ending \<Rightarrow> string list \<Rightarrow> 'd migrated
    \<Rightarrow> main_result \<times> 'd migrated" where
  "main_program float env su c exec dir start e args s =
     (if take 1 args = [''migrate-up''] then
        let (r, s') = runMigrations float env su c exec dir s in (Migrated r, s')
      else case NewApp float env su of
        StartFailed err \<Rightarrow> (NotStarted err, s)
      | Exited \<Rightarrow> (NotStarted (Rejected ''redis''), s)
      | Built a \<Rightarrow> (Ran (Run start a e), s))"

section \<open>Creating a member of the staff\<close>

definition admin_dsn :: "environment \<Rightarrow> string" where
  "admin_dsn env =
     ''host='' @ getEnv env ''DB_HOST'' ''db'' @ '' port='' @ getEnv env ''DB_PORT'' ''5432'' @
     '' user='' @ getEnv env ''DB_USER'' ''postgres'' @ '' password='' @ getEnv env ''DB_PASSWORD'' ''postgres'' @
     '' dbname='' @ getEnv env ''DB_NAME'' ''hozdacha'' @ '' sslmode=disable''"

definition admin_row :: "time \<Rightarrow> string \<Rightarrow> string \<Rightarrow> string \<Rightarrow> users_db \<Rightarrow> user" where
  "admin_row now username email hashed ub =
     blank_user\<lparr>us_id := next_user ub, us_username := username, us_email := email, us_password := hashed,
       us_role_id := 1, us_full_name := Some username, us_phone := Some [], us_email_verified := True,
       us_created_at := Some now, us_updated_at := Some now\<rparr>"

text \<open>What DO UPDATE SET takes over from the row that was to be inserted.\<close>

definition admin_columns :: "user \<Rightarrow> user \<Rightarrow> user" where
  "admin_columns row u =
     u\<lparr>us_email := us_email row, us_password := us_password row, us_role_id := us_role_id row,
       us_full_name := us_full_name row, us_email_verified := us_email_verified row,
       us_updated_at := us_updated_at row\<rparr>"

text \<open>
  INSERT ... ON CONFLICT (users_username) DO UPDATE ... RETURNING: another row with the e-mail
  is an error in both branches, and the number of the key is used up in both.
\<close>

definition upsert_admin :: "bool \<Rightarrow> user \<Rightarrow> users_db \<Rightarrow> user result \<times> users_db" where
  "upsert_admin ok row ub =
     (let same = (\<lambda>u. us_username u = us_username row); others = sql_delete same (users ub)
      in if \<not> ok \<or> \<not> row_admitted others row then (Inl DbError, ub)
         else case sql_returning same (admin_columns row) (users ub) of
           [] \<Rightarrow> (Inr row, ub\<lparr>users := users ub @ [row], next_user := next_user ub + 1\<rparr>)
         | u # _ \<Rightarrow> (Inr u, ub\<lparr>users := sql_update same (admin_columns row) (users ub),
                            next_user := next_user ub + 1\<rparr>))"

definition create_admin ::
  "(string \<Rightarrow> string result) \<Rightarrow> bool \<Rightarrow> bool \<Rightarrow> time \<Rightarrow> string list \<Rightarrow> users_db \<Rightarrow> user result \<times> users_db" where
  "create_admin hash ping ok now args ub =
     (case args of
        [username, email, password] \<Rightarrow>
          if \<not> ping then (Inl DbError, ub)
          else (case hash password of
                  Inl e \<Rightarrow> (Inl e, ub)
                | Inr hashed \<Rightarrow> upsert_admin ok (admin_row now username email hashed ub) ub)
      | _ \<Rightarrow> (Inl (Rejected ''usage''), ub))"

section \<open>What the command makes of the table\<close>

lemma admin_columns_simps [simp]:
  "us_id (admin_columns row u) = us_id u" "us_username (admin_columns row u) = us_username u"
  "us_email (admin_columns row u) = us_email row" "us_password (admin_columns row u) = us_password row"
  "us_role_id (admin_columns row u) = us_role_id row"
  by (simp_all add: admin_columns_def)

lemma admin_row_simps [simp]:
  "us_id (admin_row now n e h ub) = next_user ub" "us_username (admin_row now n e h ub) = n"
  "us_email (admin_row now n e h ub) = e" "us_password (admin_row now n e h ub) = h"
  "us_role_id (admin_row now n e h ub) = 1"
  by (simp_all add: admin_row_def)

interpretation admin: row_update us_id "admin_columns row" for row
  by unfold_locales simp

text \<open>The row with a name, of which there is one at most.\<close>

lemma named_rows:
  assumes "distinct (map us_username us)"
  shows "filter (\<lambda>u. us_username u = n) us =
    (case find (\<lambda>u. us_username u = n) us of None \<Rightarrow> [] | Some u \<Rightarrow> [u])"
  using assms
proof (induction us)
  case (Cons v us)
  have "us_username v = n \<Longrightarrow> filter (\<lambda>u. us_username u = n) us = []"
    using Cons.prems by (auto simp: filter_empty_conv image_iff)
  with Cons show ?case by auto
qed simp

lemma create_admin_ok:
  assumes "create_admin hash ping ok now [n, e, pw] ub = (Inr u, ub')" "distinct (map us_username (users ub))"
  obtains h where "hash pw = Inr h" "ok" "row_admitted (sql_delete (\<lambda>u. us_username u = n) (users ub)) (admin_row now n e h ub)"
    "case find (\<lambda>u. us_username u = n) (users ub) of
       None \<Rightarrow> u = admin_row now n e h ub \<and> users ub' = users ub @ [u]
     | Some v \<Rightarrow> u = admin_columns (admin_row now n e h ub) v \<and>
         users ub' = sql_update (\<lambda>u. us_username u = n) (admin_columns (admin_row now n e h ub)) (users ub)"
    "next_user ub' = next_user ub + 1"
proof -
  obtain h where h: "hash pw = Inr h" "upsert_admin ok (admin_row now n e h ub) ub = (Inr u, ub')"
    using assms(1) by (auto simp: create_admin_def split: if_splits sum.splits)
  show thesis
    by (rule that [OF h(1)])
      (use h(2) named_rows [OF assms(2), of n] in
        \<open>auto simp: upsert_admin_def sql_returning_def Let_def split: if_splits list.splits option.splits\<close>)
qed

lemma create_admin_table:
  assumes "distinct (map us_id (users ub))" "distinct (map us_username (users ub))" "distinct (map us_email (users ub))"
    and "\<forall>u \<in> set (users ub). us_id u < next_user ub"
    and "create_admin hash ping ok now [n, e, pw] ub = (Inr u, ub')"
  obtains h where "hash pw = Inr h" "us_password u = h" "us_username u = n" "us_email u = e" "us_role_id u = 1"
    "u \<in> set (users ub')" "\<forall>v \<in> set (users ub). us_username v = n \<longrightarrow> us_id u = us_id v"
    "\<forall>v \<in> set (users ub). us_username v \<noteq> n \<longrightarrow> v \<in> set (users ub')"
    "distinct (map us_id (users ub'))" "distinct (map us_username (users ub'))" "distinct (map us_email (users ub'))"
proof -
  let ?same = "\<lambda>u. us_username u = n"
  obtain h where h: "hash pw = Inr h" and "ok" and adm: "row_admitted (sql_delete ?same (users ub)) (admin_row now n e h ub)"
    and made: "case find ?same (users ub) of
       None \<Rightarrow> u = admin_row now n e h ub \<and> users ub' = users ub @ [u]
     | Some v \<Rightarrow> u = admin_columns (admin_row now n e h ub) v \<and>
         users ub' = sql_update ?same (admin_columns (admin_row now n e h ub)) (users ub)"
      and "next_user ub' = next_user ub + 1"
    by (rule create_admin_ok [OF assms(5,2)])
  have free: "e \<notin> us_email ` {v \<in> set (users ub). us_username v \<noteq> n}"
    using adm by (simp add: row_admitted_def)
  show thesis
  proof (cases "find ?same (users ub)")
    case None
    then have new: "u = admin_row now n e h ub" "users ub' = users ub @ [u]" using made by simp_all
    have names: "n \<notin> us_username ` set (users ub)" using None by (auto simp: find_None_iff)
    then have "{v \<in> set (users ub). us_username v \<noteq> n} = set (users ub)" by auto
    then show thesis
      using assms(1-4) free names h by (intro that [of h]) (auto simp: new)
  next
    case (Some v)
    then have upd: "u = admin_columns (admin_row now n e h ub) v"
      "users ub' = sql_update ?same (admin_columns (admin_row now n e h ub)) (users ub)" using made by simp_all
    have v: "v \<in> set (users ub)" "us_username v = n" using Some by (auto simp: find_Some_iff)
    have one: "x = y" if "x \<in> set (users ub)" "y \<in> set (users ub)" "?same x" "?same y" for x y
      using assms(2) that by (metis distinct_map inj_onD)
    have names: "map us_username (users ub') = map us_username (users ub)"
      by (simp add: upd(2) sql_update_def)
    have emails: "distinct (map us_email (users ub'))"
      unfolding upd(2) by (rule distinct_map_update [OF assms(2,3)]) (use free in simp)
    show thesis
      using v one assms(1,2) h names emails admin.update_keys
      by (intro that [of h]) (auto simp: upd set_sql_update)
  qed
qed

text \<open>
  When the command succeeds, the account with the name is one of the staff with the e-mail and the
  password that were given, and the login of the staff lets it in with them if name and password pass
  the checks of that login. An account of the name is taken over, with its key; no other account
  changes, and keys, names and e-mails (as they are written) stay unique.
\<close>

theorem create_admin_makes_staff:
  assumes "distinct (map us_id (users ub))" "distinct (map us_username (users ub))" "distinct (map us_email (users ub))"
    and "\<forall>u \<in> set (users ub). us_id u < next_user ub"
    and "create_admin hash ping ok now [n, e, pw] ub = (Inr u, ub')"
    and "\<And>h. hash pw = Inr h \<Longrightarrow> compare h pw" "ValidateLoginRequest n pw = Inr ()"
  shows "us_username u = n \<and> us_email u = e \<and> us_role_id u = 1 \<and> u \<in> set (users ub') \<and>
    (\<forall>v \<in> set (users ub). us_username v = n \<longrightarrow> us_id u = us_id v) \<and>
    (\<forall>v \<in> set (users ub). us_username v \<noteq> n \<longrightarrow> v \<in> set (users ub')) \<and>
    distinct (map us_id (users ub')) \<and> distinct (map us_username (users ub')) \<and> distinct (map us_email (users ub')) \<and>
    (\<exists>resp. fst (handle_AdminLogin sign compare healthy t n pw ub') = (200, Some resp) \<and>
       lr_user_id resp = us_id u \<and> lr_role_id resp = 1)"
proof -
  obtain h where h: "hash pw = Inr h" "us_password u = h" "us_username u = n" "us_role_id u = 1" "us_email u = e"
    "u \<in> set (users ub')" "\<forall>v \<in> set (users ub). us_username v = n \<longrightarrow> us_id u = us_id v"
    "\<forall>v \<in> set (users ub). us_username v \<noteq> n \<longrightarrow> v \<in> set (users ub')"
    and tables: "distinct (map us_id (users ub'))" "distinct (map us_username (users ub'))" "distinct (map us_email (users ub'))"
    using create_admin_table [OF assms(1-5)] .
  have "filter (\<lambda>u. us_username u = n) (users ub') = [u]"
    using named_rows [OF tables(2), of n] h(3,6) set_filter [of "\<lambda>u. us_username u = n" "users ub'"]
    by (force split: option.splits)
  then have "GetByUsername healthy 0 n ub' = Inr (Some u)"
    by (simp add: GetByUsername_def scan_user_def healthy_def)
  moreover have "TrimSpace [] = []" by code_simp
  ultimately have "fst (handle_AdminLogin sign compare healthy t n pw ub') =
      (200, Some \<lparr>lr_token = generateToken sign t (us_id u) (us_role_id u), lr_user_id = us_id u,
         lr_role_id = us_role_id u, lr_username = us_username u\<rparr>)"
    using assms(6) [OF h(1)] assms(7) h(2)
    by (auto simp: handle_AdminLogin_def auth_Login_def ValidateLoginRequest_def Let_def split: if_splits)
  then show ?thesis using h tables by auto
qed


text \<open>Anna's account becomes one of the staff, under its old key.\<close>

theorem create_admin_makes_staff_witness:
  "\<exists>u ub' resp. create_admin Inr True True 5 [''anna'', ''b@c'', ''secret''] (ac_users accounts_example) = (Inr u, ub') \<and>
     us_id u = 1 \<and>
     fst (handle_AdminLogin sign_one (\<lambda>h p. h = p) healthy 9 ''anna'' ''secret'' ub') = (200, Some resp) \<and> lr_role_id resp = 1"
proof -
  let ?run = "create_admin Inr True True 5 [''anna'', ''b@c'', ''secret''] (ac_users accounts_example)"
  have ok: "is_ok (fst ?run)" by code_simp
  then obtain u ub' where run: "?run = (Inr u, ub')" by (auto simp: is_ok_iff prod_eq_iff)
  have valid: "ValidateLoginRequest ''anna'' ''secret'' = Inr ()" by code_simp
  have user: "users (ac_users accounts_example) = [shop_user]" "next_user (ac_users accounts_example) = 2"
    by (simp_all add: accounts_example_def)
  have anna: "us_id shop_user = 1" "us_username shop_user = ''anna''" by (simp_all add: shop_user_def)
  show ?thesis
    using create_admin_makes_staff [OF _ _ _ _ run _ valid, of "\<lambda>h p. h = p" sign_one 9] run
    by (auto simp: user anna)
qed

text \<open>
  The command writes the e-mail as it is typed. In another case it passes the UNIQUE constraint beside
  the account of a customer, and from then on neither is found by e-mail: two rows match. A name with
  a space makes a member of the staff that the login of the staff never lets in.
\<close>

definition admin_twin :: "users_db" where
  "admin_twin = snd (create_admin Inr True True 5 [''root'', ''A@B.ru'', ''secret''] (ac_users accounts_example))"

definition spaced_admin :: "users_db" where
  "spaced_admin = snd (create_admin Inr True True 5 [''the root'', ''r@r'', ''secret''] (ac_users accounts_example))"

theorem create_admin_locks_out:
  "is_ok (uc_Login healthy 0 ''a@b.ru'' (ac_users accounts_example)) \<and>
    uc_Login healthy 0 ''a@b.ru'' admin_twin = Inl DbError \<and>
    uc_Login healthy 0 ''A@B.ru'' admin_twin = Inl DbError \<and>
    map us_username (users spaced_admin) = [''anna'', ''the root''] \<and>
    fst (handle_AdminLogin sign_one (\<lambda>h p. h = p) healthy 9 ''the root'' ''secret'' spaced_admin) = (400, None)"
  by code_simp

end
