(* ===== verification/Requests.thy ===== *)
theory Requests
  imports OrderFlow WebhookInbox AccountGuarantees
begin

text \<open>
  Handlers that read or answer without changing a table: a customer's orders (handlers/orders.go), the
  dead letters of the inbox (handlers/webhook.go), the second factor (handlers/user.go), and the
  tokens of middleware/auth.go, which no handler gives out. A handler gives its status and answer.
\<close>

section \<open>The handlers\<close>

definition actorUserID :: "jwt_claims option \<Rightarrow> id64 option" where
  "actorUserID who = Option.bind who cl_user_id"

definition handle_GetUserOrders ::
  "conn \<Rightarrow> (id64 \<Rightarrow> conn) \<Rightarrow> (id64 \<Rightarrow> conn) \<Rightarrow> jwt_claims option \<Rightarrow> shop_db \<Rightarrow> int \<times> order list option" where
  "handle_GetUserOrders c ic pc who db =
     (case actorUserID who of
        None \<Rightarrow> (401, None)
      | Some uid \<Rightarrow>
          (case GetUserOrders c ic pc uid db of
             Inl e \<Rightarrow> (500, None)
           | Inr os \<Rightarrow> (200, Some os)))"

text \<open>The second factor: the code of the request is not looked at.\<close>

definition GenerateTOTP :: "jwt_claims option \<Rightarrow> int" where
  "GenerateTOTP who = (if actorUserID who = None then 401 else 200)"

definition VerifyTOTP :: "(string \<times> string) option \<Rightarrow> jwt_claims option \<Rightarrow> int" where
  "VerifyTOTP body who =
     (case body of
        None \<Rightarrow> 400
      | Some (token, code) \<Rightarrow> if actorUserID who = None then 401 else 200)"

definition ellipsis :: string where
  "ellipsis = [CHR 0xE2, CHR 0x80, CHR 0xA6]"

definition previewPayload :: "string \<Rightarrow> nat \<Rightarrow> string" where
  "previewPayload b n = (if length b \<le> n then b else take n b @ ellipsis)"

record dead_letter =
  dl_id :: id64
  dl_key :: string
  dl_kind :: string
  dl_attempts :: int
  dl_last_error :: "error option"
  dl_created_at :: time
  dl_updated_at :: time
  dl_preview :: string

definition show_dead_letter :: "inbox_job \<Rightarrow> dead_letter" where
  "show_dead_letter r =
     \<lparr>dl_id = ib_id r, dl_key = ib_key r, dl_kind = ib_kind r, dl_attempts = ib_attempts r,
      dl_last_error = ib_last_error r, dl_created_at = ib_created_at r, dl_updated_at = ib_updated_at r,
      dl_preview = previewPayload (ib_payload r) 400\<rparr>"

definition dead_letter_limit :: "string \<Rightarrow> int" where
  "dead_letter_limit v =
     (case Atoi v of Some n \<Rightarrow> if 0 < n \<and> n \<le> 500 then n else 50 | None \<Rightarrow> 50)"

definition handle_ListDeadLetter ::
  "bool \<Rightarrow> conn \<Rightarrow> string \<Rightarrow> inbox \<Rightarrow> int \<times> dead_letter list option" where
  "handle_ListDeadLetter has_inbox c v ib =
     (if \<not> has_inbox then (503, None)
      else case ListDeadLetter c (if v = [] then 50 else dead_letter_limit v) ib of
        Inl e \<Rightarrow> (500, None)
      | Inr rows \<Rightarrow> (200, Some (map show_dead_letter rows)))"

section \<open>The tokens of the middleware\<close>

text \<open>The id of a token is 16 random bytes in hexadecimal digits.\<close>

definition generateJTI :: "string \<Rightarrow> string" where
  "generateJTI bytes = hex_encode bytes"

definition middleware_claims :: "string \<Rightarrow> time \<Rightarrow> id64 \<Rightarrow> string \<Rightarrow> string \<Rightarrow> string option \<Rightarrow> jwt_claims" where
  "middleware_claims bytes now userID username email role =
     \<lparr>cl_user_id = Some userID, cl_role_id = None, cl_username = Some username, cl_email = Some email,
      cl_role = role, cl_jti = Some (generateJTI bytes), cl_exp = Some (unix (now + 24 * hour)),
      cl_iat = Some (unix now)\<rparr>"

definition GenerateToken ::
  "(jwt_claims \<Rightarrow> string) \<Rightarrow> string \<Rightarrow> time \<Rightarrow> id64 \<Rightarrow> string \<Rightarrow> string \<Rightarrow> string" where
  "GenerateToken sign bytes now userID username email =
     sign (middleware_claims bytes now userID username email None)"

definition GenerateTokenWithRole ::
  "(jwt_claims \<Rightarrow> string) \<Rightarrow> string \<Rightarrow> time \<Rightarrow> id64 \<Rightarrow> string \<Rightarrow> string \<Rightarrow> string \<Rightarrow> string" where
  "GenerateTokenWithRole sign bytes now userID username email role =
     sign (middleware_claims bytes now userID username email (Some role))"

section \<open>What the answers hold\<close>

definition with_lines :: "(id64 \<Rightarrow> conn) \<Rightarrow> shop_db \<Rightarrow> order \<Rightarrow> order" where
  "with_lines pc db ord = ord\<lparr>o_items := o_items ord @ map (named_item pc db)
     (filter (\<lambda>it. oi_order_id it = o_id ord) (order_items db))\<rparr>"

lemma with_lines_simps [simp]:
  "o_id (with_lines pc db ord) = o_id ord" "o_user_id (with_lines pc db ord) = o_user_id ord"
  "o_created_at (with_lines pc db ord) = o_created_at ord"
  by (simp_all add: with_lines_def)

lemma with_lines_items:
  "o_items ord = [] \<Longrightarrow> map oi_id (o_items (with_lines pc db ord)) =
     map oi_id (filter (\<lambda>it. oi_order_id it = o_id ord) (order_items db))"
  by (simp add: with_lines_def named_item_def comp_def split: sum.split option.split)

lemma GetUserOrders_healthy:
  "GetUserOrders healthy (\<lambda>_. healthy) pc uid db =
     Inr (map (with_lines pc db) (rev (sort_key o_created_at (filter (\<lambda>ord. o_user_id ord = Some uid) (orders db)))))"
  by (simp add: GetUserOrders_def GetByUserID_def getOrderItems_def healthy_def with_lines_def)

text \<open>
  A customer sees exactly the own orders, once each and the newest first, with exactly the lines of
  each; a request without a user sees none.
\<close>

theorem user_orders_own:
  assumes "\<forall>ord \<in> set (orders db). o_items ord = []"
  shows "handle_GetUserOrders c ic pc None db = (401, None) \<and>
    (actorUserID who = Some uid \<longrightarrow>
      (\<exists>os. handle_GetUserOrders healthy (\<lambda>_. healthy) pc who db = (200, Some os) \<and>
        mset (map o_id os) = mset (map o_id (filter (\<lambda>ord. o_user_id ord = Some uid) (orders db))) \<and>
        sorted (rev (map o_created_at os)) \<and>
        (\<forall>ord \<in> set os. o_user_id ord = Some uid \<and>
           map oi_id (o_items ord) = map oi_id (filter (\<lambda>it. oi_order_id it = o_id ord) (order_items db)))))"
proof -
  let ?own = "filter (\<lambda>ord. o_user_id ord = Some uid) (orders db)"
  let ?os = "map (with_lines pc db) (rev (sort_key o_created_at ?own))"
  have "mset (map o_id ?os) = mset (map o_id ?own)" by (simp add: comp_def)
  moreover have "sorted (rev (map o_created_at ?os))" by (simp add: comp_def rev_map)
  moreover have "o_user_id ord = Some uid \<and>
      map oi_id (o_items ord) = map oi_id (filter (\<lambda>it. oi_order_id it = o_id ord) (order_items db))"
    if "ord \<in> set ?os" for ord
    using that assms with_lines_items by fastforce
  moreover have "handle_GetUserOrders healthy (\<lambda>_. healthy) pc who db = (200, Some ?os)"
    if "actorUserID who = Some uid"
    using that by (simp add: handle_GetUserOrders_def GetUserOrders_healthy)
  moreover have "handle_GetUserOrders c ic pc None db = (401, None)"
    by (simp add: handle_GetUserOrders_def actorUserID_def)
  ultimately show ?thesis by blast
qed

theorem user_orders_own_witness:
  "\<exists>os. handle_GetUserOrders healthy (\<lambda>_. healthy) (\<lambda>_. healthy) (Some (staff_claims 0 7 2))
      (empty_shop\<lparr>orders := [(mk_order 7)\<lparr>o_id := 1\<rparr>, (mk_order 8)\<lparr>o_id := 2\<rparr>]\<rparr>) = (200, Some os) \<and> length os = 1"
proof -
  let ?db = "empty_shop\<lparr>orders := [(mk_order 7)\<lparr>o_id := 1\<rparr>, (mk_order 8)\<lparr>o_id := 2\<rparr>]\<rparr>"
  have plain: "\<forall>ord \<in> set (orders ?db). o_items ord = []" by (simp add: mk_order_def)
  have who: "actorUserID (Some (staff_claims 0 7 2)) = Some 7" by (simp add: actorUserID_def)
  obtain os where "handle_GetUserOrders healthy (\<lambda>_. healthy) (\<lambda>_. healthy) (Some (staff_claims 0 7 2)) ?db = (200, Some os)"
    "mset (map o_id os) = mset (map o_id (filter (\<lambda>ord. o_user_id ord = Some 7) (orders ?db)))"
    using user_orders_own [OF plain, of _ _ "\<lambda>_. healthy" "Some (staff_claims 0 7 2)" 7] who by blast
  moreover from this(2) have "length os = 1" using mset_eq_length by (fastforce simp: mk_order_def)
  ultimately show ?thesis by blast
qed

text \<open>
  The list of dead letters holds nothing but dead letters, at most 500 and the last updated first; of a
  payload it shows at most 400 bytes.
\<close>

theorem dead_letters_shown:
  "handle_ListDeadLetter True healthy v ib = (n, ans) \<Longrightarrow>
    (\<exists>ds. ans = Some ds \<and> n = 200 \<and> length ds \<le> 500 \<and> sorted (rev (map dl_updated_at ds)) \<and>
      (\<forall>d \<in> set ds. length (dl_preview d) \<le> 403 \<and>
         (\<exists>j \<in> set (in_jobs ib). ib_id j = dl_id d \<and> ib_status j = ''dead_letter'' \<and>
            take 400 (dl_preview d) = take 400 (ib_payload j))))"
proof -
  assume "handle_ListDeadLetter True healthy v ib = (n, ans)"
  moreover define k where "k = (if v = [] then 50 else dead_letter_limit v)"
  then have "0 < k" "k \<le> 500" by (simp_all add: dead_letter_limit_def split: option.split)
  ultimately have ans: "n = 200" "ans = Some (map show_dead_letter (take (nat k) (rev (sort_key ib_updated_at
      (filter (\<lambda>j. ib_status j = ''dead_letter'') (in_jobs ib))))))" "k \<le> 500"
    using k_def by (auto simp: handle_ListDeadLetter_def ListDeadLetter_def healthy_def Let_def)
  let ?js = "take (nat k) (rev (sort_key ib_updated_at (filter (\<lambda>j. ib_status j = ''dead_letter'') (in_jobs ib))))"
  have "sorted (rev (map ib_updated_at ?js))"
    by (simp add: rev_map [symmetric] take_rev drop_map [symmetric] sorted_wrt_drop)
  moreover have "dl_updated_at \<circ> show_dead_letter = ib_updated_at" by (auto simp: show_dead_letter_def)
  moreover have "length (previewPayload b 400) \<le> 403 \<and> take 400 (previewPayload b 400) = take 400 b" for b
    by (simp add: previewPayload_def ellipsis_def)
  moreover have "set ?js \<subseteq> {j \<in> set (in_jobs ib). ib_status j = ''dead_letter''}" by (auto dest: in_set_takeD)
  ultimately show ?thesis
    using ans by (intro exI [of _ "map show_dead_letter ?js"]) (auto simp: show_dead_letter_def)
qed

text \<open>
  A token without a role opens what needs a login and nothing of the staff; one with a role opens the
  staff's routes for the role "admin" only.
\<close>

theorem middleware_tokens:
  assumes "jwt_works parse sign (middleware_claims bytes t0 uid username email role)"
    "tok = (case role of None \<Rightarrow> GenerateToken sign bytes t0 uid username email
       | Some r \<Rightarrow> GenerateTokenWithRole sign bytes t0 uid username email r)"
    "rv_jti rv (generateJTI bytes) = None" "rv_user rv uid = None" "t < unix (t0 + day) * second"
  shows "RequireAuth (AuthMiddleware parse True (\<lambda>_. True) t (bearer tok) rv) = None \<and>
    (RequireAdmin (AuthMiddleware parse True (\<lambda>_. True) t (bearer tok) rv) = None \<longleftrightarrow> role = Some ''admin'')"
proof -
  let ?cl = "middleware_claims bytes t0 uid username email role"
  have cl: "cl_user_id ?cl = Some uid" "cl_exp ?cl = Some (unix (t0 + day))" "cl_iat ?cl = Some (unix t0)"
    "cl_jti ?cl = Some (generateJTI bytes)" "cl_role ?cl = role"
    by (simp_all add: middleware_claims_def)
  have tok: "tok = sign ?cl"
    by (simp add: assms(2) GenerateToken_def GenerateTokenWithRole_def split: option.split)
  have "AuthMiddleware parse True (\<lambda>_. True) t (bearer tok) rv = Some ?cl"
    using clean_revocations [of rv] assms(3-5)
    by (simp add: tok AuthMiddleware_bearer [OF assms(1) cl(1-3)] cl(4))
  then show ?thesis by (simp add: RequireAuth_def RequireAdmin_def cl(5))
qed

end
