(* ===== verification/Spec2Isabelle.thy ===== *)
theory Spec2Isabelle
  imports Resilience Reservation OrderGuarantees OrderFlow OrderExpiry RateLimit Cart
    PromotionCatalog WebhookInbox AccountGuarantees ClientGuarantees PromotionSync
    SyncRequests Migrations StaffQueries RouterLimits ImageSync Telemetry CartHandlers Storefront Email
    MoyskladOrders SyncSources AppRun Commands Requests
begin

text \<open>
  The backend of a shop (internal/ and cmd/ of the repository, Go): customers browse a catalogue, fill a
  cart and order for pickup; the products, their stock and the customer orders live in the ERP
  Moysklad and are mirrored in Postgres, with a cache of stock levels in Redis.

  \<^bold>\<open>The parts and their theories\<close>, in the order in which they build on each other. Names of
  definitions are those of the code; a prefix (\<open>cart_\<close>, \<open>product_\<close>, \<open>rs_\<close>, \<open>cb_\<close>, \<open>uc_\<close>, \<open>auth_\<close>,
  \<open>handle_\<close>) tells apart methods of one name.

  \<^item> Prelude: time and money, the errors, tables as lists of rows, transactions (\<open>run_tx\<close>).
    Text: trimming, lower case, LIKE and ILIKE, and the number of characters of a byte string.
    Schema: the rows of internal/db, the tables (\<open>shop_db\<close>) and the connection (\<open>conn\<close>).
  \<^item> Resilience (resilience/circuitbreaker.go, backoff.go): the breaker as a step per method call,
    and the two retry schedules.
  \<^item> Reservation (services/promotionwindow.go): opening hours, the deadline of a pickup, the
    window of a promotion of the day.
  \<^item> OrderStore (db/orders.go, order_events.go): the transactions that take and cancel an order,
    one function for each, with their loops over the lines (\<open>decrement_all\<close>, \<open>insert_items\<close>,
    \<open>clear_ordered\<close>). OrderFacts computes them in closed form. OrderLifecycle holds the invariant
    of the tables and the abstract inventory (free units, units of each order, its state).
    OrderGuarantees has the properties.
  \<^item> ProductStore, Categories, Promotions (db/products.go, categories.go, promotions.go,
    promotion_links.go): every statement on these tables. StaffQueries (db/orders_admin.go,
    users_admin.go, handlers/admin_orders.go): lists, searches and figures of the staff pages.
  \<^item> Migrations (db/migrate.go): splitting, running and recording the SQL files.
  \<^item> Pricing (usecase/promotion_pricing.go): the price a customer is shown.
  \<^item> StockCache (cache/redis.go): the entries of Redis with the time they expire at.
  \<^item> OrderUsecase (usecase/order.go, services/reservation_expiry.go, handlers/orders.go): an order
    over the database, the cache and Moysklad together (\<open>world\<close>). OrderFlow and OrderExpiry hold
    its properties. MoyskladOrders (usecase/moysklad_orders.go): the other way to order, from the
    cart straight at Moysklad.
  \<^item> RateLimit (cache/ratestore.go, middleware/ratelimit.go): the counters, in memory or in Redis,
    behind the locale \<open>counter_store\<close>, and the limiter that is proved over the locale once.
  \<^item> Cart (db/cart.go, usecase/cart.go), CartHandlers (handlers/cart.go), Catalog
    (usecase/product.go, handlers/products.go), PromotionCatalog (usecase/promotion_catalog.go,
    handlers/promotions.go), Storefront (the rest of these two files of handlers): the pages.
  \<^item> MoyskladClient (moysklad/client.go, order.go): requests with retries, rate limit, slots and
    breaker, the readers of paged lists, images, customer orders; ClientGuarantees has its properties.
  \<^item> MoyskladSync (services/moysklad_sync.go): full, delta and single synchronisation of products,
    stocks and categories. PromotionSync (moysklad_promotions_sync.go): discounts and their links.
    ImageSync (image_sync.go): the files of the images. SyncWorker (scheduler.go, sync_worker.go): the
    full synchronisation in batches, the pool of workers as a step relation, the times of the loops.
    SyncRequests (handlers/moysklad_sync.go): which synchronisations run side by side. SyncSources
    puts the client under the synchronisation.
  \<^item> WebhookInbox (handlers/webhook.go, db/webhook_inbox.go, services/webhook_inbox_worker.go,
    webhook_processor.go): admission, queue, worker, processing.
  \<^item> Users (db/users.go, usecase/user.go), Tokens (services/auth.go, blacklist.go,
    middleware/auth.go, handlers/auth.go), Accounts (handlers/user.go) and AccountGuarantees:
    registration, codes, logins and tokens over one state \<open>accounts\<close>.
  \<^item> Email (services/email.go, email_plain.go): the messages with their encodings and the commands
    to the mail server. Sanitizer, Router, RouterLimits (middleware, handlers/router.go): cleaning of
    input, CORS, headers, CSRF, the table of routes and what each request passes. Telemetry
    (metrics/, services/healthcheck.go): counters, histograms, the health of the parts.
  \<^item> Requests: handlers that only read (the orders of a customer, the dead letters), the second factor
    and the tokens of middleware/auth.go. Commands (cmd/): the main program and create_admin.
  \<^item> Startup, AppRun (config/config.go, app/app.go, scheduler.go, services/cleanup.go): what the
    environment makes of the program, and a run of it.

  \<^bold>\<open>How the code is rendered.\<close> A call is a function from the state it works on to its result and
  the state after it; a \<open>record\<close> of the environment says what the outside world answers during
  the call: which statements of the connection succeed (\<open>c_begin\<close>, \<open>c_stmt k\<close>, \<open>c_commit\<close>), which
  commands to Redis go through, what Moysklad answers, what the clock shows, which random number
  is drawn. So every error path of the code is a branch, and a theorem without a hypothesis on
  the environment holds whatever fails. \<open>Inl\<close> is an error, \<open>Inr\<close> a value. Concurrent requests
  interleave between calls; inside a call other sessions appear where the code has a gap that
  matters (\<open>locked\<close> for SKIP LOCKED, \<open>rival\<close> for a row written between a check and an INSERT).

  \<^bold>\<open>What is shown.\<close> For orders: taking one is all or nothing, cancelling one gives its units back,
  units are conserved over any history, an order leaves the state pending once; the expiry job
  expires what is due; the deadline of a pickup is bounded. For prices and pages: the price is one
  an active promotion earns, the best promotion is the best, pages are dense or tile, and where
  they overlap. For counters: a window lets at most the limit through, over both providers of the
  locale. For the inbox: its invariant over all runs, a failing job ends in the dead letter. For
  accounts: uniqueness and roles over all requests, a login needs a live code, tokens live until
  they expire or are revoked. For the client: its requests are the attempts of a reference, spaced
  and bounded in number, a POST that meets a temporary failure fails, lists are complete up to a cap. For the
  synchronisations: what the tables hold after one, the batches of a full one are its list, the
  pool counts its tasks and may starve, which runs exclude each other. For the rest: migrations run
  once and in order, routes are guarded, carts refine a map of quantities, mail is decoded to its
  text and its password goes over TLS or to the machine itself, figures of /metrics are those
  of the history, settings are within bounds. Where the code does what it likely does not mean, the
  theorem states what it does: two lines of one product restore too little, an update webhook drops
  the category, a job whose result was lost stays in processing, a staff token cannot be revoked, an
  order made straight at Moysklad never succeeds.

  \<^bold>\<open>Bounds and fuel.\<close> The loops over rows, lines, events and pages are folds or structural
  recursion. The listing of the catalogue asks for at most 20 batches (\<open>maxBatches\<close> of the code
  itself). The recursive category query takes the number of categories plus one as fuel: a level
  is empty by then or never, and the query then fails, as proved both ways. The walk of the ancestor
  map stops at a category it has seen. The retry delays saturate at the caps of the code. The requests of the
  client recurse over the attempts that are left, the readers over the offsets below their cap, the
  durations of the configuration over the length of the text.

  \<^bold>\<open>Arguments of the model\<close> (code outside the repository): bcrypt, the signing and parsing of JWT,
  SHA-256 and HMAC, the decoding of JSON, the random numbers, the parsing of an e-mail address, of a
  date and of a number with a fraction, and the answers of Moysklad, Redis, the mail server and Postgres
  as above. Postgres is modelled as far as the statements use it: constraints, ON CONFLICT, LIKE,
  ordering, SKIP LOCKED, WITH RECURSIVE.

  \<^bold>\<open>Not modelled\<close>: decoding JSON and rendering pages (gin, the HTML templates), log lines, timers and
  goroutines as such (a run of a job is a function, its times are computed; workers are steps),
  timeouts of statements other than as a failure, rounding of floating point and of DECIMAL
  columns (money is rational), the widths of most columns (those of users and the title of a
  promotion are), connection pools, and the tests and scripts of the repository.
\<close>

end
